(* ===== verification/Prelude.thy ===== *)
theory Prelude
  imports Main "HOL-Library.Char_ord" "HOL-Library.List_Lexorder" "HOL-Library.Product_Lexorder"
begin

text \<open>
  Shared vocabulary of the development: the types of identifiers and instants, the byte-level
  string functions the Go sources call from the package strings, the error/state composition used
  for transactions, and the list lemmas that carry the table proofs (an UPDATE is a map, a DELETE
  and a WHERE are filters, a count is a length).

  Go strings are byte sequences and are modelled as char lists. Case mapping and trimming are
  those of Go on ASCII text; bytes from 128 upwards are left alone by both.
\<close>

section \<open>Collections of facts\<close>

named_theorems go_strings \<open>definitions of the string functions\<close>
named_theorems tables \<open>facts about updates, filters and counts of table rows\<close>

section \<open>Identifiers and time\<close>

type_synonym uuid = nat
type_synonym time = int
type_synonym duration = int

definition uuid_nil :: uuid where
  "uuid_nil = 0"

definition second :: duration where
  "second = 1000000000"

definition minute :: duration where
  "minute = 60 * second"

definition hour :: duration where
  "hour = 60 * minute"

definition day :: duration where
  "day = 24 * hour"

lemmas durations = second_def minute_def hour_def day_def

lemma second_pos [simp]: "0 < second" and hour_pos [simp]: "0 < hour" and day_pos [simp]: "0 < day"
  by (simp_all add: durations)

section \<open>Strings\<close>

definition is_space_byte :: "char \<Rightarrow> bool" where
  "is_space_byte c \<longleftrightarrow> (let n = (of_char c :: nat) in n = 32 \<or> (9 \<le> n \<and> n \<le> 13))"

definition is_digit_byte :: "char \<Rightarrow> bool" where
  "is_digit_byte c \<longleftrightarrow> (let n = (of_char c :: nat) in 48 \<le> n \<and> n \<le> 57)"

definition is_upper_byte :: "char \<Rightarrow> bool" where
  "is_upper_byte c \<longleftrightarrow> (let n = (of_char c :: nat) in 65 \<le> n \<and> n \<le> 90)"

definition is_lower_byte :: "char \<Rightarrow> bool" where
  "is_lower_byte c \<longleftrightarrow> (let n = (of_char c :: nat) in 97 \<le> n \<and> n \<le> 122)"

definition trim_space :: "string \<Rightarrow> string" where
  "trim_space s = rev (dropWhile is_space_byte (rev (dropWhile is_space_byte s)))"

definition lower_byte :: "char \<Rightarrow> char" where
  "lower_byte c = (if is_upper_byte c then char_of ((of_char c :: nat) + 32) else c)"

definition upper_byte :: "char \<Rightarrow> char" where
  "upper_byte c = (if is_lower_byte c then char_of ((of_char c :: nat) - 32) else c)"

definition to_lower :: "string \<Rightarrow> string" where
  "to_lower s = map lower_byte s"

definition to_upper :: "string \<Rightarrow> string" where
  "to_upper s = map upper_byte s"

definition has_prefix :: "string \<Rightarrow> string \<Rightarrow> bool" where
  "has_prefix s p \<longleftrightarrow> take (length p) s = p"

definition has_suffix :: "string \<Rightarrow> string \<Rightarrow> bool" where
  "has_suffix s p \<longleftrightarrow> length p \<le> length s \<and> drop (length s - length p) s = p"

definition cut_prefix :: "string \<Rightarrow> string \<Rightarrow> string option" where
  "cut_prefix s p = (if has_prefix s p then Some (drop (length p) s) else None)"

fun contains :: "string \<Rightarrow> string \<Rightarrow> bool" where
  "contains [] p = (p = [])"
| "contains (c # s) p = (has_prefix (c # s) p \<or> contains s p)"

text \<open>The text after the last occurrence of a byte, with the length of the text before it.\<close>

fun last_index :: "string \<Rightarrow> char \<Rightarrow> nat option" where
  "last_index [] c = None"
| "last_index (x # s) c =
     (case last_index s c of Some i \<Rightarrow> Some (Suc i) | None \<Rightarrow> if x = c then Some 0 else None)"

fun split_on :: "char \<Rightarrow> string \<Rightarrow> string list" where
  "split_on c [] = [[]]"
| "split_on c (x # s) =
     (if x = c then [] # split_on c s
      else (case split_on c s of [] \<Rightarrow> [[x]] | y # ys \<Rightarrow> (x # y) # ys))"

definition trim_right :: "char \<Rightarrow> string \<Rightarrow> string" where
  "trim_right c s = rev (dropWhile (\<lambda>x. x = c) (rev s))"

text \<open>The replacer that strips hyphens and blanks from an ISBN.\<close>

definition strip_hyphens_blanks :: "string \<Rightarrow> string" where
  "strip_hyphens_blanks s = filter (\<lambda>c. c \<noteq> CHR ''-'' \<and> c \<noteq> CHR '' '') s"

declare is_space_byte_def [go_strings] is_digit_byte_def [go_strings] is_upper_byte_def [go_strings]
  is_lower_byte_def [go_strings] trim_space_def [go_strings] lower_byte_def [go_strings]
  upper_byte_def [go_strings] to_lower_def [go_strings] to_upper_def [go_strings]
  has_prefix_def [go_strings] has_suffix_def [go_strings] cut_prefix_def [go_strings]
  trim_right_def [go_strings] strip_hyphens_blanks_def [go_strings]

lemma trim_space_Nil [simp]: "trim_space [] = []"
  by (simp add: trim_space_def)

lemma dropWhile_idem': "dropWhile P (dropWhile P xs) = dropWhile P xs"
  by (induction xs) auto

lemma hd_trim: "trim_space s \<noteq> [] \<Longrightarrow> \<not> is_space_byte (hd (trim_space s))"
proof -
  assume ne: "trim_space s \<noteq> []"
  let ?d = "dropWhile is_space_byte s"
  obtain ys where ys: "rev ?d = ys @ dropWhile is_space_byte (rev ?d)"
    by (metis takeWhile_dropWhile_id)
  have split: "?d = trim_space s @ rev ys"
    using arg_cong [OF ys, of rev] by (simp add: trim_space_def)
  with ne have "hd ?d = hd (trim_space s)" and "?d \<noteq> []" by auto
  then show ?thesis by (metis hd_dropWhile)
qed

lemma last_trim: "trim_space s \<noteq> [] \<Longrightarrow> \<not> is_space_byte (last (trim_space s))"
  by (simp add: trim_space_def last_rev hd_dropWhile)

lemma dropWhile_hd: "(xs \<noteq> [] \<Longrightarrow> \<not> P (hd xs)) \<Longrightarrow> dropWhile P xs = xs"
  by (cases xs) auto

lemma trim_space_fixed:
  "(s \<noteq> [] \<Longrightarrow> \<not> is_space_byte (hd s)) \<Longrightarrow> (s \<noteq> [] \<Longrightarrow> \<not> is_space_byte (last s)) \<Longrightarrow> trim_space s = s"
  by (cases "s = []") (simp_all add: trim_space_def dropWhile_hd [of s] dropWhile_hd [of "rev s"] hd_rev)

lemma trim_space_idem [simp]: "trim_space (trim_space s) = trim_space s"
  by (rule trim_space_fixed) (simp_all add: hd_trim last_trim)

lemma lower_byte_idem [simp]: "lower_byte (lower_byte c) = lower_byte c"
  by (simp add: lower_byte_def is_upper_byte_def Let_def)

lemma upper_byte_idem [simp]: "upper_byte (upper_byte c) = upper_byte c"
proof (cases "is_lower_byte c")
  case True
  then have "(of_char c :: nat) - 32 < 97" by (auto simp: is_lower_byte_def Let_def)
  then have "\<not> is_lower_byte (upper_byte c)"
    using True by (simp add: upper_byte_def is_lower_byte_def Let_def)
  then show ?thesis by (simp add: upper_byte_def [of "upper_byte c"])
next
  case False
  then show ?thesis by (simp add: upper_byte_def)
qed

lemma upper_byte_unchanged: "\<not> is_lower_byte c \<Longrightarrow> upper_byte c = c"
  by (simp add: upper_byte_def)

lemma to_lower_idem [simp]: "to_lower (to_lower s) = to_lower s"
  by (simp add: to_lower_def)

lemma to_upper_idem [simp]: "to_upper (to_upper s) = to_upper s"
  by (simp add: to_upper_def)

lemma set_dropWhileD': "x \<in> set (dropWhile P xs) \<Longrightarrow> x \<in> set xs"
  by (auto dest: set_dropWhileD)

lemma set_trim_space: "set (trim_space s) \<subseteq> set s"
  by (auto simp: trim_space_def dest!: set_dropWhileD')

lemma length_trim_space: "length (trim_space s) \<le> length s"
  by (simp add: trim_space_def) (metis length_dropWhile_le length_rev order_trans)

text \<open>
  The collation of the database as the sort key it gives a text (the identity is the C locale), and
  the decimal digits of a number.
\<close>

type_synonym collation = "string \<Rightarrow> string"

definition digit_char :: "nat \<Rightarrow> char" where
  "digit_char n = char_of (48 + n)"

fun decimal :: "nat \<Rightarrow> string" where
  "decimal n = (if n < 10 then [digit_char n] else decimal (n div 10) @ [digit_char (n mod 10)])"

declare decimal.simps [simp del]

definition decimal_int :: "int \<Rightarrow> string" where
  "decimal_int i = (if i < 0 then CHR ''-'' # decimal (nat (- i)) else decimal (nat i))"

text \<open>
  LIKE patterns: percent stands for any text, underscore for one character, a backslash takes the
  next character literally. ILIKE compares without case.
\<close>

fun like :: "string \<Rightarrow> string \<Rightarrow> bool" where
  "like [] t = (t = [])"
| "like (c # p) [] = (c = CHR ''%'' \<and> like p [])"
| "like (c # p) (x # t) =
     (if c = CHR ''%'' then like p (x # t) \<or> like (c # p) t
      else if c = CHR ''_'' then like p t
      else if c = CHR 0x5C then (case p of [] \<Rightarrow> False | e # p' \<Rightarrow> e = x \<and> like p' t)
      else c = x \<and> like p t)"

definition ilike :: "string \<Rightarrow> string \<Rightarrow> bool" where
  "ilike t p = like (to_lower p) (to_lower t)"

text \<open>Runes: the code points of a Go string, with U+FFFD of width one for an invalid byte.\<close>

definition is_cont :: "nat \<Rightarrow> bool" where
  "is_cont b \<longleftrightarrow> 128 \<le> b \<and> b < 192"

fun decode_rune :: "nat list \<Rightarrow> (nat \<times> nat) option" where
  "decode_rune [] = None"
| "decode_rune (a # r) =
     (if a < 128 then Some (a, 1)
      else case r of
        [] \<Rightarrow> None
      | b # r2 \<Rightarrow>
          if 194 \<le> a \<and> a < 224 then
            (if is_cont b then Some ((a - 192) * 64 + (b - 128), 2) else None)
          else if 224 \<le> a \<and> a < 240 then
            (case r2 of [] \<Rightarrow> None | c # r3 \<Rightarrow>
               if is_cont b \<and> is_cont c \<and> (a = 224 \<longrightarrow> 160 \<le> b) \<and> (a = 237 \<longrightarrow> b < 160)
               then Some ((a - 224) * 4096 + (b - 128) * 64 + (c - 128), 3) else None)
          else if 240 \<le> a \<and> a < 245 then
            (case r2 of c # e # r4 \<Rightarrow>
               if is_cont b \<and> is_cont c \<and> is_cont e \<and> (a = 240 \<longrightarrow> 144 \<le> b) \<and> (a = 244 \<longrightarrow> b < 144)
               then Some ((a - 240) * 262144 + (b - 128) * 4096 + (c - 128) * 64 + (e - 128), 4)
               else None
             | _ \<Rightarrow> None)
          else None)"

definition rune_error :: nat where
  "rune_error = 65533"

function runes_of :: "nat list \<Rightarrow> nat list" where
  "runes_of [] = []"
| "runes_of (a # r) =
     (case decode_rune (a # r) of
        Some (c, w) \<Rightarrow> c # runes_of (drop (w - 1) r)
      | None \<Rightarrow> rune_error # runes_of r)"
  by pat_completeness auto
termination
  by (relation "measure length") auto

function utf8_ok :: "nat list \<Rightarrow> bool" where
  "utf8_ok [] = True"
| "utf8_ok (a # r) =
     (case decode_rune (a # r) of Some (c, w) \<Rightarrow> utf8_ok (drop (w - 1) r) | None \<Rightarrow> False)"
  by pat_completeness auto
termination
  by (relation "measure length") auto

definition bytes_of :: "string \<Rightarrow> nat list" where
  "bytes_of s = map of_char s"

definition runes :: "string \<Rightarrow> nat list" where
  "runes s = runes_of (bytes_of s)"

definition utf8_valid :: "string \<Rightarrow> bool" where
  "utf8_valid s \<longleftrightarrow> utf8_ok (bytes_of s)"

definition rune_count :: "string \<Rightarrow> nat" where
  "rune_count s = length (runes s)"

text \<open>unicode.IsControl.\<close>

definition is_control :: "nat \<Rightarrow> bool" where
  "is_control r \<longleftrightarrow> r < 32 \<or> (127 \<le> r \<and> r < 160)"

lemma rune_count_le_length: "rune_count s \<le> length s"
proof -
  have "length (runes_of bs) \<le> length bs" for bs
  proof (induction bs rule: runes_of.induct)
    case (2 a r)
    show ?case
    proof (cases "decode_rune (a # r)")
      case None
      then show ?thesis using 2 by simp
    next
      case (Some p)
      obtain c w where p: "p = (c, w)" by (cases p)
      have "length (runes_of (drop (w - 1) r)) \<le> length (drop (w - 1) r)"
        using 2(2) [OF Some p [symmetric]] .
      with Some p show ?thesis by simp
    qed
  qed simp
  from this [of "bytes_of s"] show ?thesis by (simp add: rune_count_def runes_def bytes_of_def)
qed

section \<open>Statements and transactions\<close>

text \<open>
  A statement of a transaction maps the state it sees to an error, or to a result and the state it
  leaves. The combinator is Go's \<open>if err != nil { return err }\<close>.
\<close>

definition andthen :: "'e + 'a \<times> 's \<Rightarrow> ('a \<Rightarrow> 's \<Rightarrow> 'e + 'b \<times> 's) \<Rightarrow> 'e + 'b \<times> 's" where
  "andthen m f = (case m of Inl e \<Rightarrow> Inl e | Inr (x, s) \<Rightarrow> f x s)"

lemma andthen_simps [simp]:
  "andthen (Inl e) f = Inl e"
  "andthen (Inr (x, s)) f = f x s"
  by (simp_all add: andthen_def)

lemma andthen_Inr: "andthen m f = Inr y \<longleftrightarrow> (\<exists>x s. m = Inr (x, s) \<and> f x s = Inr y)"
  by (auto simp: andthen_def split: sum.splits)

lemma andthen_InrE:
  assumes "andthen m f = Inr y"
  obtains x s where "m = Inr (x, s)" and "f x s = Inr y"
  using assms by (auto simp: andthen_Inr)

lemma andthen_Inl:
  "andthen m f = Inl e \<longleftrightarrow> m = Inl e \<or> (\<exists>x s. m = Inr (x, s) \<and> f x s = Inl e)"
  by (auto simp: andthen_def split: sum.splits)

text \<open>A guard: \<open>if cond { return err }\<close>.\<close>

definition fail_if :: "bool \<Rightarrow> 'e \<Rightarrow> 'e + 'b \<times> 's \<Rightarrow> 'e + 'b \<times> 's" where
  "fail_if b e k = (if b then Inl e else k)"

lemma fail_if_simps [simp]:
  "fail_if True e k = Inl e"
  "fail_if False e k = k"
  by (simp_all add: fail_if_def)

lemma fail_if_Inr [simp]: "fail_if b e k = Inr y \<longleftrightarrow> \<not> b \<and> k = Inr y"
  by (auto simp: fail_if_def)

text \<open>The result of a read, with the unchanged state dropped.\<close>

definition result_of :: "'e + 'a \<times> 's \<Rightarrow> 'e + 'a" where
  "result_of m = (case m of Inl e \<Rightarrow> Inl e | Inr (x, s) \<Rightarrow> Inr x)"

lemma result_of_simps [simp]:
  "result_of (Inl e) = Inl e"
  "result_of (Inr (x, s)) = Inr x"
  by (simp_all add: result_of_def)

lemma result_of_Inr: "result_of m = Inr x \<longleftrightarrow> (\<exists>s. m = Inr (x, s))"
  by (auto simp: result_of_def split: sum.splits)

text \<open>Begin, the deferred Rollback and Commit: the body's changes are kept only on success.\<close>

definition transact :: "('s \<Rightarrow> 'e + 'a \<times> 's) \<Rightarrow> 's \<Rightarrow> ('e + 'a) \<times> 's" where
  "transact body s = (case body s of Inl e \<Rightarrow> (Inl e, s) | Inr (x, s') \<Rightarrow> (Inr x, s'))"

lemma transact_cases:
  assumes "transact body s = (r, s')"
  obtains e where "r = Inl e" and "s' = s" and "body s = Inl e"
  | x where "r = Inr x" and "body s = Inr (x, s')"
  using assms by (auto simp: transact_def split: sum.splits)

lemma transact_InrD: "transact body s = (Inr x, s') \<Longrightarrow> body s = Inr (x, s')"
  by (auto simp: transact_def split: sum.splits)

lemma transact_InlD: "transact body s = (Inl e, s') \<Longrightarrow> body s = Inl e \<and> s' = s"
  by (auto simp: transact_def split: sum.splits)

lemma transact_rollback: "fst (transact body s) = Inl e \<Longrightarrow> snd (transact body s) = s"
  by (auto simp: transact_def split: sum.splits)

lemma transact_inv:
  assumes "\<And>x d'. body d = Inr (x, d') \<Longrightarrow> I d'" and "I d"
  shows "I (snd (transact body d))"
  using assms by (auto simp: transact_def split: sum.splits)

section \<open>Rows of a table\<close>

text \<open>UPDATE t SET upd WHERE cond.\<close>

definition update_where :: "('r \<Rightarrow> bool) \<Rightarrow> ('r \<Rightarrow> 'r) \<Rightarrow> 'r list \<Rightarrow> 'r list" where
  "update_where P f rs = map (\<lambda>r. if P r then f r else r) rs"

definition count_where :: "('r \<Rightarrow> bool) \<Rightarrow> 'r list \<Rightarrow> nat" where
  "count_where P rs = length (filter P rs)"

text \<open>LIMIT and OFFSET.\<close>

definition page_of :: "nat \<Rightarrow> nat \<Rightarrow> 'r list \<Rightarrow> 'r list" where
  "page_of limit offset rs = take limit (drop offset rs)"

lemma update_where_Nil [simp]: "update_where P f [] = []"
  by (simp add: update_where_def)

lemma update_where_Cons [simp]:
  "update_where P f (r # rs) = (if P r then f r else r) # update_where P f rs"
  by (simp add: update_where_def)

lemma update_where_append [simp]:
  "update_where P f (rs @ rs') = update_where P f rs @ update_where P f rs'"
  by (simp add: update_where_def)

lemma length_update_where [simp]: "length (update_where P f rs) = length rs"
  by (simp add: update_where_def)

lemma set_update_where: "set (update_where P f rs) = (\<lambda>r. if P r then f r else r) ` set rs"
  by (simp add: update_where_def)

lemma update_where_none: "(\<And>r. r \<in> set rs \<Longrightarrow> \<not> P r) \<Longrightarrow> update_where P f rs = rs"
  by (induction rs) auto

lemma map_update_where:
  "(\<And>r. P r \<Longrightarrow> g (f r) = g r) \<Longrightarrow> map g (update_where P f rs) = map g rs"
  by (induction rs) auto

lemma map_eq_set: "map f xs = map f ys \<Longrightarrow> f ` set xs = f ` set ys"
  by (metis list.set_map)

lemma find_update_where:
  "(\<And>r. P r \<Longrightarrow> Q (f r) = Q r) \<Longrightarrow>
   find Q (update_where P f rs) = map_option (\<lambda>r. if P r then f r else r) (find Q rs)"
  by (induction rs) auto

lemma count_where_Nil [simp]: "count_where P [] = 0"
  by (simp add: count_where_def)

lemma count_where_Cons [simp]:
  "count_where P (r # rs) = (if P r then Suc (count_where P rs) else count_where P rs)"
  by (simp add: count_where_def)

lemma count_where_append [simp]: "count_where P (rs @ rs') = count_where P rs + count_where P rs'"
  by (simp add: count_where_def)

lemma count_where_0: "count_where P rs = 0 \<longleftrightarrow> (\<forall>r \<in> set rs. \<not> P r)"
  by (induction rs) auto

lemma count_where_pos: "0 < count_where P rs \<longleftrightarrow> (\<exists>r \<in> set rs. P r)"
  using count_where_0 [of P rs] by auto

lemma count_where_le: "count_where P rs \<le> length rs"
  by (induction rs) auto

lemma count_where_mono:
  "(\<And>r. r \<in> set rs \<Longrightarrow> P r \<Longrightarrow> Q r) \<Longrightarrow> count_where P rs \<le> count_where Q rs"
  by (induction rs) auto

lemma count_where_cong:
  "(\<And>r. r \<in> set rs \<Longrightarrow> P r \<longleftrightarrow> Q r) \<Longrightarrow> count_where P rs = count_where Q rs"
  by (induction rs) auto

lemma count_where_disj:
  "(\<And>r. r \<in> set rs \<Longrightarrow> \<not> (P r \<and> Q r)) \<Longrightarrow>
   count_where (\<lambda>r. P r \<or> Q r) rs = count_where P rs + count_where Q rs"
  by (induction rs) auto

lemma count_where_update_where:
  "count_where Q (update_where P f rs) = count_where (\<lambda>r. if P r then Q (f r) else Q r) rs"
  by (induction rs) auto

lemma find_SomeD: "find P rs = Some r \<Longrightarrow> r \<in> set rs \<and> P r"
  by (induction rs) (auto split: if_splits)

lemma find_None: "find P rs = None \<longleftrightarrow> (\<forall>r \<in> set rs. \<not> P r)"
  by (induction rs) auto

text \<open>A key identifies at most one row.\<close>

lemma distinct_key:
  "distinct (map k rs) \<Longrightarrow> r \<in> set rs \<Longrightarrow> r' \<in> set rs \<Longrightarrow> k r = k r' \<Longrightarrow> r = r'"
  by (induction rs) (auto simp: image_iff)

lemma find_key:
  "distinct (map k rs) \<Longrightarrow> r \<in> set rs \<Longrightarrow> find (\<lambda>r'. k r' = k r) rs = Some r"
  by (induction rs) (auto simp: image_iff)

lemma count_key_le1: "distinct (map k rs) \<Longrightarrow> count_where (\<lambda>r. k r = x) rs \<le> 1"
  by (induction rs) (auto simp: count_where_0 image_iff)

lemma count_where_key_update:
  assumes "distinct (map k rs)" and "r \<in> set rs" and "P r" and "\<not> P (f r)"
  shows "Suc (count_where P (update_where (\<lambda>x. k x = k r) f rs)) = count_where P rs"
  using assms
proof (induction rs)
  case Nil
  then show ?case by simp
next
  case (Cons a rs)
  show ?case
  proof (cases "a = r")
    case True
    with Cons.prems have "update_where (\<lambda>x. k x = k r) f rs = rs"
      by (intro update_where_none) (auto simp: image_iff)
    with True Cons.prems show ?thesis by simp
  next
    case False
    with Cons.prems have "k a \<noteq> k r" "r \<in> set rs" by (auto simp: image_iff)
    with Cons show ?thesis by auto
  qed
qed

declare update_where_none [tables] map_update_where [tables] count_where_update_where [tables]

section \<open>Ordering and paging\<close>

text \<open>ORDER BY key LIMIT 1.\<close>

definition first_by :: "('r \<Rightarrow> 'k::linorder) \<Rightarrow> ('r \<Rightarrow> bool) \<Rightarrow> 'r list \<Rightarrow> 'r option" where
  "first_by k P rs = (case sort_key k (filter P rs) of [] \<Rightarrow> None | r # _ \<Rightarrow> Some r)"

lemma first_by_Some: "first_by k P rs = Some r \<Longrightarrow> r \<in> set rs \<and> P r"
proof -
  assume "first_by k P rs = Some r"
  then have "r \<in> set (sort_key k (filter P rs))"
    by (cases "sort_key k (filter P rs)") (simp_all add: first_by_def)
  then show ?thesis by simp
qed

lemma first_by_le:
  assumes "first_by k P rs = Some r" and "r' \<in> set rs" and "P r'"
  shows "k r \<le> k r'"
proof -
  obtain rest where q: "sort_key k (filter P rs) = r # rest"
    using assms(1) by (cases "sort_key k (filter P rs)") (simp_all add: first_by_def)
  have "sorted (map k (sort_key k (filter P rs)))" by simp
  moreover have "r' \<in> set (sort_key k (filter P rs))" using assms(2,3) by simp
  ultimately show ?thesis unfolding q by auto
qed

lemma first_by_None: "first_by k P rs = None \<longleftrightarrow> (\<forall>r \<in> set rs. \<not> P r)"
proof -
  have "first_by k P rs = None \<longleftrightarrow> sort_key k (filter P rs) = []"
    by (simp add: first_by_def split: list.split)
  also have "\<dots> \<longleftrightarrow> set (sort_key k (filter P rs)) = {}" by (simp only: set_empty)
  finally show ?thesis by (auto simp del: set_empty simp: filter_empty_conv)
qed

lemma set_page_of: "set (page_of l off rs) \<subseteq> set rs"
  by (auto simp: page_of_def dest: in_set_takeD in_set_dropD)

lemma map_page_of: "map f (page_of l off rs) = page_of l off (map f rs)"
  by (simp add: page_of_def take_map drop_map)

lemma distinct_page_of: "distinct xs \<Longrightarrow> distinct (page_of l off xs)"
  by (simp add: page_of_def)

lemma sorted_page_of: "sorted xs \<Longrightarrow> sorted (page_of l off xs)"
  by (simp add: page_of_def sorted_wrt_take sorted_wrt_drop)

lemma length_page_of: "length (page_of l off rs) \<le> l"
  by (simp add: page_of_def)

end
