(* ===== verification/Domain.thy ===== *)
theory Domain
  imports Prelude
begin

text \<open>
  The entities and rules of package domain (src/internal/domain): roles, member categories and
  their loan terms, loan policies, the state machine of a physical copy, shelf availability and
  last-copy retention, overdue computation, and the business errors the layers above return.

  An enumeration of the code (a string type with constants) is a datatype; the strings it is
  written with on the wire are given by the \<open>_string\<close> functions and read back by the \<open>parse_\<close>
  functions, so a value the code does not know is a parse that fails.
\<close>

section \<open>Errors\<close>

datatype pg_error =
    NoRows
  | UniqueViolation string
  | ForeignKeyViolation string
  | CheckViolation string
  | DriverFailure string

datatype error =
    ErrInvalidCredentials | ErrUnauthenticated | ErrForbidden | ErrPasswordTooWeak
  | ErrTokenInvalid | ErrMustChangePassword | ErrRateLimited | ErrMemberSuspended
  | ErrNotFound | ErrConflict
  | ErrInvalidBookMetadata | ErrInvalidSearch | ErrSavedSearchLimit
  | ErrDuplicateAccession | ErrDuplicateISBN | ErrInvalidCallNumber
  | ErrCopyNotFound | ErrCopyNotAvailable | ErrCopyNotBorrowable | ErrLoanLimitReached
  | ErrMemberNotActive | ErrLoanAlreadyClosed | ErrLastCopyRetained
  | ErrInvalidMemberCategory | ErrNoCategory | ErrReservedForOther
  | ErrAlreadyReserved | ErrNotReservable | ErrCopiesAvailable
  | ErrInvalidTransition | ErrCopyOnLoan
  | ErrDriver pg_error
  | ErrText string
  | ErrWrap string error

text \<open>errors.Is: the error itself or one it wraps.\<close>

fun errors_is :: "error \<Rightarrow> error \<Rightarrow> bool" where
  "errors_is (ErrWrap m e) target = (ErrWrap m e = target \<or> errors_is e target)"
| "errors_is e target = (e = target)"

section \<open>Roles, categories, policies and statuses\<close>

datatype role = RoleMember | RoleLibrarian | RoleAdmin

fun role_string :: "role \<Rightarrow> string" where
  "role_string RoleMember = ''member''"
| "role_string RoleLibrarian = ''librarian''"
| "role_string RoleAdmin = ''admin''"

definition parse_role :: "string \<Rightarrow> role option" where
  "parse_role s =
     (if s = ''member'' then Some RoleMember
      else if s = ''librarian'' then Some RoleLibrarian
      else if s = ''admin'' then Some RoleAdmin else None)"

definition CanManageLibrary :: "role \<Rightarrow> bool" where
  "CanManageLibrary r \<longleftrightarrow> r = RoleLibrarian \<or> r = RoleAdmin"

datatype member_category = CategoryUndergraduate | CategoryPostgraduate | CategoryStaff

fun category_string :: "member_category \<Rightarrow> string" where
  "category_string CategoryUndergraduate = ''undergraduate''"
| "category_string CategoryPostgraduate = ''postgraduate''"
| "category_string CategoryStaff = ''staff''"

definition parse_category :: "string \<Rightarrow> member_category option" where
  "parse_category s =
     (if s = ''undergraduate'' then Some CategoryUndergraduate
      else if s = ''postgraduate'' then Some CategoryPostgraduate
      else if s = ''staff'' then Some CategoryStaff else None)"

datatype loan_policy = PolicyCirculating | PolicyReferenceOnly | PolicyOnDisplay | PolicyRestricted

fun policy_string :: "loan_policy \<Rightarrow> string" where
  "policy_string PolicyCirculating = ''circulating''"
| "policy_string PolicyReferenceOnly = ''reference_only''"
| "policy_string PolicyOnDisplay = ''on_display''"
| "policy_string PolicyRestricted = ''restricted''"

definition parse_policy :: "string \<Rightarrow> loan_policy option" where
  "parse_policy s =
     (if s = ''circulating'' then Some PolicyCirculating
      else if s = ''reference_only'' then Some PolicyReferenceOnly
      else if s = ''on_display'' then Some PolicyOnDisplay
      else if s = ''restricted'' then Some PolicyRestricted else None)"

definition IsBorrowable :: "loan_policy \<Rightarrow> bool" where
  "IsBorrowable p \<longleftrightarrow> p = PolicyCirculating"

definition IsReservable :: "loan_policy \<Rightarrow> bool" where
  "IsReservable p \<longleftrightarrow> p = PolicyCirculating \<or> p = PolicyOnDisplay"

datatype copy_status = CopyAvailable | CopyOnLoan | CopyLost | CopyDamaged | CopyWithdrawn

fun copy_status_string :: "copy_status \<Rightarrow> string" where
  "copy_status_string CopyAvailable = ''available''"
| "copy_status_string CopyOnLoan = ''on_loan''"
| "copy_status_string CopyLost = ''lost''"
| "copy_status_string CopyDamaged = ''damaged''"
| "copy_status_string CopyWithdrawn = ''withdrawn''"

definition parse_copy_status :: "string \<Rightarrow> copy_status option" where
  "parse_copy_status s =
     (if s = ''available'' then Some CopyAvailable
      else if s = ''on_loan'' then Some CopyOnLoan
      else if s = ''lost'' then Some CopyLost
      else if s = ''damaged'' then Some CopyDamaged
      else if s = ''withdrawn'' then Some CopyWithdrawn else None)"

datatype user_status = UserActive | UserSuspended | UserInactive

fun user_status_string :: "user_status \<Rightarrow> string" where
  "user_status_string UserActive = ''active''"
| "user_status_string UserSuspended = ''suspended''"
| "user_status_string UserInactive = ''inactive''"

definition parse_user_status :: "string \<Rightarrow> user_status option" where
  "parse_user_status s =
     (if s = ''active'' then Some UserActive
      else if s = ''suspended'' then Some UserSuspended
      else if s = ''inactive'' then Some UserInactive else None)"

lemma parse_role_string [simp]: "parse_role (role_string r) = Some r"
  by (cases r) (simp_all add: parse_role_def)

lemma parse_category_string [simp]: "parse_category (category_string c) = Some c"
  by (cases c) (simp_all add: parse_category_def)

lemma parse_policy_string [simp]: "parse_policy (policy_string p) = Some p"
  by (cases p) (simp_all add: parse_policy_def)

lemma parse_copy_status_string [simp]: "parse_copy_status (copy_status_string s) = Some s"
  by (cases s) (simp_all add: parse_copy_status_def)

lemma parse_user_status_string [simp]: "parse_user_status (user_status_string s) = Some s"
  by (cases s) (simp_all add: parse_user_status_def)

section \<open>Loan terms\<close>

record loan_terms =
  MaxConcurrentLoans :: int
  LoanPeriod :: duration

definition loanTermsByCategory :: "member_category \<Rightarrow> loan_terms" where
  "loanTermsByCategory c =
     (case c of
        CategoryUndergraduate \<Rightarrow> \<lparr>MaxConcurrentLoans = 2, LoanPeriod = 14 * day\<rparr>
      | CategoryPostgraduate \<Rightarrow> \<lparr>MaxConcurrentLoans = 4, LoanPeriod = 21 * day\<rparr>
      | CategoryStaff \<Rightarrow> \<lparr>MaxConcurrentLoans = 6, LoanPeriod = 28 * day\<rparr>)"

definition TermsFor :: "string \<Rightarrow> loan_terms option" where
  "TermsFor c = map_option loanTermsByCategory (parse_category c)"

lemma TermsFor_category [simp]: "TermsFor (category_string c) = Some (loanTermsByCategory c)"
  by (simp add: TermsFor_def)

lemma LoanPeriod_pos: "0 < LoanPeriod (loanTermsByCategory c)"
  by (cases c) (simp_all add: loanTermsByCategory_def durations)

lemma MaxConcurrentLoans_bounds:
  "2 \<le> MaxConcurrentLoans (loanTermsByCategory c)" "MaxConcurrentLoans (loanTermsByCategory c) \<le> 6"
  by (cases c; simp add: loanTermsByCategory_def)+

section \<open>Wings\<close>

datatype wing = WingSouth | WingNorth | WingUnknown

definition WingFor :: "char \<Rightarrow> wing" where
  "WingFor c =
     (if CHR ''A'' \<le> c \<and> c \<le> CHR ''J'' then WingSouth
      else if CHR ''K'' \<le> c \<and> c \<le> CHR ''Z'' then WingNorth
      else WingUnknown)"

section \<open>Users\<close>

record user =
  user_id :: uuid
  user_identifier :: string
  user_email :: string
  user_full_name :: string
  user_first_name :: string
  user_last_name :: string
  user_faculty :: string
  user_department :: string
  user_level :: string
  user_role :: role
  user_category :: "member_category option"
  user_status :: user_status
  user_must_change_password :: bool
  user_is_synthetic :: bool
  user_created_at :: time
  user_updated_at :: time

record user_row = user +
  password_hash :: string
  tokens_invalid_before :: time
  password_changed_at :: "time option"

definition CanBorrow :: "'a user_scheme \<Rightarrow> bool" where
  "CanBorrow u \<longleftrightarrow> user_status u = UserActive"

section \<open>Availability and last-copy retention\<close>

definition BorrowableCount :: "int \<Rightarrow> int \<Rightarrow> int" where
  "BorrowableCount stock available =
     (if stock < 2 then available else if available \<le> 1 then 0 else available - 1)"

definition RetainsAShelfCopy :: "int \<Rightarrow> bool" where
  "RetainsAShelfCopy stock \<longleftrightarrow> 2 \<le> stock"

record availability =
  TotalCopies :: int
  Available :: int
  OnLoan :: int
  NotForLoan :: int
  Stock :: int

definition Borrowable :: "availability \<Rightarrow> int" where
  "Borrowable a = BorrowableCount (Stock a) (Available a)"

definition IsAvailable :: "availability \<Rightarrow> bool" where
  "IsAvailable a \<longleftrightarrow> 0 < Borrowable a"

definition OnShelf :: "availability \<Rightarrow> bool" where
  "OnShelf a \<longleftrightarrow> 0 < Available a"

lemma BorrowableCount_bounds:
  "0 \<le> available \<Longrightarrow> 0 \<le> BorrowableCount stock available"
  "0 \<le> available \<Longrightarrow> BorrowableCount stock available \<le> available"
  by (simp_all add: BorrowableCount_def)

text \<open>The retained copy: from a stock of two on, one copy is never lendable.\<close>

lemma BorrowableCount_retains:
  "2 \<le> stock \<Longrightarrow> 0 < available \<Longrightarrow> BorrowableCount stock available + 1 = available"
  by (auto simp: BorrowableCount_def)

section \<open>Books and copies\<close>

datatype book_status = BookActive | BookArchived

text \<open>
  A table row holds the stored columns; the struct the layers above read extends it with what a
  query computes. A nullable text column reads as the empty string, as every query coalesces it.
  The author names are in position order and the subject headings sorted, as the joins return them.
\<close>

record book_row =
  book_id :: uuid
  book_title :: string
  book_subtitle :: string
  book_isbn13 :: string
  book_isbn10 :: string
  book_publisher :: string
  book_place :: string
  book_published_year :: "int option"
  book_call_number :: string
  book_lcc_class :: string
  book_description :: string
  book_status :: book_status
  book_edition :: string
  book_language :: string
  book_faculty :: string
  book_department :: string
  book_created_at :: time
  book_updated_at :: time
  book_authors :: "string list"
  book_subjects :: "string list"

record book = book_row +
  book_availability :: availability

definition Wing :: "'a book_row_scheme \<Rightarrow> wing" where
  "Wing b = (case book_lcc_class b of [] \<Rightarrow> WingUnknown | c # _ \<Rightarrow> WingFor c)"

record copy =
  copy_id :: uuid
  copy_book :: uuid
  copy_accession :: string
  copy_policy :: loan_policy
  copy_status :: copy_status
  copy_acquired_at :: "time option"
  copy_notes :: string

definition copyTransitions :: "copy_status \<Rightarrow> copy_status list" where
  "copyTransitions s =
     (case s of
        CopyAvailable \<Rightarrow> [CopyDamaged, CopyLost, CopyWithdrawn]
      | CopyOnLoan \<Rightarrow> [CopyLost, CopyDamaged]
      | CopyLost \<Rightarrow> [CopyAvailable, CopyWithdrawn]
      | CopyDamaged \<Rightarrow> [CopyAvailable, CopyWithdrawn]
      | CopyWithdrawn \<Rightarrow> [])"

definition CanTransitionTo :: "copy_status \<Rightarrow> copy_status \<Rightarrow> bool" where
  "CanTransitionTo c next \<longleftrightarrow> c = next \<or> next \<in> set (copyTransitions c)"

definition ClosesAnOpenLoan :: "copy_status \<Rightarrow> bool" where
  "ClosesAnOpenLoan c \<longleftrightarrow> c = CopyLost \<or> c = CopyDamaged"

text \<open>Lending is no status edit: no transition enters the on-loan state.\<close>

lemma no_transition_to_on_loan: "CanTransitionTo c CopyOnLoan \<Longrightarrow> c = CopyOnLoan"
  by (cases c) (simp_all add: CanTransitionTo_def copyTransitions_def)

text \<open>Every edit of a borrowed copy is one that closes its loan.\<close>

lemma on_loan_transition_closes:
  "CanTransitionTo CopyOnLoan next \<Longrightarrow> next \<noteq> CopyOnLoan \<Longrightarrow> ClosesAnOpenLoan next"
  by (auto simp: CanTransitionTo_def copyTransitions_def ClosesAnOpenLoan_def)

section \<open>Loans\<close>

record loan_row =
  loan_id :: uuid
  loan_copy :: uuid
  loan_user :: uuid
  loan_borrowed_at :: time
  loan_due_at :: time
  loan_returned_at :: "time option"
  loan_issued_by :: uuid
  loan_returned_to :: "uuid option"

record loan = loan_row +
  loan_book_title :: string
  loan_accession :: string
  loan_member_name :: string

definition IsReturned :: "'a loan_row_scheme \<Rightarrow> bool" where
  "IsReturned l \<longleftrightarrow> loan_returned_at l \<noteq> None"

definition IsOverdueAt :: "'a loan_row_scheme \<Rightarrow> time \<Rightarrow> bool" where
  "IsOverdueAt l now \<longleftrightarrow> loan_returned_at l = None \<and> loan_due_at l < now"

text \<open>Hours over 24, truncated; a positive span, so flooring division is Go's conversion.\<close>

definition DaysOverdueAt :: "'a loan_row_scheme \<Rightarrow> time \<Rightarrow> int" where
  "DaysOverdueAt l now = (if \<not> IsOverdueAt l now then 0 else (now - loan_due_at l) div day)"

lemma DaysOverdueAt_nonneg: "0 \<le> DaysOverdueAt l now"
  by (auto simp: DaysOverdueAt_def IsOverdueAt_def pos_imp_zdiv_nonneg_iff)

lemma DaysOverdueAt_bounds:
  "IsOverdueAt l now \<Longrightarrow>
     loan_due_at l + DaysOverdueAt l now * day \<le> now \<and>
     now < loan_due_at l + (DaysOverdueAt l now + 1) * day"
proof -
  assume od: "IsOverdueAt l now"
  define q where "q = (now - loan_due_at l) div day"
  have "day * q + (now - loan_due_at l) mod day = now - loan_due_at l"
    and "0 \<le> (now - loan_due_at l) mod day" and "(now - loan_due_at l) mod day < day"
    by (simp_all add: q_def)
  then have "loan_due_at l + day * q \<le> now" and "now < loan_due_at l + day * q + day"
    by linarith+
  with od show ?thesis by (simp add: DaysOverdueAt_def q_def [symmetric] algebra_simps)
qed

section \<open>Reservations, bookmarks and saved searches\<close>

datatype reservation_status = ResPending | ResReady | ResFulfilled | ResCancelled | ResExpired

record reservation_core =
  res_id :: uuid
  res_book :: uuid
  res_user :: uuid
  res_status :: reservation_status
  res_created_at :: time
  res_expires_at :: "time option"

record reservation_row = reservation_core +
  res_notified_at :: "time option"

record reservation = reservation_core +
  res_queue_pos :: int
  res_book_title :: string

record bookmark =
  bm_id :: uuid
  bm_user :: uuid
  bm_book :: uuid
  bm_created_at :: time

text \<open>A JSON value as the notification payloads and audit metadata carry it.\<close>

datatype jval =
    JStr string
  | JUuid uuid
  | JTime time
  | JInt int
  | JBool bool
  | JStrs "string list"
  | JNull
  | JOther string

type_synonym payload = "(string \<times> jval) list"

text \<open>time.RFC3339 has no fraction of a second.\<close>

definition rfc3339 :: "time \<Rightarrow> jval" where
  "rfc3339 t = JTime (t div second * second)"

end
