(* ===== verification/Schema.thy ===== *)
theory Schema
  imports Domain
begin

text \<open>
  The database the repositories work on (src/internal/repository/postgres, schema in
  src/internal/migrate/sql): one list of rows per table, the constraints the statements of the
  code rely on, the translation of driver errors, and the audit line every change writes.

  A statement sees the rows and returns the driver's error or its result with the new rows.
  A fault plan says which statements of a transaction the driver fails, and with what error, so
  that every \<open>if err != nil\<close> of the repositories is a branch of the model.
\<close>

section \<open>Rows\<close>

record refresh_row =
  rt_user :: uuid
  rt_hash :: string
  rt_expires_at :: time
  rt_revoked_at :: "time option"
  rt_created_at :: time

record reset_row =
  pr_user :: uuid
  pr_hash :: string
  pr_expires_at :: time
  pr_used_at :: "time option"

record audit_row =
  au_actor :: "uuid option"
  au_action :: string
  au_entity_type :: string
  au_entity :: "uuid option"
  au_metadata :: payload
  au_created_at :: time

datatype outbox_status = ObPending | ObClaimed | ObSent | ObFailed | ObSuperseded

record outbox_row =
  ob_id :: uuid
  ob_user :: uuid
  ob_channel :: string
  ob_template :: string
  ob_payload :: payload
  ob_status :: outbox_status
  ob_attempts :: nat
  ob_last_error :: string
  ob_sent_at :: "time option"
  ob_scheduled_at :: time

datatype invitation_status =
    InvQueued | InvSent | InvDelivered | InvOpened | InvBounced | InvComplained | InvFailed
  | InvSuperseded

record invitation_row =
  inv_id :: uuid
  inv_member :: uuid
  inv_email :: string
  inv_outbox :: uuid
  inv_batch :: "uuid option"
  inv_message_id :: "string option"
  inv_queued_at :: time
  inv_sent_at :: "time option"
  inv_delivered_at :: "time option"
  inv_opened_at :: "time option"
  inv_bounced_at :: "time option"
  inv_failure_reason :: string
  inv_status :: invitation_status

record device_row =
  dev_user :: uuid
  dev_token :: string
  dev_platform :: string
  dev_last_seen_at :: time
  dev_revoked_at :: "time option"

record saved_search_row =
  ss_id :: uuid
  ss_user :: uuid
  ss_name :: string
  ss_query :: payload
  ss_created_at :: time

record db =
  users :: "user_row list"
  books :: "book_row list"
  copies :: "copy list"
  loans :: "loan_row list"
  reservations :: "reservation_row list"
  refresh_tokens :: "refresh_row list"
  password_resets :: "reset_row list"
  audit_log :: "audit_row list"
  outbox :: "outbox_row list"
  invitations :: "invitation_row list"
  devices :: "device_row list"
  bookmarks :: "bookmark list"
  saved_searches :: "saved_search_row list"

definition empty_db :: db where
  "empty_db = \<lparr>users = [], books = [], copies = [], loans = [], reservations = [],
     refresh_tokens = [], password_resets = [], audit_log = [], outbox = [], invitations = [],
     devices = [], bookmarks = [], saved_searches = []\<rparr>"

section \<open>Driver errors\<close>

definition isUniqueViolation :: "pg_error \<Rightarrow> string \<Rightarrow> bool" where
  "isUniqueViolation e c =
     (case e of UniqueViolation n \<Rightarrow> c = '''' \<or> n = c | _ \<Rightarrow> False)"

definition translate :: "pg_error \<Rightarrow> error" where
  "translate e =
     (if e = NoRows then ErrNotFound
      else if isUniqueViolation e '''' then ErrConflict
      else (case e of ForeignKeyViolation n \<Rightarrow> ErrConflict | _ \<Rightarrow> ErrDriver e))"

lemma translate_simps [simp]:
  "translate NoRows = ErrNotFound"
  "translate (UniqueViolation n) = ErrConflict"
  "translate (ForeignKeyViolation n) = ErrConflict"
  "translate (CheckViolation n) = ErrDriver (CheckViolation n)"
  "translate (DriverFailure m) = ErrDriver (DriverFailure m)"
  by (simp_all add: translate_def isUniqueViolation_def)

lemma isUniqueViolation_simps [simp]:
  "isUniqueViolation (UniqueViolation n) c \<longleftrightarrow> c = '''' \<or> n = c"
  "\<not> isUniqueViolation NoRows c"
  "\<not> isUniqueViolation (ForeignKeyViolation n) c"
  "\<not> isUniqueViolation (CheckViolation n) c"
  "\<not> isUniqueViolation (DriverFailure m) c"
  by (simp_all add: isUniqueViolation_def)

section \<open>Statements under a fault plan\<close>

type_synonym faults = "nat \<Rightarrow> pg_error option"

definition no_faults :: faults where
  "no_faults = (\<lambda>_. None)"

lemma no_faults_simp [simp]: "no_faults k = None"
  by (simp add: no_faults_def)

text \<open>No rows is an answer of a statement and not a failure: a plan cannot inject it.\<close>

definition fault :: "faults \<Rightarrow> nat \<Rightarrow> pg_error option" where
  "fault fl k = (if fl k = Some NoRows then None else fl k)"

definition exec :: "faults \<Rightarrow> nat \<Rightarrow> pg_error + 'a \<Rightarrow> pg_error + 'a" where
  "exec fl k m = (case fault fl k of Some e \<Rightarrow> Inl e | None \<Rightarrow> m)"

lemma fault_not_NoRows [simp]: "fault fl k \<noteq> Some NoRows"
  by (simp add: fault_def)

lemma fault_no_faults [simp]: "fault no_faults k = None"
  by (simp add: fault_def)

text \<open>A statement whose error is passed through \<open>translate\<close> and returned.\<close>

definition sql :: "faults \<Rightarrow> nat \<Rightarrow> pg_error + 'a \<Rightarrow> error + 'a" where
  "sql fl k m = (case exec fl k m of Inl e \<Rightarrow> Inl (translate e) | Inr x \<Rightarrow> Inr x)"

definition commit :: "faults \<Rightarrow> nat \<Rightarrow> 'a \<Rightarrow> db \<Rightarrow> error + 'a \<times> db" where
  "commit fl k x d = sql fl k (Inr (x, d))"

lemma exec_no_faults [simp]: "exec no_faults k m = m"
  by (simp add: exec_def)

lemma exec_Inr [simp]: "exec fl k m = Inr x \<longleftrightarrow> fault fl k = None \<and> m = Inr x"
  by (auto simp: exec_def split: option.splits)

lemma exec_Inl: "exec fl k m = Inl e \<longleftrightarrow> fault fl k = Some e \<or> (fault fl k = None \<and> m = Inl e)"
  by (auto simp: exec_def split: option.splits)

lemma exec_NoRows [simp]: "exec fl k m = Inl NoRows \<longleftrightarrow> fault fl k = None \<and> m = Inl NoRows"
  by (simp add: exec_Inl)

lemma sql_no_faults_Inr [simp]: "sql no_faults k (Inr x) = Inr x"
  by (simp add: sql_def)

lemma sql_no_faults_Inl [simp]: "sql no_faults k (Inl e) = Inl (translate e)"
  by (simp add: sql_def)

lemma sql_Inr [simp]: "sql fl k m = Inr x \<longleftrightarrow> fault fl k = None \<and> m = Inr x"
  by (cases "fault fl k"; cases m) (auto simp: sql_def exec_def)

lemma commit_no_faults [simp]: "commit no_faults k x d = Inr (x, d)"
  by (simp add: commit_def)

lemma commit_Inr [simp]: "commit fl k x d = Inr (y, d') \<longleftrightarrow> fault fl k = None \<and> y = x \<and> d' = d"
  by (auto simp: commit_def)

section \<open>Rows by key\<close>

definition find_user_row :: "uuid \<Rightarrow> db \<Rightarrow> user_row option" where
  "find_user_row i d = find (\<lambda>u. user_id u = i) (users d)"

definition find_copy_row :: "uuid \<Rightarrow> db \<Rightarrow> copy option" where
  "find_copy_row i d = find (\<lambda>c. copy_id c = i) (copies d)"

definition find_book_row :: "uuid \<Rightarrow> db \<Rightarrow> book_row option" where
  "find_book_row i d = find (\<lambda>b. book_id b = i) (books d)"

definition find_loan_row :: "uuid \<Rightarrow> db \<Rightarrow> loan_row option" where
  "find_loan_row i d = find (\<lambda>l. loan_id l = i) (loans d)"

definition find_reservation_row :: "uuid \<Rightarrow> db \<Rightarrow> reservation_row option" where
  "find_reservation_row i d = find (\<lambda>r. res_id r = i) (reservations d)"

lemmas find_rows = find_user_row_def find_copy_row_def find_book_row_def find_loan_row_def
  find_reservation_row_def

text \<open>The title of the book a copy belongs to, as the joins copies-books give it.\<close>

definition book_of_copy :: "uuid \<Rightarrow> db \<Rightarrow> uuid option" where
  "book_of_copy i d = map_option copy_book (find_copy_row i d)"

section \<open>The audit line\<close>

definition audit_line ::
  "uuid \<Rightarrow> string \<Rightarrow> string \<Rightarrow> uuid \<Rightarrow> payload \<Rightarrow> time \<Rightarrow> audit_row" where
  "audit_line actor action entity_type entity metadata now =
     \<lparr>au_actor = (if actor = uuid_nil then None else Some actor), au_action = action,
      au_entity_type = entity_type,
      au_entity = (if entity = uuid_nil then None else Some entity),
      au_metadata = metadata, au_created_at = now\<rparr>"

definition recordAudit ::
  "uuid \<Rightarrow> string \<Rightarrow> string \<Rightarrow> uuid \<Rightarrow> payload \<Rightarrow> time \<Rightarrow> db \<Rightarrow> pg_error + unit \<times> db" where
  "recordAudit actor action entity_type entity metadata now d =
     (if actor \<noteq> uuid_nil \<and> find_user_row actor d = None
      then Inl (ForeignKeyViolation ''audit_log_actor_id_fkey'')
      else Inr ((), d\<lparr>audit_log := audit_log d @
        [audit_line actor action entity_type entity metadata now]\<rparr>))"

lemma recordAudit_InrE:
  assumes "recordAudit actor act ty e md now d = Inr (x, d')"
  obtains "d' = d\<lparr>audit_log := audit_log d @ [audit_line actor act ty e md now]\<rparr>"
    and "actor = uuid_nil \<or> find_user_row actor d \<noteq> None"
  using assms by (auto simp: recordAudit_def split: if_splits)

section \<open>Well-formed databases\<close>

text \<open>The primary keys, the unique indexes and the foreign keys of the schema.\<close>

definition open_loan :: "'a loan_row_scheme \<Rightarrow> bool" where
  "open_loan l \<longleftrightarrow> loan_returned_at l = None"

definition open_reservation :: "'a reservation_core_scheme \<Rightarrow> bool" where
  "open_reservation r \<longleftrightarrow> res_status r = ResPending \<or> res_status r = ResReady"

definition open_loans_of_copy :: "uuid \<Rightarrow> db \<Rightarrow> nat" where
  "open_loans_of_copy c d = count_where (\<lambda>l. loan_copy l = c \<and> open_loan l) (loans d)"

definition open_loans_of_user :: "uuid \<Rightarrow> db \<Rightarrow> nat" where
  "open_loans_of_user u d = count_where (\<lambda>l. loan_user l = u \<and> open_loan l) (loans d)"

definition keys_ok :: "db \<Rightarrow> bool" where
  "keys_ok d \<longleftrightarrow>
     distinct (map book_id (books d)) \<and>
     distinct (filter (\<lambda>s. s \<noteq> []) (map book_isbn13 (books d))) \<and>
     distinct (map copy_id (copies d)) \<and> distinct (map copy_accession (copies d)) \<and>
     distinct (map loan_id (loans d)) \<and> distinct (map res_id (reservations d))"

text \<open>Accounts: the keys of the table, and the check that a member has a category.\<close>

definition users_ok :: "db \<Rightarrow> bool" where
  "users_ok d \<longleftrightarrow>
     distinct (map user_id (users d)) \<and> distinct (map user_identifier (users d)) \<and>
     distinct (map (\<lambda>u. to_lower (user_email u)) (users d)) \<and>
     (\<forall>u \<in> set (users d). user_role u = RoleMember \<longrightarrow> user_category u \<noteq> None)"

definition user_ids :: "db \<Rightarrow> uuid set" where
  "user_ids d = user_id ` set (users d)"

definition book_ids :: "db \<Rightarrow> uuid set" where
  "book_ids d = book_id ` set (books d)"

definition copy_ids :: "db \<Rightarrow> uuid set" where
  "copy_ids d = copy_id ` set (copies d)"

definition refs_ok :: "db \<Rightarrow> bool" where
  "refs_ok d \<longleftrightarrow>
     copy_book ` set (copies d) \<subseteq> book_ids d \<and>
     loan_copy ` set (loans d) \<subseteq> copy_ids d \<and> loan_user ` set (loans d) \<subseteq> user_ids d \<and>
     (\<forall>l \<in> set (loans d). loan_borrowed_at l < loan_due_at l) \<and>
     res_book ` set (reservations d) \<subseteq> book_ids d \<and> res_user ` set (reservations d) \<subseteq> user_ids d"

text \<open>
  The invariant of circulation: a copy has an open loan exactly when its status says it is out,
  and never more than one.
\<close>

definition custody_ok :: "db \<Rightarrow> bool" where
  "custody_ok d \<longleftrightarrow>
     (\<forall>c \<in> set (copies d). open_loans_of_copy (copy_id c) d =
        (if copy_status c = CopyOnLoan then 1 else 0))"

text \<open>At most one open reservation per member and title.\<close>

definition queue_ok :: "db \<Rightarrow> bool" where
  "queue_ok d \<longleftrightarrow>
     distinct (map (\<lambda>r. (res_book r, res_user r)) (filter open_reservation (reservations d)))"

definition lib_inv :: "db \<Rightarrow> bool" where
  "lib_inv d \<longleftrightarrow> keys_ok d \<and> users_ok d \<and> refs_ok d \<and> custody_ok d \<and> queue_ok d"

lemma lib_invI [intro?]:
  "keys_ok d \<Longrightarrow> users_ok d \<Longrightarrow> refs_ok d \<Longrightarrow> custody_ok d \<Longrightarrow> queue_ok d \<Longrightarrow> lib_inv d"
  by (simp add: lib_inv_def)

lemma lib_invD [dest]:
  "lib_inv d \<Longrightarrow> keys_ok d" "lib_inv d \<Longrightarrow> users_ok d" "lib_inv d \<Longrightarrow> refs_ok d"
  "lib_inv d \<Longrightarrow> custody_ok d" "lib_inv d \<Longrightarrow> queue_ok d"
  by (simp_all add: lib_inv_def)

lemmas id_sets = user_ids_def book_ids_def copy_ids_def

lemmas lib_inv_parts = keys_ok_def users_ok_def refs_ok_def custody_ok_def queue_ok_def
  open_loans_of_copy_def id_sets

lemma lib_inv_empty: "lib_inv empty_db"
  by (simp add: lib_inv_def lib_inv_parts empty_db_def)

text \<open>Each part reads only the tables it constrains.\<close>

lemma users_ok_cong: "users d' = users d \<Longrightarrow> users_ok d' = users_ok d"
  by (simp add: users_ok_def)

lemma queue_ok_cong: "reservations d' = reservations d \<Longrightarrow> queue_ok d' = queue_ok d"
  by (simp add: queue_ok_def)

lemma lib_inv_cong:
  "users d' = users d \<Longrightarrow> books d' = books d \<Longrightarrow> copies d' = copies d \<Longrightarrow> loans d' = loans d \<Longrightarrow>
   reservations d' = reservations d \<Longrightarrow> lib_inv d' = lib_inv d"
  by (simp add: lib_inv_def lib_inv_parts)

lemma lib_inv_frame [simp]:
  "lib_inv (d\<lparr>audit_log := a\<rparr>) = lib_inv d"
  "lib_inv (d\<lparr>outbox := ob\<rparr>) = lib_inv d"
  "lib_inv (d\<lparr>invitations := iv\<rparr>) = lib_inv d"
  "lib_inv (d\<lparr>refresh_tokens := rt\<rparr>) = lib_inv d"
  "lib_inv (d\<lparr>password_resets := pr\<rparr>) = lib_inv d"
  "lib_inv (d\<lparr>devices := dv\<rparr>) = lib_inv d"
  "lib_inv (d\<lparr>bookmarks := bk\<rparr>) = lib_inv d"
  "lib_inv (d\<lparr>saved_searches := ss\<rparr>) = lib_inv d"
  by (rule lib_inv_cong; simp)+

lemma lib_inv_copy_key:
  "lib_inv d \<Longrightarrow> c \<in> set (copies d) \<Longrightarrow> c' \<in> set (copies d) \<Longrightarrow> copy_id c = copy_id c' \<Longrightarrow> c = c'"
  by (auto simp: lib_inv_def keys_ok_def dest: distinct_key)

lemma open_loans_of_copy_0: "refs_ok d \<Longrightarrow> c \<notin> copy_ids d \<Longrightarrow> open_loans_of_copy c d = 0"
  by (auto simp: refs_ok_def open_loans_of_copy_def count_where_0)

text \<open>No physical copy is ever on two open loans.\<close>

lemma lib_inv_one_open_loan: "lib_inv d \<Longrightarrow> open_loans_of_copy c d \<le> 1"
proof -
  assume inv: "lib_inv d"
  show ?thesis
  proof (cases "c \<in> copy_ids d")
    case True
    with inv show ?thesis by (auto simp: lib_inv_def custody_ok_def copy_ids_def)
  next
    case False
    with inv have "open_loans_of_copy c d = 0" by (auto intro: open_loans_of_copy_0)
    then show ?thesis by simp
  qed
qed

text \<open>Rows found by key.\<close>

lemma find_user_row_None: "find_user_row i d = None \<longleftrightarrow> i \<notin> user_ids d"
  by (auto simp: find_user_row_def find_None user_ids_def)

lemma find_book_row_None: "find_book_row i d = None \<longleftrightarrow> i \<notin> book_ids d"
  by (auto simp: find_book_row_def find_None book_ids_def)

lemma find_copy_row_None: "find_copy_row i d = None \<longleftrightarrow> i \<notin> copy_ids d"
  by (auto simp: find_copy_row_def find_None copy_ids_def)

lemma find_loan_row_None: "find_loan_row i d = None \<longleftrightarrow> i \<notin> loan_id ` set (loans d)"
  by (auto simp: find_loan_row_def find_None)

lemma find_reservation_row_None: "find_reservation_row i d = None \<longleftrightarrow> i \<notin> res_id ` set (reservations d)"
  by (auto simp: find_reservation_row_def find_None)

lemma find_rowD:
  "find_user_row i d = Some u \<Longrightarrow> u \<in> set (users d) \<and> user_id u = i"
  "find_copy_row i d = Some c \<Longrightarrow> c \<in> set (copies d) \<and> copy_id c = i"
  "find_book_row i d = Some b \<Longrightarrow> b \<in> set (books d) \<and> book_id b = i"
  "find_loan_row i d = Some l \<Longrightarrow> l \<in> set (loans d) \<and> loan_id l = i"
  "find_reservation_row i d = Some r \<Longrightarrow> r \<in> set (reservations d) \<and> res_id r = i"
  by (auto simp: find_rows dest: find_SomeD)

lemma find_copy_row_key:
  "keys_ok d \<Longrightarrow> c \<in> set (copies d) \<Longrightarrow> find_copy_row (copy_id c) d = Some c"
  by (simp add: keys_ok_def find_copy_row_def find_key)

lemma find_user_row_key:
  "users_ok d \<Longrightarrow> u \<in> set (users d) \<Longrightarrow> find_user_row (user_id u) d = Some u"
  by (simp add: users_ok_def find_user_row_def find_key)

lemma find_loan_row_key:
  "keys_ok d \<Longrightarrow> l \<in> set (loans d) \<Longrightarrow> find_loan_row (loan_id l) d = Some l"
  by (simp add: keys_ok_def find_loan_row_def find_key)

lemma find_reservation_row_key:
  "keys_ok d \<Longrightarrow> r \<in> set (reservations d) \<Longrightarrow> find_reservation_row (res_id r) d = Some r"
  by (simp add: keys_ok_def find_reservation_row_def find_key)

end
