(* ===== verification/Sample.thy ===== *)
theory Sample
  imports Schema
begin

text \<open>
  A small library on which the properties are run: a librarian, two members, an administrator, a
  title in three copies of which one is out, and a title whose only copy is out with a member
  waiting for it.
\<close>

definition sample_user ::
  "uuid \<Rightarrow> string \<Rightarrow> role \<Rightarrow> member_category option \<Rightarrow> user_row" where
  "sample_user i ident r cat =
     \<lparr>user_id = i, user_identifier = ident, user_email = ident @ ''@oauife.edu.ng'',
      user_full_name = ident, user_first_name = ident, user_last_name = '''',
      user_faculty = '''', user_department = '''', user_level = '''', user_role = r,
      user_category = cat, user_status = UserActive, user_must_change_password = False,
      user_is_synthetic = False, user_created_at = 0, user_updated_at = 0,
      password_hash = ''hash'', tokens_invalid_before = 0, password_changed_at = None\<rparr>"

definition sample_book :: "uuid \<Rightarrow> string \<Rightarrow> string \<Rightarrow> book_row" where
  "sample_book i t isbn =
     \<lparr>book_id = i, book_title = t, book_subtitle = '''', book_isbn13 = isbn, book_isbn10 = '''',
      book_publisher = '''', book_place = '''', book_published_year = None,
      book_call_number = ''QA76'', book_lcc_class = ''Q'', book_description = '''',
      book_status = BookActive, book_edition = '''', book_language = '''', book_faculty = '''',
      book_department = '''', book_created_at = 0, book_updated_at = 0, book_authors = [''Author''],
      book_subjects = []\<rparr>"

definition sample_copy :: "uuid \<Rightarrow> uuid \<Rightarrow> string \<Rightarrow> copy_status \<Rightarrow> copy" where
  "sample_copy i b acc s =
     \<lparr>copy_id = i, copy_book = b, copy_accession = acc, copy_policy = PolicyCirculating,
      copy_status = s, copy_acquired_at = None, copy_notes = ''''\<rparr>"

definition sample_loan :: "uuid \<Rightarrow> uuid \<Rightarrow> uuid \<Rightarrow> loan_row" where
  "sample_loan i c u =
     \<lparr>loan_id = i, loan_copy = c, loan_user = u, loan_borrowed_at = 0, loan_due_at = 14 * day,
      loan_returned_at = None, loan_issued_by = 1, loan_returned_to = None\<rparr>"

definition sample_reservation :: "uuid \<Rightarrow> uuid \<Rightarrow> uuid \<Rightarrow> reservation_status \<Rightarrow> reservation_row" where
  "sample_reservation i b u s =
     \<lparr>res_id = i, res_book = b, res_user = u, res_status = s, res_created_at = int i,
      res_expires_at = None, res_notified_at = None\<rparr>"

definition sample_db :: db where
  "sample_db = empty_db\<lparr>
     users := [sample_user 1 ''LIB/1'' RoleLibrarian None,
               sample_user 2 ''CSC/2020/001'' RoleMember (Some CategoryUndergraduate),
               sample_user 3 ''CSC/2020/002'' RoleMember (Some CategoryPostgraduate),
               sample_user 4 ''ADM/1'' RoleAdmin None],
     books := [sample_book 10 ''Algorithms'' '''', sample_book 20 ''Compilers'' ''9780201000000''],
     copies := [sample_copy 11 10 ''A11'' CopyAvailable, sample_copy 12 10 ''A12'' CopyAvailable,
                sample_copy 13 10 ''A13'' CopyOnLoan, sample_copy 21 20 ''A21'' CopyOnLoan],
     loans := [sample_loan 100 13 3, sample_loan 101 21 3],
     reservations := [sample_reservation 200 20 2 ResPending]\<rparr>"

lemmas sample_defs = sample_db_def sample_user_def sample_book_def sample_copy_def sample_loan_def
  sample_reservation_def empty_db_def

lemma sample_tables [simp]:
  "users sample_db = [sample_user 1 ''LIB/1'' RoleLibrarian None,
               sample_user 2 ''CSC/2020/001'' RoleMember (Some CategoryUndergraduate),
               sample_user 3 ''CSC/2020/002'' RoleMember (Some CategoryPostgraduate),
               sample_user 4 ''ADM/1'' RoleAdmin None]"
  "books sample_db = [sample_book 10 ''Algorithms'' '''', sample_book 20 ''Compilers'' ''9780201000000'']"
  "copies sample_db =
     [sample_copy 11 10 ''A11'' CopyAvailable, sample_copy 12 10 ''A12'' CopyAvailable,
      sample_copy 13 10 ''A13'' CopyOnLoan, sample_copy 21 20 ''A21'' CopyOnLoan]"
  "loans sample_db = [sample_loan 100 13 3, sample_loan 101 21 3]"
  "reservations sample_db = [sample_reservation 200 20 2 ResPending]"
  "audit_log sample_db = []" "outbox sample_db = []" "invitations sample_db = []"
  "refresh_tokens sample_db = []" "password_resets sample_db = []" "devices sample_db = []"
  "bookmarks sample_db = []" "saved_searches sample_db = []"
  by (simp_all add: sample_db_def empty_db_def)

lemma sample_user_sel [simp]:
  "user_id (sample_user i s r c) = i" "user_role (sample_user i s r c) = r"
  "user_category (sample_user i s r c) = c" "user_identifier (sample_user i s r c) = s"
  "user_status (sample_user i s r c) = UserActive"
  by (simp_all add: sample_user_def)

lemma sample_book_sel [simp]:
  "book_id (sample_book i t s) = i" "book_isbn13 (sample_book i t s) = s"
  "book_title (sample_book i t s) = t"
  by (simp_all add: sample_book_def)

lemma sample_copy_sel [simp]:
  "copy_id (sample_copy i b a s) = i" "copy_book (sample_copy i b a s) = b"
  "copy_status (sample_copy i b a s) = s" "copy_policy (sample_copy i b a s) = PolicyCirculating"
  "copy_accession (sample_copy i b a s) = a"
  by (simp_all add: sample_copy_def)

lemma sample_loan_sel [simp]:
  "loan_id (sample_loan i c u) = i" "loan_copy (sample_loan i c u) = c"
  "loan_user (sample_loan i c u) = u" "loan_returned_at (sample_loan i c u) = None"
  "loan_borrowed_at (sample_loan i c u) = 0" "loan_due_at (sample_loan i c u) = 14 * day"
  by (simp_all add: sample_loan_def)

lemma sample_reservation_sel [simp]:
  "res_id (sample_reservation i b u s) = i" "res_book (sample_reservation i b u s) = b"
  "res_user (sample_reservation i b u s) = u" "res_status (sample_reservation i b u s) = s"
  "res_created_at (sample_reservation i b u s) = int i"
  by (simp_all add: sample_reservation_def)

lemma sample_users_ok: "users_ok sample_db"
  by (simp add: users_ok_def) (simp add: sample_user_def to_lower_def lower_byte_def is_upper_byte_def)

lemma sample_inv: "lib_inv sample_db"
proof
  show "users_ok sample_db" by (rule sample_users_ok)
  show "keys_ok sample_db" by (simp add: keys_ok_def)
  show "refs_ok sample_db" by (simp add: refs_ok_def id_sets)
  show "custody_ok sample_db"
    by (simp add: custody_ok_def open_loans_of_copy_def open_loan_def)
  show "queue_ok sample_db" by (simp add: queue_ok_def open_reservation_def)
qed

end
