(* ===== verification/Outbox.thy ===== *)
theory Outbox
  imports Sample
begin

text \<open>
  The transactional outbox and the invitation records that follow a message to its provider
  (outbox_repo.go, invitation_repo.go): queueing, claiming a batch, the relevance check at send
  time, the outcomes of a delivery, device registrations, and the provider's webhook events.
\<close>

section \<open>Queueing\<close>

definition new_message ::
  "time \<Rightarrow> uuid \<Rightarrow> uuid \<Rightarrow> string \<Rightarrow> string \<Rightarrow> payload \<Rightarrow> outbox_row" where
  "new_message now nid u channel template payload =
     \<lparr>ob_id = nid, ob_user = u, ob_channel = channel, ob_template = template, ob_payload = payload,
      ob_status = ObPending, ob_attempts = 0, ob_last_error = '''', ob_sent_at = None,
      ob_scheduled_at = now\<rparr>"

definition insert_message ::
  "time \<Rightarrow> uuid \<Rightarrow> uuid \<Rightarrow> string \<Rightarrow> string \<Rightarrow> payload \<Rightarrow> db \<Rightarrow> pg_error + uuid \<times> db" where
  "insert_message now nid u channel template payload d =
     (if nid \<in> ob_id ` set (outbox d) then Inl (UniqueViolation ''outbox_pkey'')
      else if find_user_row u d = None then Inl (ForeignKeyViolation ''outbox_user_id_fkey'')
      else Inr (nid, d\<lparr>outbox := outbox d @ [new_message now nid u channel template payload]\<rparr>))"

definition new_invitation :: "time \<Rightarrow> uuid \<Rightarrow> uuid \<Rightarrow> uuid \<Rightarrow> string \<Rightarrow> uuid option \<Rightarrow> invitation_row" where
  "new_invitation now nid u outboxID email batchID =
     \<lparr>inv_id = nid, inv_member = u, inv_email = email, inv_outbox = outboxID, inv_batch = batchID,
      inv_message_id = None, inv_queued_at = now, inv_sent_at = None, inv_delivered_at = None,
      inv_opened_at = None, inv_bounced_at = None, inv_failure_reason = '''', inv_status = InvQueued\<rparr>"

text \<open>The invitation shares the number of its message; the row ids of the two tables are independent.\<close>

definition CreateForOutbox ::
  "time \<Rightarrow> uuid \<Rightarrow> uuid \<Rightarrow> string \<Rightarrow> uuid option \<Rightarrow> db \<Rightarrow> pg_error + unit \<times> db" where
  "CreateForOutbox now u outboxID email batchID d =
     (if outboxID \<in> inv_outbox ` set (invitations d)
      then Inl (UniqueViolation ''invitation_deliveries_outbox_id_key'')
      else Inr ((), d\<lparr>invitations := invitations d @ [new_invitation now outboxID u outboxID email batchID]\<rparr>))"

text \<open>A batch id in a payload is the text of a uuid; any other text that is not blank fails to parse.\<close>

definition batch_of :: "payload \<Rightarrow> error + uuid option" where
  "batch_of payload =
     (case map_of payload ''batch_id'' of
        Some (JUuid b) \<Rightarrow> Inr (Some b)
      | Some (JStr s) \<Rightarrow> if trim_space s = '''' then Inr None else Inl (ErrText ''invalid UUID'')
      | _ \<Rightarrow> Inr None)"

definition QueueTracked_tx ::
  "faults \<Rightarrow> time \<Rightarrow> uuid \<Rightarrow> uuid \<Rightarrow> string \<Rightarrow> string \<Rightarrow> payload \<Rightarrow> db \<Rightarrow> error + uuid \<times> db" where
  "QueueTracked_tx fl now nid u channel template payload d =
     andthen (sql fl 0 (Inr ((), d))) (\<lambda>_ d.
     andthen (sql fl 1 (insert_message now nid u channel template payload d)) (\<lambda>outboxID d.
     andthen (if template = ''account_setup''
              then andthen (sql fl 2 (case find_user_row u d of
                              None \<Rightarrow> Inl NoRows | Some x \<Rightarrow> Inr (user_email x, d))) (\<lambda>email d.
                   case batch_of payload of
                     Inl e \<Rightarrow> Inl e
                   | Inr batchID \<Rightarrow> sql fl 3 (CreateForOutbox now u outboxID email batchID d))
              else Inr ((), d)) (\<lambda>_ d.
     commit fl 4 outboxID d)))"

definition QueueTracked ::
  "faults \<Rightarrow> time \<Rightarrow> uuid \<Rightarrow> uuid \<Rightarrow> string \<Rightarrow> string \<Rightarrow> payload \<Rightarrow> db \<Rightarrow> (error + uuid) \<times> db" where
  "QueueTracked fl now nid u channel template payload =
     transact (QueueTracked_tx fl now nid u channel template payload)"

definition Queue ::
  "faults \<Rightarrow> time \<Rightarrow> uuid \<Rightarrow> uuid \<Rightarrow> string \<Rightarrow> string \<Rightarrow> payload \<Rightarrow> db \<Rightarrow> (error + unit) \<times> db" where
  "Queue fl now nid u channel template payload d =
     (case QueueTracked fl now nid u channel template payload d of
        (Inl e, d) \<Rightarrow> (Inl e, d) | (Inr _, d) \<Rightarrow> (Inr (), d))"

section \<open>Claiming a batch\<close>

record pending_message =
  pm_ID :: uuid
  pm_UserID :: uuid
  pm_Email :: string
  pm_FullName :: string
  pm_Channel :: string
  pm_Template :: string
  pm_Payload :: payload

definition due :: "time \<Rightarrow> outbox_row \<Rightarrow> bool" where
  "due now m \<longleftrightarrow> ob_status m = ObPending \<and> ob_attempts m < 5 \<and> ob_scheduled_at m \<le> now"

definition claim_ids :: "time \<Rightarrow> nat \<Rightarrow> db \<Rightarrow> uuid list" where
  "claim_ids now limit d = map ob_id (take limit (sort_key ob_scheduled_at (filter (due now) (outbox d))))"

definition claimed_row :: "outbox_row \<Rightarrow> outbox_row" where
  "claimed_row m = m\<lparr>ob_status := ObClaimed, ob_attempts := Suc (ob_attempts m)\<rparr>"

definition message_of :: "db \<Rightarrow> outbox_row \<Rightarrow> pending_message option" where
  "message_of d m = map_option (\<lambda>u.
     \<lparr>pm_ID = ob_id m, pm_UserID = ob_user m, pm_Email = user_email u, pm_FullName = user_full_name u,
      pm_Channel = ob_channel m, pm_Template = ob_template m, pm_Payload = ob_payload m\<rparr>)
     (find_user_row (ob_user m) d)"

definition Pending :: "faults \<Rightarrow> time \<Rightarrow> nat \<Rightarrow> db \<Rightarrow> (error + pending_message list) \<times> db" where
  "Pending fl now limit = transact (\<lambda>d. sql fl 0
     (let ids = claim_ids now limit d;
          d' = d\<lparr>outbox := update_where (\<lambda>m. List.member ids (ob_id m)) claimed_row (outbox d)\<rparr>
      in Inr (List.map_filter (message_of d)
                (sort_key ob_scheduled_at (filter (\<lambda>m. List.member ids (ob_id m)) (outbox d'))), d')))"

section \<open>Is the message still true?\<close>

text \<open>A value of the payload that is a string, as the type assertion reads it.\<close>

definition string_value :: "payload \<Rightarrow> string \<Rightarrow> jval option" where
  "string_value payload k =
     (case map_of payload k of
        Some (JStr s) \<Rightarrow> Some (JStr s) | Some (JUuid u) \<Rightarrow> Some (JUuid u)
      | Some (JTime t) \<Rightarrow> Some (JTime t) | _ \<Rightarrow> None)"

definition uuid_value :: "jval \<Rightarrow> uuid option" where
  "uuid_value v = (case v of JUuid u \<Rightarrow> Some u | _ \<Rightarrow> None)"

definition StillRelevant :: "faults \<Rightarrow> string \<Rightarrow> payload \<Rightarrow> db \<Rightarrow> error + bool" where
  "StillRelevant fl template payload d =
     (if template = ''loan_due_soon'' \<or> template = ''loan_overdue'' then
        (case string_value payload ''loan_id'' of
           None \<Rightarrow> Inr True
         | Some v \<Rightarrow>
             (case exec fl 0 (case uuid_value v of
                  None \<Rightarrow> Inl (DriverFailure ''invalid input syntax for type uuid'')
                | Some i \<Rightarrow> (case find_loan_row i d of
                    None \<Rightarrow> Inl NoRows | Some l \<Rightarrow> Inr (loan_returned_at l = None))) of
                Inl e \<Rightarrow> Inr False
              | Inr is_open \<Rightarrow> Inr is_open))
      else if template = ''reservation_ready'' then
        (case string_value payload ''reservation_id'' of
           None \<Rightarrow> Inr True
         | Some v \<Rightarrow>
             (case exec fl 0 (case uuid_value v of
                  None \<Rightarrow> Inl (DriverFailure ''invalid input syntax for type uuid'')
                | Some i \<Rightarrow> (case find_reservation_row i d of
                    None \<Rightarrow> Inl NoRows | Some r \<Rightarrow> Inr (res_status r))) of
                Inl e \<Rightarrow> Inr False
              | Inr status \<Rightarrow> Inr (status = ResReady)))
      else Inr True)"

section \<open>Outcomes of a delivery\<close>

definition update_messages :: "uuid \<Rightarrow> (outbox_row \<Rightarrow> outbox_row) \<Rightarrow> db \<Rightarrow> db" where
  "update_messages i f d = d\<lparr>outbox := update_where (\<lambda>m. ob_id m = i) f (outbox d)\<rparr>"

definition update_invitations :: "(invitation_row \<Rightarrow> bool) \<Rightarrow> (invitation_row \<Rightarrow> invitation_row) \<Rightarrow> db \<Rightarrow> db" where
  "update_invitations P f d = d\<lparr>invitations := update_where P f (invitations d)\<rparr>"

definition coalesce :: "'a option \<Rightarrow> 'a \<Rightarrow> 'a option" where
  "coalesce old new = (case old of None \<Rightarrow> Some new | Some v \<Rightarrow> Some v)"

definition UpdateProviderID :: "faults \<Rightarrow> time \<Rightarrow> uuid \<Rightarrow> string \<Rightarrow> db \<Rightarrow> (error + unit) \<times> db" where
  "UpdateProviderID fl now outboxID providerID = transact (\<lambda>d. sql fl 0
     (if (\<exists>x \<in> set (invitations d). inv_outbox x \<noteq> outboxID \<and> inv_message_id x = Some providerID) \<and>
         (\<exists>x \<in> set (invitations d). inv_outbox x = outboxID)
      then Inl (UniqueViolation ''invitation_deliveries_resend_message_id_key'')
      else Inr ((), update_invitations (\<lambda>x. inv_outbox x = outboxID)
        (\<lambda>x. x\<lparr>inv_message_id := Some providerID, inv_sent_at := coalesce (inv_sent_at x) now,
               inv_status := InvSent\<rparr>) d)))"

definition InvitationMarkFailed :: "faults \<Rightarrow> nat \<Rightarrow> uuid \<Rightarrow> string \<Rightarrow> db \<Rightarrow> (error + unit) \<times> db" where
  "InvitationMarkFailed fl k outboxID reason = transact (\<lambda>d. sql fl k
     (Inr ((), update_invitations (\<lambda>x. inv_outbox x = outboxID)
       (\<lambda>x. x\<lparr>inv_status := InvFailed, inv_failure_reason := reason\<rparr>) d)))"

definition InvitationMarkSuperseded :: "faults \<Rightarrow> nat \<Rightarrow> uuid \<Rightarrow> string \<Rightarrow> db \<Rightarrow> (error + unit) \<times> db" where
  "InvitationMarkSuperseded fl k outboxID reason = transact (\<lambda>d. sql fl k
     (Inr ((), update_invitations (\<lambda>x. inv_outbox x = outboxID)
       (\<lambda>x. x\<lparr>inv_status := InvSuperseded, inv_failure_reason := reason\<rparr>) d)))"

definition InvalidateForMember :: "faults \<Rightarrow> uuid \<Rightarrow> db \<Rightarrow> (error + unit) \<times> db" where
  "InvalidateForMember fl u = transact (\<lambda>d. sql fl 0
     (Inr ((), update_invitations
       (\<lambda>x. inv_member x = u \<and> List.member [InvQueued, InvSent, InvDelivered, InvOpened] (inv_status x))
       (\<lambda>x. x\<lparr>inv_status := InvSuperseded,
              inv_failure_reason := ''replaced by a newer invitation''\<rparr>) d)))"

text \<open>Two statements of their own: the message is marked although marking its invitation fails.\<close>

definition MarkSuperseded :: "faults \<Rightarrow> time \<Rightarrow> uuid \<Rightarrow> string \<Rightarrow> db \<Rightarrow> (error + unit) \<times> db" where
  "MarkSuperseded fl now i reason d =
     (case transact (\<lambda>d. sql fl 0 (Inr ((), update_messages i
             (\<lambda>m. m\<lparr>ob_status := ObSuperseded, ob_sent_at := Some now, ob_last_error := reason\<rparr>) d))) d of
        (Inl e, d) \<Rightarrow> (Inl e, d)
      | (Inr _, d) \<Rightarrow> InvitationMarkSuperseded fl 1 i reason d)"

definition MarkSent_tx :: "faults \<Rightarrow> time \<Rightarrow> uuid \<Rightarrow> db \<Rightarrow> error + unit \<times> db" where
  "MarkSent_tx fl now i d =
     andthen (sql fl 0 (Inr ((), d))) (\<lambda>_ d.
     andthen (sql fl 1 (Inr ((), update_messages i
        (\<lambda>m. m\<lparr>ob_status := ObSent, ob_sent_at := Some now\<rparr>) d))) (\<lambda>_ d.
     andthen (sql fl 2 (Inr ((), update_invitations (\<lambda>x. inv_outbox x = i \<and> inv_status x = InvQueued)
        (\<lambda>x. x\<lparr>inv_status := InvSent, inv_sent_at := coalesce (inv_sent_at x) now\<rparr>) d))) (\<lambda>_ d.
     commit fl 3 () d)))"

definition MarkSent :: "faults \<Rightarrow> time \<Rightarrow> uuid \<Rightarrow> db \<Rightarrow> (error + unit) \<times> db" where
  "MarkSent fl now i = transact (MarkSent_tx fl now i)"

definition failed_row :: "string \<Rightarrow> outbox_row \<Rightarrow> outbox_row" where
  "failed_row reason m =
     m\<lparr>ob_attempts := Suc (ob_attempts m), ob_last_error := reason,
       ob_status := (if 5 \<le> Suc (ob_attempts m) then ObFailed else ObPending)\<rparr>"

definition MarkFailed :: "faults \<Rightarrow> uuid \<Rightarrow> string \<Rightarrow> db \<Rightarrow> (error + unit) \<times> db" where
  "MarkFailed fl i reason d =
     (case transact (\<lambda>d. sql fl 0 (Inr ((), update_messages i (failed_row reason) d))) d of
        (Inl e, d) \<Rightarrow> (Inl e, d)
      | (Inr _, d) \<Rightarrow> InvitationMarkFailed fl 1 i reason d)"

section \<open>Devices\<close>

definition DeviceTokens :: "faults \<Rightarrow> uuid \<Rightarrow> db \<Rightarrow> error + string list" where
  "DeviceTokens fl u d = sql fl 0
     (Inr (map dev_token (filter (\<lambda>x. dev_user x = u \<and> dev_revoked_at x = None) (devices d))))"

definition revoke :: "time \<Rightarrow> device_row \<Rightarrow> device_row" where
  "revoke now x = x\<lparr>dev_revoked_at := Some now\<rparr>"

definition RevokeDeviceToken :: "faults \<Rightarrow> time \<Rightarrow> string \<Rightarrow> db \<Rightarrow> (error + unit) \<times> db" where
  "RevokeDeviceToken fl now token = transact (\<lambda>d. sql fl 0
     (Inr ((), d\<lparr>devices := update_where (\<lambda>x. dev_token x = token \<and> dev_revoked_at x = None)
        (revoke now) (devices d)\<rparr>)))"

definition RevokeOwnDeviceToken :: "faults \<Rightarrow> time \<Rightarrow> uuid \<Rightarrow> string \<Rightarrow> db \<Rightarrow> (error + unit) \<times> db" where
  "RevokeOwnDeviceToken fl now u token = transact (\<lambda>d.
     let own = (\<lambda>x. dev_user x = u \<and> dev_token x = token \<and> dev_revoked_at x = None) in
     andthen (sql fl 0 (Inr (count_where own (devices d),
        d\<lparr>devices := update_where own (revoke now) (devices d)\<rparr>))) (\<lambda>n d.
     fail_if (n = 0) ErrNotFound (Inr ((), d))))"

definition RegisterDevice :: "faults \<Rightarrow> time \<Rightarrow> uuid \<Rightarrow> string \<Rightarrow> string \<Rightarrow> db \<Rightarrow> (error + unit) \<times> db" where
  "RegisterDevice fl now u token platform = transact (\<lambda>d. sql fl 0
     (if find_user_row u d = None then Inl (ForeignKeyViolation ''device_tokens_user_id_fkey'')
      else if token \<in> dev_token ` set (devices d)
      then Inr ((), d\<lparr>devices := update_where (\<lambda>x. dev_token x = token)
             (\<lambda>x. x\<lparr>dev_user := u, dev_platform := platform, dev_last_seen_at := now,
                    dev_revoked_at := None\<rparr>) (devices d)\<rparr>)
      else Inr ((), d\<lparr>devices := devices d @ [\<lparr>dev_user = u, dev_token = token,
             dev_platform = platform, dev_last_seen_at = now, dev_revoked_at = None\<rparr>]\<rparr>)))"

section \<open>Webhook events\<close>

text \<open>The new status and the timestamp column an event sets, if any.\<close>

datatype event_column = ColSent | ColDelivered | ColOpened | ColBounced

definition event_effect :: "string \<Rightarrow> (invitation_status \<times> event_column option) option" where
  "event_effect eventType =
     (if eventType = ''email.sent'' then Some (InvSent, Some ColSent)
      else if eventType = ''email.delivered'' then Some (InvDelivered, Some ColDelivered)
      else if eventType = ''email.opened'' then Some (InvOpened, Some ColOpened)
      else if eventType = ''email.bounced'' then Some (InvBounced, Some ColBounced)
      else if eventType = ''email.complained'' then Some (InvComplained, None)
      else if eventType = ''email.failed'' then Some (InvFailed, None)
      else None)"

definition stuck_status :: "invitation_status \<Rightarrow> bool" where
  "stuck_status s \<longleftrightarrow> s = InvBounced \<or> s = InvComplained \<or> s = InvFailed"

definition stamp :: "event_column \<Rightarrow> time \<Rightarrow> invitation_row \<Rightarrow> invitation_row" where
  "stamp c t x =
     (case c of
        ColSent \<Rightarrow> x\<lparr>inv_sent_at := coalesce (inv_sent_at x) t\<rparr>
      | ColDelivered \<Rightarrow> x\<lparr>inv_delivered_at := coalesce (inv_delivered_at x) t\<rparr>
      | ColOpened \<Rightarrow> x\<lparr>inv_opened_at := coalesce (inv_opened_at x) t\<rparr>
      | ColBounced \<Rightarrow> x\<lparr>inv_bounced_at := coalesce (inv_bounced_at x) t\<rparr>)"

definition apply_event ::
  "invitation_status \<Rightarrow> event_column option \<Rightarrow> time \<Rightarrow> string \<Rightarrow> invitation_row \<Rightarrow> invitation_row" where
  "apply_event status column occurredAt reason x =
     (case column of
        Some c \<Rightarrow> (stamp c occurredAt x)
          \<lparr>inv_status := (if stuck_status (inv_status x) then inv_status x else status),
           inv_failure_reason := (if status = InvBounced \<or> status = InvFailed then reason
                                  else inv_failure_reason x)\<rparr>
      | None \<Rightarrow>
          if stuck_status (inv_status x) then x
          else x\<lparr>inv_status := status, inv_failure_reason := reason\<rparr>)"

definition ApplyEvent :: "faults \<Rightarrow> string \<Rightarrow> string \<Rightarrow> time \<Rightarrow> string \<Rightarrow> db \<Rightarrow> (error + unit) \<times> db" where
  "ApplyEvent fl providerID eventType occurredAt reason d =
     (case event_effect eventType of
        None \<Rightarrow> (Inr (), d)
      | Some (status, column) \<Rightarrow> transact (\<lambda>d. sql fl 0
          (Inr ((), update_invitations (\<lambda>x. inv_message_id x = Some providerID)
             (apply_event status column occurredAt reason) d))) d)"

text \<open>A late report of sending moves a delivered or opened invitation back to sent.\<close>

lemma late_event_moves_back:
  "event_effect ''email.sent'' = Some (InvSent, Some ColSent)"
  "\<not> stuck_status (inv_status x) \<Longrightarrow> inv_status (apply_event InvSent (Some ColSent) t reason x) = InvSent"
  by (simp_all add: event_effect_def apply_event_def)

section \<open>Reports\<close>

definition InvitationList ::
  "faults \<Rightarrow> invitation_status option \<Rightarrow> uuid option \<Rightarrow> int \<Rightarrow> int \<Rightarrow> db \<Rightarrow> error + invitation_row list \<times> nat" where
  "InvitationList fl status batchID limit offset d = sql fl 0
     (if limit < 0 \<or> offset < 0 then Inl (DriverFailure ''negative limit or offset'')
      else let rows = sort_key (\<lambda>x. (- inv_queued_at x, inv_id x))
                 (filter (\<lambda>x. (case status of None \<Rightarrow> True | Some s \<Rightarrow> inv_status x = s) \<and>
                            (case batchID of None \<Rightarrow> True | Some b \<Rightarrow> inv_batch x = Some b)) (invitations d));
               page = page_of (nat limit) (nat offset) rows
           in Inr (page, if page = [] then 0 else length rows))"

definition Summary :: "faults \<Rightarrow> db \<Rightarrow> error + (invitation_status \<times> nat) list" where
  "Summary fl d = sql fl 0
     (Inr (filter (\<lambda>(s, n). 0 < n) (map (\<lambda>s. (s, count_where (\<lambda>x. inv_status x = s) (invitations d)))
        [InvQueued, InvSent, InvDelivered, InvOpened, InvBounced, InvComplained, InvFailed, InvSuperseded])))"

section \<open>The library's invariant is not touched\<close>

text \<open>Two databases that agree on the tables of circulation.\<close>

definition same_library :: "db \<Rightarrow> db \<Rightarrow> bool" where
  "same_library d d' \<longleftrightarrow> users d' = users d \<and> books d' = books d \<and> copies d' = copies d \<and>
     loans d' = loans d \<and> reservations d' = reservations d"

lemma same_library_refl [simp]: "same_library d d"
  by (simp add: same_library_def)

lemma same_library_trans: "same_library d d' \<Longrightarrow> same_library d' d'' \<Longrightarrow> same_library d d''"
  by (simp add: same_library_def)

lemma same_library_inv: "same_library d d' \<Longrightarrow> lib_inv d' = lib_inv d"
  by (rule lib_inv_cong) (simp_all add: same_library_def)

lemma same_library_updates [simp]:
  "same_library d (d\<lparr>outbox := ob\<rparr>)" "same_library d (d\<lparr>invitations := iv\<rparr>)"
  "same_library d (d\<lparr>outbox := ob, invitations := iv\<rparr>)"
  "same_library d (d\<lparr>devices := dv\<rparr>)" "same_library d (d\<lparr>refresh_tokens := rt\<rparr>)"
  "same_library d (d\<lparr>password_resets := pr\<rparr>)" "same_library d (d\<lparr>bookmarks := bm\<rparr>)"
  "same_library d (d\<lparr>saved_searches := s\<rparr>)" "same_library d (d\<lparr>audit_log := au\<rparr>)"
  by (simp_all add: same_library_def)

lemma same_library_transact:
  "(\<And>x d'. body d = Inr (x, d') \<Longrightarrow> same_library d d') \<Longrightarrow> same_library d (snd (transact body d))"
  by (auto simp: transact_def split: sum.splits)

lemma QueueTracked_same: "same_library d (snd (QueueTracked fl now nid u ch t pl d))"
  unfolding QueueTracked_def
  by (rule same_library_transact)
    (auto simp: QueueTracked_tx_def andthen_Inr insert_message_def CreateForOutbox_def
      split: if_splits option.splits sum.splits)

lemma Queue_same: "same_library d (snd (Queue fl now nid u ch t pl d))"
  using QueueTracked_same [of d fl now nid u ch t pl]
  by (auto simp: Queue_def split: sum.splits prod.splits)

lemma update_same [simp]:
  "same_library d (update_messages i f d)" "same_library d (update_invitations P g d)"
  by (simp_all add: update_messages_def update_invitations_def)

lemma Pending_same: "same_library d (snd (Pending fl now limit d))"
  unfolding Pending_def by (rule same_library_transact) (auto simp: Let_def)

lemma InvitationMark_same:
  "same_library d (snd (InvitationMarkFailed fl k i reason d))"
  "same_library d (snd (InvitationMarkSuperseded fl k i reason d))"
  "same_library d (snd (InvalidateForMember fl u d))"
  "same_library d (snd (UpdateProviderID fl now i pid d))"
  unfolding InvitationMarkFailed_def InvitationMarkSuperseded_def InvalidateForMember_def UpdateProviderID_def
  by (rule same_library_transact; auto split: if_splits)+

lemma MarkSuperseded_same: "same_library d (snd (MarkSuperseded fl now i reason d))"
proof -
  have "same_library d (snd (InvitationMarkSuperseded fl 1 i reason (update_messages i f d)))" for f
    by (rule same_library_trans [OF _ InvitationMark_same(2)]) simp
  then show ?thesis by (auto simp: MarkSuperseded_def transact_def split: sum.splits prod.splits)
qed

lemma MarkFailed_same: "same_library d (snd (MarkFailed fl i reason d))"
proof -
  have "same_library d (snd (InvitationMarkFailed fl 1 i reason (update_messages i f d)))" for f
    by (rule same_library_trans [OF _ InvitationMark_same(1)]) simp
  then show ?thesis by (auto simp: MarkFailed_def transact_def split: sum.splits prod.splits)
qed

lemma MarkSent_same: "same_library d (snd (MarkSent fl now i d))"
  unfolding MarkSent_def
  by (rule same_library_transact)
    (auto simp: MarkSent_tx_def andthen_Inr update_messages_def update_invitations_def)

lemma devices_same:
  "same_library d (snd (RevokeDeviceToken fl now token d))"
  "same_library d (snd (RevokeOwnDeviceToken fl now u token d))"
  "same_library d (snd (RegisterDevice fl now u token platform d))"
  unfolding RevokeDeviceToken_def RevokeOwnDeviceToken_def RegisterDevice_def
  by (rule same_library_transact; auto simp: Let_def andthen_Inr split: if_splits)+

lemma ApplyEvent_same: "same_library d (snd (ApplyEvent fl pid ev t reason d))"
  unfolding ApplyEvent_def
  by (auto simp: transact_def split: option.splits sum.splits)

end
