(* ===== verification/Users.thy ===== *)
theory Users
  imports Outbox
begin

text \<open>
  Accounts (user_repo.go) and the stored halves of sessions and password resets (token_repo.go).
  Identifiers are compared without case at login and on import; emails are case-insensitive text in
  the schema, so their unique index ignores case too.
\<close>

section \<open>Reading accounts\<close>

definition scanUser :: "user_row \<Rightarrow> user" where
  "scanUser u =
     \<lparr>user_id = user_id u, user_identifier = user_identifier u, user_email = user_email u,
      user_full_name = user_full_name u, user_first_name = user_first_name u,
      user_last_name = user_last_name u, user_faculty = user_faculty u,
      user_department = user_department u, user_level = user_level u, user_role = user_role u,
      user_category = user_category u, user_status = user_status u,
      user_must_change_password = user_must_change_password u, user_is_synthetic = user_is_synthetic u,
      user_created_at = user_created_at u, user_updated_at = user_updated_at u\<rparr>"

definition login_matches :: "string \<Rightarrow> 'a user_scheme \<Rightarrow> bool" where
  "login_matches login u \<longleftrightarrow>
     to_lower (user_identifier u) = to_lower login \<or> to_lower (user_email u) = to_lower login"

definition FindByLogin :: "faults \<Rightarrow> string \<Rightarrow> db \<Rightarrow> error + user \<times> string" where
  "FindByLogin fl login d = sql fl 0
     (case find (login_matches (trim_space login)) (users d) of
        None \<Rightarrow> Inl NoRows | Some u \<Rightarrow> Inr (scanUser u, password_hash u))"

definition FindByID :: "faults \<Rightarrow> uuid \<Rightarrow> db \<Rightarrow> error + user" where
  "FindByID fl i d = sql fl 0 (case find_user_row i d of None \<Rightarrow> Inl NoRows | Some u \<Rightarrow> Inr (scanUser u))"

definition FindByEmail :: "faults \<Rightarrow> string \<Rightarrow> db \<Rightarrow> error + user" where
  "FindByEmail fl email d = sql fl 0
     (case find (\<lambda>u. to_lower (user_email u) = to_lower email) (users d) of
        None \<Rightarrow> Inl NoRows | Some u \<Rightarrow> Inr (scanUser u))"

definition PasswordHash :: "faults \<Rightarrow> uuid \<Rightarrow> db \<Rightarrow> error + string" where
  "PasswordHash fl i d = sql fl 0
     (case find_user_row i d of None \<Rightarrow> Inl NoRows | Some u \<Rightarrow> Inr (password_hash u))"

definition SessionValid :: "faults \<Rightarrow> uuid \<Rightarrow> time \<Rightarrow> string \<Rightarrow> db \<Rightarrow> error + bool" where
  "SessionValid fl i issuedAt tokenRole d = sql fl 0
     (case find_user_row i d of None \<Rightarrow> Inl NoRows
      | Some u \<Rightarrow> Inr (role_string (user_role u) = tokenRole \<and> tokens_invalid_before u \<le> issuedAt))"

definition TokensInvalidBefore :: "faults \<Rightarrow> uuid \<Rightarrow> db \<Rightarrow> error + time" where
  "TokensInvalidBefore fl i d = sql fl 0
     (case find_user_row i d of None \<Rightarrow> Inl NoRows | Some u \<Rightarrow> Inr (tokens_invalid_before u))"

definition ExistingIdentifiers :: "faults \<Rightarrow> string list \<Rightarrow> db \<Rightarrow> error + string set" where
  "ExistingIdentifiers fl identifiers d =
     (if identifiers = [] then Inr {}
      else let lowered = map (\<lambda>i. to_lower (trim_space i)) identifiers in
        sql fl 0 (Inr (set (filter (\<lambda>i. List.member lowered i)
          (map (\<lambda>u. to_lower (user_identifier u)) (users d))))))"

definition ListUsers :: "faults \<Rightarrow> string \<Rightarrow> int \<Rightarrow> int \<Rightarrow> db \<Rightarrow> error + user list \<times> nat" where
  "ListUsers fl search limit offset d = sql fl 0
     (if limit < 0 \<or> offset < 0 then Inl (DriverFailure ''negative limit or offset'')
      else let p = ''%'' @ search @ ''%'';
               rows = sort_key (\<lambda>u. (- user_created_at u, user_id u))
                 (filter (\<lambda>u. search = '''' \<or> ilike (user_full_name u) p \<or> ilike (user_identifier u) p \<or>
                            ilike (user_email u) p) (users d));
               page = page_of (nat limit) (nat offset) rows
           in Inr (map scanUser page, if page = [] then 0 else length rows))"

section \<open>Creating an account\<close>

record create_user_params =
  cu_Identifier :: string
  cu_Email :: string
  cu_FullName :: string
  cu_FirstName :: string
  cu_LastName :: string
  cu_Faculty :: string
  cu_Department :: string
  cu_Level :: string
  cu_PasswordHash :: string
  cu_Role :: role
  cu_Category :: "member_category option"
  cu_IsSynthetic :: bool
  cu_CreatedBy :: uuid

definition blank_null :: "string \<Rightarrow> string" where
  "blank_null s = (if trim_space s = '''' then '''' else s)"

definition new_user :: "time \<Rightarrow> uuid \<Rightarrow> create_user_params \<Rightarrow> user_row" where
  "new_user now nid p =
     \<lparr>user_id = nid, user_identifier = cu_Identifier p, user_email = cu_Email p,
      user_full_name = cu_FullName p, user_first_name = blank_null (cu_FirstName p),
      user_last_name = blank_null (cu_LastName p), user_faculty = blank_null (cu_Faculty p),
      user_department = blank_null (cu_Department p), user_level = blank_null (cu_Level p),
      user_role = cu_Role p, user_category = cu_Category p, user_status = UserActive,
      user_must_change_password = True, user_is_synthetic = cu_IsSynthetic p,
      user_created_at = now, user_updated_at = now, password_hash = cu_PasswordHash p,
      tokens_invalid_before = now, password_changed_at = None\<rparr>"

definition insert_user :: "time \<Rightarrow> uuid \<Rightarrow> create_user_params \<Rightarrow> db \<Rightarrow> pg_error + user \<times> db" where
  "insert_user now nid p d =
     (let u = new_user now nid p in
      if user_role u = RoleMember \<and> user_category u = None
      then Inl (CheckViolation ''members_need_a_category'')
      else if nid \<in> user_ids d then Inl (UniqueViolation ''users_pkey'')
      else if user_identifier u \<in> user_identifier ` set (users d)
      then Inl (UniqueViolation ''users_identifier_key'')
      else if to_lower (user_email u) \<in> (\<lambda>x. to_lower (user_email x)) ` set (users d)
      then Inl (UniqueViolation ''users_email_key'')
      else Inr (scanUser u, d\<lparr>users := users d @ [u]\<rparr>))"

definition CreateUser_tx :: "faults \<Rightarrow> time \<Rightarrow> uuid \<Rightarrow> create_user_params \<Rightarrow> db \<Rightarrow> error + user \<times> db" where
  "CreateUser_tx fl now nid p d =
     andthen (sql fl 0 (Inr ((), d))) (\<lambda>_ d.
       case exec fl 1 (insert_user now nid p d) of
         Inl e \<Rightarrow> Inl (if isUniqueViolation e '''' then ErrConflict else translate e)
       | Inr (u, d) \<Rightarrow>
           andthen (sql fl 2 (recordAudit (cu_CreatedBy p) ''MEMBER_CREATED'' ''user'' (user_id u)
              [(''identifier'', JStr (user_identifier u)), (''role'', JStr (role_string (user_role u))),
               (''synthetic'', JBool (cu_IsSynthetic p))] now d)) (\<lambda>_ d.
           commit fl 3 u d))"

definition CreateUser :: "faults \<Rightarrow> time \<Rightarrow> uuid \<Rightarrow> create_user_params \<Rightarrow> db \<Rightarrow> (error + user) \<times> db" where
  "CreateUser fl now nid p = transact (CreateUser_tx fl now nid p)"

section \<open>Changing an account\<close>

definition update_user :: "uuid \<Rightarrow> (user_row \<Rightarrow> user_row) \<Rightarrow> db \<Rightarrow> db" where
  "update_user i f d = d\<lparr>users := update_where (\<lambda>u. user_id u = i) f (users d)\<rparr>"

definition UpdateStatus_tx ::
  "faults \<Rightarrow> time \<Rightarrow> uuid \<Rightarrow> user_status \<Rightarrow> uuid \<Rightarrow> db \<Rightarrow> error + unit \<times> db" where
  "UpdateStatus_tx fl now i status staffID d =
     andthen (sql fl 0 (Inr ((), d))) (\<lambda>_ d.
     andthen (sql fl 1 (Inr (count_where (\<lambda>u. user_id u = i) (users d),
        update_user i (\<lambda>u. u\<lparr>user_status := status, user_updated_at := now\<rparr>) d))) (\<lambda>n d.
     fail_if (n = 0) ErrNotFound (
     andthen (sql fl 2 (recordAudit staffID ''MEMBER_STATUS_CHANGED'' ''user'' i
        [(''status'', JStr (user_status_string status))] now d)) (\<lambda>_ d.
     commit fl 3 () d))))"

definition UpdateStatus ::
  "faults \<Rightarrow> time \<Rightarrow> uuid \<Rightarrow> user_status \<Rightarrow> uuid \<Rightarrow> db \<Rightarrow> (error + unit) \<times> db" where
  "UpdateStatus fl now i status staffID = transact (UpdateStatus_tx fl now i status staffID)"

definition admin_count :: "db \<Rightarrow> nat" where
  "admin_count d = count_where (\<lambda>u. user_role u = RoleAdmin) (users d)"

definition category_json :: "member_category option \<Rightarrow> jval" where
  "category_json c = (case c of None \<Rightarrow> JNull | Some c \<Rightarrow> JStr (category_string c))"

text \<open>
  The category of the request is a string until here: a category without terms, or any category for
  a role other than member, is refused.
\<close>

definition resolve_category ::
  "role \<Rightarrow> string option \<Rightarrow> member_category option \<Rightarrow> error + member_category option" where
  "resolve_category r category existing =
     (case category of
        None \<Rightarrow> Inr existing
      | Some c \<Rightarrow> (case TermsFor c of
          None \<Rightarrow> Inl ErrInvalidMemberCategory
        | Some _ \<Rightarrow> if r \<noteq> RoleMember then Inl ErrInvalidMemberCategory else Inr (parse_category c)))"

definition role_upd :: "time \<Rightarrow> role \<Rightarrow> member_category option \<Rightarrow> user_row \<Rightarrow> user_row" where
  "role_upd now r resolved u = u\<lparr>user_role := r, user_category := resolved,
     tokens_invalid_before := now, user_updated_at := now\<rparr>"

definition UpdateRole_tx ::
  "faults \<Rightarrow> time \<Rightarrow> uuid \<Rightarrow> role \<Rightarrow> string option \<Rightarrow> uuid \<Rightarrow> db \<Rightarrow> error + unit \<times> db" where
  "UpdateRole_tx fl now i r category staffID d =
     andthen (sql fl 0 (Inr ((), d))) (\<lambda>_ d.
     andthen (sql fl 1 (Inr (admin_count d, d))) (\<lambda>adminCount d.
     andthen (sql fl 2 (case find_user_row i d of
                None \<Rightarrow> Inl NoRows | Some u \<Rightarrow> Inr ((user_role u, user_category u), d)))
       (\<lambda>(current, existingCategory) d.
     fail_if (current = RoleAdmin \<and> r \<noteq> RoleAdmin \<and> adminCount \<le> 1) ErrConflict (
     case resolve_category r category existingCategory of
       Inl e \<Rightarrow> Inl e
     | Inr resolved \<Rightarrow>
         fail_if (r = RoleMember \<and> resolved = None) ErrNoCategory (
         if current = r \<and> existingCategory = resolved then commit fl 3 () d
         else
           andthen (sql fl 3 (Inr ((), update_user i (role_upd now r resolved) d))) (\<lambda>_ d.
           andthen (sql fl 4 (recordAudit staffID ''MEMBER_ROLE_CHANGED'' ''user'' i
              [(''from'', JStr (role_string current)), (''to'', JStr (role_string r)),
               (''category_from'', category_json existingCategory),
               (''category_to'', category_json resolved)] now d)) (\<lambda>_ d.
           commit fl 5 () d)))))))"

definition UpdateRole ::
  "faults \<Rightarrow> time \<Rightarrow> uuid \<Rightarrow> role \<Rightarrow> string option \<Rightarrow> uuid \<Rightarrow> db \<Rightarrow> (error + unit) \<times> db" where
  "UpdateRole fl now i r category staffID = transact (UpdateRole_tx fl now i r category staffID)"

definition UpdatePassword :: "faults \<Rightarrow> time \<Rightarrow> uuid \<Rightarrow> string \<Rightarrow> db \<Rightarrow> (error + unit) \<times> db" where
  "UpdatePassword fl now i hash = transact (\<lambda>d.
     andthen (sql fl 0 (Inr (count_where (\<lambda>u. user_id u = i) (users d),
        update_user i (\<lambda>u. u\<lparr>password_hash := hash, user_must_change_password := False,
          tokens_invalid_before := now, password_changed_at := Some now, user_updated_at := now\<rparr>) d)))
       (\<lambda>n d. fail_if (n = 0) ErrNotFound (Inr ((), d))))"

section \<open>Sessions and resets\<close>

definition SaveRefreshToken :: "faults \<Rightarrow> time \<Rightarrow> uuid \<Rightarrow> string \<Rightarrow> time \<Rightarrow> db \<Rightarrow> (error + unit) \<times> db" where
  "SaveRefreshToken fl now u hash expires = transact (\<lambda>d. sql fl 0
     (if hash \<in> rt_hash ` set (refresh_tokens d) then Inl (UniqueViolation ''refresh_tokens_token_hash_key'')
      else if find_user_row u d = None then Inl (ForeignKeyViolation ''refresh_tokens_user_id_fkey'')
      else Inr ((), d\<lparr>refresh_tokens := refresh_tokens d @
        [\<lparr>rt_user = u, rt_hash = hash, rt_expires_at = expires, rt_revoked_at = None,
          rt_created_at = now\<rparr>]\<rparr>)))"

definition usable :: "time \<Rightarrow> string \<Rightarrow> db \<Rightarrow> refresh_row \<Rightarrow> bool" where
  "usable now hash d t \<longleftrightarrow> rt_hash t = hash \<and> rt_revoked_at t = None \<and> now < rt_expires_at t \<and>
     (case find_user_row (rt_user t) d of None \<Rightarrow> False
      | Some u \<Rightarrow> tokens_invalid_before u \<le> rt_created_at t)"

definition ConsumeRefreshToken :: "faults \<Rightarrow> time \<Rightarrow> string \<Rightarrow> db \<Rightarrow> (error + uuid) \<times> db" where
  "ConsumeRefreshToken fl now hash = transact (\<lambda>d. sql fl 0
     (case find (usable now hash d) (refresh_tokens d) of
        None \<Rightarrow> Inl NoRows
      | Some t \<Rightarrow> Inr (rt_user t, d\<lparr>refresh_tokens := update_where (usable now hash d)
          (\<lambda>t. t\<lparr>rt_revoked_at := Some now\<rparr>) (refresh_tokens d)\<rparr>)))"

definition RevokeRefreshToken :: "faults \<Rightarrow> time \<Rightarrow> string \<Rightarrow> db \<Rightarrow> (error + unit) \<times> db" where
  "RevokeRefreshToken fl now hash = transact (\<lambda>d. sql fl 0 (Inr ((),
     d\<lparr>refresh_tokens := update_where (\<lambda>t. rt_hash t = hash \<and> rt_revoked_at t = None)
        (\<lambda>t. t\<lparr>rt_revoked_at := Some now\<rparr>) (refresh_tokens d)\<rparr>)))"

definition RevokeAllRefreshTokens :: "faults \<Rightarrow> time \<Rightarrow> uuid \<Rightarrow> db \<Rightarrow> (error + unit) \<times> db" where
  "RevokeAllRefreshTokens fl now u = transact (\<lambda>d. sql fl 0 (Inr ((),
     d\<lparr>refresh_tokens := update_where (\<lambda>t. rt_user t = u \<and> rt_revoked_at t = None)
        (\<lambda>t. t\<lparr>rt_revoked_at := Some now\<rparr>) (refresh_tokens d)\<rparr>)))"

definition SavePasswordReset :: "faults \<Rightarrow> uuid \<Rightarrow> string \<Rightarrow> time \<Rightarrow> db \<Rightarrow> (error + unit) \<times> db" where
  "SavePasswordReset fl u hash expires = transact (\<lambda>d. sql fl 0
     (if hash \<in> pr_hash ` set (password_resets d) then Inl (UniqueViolation ''password_resets_token_hash_key'')
      else if find_user_row u d = None then Inl (ForeignKeyViolation ''password_resets_user_id_fkey'')
      else Inr ((), d\<lparr>password_resets := password_resets d @
        [\<lparr>pr_user = u, pr_hash = hash, pr_expires_at = expires, pr_used_at = None\<rparr>]\<rparr>)))"

definition ConsumePasswordReset :: "faults \<Rightarrow> time \<Rightarrow> string \<Rightarrow> db \<Rightarrow> (error + uuid) \<times> db" where
  "ConsumePasswordReset fl now hash = transact (\<lambda>d.
     let P = (\<lambda>t. pr_hash t = hash \<and> pr_used_at t = None \<and> now < pr_expires_at t) in
     case exec fl 0 (case find P (password_resets d) of
        None \<Rightarrow> Inl NoRows
      | Some t \<Rightarrow> Inr (pr_user t, d\<lparr>password_resets := update_where P
          (\<lambda>t. t\<lparr>pr_used_at := Some now\<rparr>) (password_resets d)\<rparr>)) of
       Inl e \<Rightarrow> Inl ErrTokenInvalid
     | Inr r \<Rightarrow> Inr r)"

definition InvalidatePasswordResets :: "faults \<Rightarrow> time \<Rightarrow> uuid \<Rightarrow> db \<Rightarrow> (error + unit) \<times> db" where
  "InvalidatePasswordResets fl now u = transact (\<lambda>d. sql fl 0 (Inr ((),
     d\<lparr>password_resets := update_where (\<lambda>t. pr_user t = u \<and> pr_used_at t = None)
        (\<lambda>t. t\<lparr>pr_used_at := Some now\<rparr>) (password_resets d)\<rparr>)))"

section \<open>The invariant\<close>

lemma lib_inv_users:
  assumes inv: "lib_inv d" and "users_ok (d\<lparr>users := us\<rparr>)" and "user_id ` set (users d) \<subseteq> user_id ` set us"
  shows "lib_inv (d\<lparr>users := us\<rparr>)"
proof
  show "keys_ok (d\<lparr>users := us\<rparr>)" using inv by (simp add: lib_inv_def keys_ok_def)
  show "custody_ok (d\<lparr>users := us\<rparr>)" using inv by (simp add: lib_inv_def custody_ok_def open_loans_of_copy_def)
  show "queue_ok (d\<lparr>users := us\<rparr>)" using inv by (simp add: lib_inv_def queue_ok_def)
  have "refs_ok d" using inv by blast
  then have "loan_user ` set (loans d) \<subseteq> user_id ` set (users d)"
    "res_user ` set (reservations d) \<subseteq> user_id ` set (users d)"
    by (simp_all add: refs_ok_def id_sets)
  with \<open>refs_ok d\<close> subset_trans [OF _ assms(3)] show "refs_ok (d\<lparr>users := us\<rparr>)"
    by (simp add: refs_ok_def id_sets)
qed (rule assms(2))

lemma update_user_inv:
  assumes inv: "lib_inv d"
    and f: "\<And>u. user_id (f u) = user_id u \<and> user_identifier (f u) = user_identifier u \<and> user_email (f u) = user_email u"
    and cat: "\<And>u. u \<in> set (users d) \<Longrightarrow> user_id u = i \<Longrightarrow> user_role (f u) = RoleMember \<Longrightarrow> user_category (f u) \<noteq> None"
  shows "lib_inv (update_user i f d)"
  unfolding update_user_def
proof (rule lib_inv_users [OF inv])
  have ids: "map user_id (update_where (\<lambda>u. user_id u = i) f (users d)) = map user_id (users d)"
    by (simp add: map_update_where f)
  then show "user_id ` set (users d) \<subseteq> user_id ` set (update_where (\<lambda>u. user_id u = i) f (users d))"
    by (metis map_eq_set order_refl)
  have "map user_identifier (update_where (\<lambda>u. user_id u = i) f (users d)) = map user_identifier (users d)"
    "map (\<lambda>u. to_lower (user_email u)) (update_where (\<lambda>u. user_id u = i) f (users d)) =
     map (\<lambda>u. to_lower (user_email u)) (users d)"
    by (simp_all add: map_update_where f)
  moreover have "users_ok d" using inv by blast
  ultimately show "users_ok (d\<lparr>users := update_where (\<lambda>u. user_id u = i) f (users d)\<rparr>)"
    using ids cat by (auto simp: users_ok_def set_update_where)
qed

lemma insert_user_Inr:
  assumes "insert_user now nid p d = Inr (u, d')"
  obtains "d' = d\<lparr>users := users d @ [new_user now nid p]\<rparr>" and "u = scanUser (new_user now nid p)"
    and "nid \<notin> user_ids d" and "cu_Identifier p \<notin> user_identifier ` set (users d)"
    and "to_lower (cu_Email p) \<notin> (\<lambda>x. to_lower (user_email x)) ` set (users d)"
    and "cu_Role p = RoleMember \<longrightarrow> cu_Category p \<noteq> None"
  using assms by (auto simp: insert_user_def new_user_def Let_def split: if_splits)

lemma insert_user_inv:
  assumes inv: "lib_inv d" and ins: "insert_user now nid p d = Inr (u, d')"
  shows "lib_inv d'"
proof -
  from ins have d': "d' = d\<lparr>users := users d @ [new_user now nid p]\<rparr>"
    and new: "nid \<notin> user_ids d" "cu_Identifier p \<notin> user_identifier ` set (users d)"
      "to_lower (cu_Email p) \<notin> (\<lambda>x. to_lower (user_email x)) ` set (users d)"
      "cu_Role p = RoleMember \<longrightarrow> cu_Category p \<noteq> None"
    by (elim insert_user_Inr; simp)+
  have "users_ok d" using inv by blast
  with new show ?thesis unfolding d'
    by (intro lib_inv_users [OF inv]) (auto simp: users_ok_def new_user_def id_sets)
qed

lemma recordAudit_lib_inv: "lib_inv d \<Longrightarrow> recordAudit a act ty e md now d = Inr (x, d') \<Longrightarrow> lib_inv d'"
  by (auto elim!: recordAudit_InrE)

lemma CreateUser_inv: "lib_inv d \<Longrightarrow> lib_inv (snd (CreateUser fl now nid p d))"
  unfolding CreateUser_def
  by (rule transact_inv)
    (auto simp: CreateUser_tx_def andthen_Inr split: sum.splits prod.splits
      dest!: recordAudit_lib_inv [rotated] dest: insert_user_inv)

lemma member_category_kept:
  "lib_inv d \<Longrightarrow> u \<in> set (users d) \<Longrightarrow> user_role u = RoleMember \<Longrightarrow> \<exists>c. user_category u = Some c"
  by (auto simp: lib_inv_def users_ok_def)

lemma UpdateStatus_inv: "lib_inv d \<Longrightarrow> lib_inv (snd (UpdateStatus fl now i status staffID d))"
  unfolding UpdateStatus_def
proof (rule transact_inv)
  fix x d' assume inv: "lib_inv d" and "UpdateStatus_tx fl now i status staffID d = Inr (x, d')"
  then obtain d1 where d1: "d1 = update_user i (\<lambda>u. u\<lparr>user_status := status, user_updated_at := now\<rparr>) d"
    and a: "recordAudit staffID ''MEMBER_STATUS_CHANGED'' ''user'' i
        [(''status'', JStr (user_status_string status))] now d1 = Inr ((), d')"
    by (auto simp: UpdateStatus_tx_def andthen_Inr)
  have "lib_inv d1" unfolding d1
    by (rule update_user_inv [OF inv]) (use inv in \<open>auto simp: lib_inv_def users_ok_def\<close>)
  then show "lib_inv d'" using a by (rule recordAudit_lib_inv)
qed

lemma UpdateRole_tx_Inr:
  assumes "UpdateRole_tx fl now i r category staffID d = Inr (x, d')"
  obtains (unchanged) "d' = d"
  | (changed) u resolved a where "find_user_row i d = Some u" and "r = RoleMember \<longrightarrow> resolved \<noteq> None"
    and "\<not> (user_role u = RoleAdmin \<and> r \<noteq> RoleAdmin \<and> admin_count d \<le> 1)"
    and "d' = (update_user i (role_upd now r resolved) d)\<lparr>audit_log := audit_log d @ [a]\<rparr>"
proof -
  from assms obtain u where u: "find_user_row i d = Some u"
    by (auto simp: UpdateRole_tx_def andthen_Inr split: option.splits)
  with assms obtain resolved where res: "resolve_category r category (user_category u) = Inr resolved"
    by (auto simp: UpdateRole_tx_def andthen_Inr split: sum.splits)
  from assms u res have g: "r = RoleMember \<longrightarrow> resolved \<noteq> None"
      "\<not> (user_role u = RoleAdmin \<and> r \<noteq> RoleAdmin \<and> admin_count d \<le> 1)"
    and alt: "d' = d \<or> (\<exists>md. recordAudit staffID ''MEMBER_ROLE_CHANGED'' ''user'' i md now
        (update_user i (role_upd now r resolved) d) = Inr ((), d'))"
    by (auto simp: UpdateRole_tx_def andthen_Inr split: if_splits)
  from alt show thesis
  proof
    assume "d' = d" then show thesis by (rule unchanged)
  next
    assume "\<exists>md. recordAudit staffID ''MEMBER_ROLE_CHANGED'' ''user'' i md now
        (update_user i (role_upd now r resolved) d) = Inr ((), d')"
    then obtain a where "d' = (update_user i (role_upd now r resolved) d)\<lparr>audit_log := audit_log d @ [a]\<rparr>"
      by (auto simp: update_user_def elim!: recordAudit_InrE)
    with u g show thesis by (rule changed)
  qed
qed

lemma UpdateRole_inv: "lib_inv d \<Longrightarrow> lib_inv (snd (UpdateRole fl now i r category staffID d))"
  unfolding UpdateRole_def
proof (rule transact_inv)
  fix x d' assume inv: "lib_inv d" and "UpdateRole_tx fl now i r category staffID d = Inr (x, d')"
  then show "lib_inv d'"
    by (elim UpdateRole_tx_Inr) (auto simp: role_upd_def intro!: update_user_inv)
qed

lemma UpdatePassword_Inr:
  assumes "UpdatePassword fl now i hash d = (Inr x, d')"
  obtains "i \<in> user_ids d" and "d' = update_user i (\<lambda>u. u\<lparr>password_hash := hash,
    user_must_change_password := False, tokens_invalid_before := now,
    password_changed_at := Some now, user_updated_at := now\<rparr>) d"
  using assms
  by (auto simp: UpdatePassword_def transact_def andthen_Inr count_where_pos user_ids_def
      split: sum.splits dest!: fail_if_Inr [THEN iffD1])

lemma UpdatePassword_inv: "lib_inv d \<Longrightarrow> lib_inv (snd (UpdatePassword fl now i hash d))"
  unfolding UpdatePassword_def
  by (rule transact_inv) (auto simp: andthen_Inr member_category_kept intro!: update_user_inv)

lemma tokens_same:
  "same_library d (snd (SaveRefreshToken fl now u hash expires d))"
  "same_library d (snd (ConsumeRefreshToken fl now hash d))"
  "same_library d (snd (RevokeRefreshToken fl now hash d))"
  "same_library d (snd (RevokeAllRefreshTokens fl now u d))"
  "same_library d (snd (SavePasswordReset fl u hash expires d))"
  "same_library d (snd (ConsumePasswordReset fl now hash d))"
  "same_library d (snd (InvalidatePasswordResets fl now u d))"
  unfolding SaveRefreshToken_def ConsumeRefreshToken_def RevokeRefreshToken_def
    RevokeAllRefreshTokens_def SavePasswordReset_def ConsumePasswordReset_def InvalidatePasswordResets_def
  by (rule same_library_transact; auto simp: Let_def split: if_splits option.splits sum.splits)+

section \<open>Sessions after a password change\<close>

lemma find_update_user:
  "(\<And>u. user_id (f u) = user_id u) \<Longrightarrow>
   find_user_row j (update_user i f d) = map_option (\<lambda>u. if user_id u = i then f u else u) (find_user_row j d)"
  unfolding find_user_row_def update_user_def by (simp add: find_update_where)

lemma Consume_unusable:
  "(\<And>t. t \<in> set (refresh_tokens d) \<Longrightarrow> \<not> usable now hash d t) \<Longrightarrow>
   ConsumeRefreshToken no_faults now hash d = (Inl ErrNotFound, d)"
proof -
  assume "\<And>t. t \<in> set (refresh_tokens d) \<Longrightarrow> \<not> usable now hash d t"
  then have "find (usable now hash d) (refresh_tokens d) = None" by (simp add: find_None)
  then show ?thesis by (simp add: ConsumeRefreshToken_def transact_def)
qed

section \<open>Properties\<close>

text \<open>Creating an account and changing its status, role or password keep the library's invariant,
  whichever statement fails: identifiers and emails stay unique (emails without case), every member
  keeps a borrowing category; and a change of role never leaves a library that had an
  administrator without one.\<close>

theorem accounts_keep_invariant:
  assumes "lib_inv d"
  shows "lib_inv (snd (CreateUser fl now nid p d)) \<and> lib_inv (snd (UpdateStatus fl now i status staff d)) \<and>
    lib_inv (snd (UpdateRole fl now i r category staff d)) \<and> lib_inv (snd (UpdatePassword fl now i hash d)) \<and>
    (0 < admin_count d \<longrightarrow> 0 < admin_count (snd (UpdateRole fl now i r category staff d)))"
proof -
  have "0 < admin_count d'"
    if adm: "0 < admin_count d" and res: "UpdateRole_tx fl now i r category staff d = Inr (x, d')" for x d'
    using res
  proof (cases rule: UpdateRole_tx_Inr)
    case unchanged
    with adm show ?thesis by simp
  next
    case (changed u resolved a)
    let ?f = "role_upd now r resolved"
    have f: "user_role (?f v) = r" "user_id (?f v) = user_id v" for v by (simp_all add: role_upd_def)
    have us: "users d' = update_where (\<lambda>u. user_id u = i) ?f (users d)"
      by (simp add: changed(4) update_user_def)
    from changed(1) have u: "u \<in> set (users d)" "user_id u = i" by (auto dest: find_rowD)
    show ?thesis
    proof (cases "r = RoleAdmin")
      case True
      then have "?f u \<in> set (users d') \<and> user_role (?f u) = RoleAdmin"
        using u f True by (auto simp: us set_update_where)
      then show ?thesis unfolding admin_count_def count_where_pos by blast
    next
      case False
      show ?thesis
      proof (cases "\<exists>v \<in> set (users d). user_role v = RoleAdmin \<and> user_id v \<noteq> i")
        case True
        then show ?thesis by (auto simp: admin_count_def count_where_pos us set_update_where)
      next
        case none: False
        have "users_ok d" using assms by blast
        then have "distinct (map user_id (users d))" by (simp add: users_ok_def)
        then have "count_where (\<lambda>v. user_id v = i) (users d) \<le> 1" by (rule count_key_le1)
        moreover have "admin_count d \<le> count_where (\<lambda>v. user_id v = i) (users d)"
          unfolding admin_count_def using none by (intro count_where_mono) auto
        ultimately have one: "admin_count d \<le> 1" by simp
        obtain v where v: "v \<in> set (users d)" "user_role v = RoleAdmin"
          using adm by (auto simp: admin_count_def count_where_pos)
        with none have "user_id v = i" by blast
        with v u \<open>distinct (map user_id (users d))\<close> have "v = u" by (auto dest: distinct_key)
        with v changed(3) one False show ?thesis by simp
      qed
    qed
  qed
  then have "0 < admin_count d \<longrightarrow> 0 < admin_count (snd (UpdateRole fl now i r category staff d))"
    by (auto simp: UpdateRole_def transact_def split: sum.splits)
  with CreateUser_inv [OF assms] UpdateStatus_inv [OF assms] UpdateRole_inv [OF assms] UpdatePassword_inv [OF assms]
  show ?thesis by blast
qed

theorem accounts_keep_invariant_witness:
  "0 < admin_count (snd (UpdateRole no_faults 9 4 RoleLibrarian None 1 sample_db))"
  using accounts_keep_invariant [OF sample_inv, where fl = no_faults and now = 9 and i = 4 and r = RoleLibrarian
      and category = None and staff = 1]
  by (simp add: admin_count_def)

text \<open>C14: a password change ends every session. Once the new hash is stored, no access token issued
  before that instant passes the session check, whatever role it carries, and no refresh token
  created before it can be exchanged at any later time, without anything having been revoked.\<close>

theorem password_change_ends_sessions:
  assumes "UpdatePassword fl now i hash d = (Inr (), d')"
    and "\<forall>t \<in> set (refresh_tokens d). rt_hash t = token \<longrightarrow> rt_user t = i \<and> rt_created_at t < now"
    and "issued < now"
  shows "SessionValid no_faults i issued tokenRole d' = Inr False \<and>
    ConsumeRefreshToken no_faults later token d' = (Inl ErrNotFound, d')"
proof -
  let ?f = "\<lambda>u. u\<lparr>password_hash := hash, user_must_change_password := False, tokens_invalid_before := now,
    password_changed_at := Some now, user_updated_at := now\<rparr>"
  from assms(1) have i: "i \<in> user_ids d" and d': "d' = update_user i ?f d"
    by (elim UpdatePassword_Inr; simp)+
  obtain u where u: "find_user_row i d = Some u" using i by (metis find_user_row_None option.exhaust)
  then have row: "find_user_row i d' = Some (?f u)"
    by (auto simp: d' find_update_user dest: find_rowD)
  have "\<not> usable later token d' t" if "t \<in> set (refresh_tokens d')" for t
    using that assms(2) row by (auto simp: d' update_user_def usable_def)
  with row assms(3) show ?thesis by (simp add: SessionValid_def Consume_unusable)
qed

definition sample_sessions :: db where
  "sample_sessions = sample_db\<lparr>refresh_tokens := [\<lparr>rt_user = 2, rt_hash = ''h'', rt_expires_at = 30 * day,
     rt_revoked_at = None, rt_created_at = 5\<rparr>]\<rparr>"

theorem password_change_ends_sessions_witness:
  "\<exists>d'. UpdatePassword no_faults 9 2 ''new'' sample_sessions = (Inr (), d') \<and>
     ConsumeRefreshToken no_faults 10 ''h'' d' = (Inl ErrNotFound, d')"
proof -
  obtain d' where u: "UpdatePassword no_faults 9 2 ''new'' sample_sessions = (Inr (), d')"
    by (simp add: UpdatePassword_def transact_def sample_sessions_def)
  have "\<forall>t \<in> set (refresh_tokens sample_sessions). rt_hash t = ''h'' \<longrightarrow> rt_user t = 2 \<and> rt_created_at t < 9"
    by (simp add: sample_sessions_def)
  from password_change_ends_sessions [OF u this, where issued = 5 and tokenRole = "''member''" and later = 10] u show ?thesis by auto
qed

text \<open>A refresh token buys one session. Exchanging it succeeds only for an unrevoked, unexpired token
  made since its owner's sessions were last ended, changes no table of the library, and the same token
  is refused at any later time.\<close>

theorem refresh_is_single_use:
  assumes "ConsumeRefreshToken fl now hash d = (Inr u, d')" and "now \<le> later"
  shows "(\<exists>t \<in> set (refresh_tokens d). usable now hash d t \<and> rt_user t = u) \<and>
    same_library d d' \<and> ConsumeRefreshToken no_faults later hash d' = (Inl ErrNotFound, d')"
proof -
  from assms obtain t where t: "find (usable now hash d) (refresh_tokens d) = Some t" "rt_user t = u"
    and d': "d' = d\<lparr>refresh_tokens := update_where (usable now hash d) (\<lambda>t. t\<lparr>rt_revoked_at := Some now\<rparr>)
      (refresh_tokens d)\<rparr>"
    by (auto simp: ConsumeRefreshToken_def transact_def split: option.splits sum.splits)
  have "usable later hash d' x = usable later hash d x" for x
    by (simp add: usable_def d' find_user_row_def)
  moreover have "usable now hash d x" if "usable later hash d x" for x
    using that assms(2) by (auto simp: usable_def)
  moreover have "\<not> usable later hash d (x\<lparr>rt_revoked_at := Some now\<rparr>)" for x
    by (simp add: usable_def)
  ultimately have "\<not> usable later hash d' x" if "x \<in> set (refresh_tokens d')" for x
    using that by (auto simp: d' set_update_where)
  then have "ConsumeRefreshToken no_faults later hash d' = (Inl ErrNotFound, d')" by (rule Consume_unusable)
  with t show ?thesis by (auto dest: find_SomeD simp: d')
qed

theorem refresh_is_single_use_witness:
  "\<exists>d'. ConsumeRefreshToken no_faults 9 ''h'' sample_sessions = (Inr 2, d') \<and>
     ConsumeRefreshToken no_faults 10 ''h'' d' = (Inl ErrNotFound, d')"
proof -
  obtain d' where c: "ConsumeRefreshToken no_faults 9 ''h'' sample_sessions = (Inr 2, d')"
    by (simp add: ConsumeRefreshToken_def transact_def sample_sessions_def usable_def find_user_row_def
        durations) (simp add: sample_user_def)
  from refresh_is_single_use [OF c, of 10] c show ?thesis by simp
qed

end
