(* ===== verification/Rate_Limit.thy ===== *)
theory Rate_Limit
  imports Prelude
begin

text \<open>
  Rate limiting (package ratelimit): the Redis counter, the in-process fixed window with its sweep,
  and the policies. Both limiters meet one contract, the locale of this theory, and are compared on
  the requests they allow within one window of time.
\<close>

section \<open>The in-process limiter\<close>

record window =
  win_count :: int
  win_reset :: time

type_synonym memory = "string \<Rightarrow> window option"

definition Memory_Allow :: "string \<Rightarrow> int \<Rightarrow> duration \<Rightarrow> time \<Rightarrow> memory \<Rightarrow> bool \<times> memory" where
  "Memory_Allow key limit w now m =
     (let entry = (case m key of
            None \<Rightarrow> \<lparr>win_count = 0, win_reset = now + w\<rparr>
          | Some e \<Rightarrow> if win_reset e < now then \<lparr>win_count = 0, win_reset = now + w\<rparr> else e);
          entry = entry\<lparr>win_count := win_count entry + 1\<rparr>
      in (win_count entry \<le> limit, m(key \<mapsto> entry)))"

definition sweep :: "time \<Rightarrow> memory \<Rightarrow> memory" where
  "sweep now m = (\<lambda>k. case m k of None \<Rightarrow> None | Some w \<Rightarrow> if win_reset w < now then None else Some w)"

section \<open>The Redis limiter\<close>

text \<open>
  INCR on a key that is missing or has expired starts from zero; EXPIRE gives the key a new life. A
  failed round trip changes nothing the code relies on.
\<close>

record counter =
  ctr_value :: int
  ctr_expires :: time

type_synonym redis = "string \<Rightarrow> counter option"

definition redis_value :: "string \<Rightarrow> time \<Rightarrow> redis \<Rightarrow> int" where
  "redis_value key now r =
     (case r key of None \<Rightarrow> 0 | Some c \<Rightarrow> if ctr_expires c \<le> now then 0 else ctr_value c)"

definition Redis_Allow :: "string \<Rightarrow> string \<Rightarrow> int \<Rightarrow> duration \<Rightarrow> time \<Rightarrow> redis \<Rightarrow> bool \<times> redis" where
  "Redis_Allow prefix key limit w now r =
     (let key = prefix @ key; n = redis_value key now r + 1
      in (n \<le> limit, r(key \<mapsto> \<lparr>ctr_value = n, ctr_expires = now + w\<rparr>)))"

definition Redis_Allow_io ::
  "string \<Rightarrow> string option \<Rightarrow> string \<Rightarrow> int \<Rightarrow> duration \<Rightarrow> time \<Rightarrow> redis \<Rightarrow> (string + bool) \<times> redis" where
  "Redis_Allow_io prefix failure key limit w now r =
     (case failure of
        Some e \<Rightarrow> (Inl e, r)
      | None \<Rightarrow> (case Redis_Allow prefix key limit w now r of (ok, r) \<Rightarrow> (Inr ok, r)))"

section \<open>Policies\<close>

record policy =
  pol_Limit :: int
  pol_Window :: duration

definition PerAccountLogin :: policy where
  "PerAccountLogin = \<lparr>pol_Limit = 5, pol_Window = minute\<rparr>"

definition PerAccountReset :: policy where
  "PerAccountReset = \<lparr>pol_Limit = 3, pol_Window = hour\<rparr>"

definition PerIPAuth :: policy where
  "PerIPAuth = \<lparr>pol_Limit = 120, pol_Window = minute\<rparr>"

section \<open>The contract of a limiter\<close>

text \<open>
  What the services rely on: a request counts against its key alone, and is allowed while the count
  of the key stays within the limit. The count is a ghost of the limiter's state at an instant.
\<close>

locale limiter =
  fixes Allow :: "string \<Rightarrow> int \<Rightarrow> duration \<Rightarrow> time \<Rightarrow> 's \<Rightarrow> bool \<times> 's"
    and used :: "string \<Rightarrow> time \<Rightarrow> 's \<Rightarrow> int"
  assumes allow_iff: "fst (Allow key limit w now s) \<longleftrightarrow> used key now s + 1 \<le> limit"
    and used_after: "0 < w \<Longrightarrow> used key now (snd (Allow key limit w now s)) = used key now s + 1"
    and used_other: "key' \<noteq> key \<Longrightarrow> used key' t (snd (Allow key limit w now s)) = used key' t s"
begin

text \<open>A burst: requests for a key at one instant, whoever else asks in between.\<close>

fun burst :: "string \<Rightarrow> int \<Rightarrow> duration \<Rightarrow> time \<Rightarrow> string list \<Rightarrow> 's \<Rightarrow> nat" where
  "burst key limit w now [] s = 0"
| "burst key limit w now (k # ks) s =
     (case Allow k limit w now s of (ok, s) \<Rightarrow>
        (if k = key \<and> ok then 1 else 0) + burst key limit w now ks s)"

lemma burst_bound:
  "0 < w \<Longrightarrow> int (burst key limit w now ks s) \<le> max 0 (limit - used key now s)"
proof (induction ks arbitrary: s)
  case (Cons k ks)
  obtain ok s' where a: "Allow k limit w now s = (ok, s')" by (rule prod.exhaust)
  have ih: "int (burst key limit w now ks s') \<le> max 0 (limit - used key now s')" using Cons by simp
  show ?case
  proof (cases "k = key")
    case True
    then have "used key now s' = used key now s + 1" "ok \<longleftrightarrow> used key now s + 1 \<le> limit"
      using a used_after [OF Cons.prems, of key now limit s] allow_iff [of key limit w now s] by simp_all
    with ih a True show ?thesis by auto
  next
    case False
    then have "used key now s' = used key now s" using a used_other [of key k now limit w now s] by simp
    with ih a False show ?thesis by simp
  qed
qed simp

end

definition memory_used :: "string \<Rightarrow> time \<Rightarrow> memory \<Rightarrow> int" where
  "memory_used key now m =
     (case m key of None \<Rightarrow> 0 | Some e \<Rightarrow> if win_reset e < now then 0 else win_count e)"

interpretation mem: limiter Memory_Allow memory_used
  by unfold_locales (auto simp: Memory_Allow_def memory_used_def Let_def split: option.splits)

interpretation red: limiter "Redis_Allow prefix" "\<lambda>key. redis_value (prefix @ key)" for prefix
  by unfold_locales (auto simp: Redis_Allow_def redis_value_def Let_def split: option.splits)

section \<open>Requests over time\<close>

text \<open>What happens to a limiter: a request for a key, or the sweep (which Redis does not have).\<close>

datatype event = Request string time | Sweep time

fun event_time :: "event \<Rightarrow> time" where
  "event_time (Request k t) = t"
| "event_time (Sweep t) = t"

text \<open>The number of requests for a key that are allowed.\<close>

fun memory_allowed :: "string \<Rightarrow> policy \<Rightarrow> event list \<Rightarrow> memory \<Rightarrow> nat" where
  "memory_allowed key p [] m = 0"
| "memory_allowed key p (Sweep t # es) m = memory_allowed key p es (sweep t m)"
| "memory_allowed key p (Request k t # es) m =
     (case Memory_Allow k (pol_Limit p) (pol_Window p) t m of (ok, m) \<Rightarrow>
        (if k = key \<and> ok then 1 else 0) + memory_allowed key p es m)"

fun redis_allowed :: "string \<Rightarrow> string \<Rightarrow> policy \<Rightarrow> (string \<times> time) list \<Rightarrow> redis \<Rightarrow> nat" where
  "redis_allowed prefix key p [] r = 0"
| "redis_allowed prefix key p ((k, t) # es) r =
     (case Redis_Allow prefix k (pol_Limit p) (pol_Window p) t r of (ok, r) \<Rightarrow>
        (if k = key \<and> ok then 1 else 0) + redis_allowed prefix key p es r)"

text \<open>While the window of a key is open, it allows what is left of the limit.\<close>

lemma memory_open_window:
  assumes "m key = Some e" and "\<forall>ev \<in> set es. event_time ev \<le> win_reset e"
  shows "int (memory_allowed key p es m) \<le> max 0 (pol_Limit p - win_count e)"
  using assms
proof (induction es arbitrary: m e)
  case (Cons ev es)
  show ?case
  proof (cases ev)
    case (Sweep t)
    with Cons.prems have "sweep t m key = Some e" by (simp add: sweep_def)
    with Cons Sweep show ?thesis by simp
  next
    case (Request k t)
    obtain ok m' where a: "Memory_Allow k (pol_Limit p) (pol_Window p) t m = (ok, m')" by (rule prod.exhaust)
    show ?thesis
    proof (cases "k = key")
      case True
      with a Cons.prems Request have "m' key = Some (e\<lparr>win_count := win_count e + 1\<rparr>)"
        "ok \<longleftrightarrow> win_count e + 1 \<le> pol_Limit p"
        by (auto simp: Memory_Allow_def Let_def)
      with Cons.IH [of m' "e\<lparr>win_count := win_count e + 1\<rparr>"] Cons.prems a True Request show ?thesis by auto
    next
      case False
      with a have "m' key = m key" by (auto simp: Memory_Allow_def Let_def)
      with Cons.IH [of m' e] Cons.prems a False Request show ?thesis by auto
    qed
  qed
qed simp

text \<open>A key without an open window gets a new one at its next request, which outlives the span.\<close>

lemma memory_closed_window:
  assumes "m key = None" and "0 \<le> pol_Limit p" and "\<forall>ev \<in> set es. start \<le> event_time ev \<and> event_time ev \<le> start + pol_Window p"
  shows "int (memory_allowed key p es m) \<le> pol_Limit p"
  using assms
proof (induction es arbitrary: m)
  case (Cons ev es)
  show ?case
  proof (cases ev)
    case (Sweep t)
    with Cons.prems have "sweep t m key = None" by (simp add: sweep_def)
    with Cons Sweep show ?thesis by simp
  next
    case (Request k t)
    obtain ok m' where a: "Memory_Allow k (pol_Limit p) (pol_Window p) t m = (ok, m')" by (rule prod.exhaust)
    show ?thesis
    proof (cases "k = key")
      case True
      let ?e = "\<lparr>win_count = 1, win_reset = t + pol_Window p\<rparr>"
      from a Cons.prems True have e: "m' key = Some ?e" "ok \<longleftrightarrow> 1 \<le> pol_Limit p"
        by (auto simp: Memory_Allow_def Let_def)
      have "\<forall>ev \<in> set es. event_time ev \<le> win_reset ?e" using Cons.prems(3) Request by fastforce
      with memory_open_window [of m' key ?e es p] e a True Request Cons.prems(2) show ?thesis by auto
    next
      case False
      with a have "m' key = m key" by (auto simp: Memory_Allow_def Let_def)
      with Cons a False Request show ?thesis by simp
    qed
  qed
qed simp

lemma memory_span:
  assumes "\<forall>e. m key = Some e \<longrightarrow> 0 \<le> win_count e" and "0 \<le> pol_Limit p"
    and "\<forall>ev \<in> set es. start \<le> event_time ev \<and> event_time ev \<le> start + pol_Window p"
  shows "int (memory_allowed key p es m) \<le>
    pol_Limit p + max 0 (pol_Limit p - (case m key of None \<Rightarrow> pol_Limit p | Some e \<Rightarrow> win_count e))"
  using assms
proof (induction es arbitrary: m)
  case Nil
  then show ?case by (auto split: option.splits)
next
  case (Cons ev es)
  show ?case
  proof (cases "m key")
    case None
    with memory_closed_window [of m key p "ev # es" start] Cons.prems show ?thesis by simp
  next
    case (Some e)
    show ?thesis
    proof (cases ev)
      case (Sweep t)
      show ?thesis
      proof (cases "win_reset e < t")
        case True
        with Some have "sweep t m key = None" by (simp add: sweep_def)
        with memory_closed_window [of "sweep t m" key p es start] Cons.prems(2,3) Sweep show ?thesis by simp
      next
        case False
        with Some have "sweep t m key = Some e" by (simp add: sweep_def)
        with Cons.IH [of "sweep t m"] Cons.prems Some Sweep show ?thesis by simp
      qed
    next
      case (Request k t)
      obtain ok m' where a: "Memory_Allow k (pol_Limit p) (pol_Window p) t m = (ok, m')" by (rule prod.exhaust)
      show ?thesis
      proof (cases "k = key")
        case False
        with a have "m' key = m key" by (auto simp: Memory_Allow_def Let_def)
        with Cons.IH [of m'] Cons.prems a False Request Some show ?thesis by simp
      next
        case key: True
        show ?thesis
        proof (cases "win_reset e < t")
          case True
          let ?e = "\<lparr>win_count = 1, win_reset = t + pol_Window p\<rparr>"
          from a Some True key have e: "m' key = Some ?e" "ok \<longleftrightarrow> 1 \<le> pol_Limit p"
            by (auto simp: Memory_Allow_def Let_def)
          have "\<forall>ev \<in> set es. event_time ev \<le> win_reset ?e" using Cons.prems(3) Request by fastforce
          with memory_open_window [of m' key ?e es p] e a key Request Cons.prems(2) Some show ?thesis by auto
        next
          case False
          let ?e = "e\<lparr>win_count := win_count e + 1\<rparr>"
          from a Some False key have e: "m' key = Some ?e" "ok \<longleftrightarrow> win_count e + 1 \<le> pol_Limit p"
            by (auto simp: Memory_Allow_def Let_def)
          have "0 \<le> win_count e" using Cons.prems(1) Some by blast
          with Cons.IH [of m'] Cons.prems e a key Request Some show ?thesis by auto
        qed
      qed
    qed
  qed
qed

text \<open>Each request comes before the counter of the one before it has expired.\<close>

definition unbroken :: "duration \<Rightarrow> time list \<Rightarrow> bool" where
  "unbroken w ts \<longleftrightarrow> (\<forall>i. Suc i < length ts \<longrightarrow> ts ! Suc i < ts ! i + w)"

lemma unbroken_Cons2: "unbroken w (t # t' # ts) \<longleftrightarrow> t' < t + w \<and> unbroken w (t' # ts)"
  by (auto simp: unbroken_def nth_Cons split: nat.splits)

lemma redis_allowed_step:
  "redis_allowed prefix key p (map (Pair key) (t # ts)) r =
     (if redis_value (prefix @ key) t r + 1 \<le> pol_Limit p then 1 else 0) +
     redis_allowed prefix key p (map (Pair key) ts)
       (r(prefix @ key \<mapsto> \<lparr>ctr_value = redis_value (prefix @ key) t r + 1, ctr_expires = t + pol_Window p\<rparr>))"
  by (simp add: Redis_Allow_def Let_def)

lemma redis_chain:
  assumes "unbroken (pol_Window p) (t # ts)" and "0 \<le> pol_Limit p" and "0 \<le> redis_value (prefix @ key) t r"
  shows "int (redis_allowed prefix key p (map (Pair key) (t # ts)) r) \<le>
    max 0 (pol_Limit p - redis_value (prefix @ key) t r)"
  using assms
proof (induction ts arbitrary: t r)
  case Nil
  then show ?case by (simp add: Redis_Allow_def Let_def)
next
  case (Cons t' ts)
  let ?n = "redis_value (prefix @ key) t r + 1"
  define r' where "r' = r(prefix @ key \<mapsto> \<lparr>ctr_value = ?n, ctr_expires = t + pol_Window p\<rparr>)"
  from Cons.prems(1) have t': "t' < t + pol_Window p" and u: "unbroken (pol_Window p) (t' # ts)"
    by (simp_all add: unbroken_Cons2)
  then have n: "redis_value (prefix @ key) t' r' = ?n" by (simp add: redis_value_def r'_def)
  have "int (redis_allowed prefix key p (map (Pair key) (t' # ts)) r') \<le> max 0 (pol_Limit p - ?n)"
    using Cons.IH [OF u Cons.prems(2), of r'] Cons.prems(3) unfolding n by simp
  then show ?case unfolding redis_allowed_step [of prefix key p t] r'_def [symmetric]
    by (auto simp del: redis_allowed.simps list.map)
qed

section \<open>Properties\<close>

text \<open>C25: what a limit is worth. Within any span as long as its window the in-process limiter allows a key
  at most twice its limit, however requests for other keys and sweeps are interleaved; the Redis
  limiter renews the life of a counter at every request, so as long as requests for a key keep coming
  within a window of each other it allows no more than the limit in all: the counter is not a fixed
  window, and a persistent caller keeps an account locked for as long as he goes on.\<close>

theorem limits_hold:
  assumes "0 \<le> pol_Limit p"
    and "\<forall>e. m key = Some e \<longrightarrow> 0 \<le> win_count e"
    and "\<forall>ev \<in> set es. start \<le> event_time ev \<and> event_time ev \<le> start + pol_Window p"
    and "unbroken (pol_Window p) ts" and "\<forall>t \<in> set ts. 0 \<le> redis_value (prefix @ key) t r"
  shows "int (memory_allowed key p es m) \<le> 2 * pol_Limit p \<and>
    int (redis_allowed prefix key p (map (Pair key) ts) r) \<le> pol_Limit p"
proof
  have "pol_Limit p + max 0 (pol_Limit p - (case m key of None \<Rightarrow> pol_Limit p | Some e \<Rightarrow> win_count e)) \<le> 2 * pol_Limit p"
    using assms(1,2) by (auto split: option.splits)
  moreover have "int (memory_allowed key p es m) \<le>
      pol_Limit p + max 0 (pol_Limit p - (case m key of None \<Rightarrow> pol_Limit p | Some e \<Rightarrow> win_count e))"
    using assms(2,1,3) by (rule memory_span)
  ultimately show "int (memory_allowed key p es m) \<le> 2 * pol_Limit p" by linarith
  show "int (redis_allowed prefix key p (map (Pair key) ts) r) \<le> pol_Limit p"
  proof (cases ts)
    case Nil
    with assms(1) show ?thesis by simp
  next
    case (Cons t ts')
    with redis_chain [of p t ts' prefix key r] assms(1,4,5) show ?thesis by auto
  qed
qed

text \<open>Six failed logins: five within a minute and one two minutes later.\<close>

theorem limits_hold_witness:
  "memory_allowed ''k'' PerAccountLogin (map (Request ''k'') [0, 1, 2, 3, 4, minute]) (\<lambda>_. None) = 5 \<and>
   redis_allowed ''h:'' ''k'' PerAccountLogin (map (Pair ''k'') [0, 1, 2, 3, 4, minute]) (\<lambda>_. None) = 5 \<and>
   int (memory_allowed ''k'' PerAccountLogin (map (Request ''k'') [0, 1, 2, 3, 4, minute]) (\<lambda>_. None)) \<le> 10"
proof -
  have u: "unbroken (pol_Window PerAccountLogin) [0, 1, 2, 3, 4, minute]"
    by (simp add: PerAccountLogin_def durations unbroken_Cons2) (simp add: unbroken_def)
  have "int (memory_allowed ''k'' PerAccountLogin (map (Request ''k'') [0, 1, 2, 3, 4, minute]) (\<lambda>_. None)) \<le>
      2 * pol_Limit PerAccountLogin \<and>
    int (redis_allowed ''h:'' ''k'' PerAccountLogin (map (Pair ''k'') [0, 1, 2, 3, 4, minute]) (\<lambda>_. None)) \<le>
      pol_Limit PerAccountLogin"
    by (rule limits_hold [where start = 0, OF _ _ _ u])
      (simp_all add: PerAccountLogin_def durations redis_value_def)
  then show ?thesis
    by (simp add: PerAccountLogin_def durations Memory_Allow_def Redis_Allow_def redis_value_def Let_def)
qed

end
