(* ===== verification/Circulation.thy ===== *)
theory Circulation
  imports Sample
begin

text \<open>
  Circulation in the database (circulation_repo.go): lending a copy at the desk or by
  self-checkout, taking it back, the explanations given when either is refused, the listings and
  the dashboard counts. Each operation is one transaction; its statements are numbered in the
  order the code issues them, and the fault plan may fail any of them.
\<close>

section \<open>The head of the queue\<close>

definition queue_key :: "'a reservation_core_scheme \<Rightarrow> time \<times> uuid" where
  "queue_key r = (res_created_at r, res_id r)"

definition waits_for :: "uuid \<Rightarrow> db \<Rightarrow> reservation_row \<Rightarrow> bool" where
  "waits_for copy d r \<longleftrightarrow> book_of_copy copy d = Some (res_book r) \<and> open_reservation r"

definition head_reservation :: "uuid \<Rightarrow> db \<Rightarrow> reservation_row option" where
  "head_reservation copy d = first_by queue_key (waits_for copy d) (reservations d)"

section \<open>Statements of a loan\<close>

record borrow_params =
  bp_copy :: uuid
  bp_user :: uuid
  bp_issued_by :: uuid
  bp_borrowed_at :: time
  bp_due_at :: time
  bp_max_loans :: int

definition select_head :: "uuid \<Rightarrow> db \<Rightarrow> pg_error + uuid \<times> uuid" where
  "select_head copy d =
     (case head_reservation copy d of None \<Rightarrow> Inl NoRows | Some r \<Rightarrow> Inr (res_id r, res_user r))"

definition claimable :: "copy \<Rightarrow> bool" where
  "claimable c \<longleftrightarrow> copy_status c = CopyAvailable \<and> copy_policy c = PolicyCirculating"

definition claim_copy :: "uuid \<Rightarrow> db \<Rightarrow> pg_error + uuid \<times> db" where
  "claim_copy i d =
     (case find (\<lambda>c. copy_id c = i \<and> claimable c) (copies d) of
        None \<Rightarrow> Inl NoRows
      | Some c \<Rightarrow> Inr (copy_id c,
          d\<lparr>copies := update_where (\<lambda>c. copy_id c = i \<and> claimable c)
                        (\<lambda>c. c\<lparr>copy_status := CopyOnLoan\<rparr>) (copies d)\<rparr>))"

definition circulating :: "copy \<Rightarrow> bool" where
  "circulating c \<longleftrightarrow> copy_policy c = PolicyCirculating"

definition stock_of_book :: "uuid \<Rightarrow> db \<Rightarrow> nat" where
  "stock_of_book b d = count_where (\<lambda>c. copy_book c = b \<and> circulating c \<and>
     (copy_status c = CopyAvailable \<or> copy_status c = CopyOnLoan)) (copies d)"

definition available_of_book :: "uuid \<Rightarrow> db \<Rightarrow> nat" where
  "available_of_book b d = count_where (\<lambda>c. copy_book c = b \<and> circulating c \<and>
     copy_status c = CopyAvailable) (copies d)"

definition shelf_counts :: "uuid \<Rightarrow> db \<Rightarrow> nat \<times> nat" where
  "shelf_counts copy d =
     (case book_of_copy copy d of
        None \<Rightarrow> (0, 0)
      | Some b \<Rightarrow> (stock_of_book b d, available_of_book b d))"

definition CountActiveLoans :: "faults \<Rightarrow> nat \<Rightarrow> uuid \<Rightarrow> db \<Rightarrow> error + nat \<times> db" where
  "CountActiveLoans fl k u d =
     (case exec fl k (Inr (open_loans_of_user u d, d)) of
        Inl e \<Rightarrow> Inl (ErrWrap ''counting active loans'' (ErrDriver e))
      | Inr r \<Rightarrow> Inr r)"

definition insert_loan :: "uuid \<Rightarrow> borrow_params \<Rightarrow> db \<Rightarrow> pg_error + loan \<times> db" where
  "insert_loan nid p d =
     (if \<not> bp_borrowed_at p < bp_due_at p then Inl (CheckViolation ''due_after_borrow'')
      else if nid \<in> loan_id ` set (loans d) then Inl (UniqueViolation ''loans_pkey'')
      else if 0 < open_loans_of_copy (bp_copy p) d
      then Inl (UniqueViolation ''one_active_loan_per_copy'')
      else if find_user_row (bp_user p) d = None
      then Inl (ForeignKeyViolation ''loans_user_id_fkey'')
      else if find_user_row (bp_issued_by p) d = None
      then Inl (ForeignKeyViolation ''loans_issued_by_fkey'')
      else case find_copy_row (bp_copy p) d of
        None \<Rightarrow> Inl (ForeignKeyViolation ''loans_copy_id_fkey'')
      | Some c \<Rightarrow> (case find_book_row (copy_book c) d of
          None \<Rightarrow> Inl NoRows
        | Some b \<Rightarrow>
            Inr (\<lparr>loan_id = nid, loan_copy = bp_copy p, loan_user = bp_user p,
                  loan_borrowed_at = bp_borrowed_at p, loan_due_at = bp_due_at p,
                  loan_returned_at = None, loan_issued_by = bp_issued_by p,
                  loan_returned_to = None, loan_book_title = book_title b,
                  loan_accession = copy_accession c, loan_member_name = ''''\<rparr>,
                 d\<lparr>loans := loans d @
                    [\<lparr>loan_id = nid, loan_copy = bp_copy p, loan_user = bp_user p,
                      loan_borrowed_at = bp_borrowed_at p, loan_due_at = bp_due_at p,
                      loan_returned_at = None, loan_issued_by = bp_issued_by p,
                      loan_returned_to = None\<rparr>]\<rparr>)))"

definition fulfil_reservation :: "uuid \<Rightarrow> uuid \<Rightarrow> db \<Rightarrow> pg_error + unit \<times> db" where
  "fulfil_reservation rid u d =
     Inr ((), d\<lparr>reservations := update_where
       (\<lambda>r. res_id r = rid \<and> res_user r = u \<and> open_reservation r)
       (\<lambda>r. r\<lparr>res_status := ResFulfilled\<rparr>) (reservations d)\<rparr>)"

definition explainUnclaimableCopy :: "faults \<Rightarrow> uuid \<Rightarrow> db \<Rightarrow> error" where
  "explainUnclaimableCopy fl i d =
     (case exec fl 3 (case find_copy_row i d of
                        None \<Rightarrow> Inl NoRows | Some c \<Rightarrow> Inr (copy_status c, copy_policy c)) of
        Inl e \<Rightarrow> if e = NoRows then ErrCopyNotFound else translate e
      | Inr (status, policy) \<Rightarrow>
          if \<not> IsBorrowable policy then ErrCopyNotBorrowable else ErrCopyNotAvailable)"

section \<open>Borrow and self-checkout\<close>

definition loan_action :: "bool \<Rightarrow> string" where
  "loan_action self = (if self then ''MEMBER_SELF_CHECKOUT'' else ''LOAN_ISSUED'')"

definition loan_metadata :: "bool \<Rightarrow> loan \<Rightarrow> payload" where
  "loan_metadata self l =
     [(''copy_id'', JUuid (loan_copy l)), (''member_id'', JUuid (loan_user l)),
      (''accession_number'', JStr (loan_accession l)), (''due_at'', JTime (loan_due_at l))] @
     (if self then [(''source'', JStr ''web_self_checkout'')] else [])"

text \<open>The transaction from the moment the queue has let the borrower through.\<close>

definition borrow_claimed ::
  "faults \<Rightarrow> time \<Rightarrow> uuid \<Rightarrow> borrow_params \<Rightarrow> bool \<Rightarrow> uuid \<Rightarrow> db \<Rightarrow> error + loan \<times> db" where
  "borrow_claimed fl now nid p self rid d =
     (case exec fl 2 (claim_copy (bp_copy p) d) of
        Inl e \<Rightarrow> Inl (if e = NoRows then explainUnclaimableCopy fl (bp_copy p) d else translate e)
      | Inr (claimed, d) \<Rightarrow>
          andthen (sql fl 4 (Inr (shelf_counts (bp_copy p) d, d))) (\<lambda>(stock, availableAfter) d.
          fail_if (2 \<le> stock \<and> availableAfter = 0) ErrLastCopyRetained (
          andthen (sql fl 5 (Inr ((), d))) (\<lambda>_ d.
          andthen (CountActiveLoans fl 6 (bp_user p) d) (\<lambda>active d.
          fail_if (bp_max_loans p \<le> int active) ErrLoanLimitReached (
          case exec fl 7 (insert_loan nid p d) of
            Inl e \<Rightarrow> Inl (if isUniqueViolation e ''one_active_loan_per_copy''
                          then ErrCopyNotAvailable else translate e)
          | Inr (l, d) \<Rightarrow>
              andthen (if rid \<noteq> uuid_nil then sql fl 8 (fulfil_reservation rid (bp_user p) d)
                       else Inr ((), d)) (\<lambda>_ d.
              andthen (sql fl 9 (recordAudit (bp_issued_by p) (loan_action self) ''loan''
                                   (loan_id l) (loan_metadata self l) now d)) (\<lambda>_ d.
              commit fl 10 l d))))))))"

definition borrow_tx ::
  "faults \<Rightarrow> time \<Rightarrow> uuid \<Rightarrow> borrow_params \<Rightarrow> bool \<Rightarrow> db \<Rightarrow> error + loan \<times> db" where
  "borrow_tx fl now nid p self d =
     andthen (sql fl 0 (Inr ((), d))) (\<lambda>_ d.
       case exec fl 1 (select_head (bp_copy p) d) of
         Inr (rid, u) \<Rightarrow>
           fail_if (u \<noteq> bp_user p) ErrReservedForOther (borrow_claimed fl now nid p self rid d)
       | Inl e \<Rightarrow>
           fail_if (e \<noteq> NoRows) (translate e) (borrow_claimed fl now nid p self uuid_nil d))"

definition borrow ::
  "faults \<Rightarrow> time \<Rightarrow> uuid \<Rightarrow> borrow_params \<Rightarrow> bool \<Rightarrow> db \<Rightarrow> (error + loan) \<times> db" where
  "borrow fl now nid p self = transact (borrow_tx fl now nid p self)"

definition Borrow ::
  "faults \<Rightarrow> time \<Rightarrow> uuid \<Rightarrow> borrow_params \<Rightarrow> db \<Rightarrow> (error + loan) \<times> db" where
  "Borrow fl now nid p = borrow fl now nid p False"

definition SelfCheckout ::
  "faults \<Rightarrow> time \<Rightarrow> uuid \<Rightarrow> borrow_params \<Rightarrow> db \<Rightarrow> (error + loan) \<times> db" where
  "SelfCheckout fl now nid p = borrow fl now nid p True"

section \<open>Return\<close>

definition close_loan :: "time \<Rightarrow> uuid \<Rightarrow> uuid \<Rightarrow> db \<Rightarrow> pg_error + loan_row \<times> db" where
  "close_loan now i staff d =
     (case find (\<lambda>l. loan_id l = i \<and> open_loan l) (loans d) of
        None \<Rightarrow> Inl NoRows
      | Some l \<Rightarrow>
          if now < loan_borrowed_at l then Inl (CheckViolation ''returned_after_borrow'')
          else if find_user_row staff d = None
          then Inl (ForeignKeyViolation ''loans_returned_to_fkey'')
          else Inr (l\<lparr>loan_returned_at := Some now, loan_returned_to := Some staff\<rparr>,
                 d\<lparr>loans := update_where (\<lambda>l. loan_id l = i \<and> open_loan l)
                    (\<lambda>l. l\<lparr>loan_returned_at := Some now, loan_returned_to := Some staff\<rparr>)
                    (loans d)\<rparr>))"

definition shelve_copy :: "uuid \<Rightarrow> db \<Rightarrow> pg_error + unit \<times> db" where
  "shelve_copy i d =
     Inr ((), d\<lparr>copies := update_where (\<lambda>c. copy_id c = i \<and> copy_status c = CopyOnLoan)
       (\<lambda>c. c\<lparr>copy_status := CopyAvailable\<rparr>) (copies d)\<rparr>)"

definition explainUnreturnableLoan :: "faults \<Rightarrow> uuid \<Rightarrow> db \<Rightarrow> error" where
  "explainUnreturnableLoan fl i d =
     (case exec fl 2 (case find_loan_row i d of None \<Rightarrow> Inl NoRows | Some l \<Rightarrow> Inr True) of
        Inl e \<Rightarrow> if e = NoRows then ErrNotFound else translate e
      | Inr _ \<Rightarrow> ErrLoanAlreadyClosed)"

text \<open>The fields the RETURNING clause scans; the title and names of the struct stay empty.\<close>

definition scanned_loan :: "loan_row \<Rightarrow> loan" where
  "scanned_loan l =
     \<lparr>loan_id = loan_id l, loan_copy = loan_copy l, loan_user = loan_user l,
      loan_borrowed_at = loan_borrowed_at l, loan_due_at = loan_due_at l,
      loan_returned_at = loan_returned_at l, loan_issued_by = loan_issued_by l,
      loan_returned_to = None, loan_book_title = '''', loan_accession = '''',
      loan_member_name = ''''\<rparr>"

definition return_metadata :: "loan \<Rightarrow> payload" where
  "return_metadata l =
     [(''copy_id'', JUuid (loan_copy l)), (''member_id'', JUuid (loan_user l)),
      (''due_at'', JTime (loan_due_at l)),
      (''overdue'', JBool (case loan_returned_at l of None \<Rightarrow> False | Some t \<Rightarrow> loan_due_at l < t))]"

definition Return_tx :: "faults \<Rightarrow> time \<Rightarrow> uuid \<Rightarrow> uuid \<Rightarrow> db \<Rightarrow> error + loan \<times> db" where
  "Return_tx fl now i staff d =
     andthen (sql fl 0 (Inr ((), d))) (\<lambda>_ d.
       case exec fl 1 (close_loan now i staff d) of
         Inl e \<Rightarrow> Inl (if e = NoRows then explainUnreturnableLoan fl i d else translate e)
       | Inr (row, d) \<Rightarrow>
           let l = scanned_loan row in
           andthen (sql fl 3 (shelve_copy (loan_copy l) d)) (\<lambda>_ d.
           andthen (sql fl 4 (recordAudit staff ''LOAN_RETURNED'' ''loan'' (loan_id l)
                                (return_metadata l) now d)) (\<lambda>_ d.
           commit fl 5 l d)))"

definition Return :: "faults \<Rightarrow> time \<Rightarrow> uuid \<Rightarrow> uuid \<Rightarrow> db \<Rightarrow> (error + loan) \<times> db" where
  "Return fl now i staff = transact (Return_tx fl now i staff)"

section \<open>What a successful loan did\<close>

definition loan_row_of :: "loan \<Rightarrow> loan_row" where
  "loan_row_of l = \<lparr>loan_id = loan_id l, loan_copy = loan_copy l, loan_user = loan_user l,
     loan_borrowed_at = loan_borrowed_at l, loan_due_at = loan_due_at l,
     loan_returned_at = loan_returned_at l, loan_issued_by = loan_issued_by l,
     loan_returned_to = loan_returned_to l\<rparr>"

definition claim_upd :: "uuid \<Rightarrow> copy list \<Rightarrow> copy list" where
  "claim_upd i = update_where (\<lambda>c. copy_id c = i \<and> claimable c) (\<lambda>c. c\<lparr>copy_status := CopyOnLoan\<rparr>)"

definition fulfil_upd :: "uuid \<Rightarrow> uuid \<Rightarrow> reservation_row list \<Rightarrow> reservation_row list" where
  "fulfil_upd rid u = (if rid = uuid_nil then id else
     update_where (\<lambda>r. res_id r = rid \<and> res_user r = u \<and> open_reservation r)
       (\<lambda>r. r\<lparr>res_status := ResFulfilled\<rparr>))"

definition head_id :: "uuid \<Rightarrow> db \<Rightarrow> uuid" where
  "head_id copy d = (case head_reservation copy d of None \<Rightarrow> uuid_nil | Some r \<Rightarrow> res_id r)"

lemma claim_copy_Inr:
  "claim_copy i d = Inr (x, d') \<longleftrightarrow>
     (\<exists>c. find (\<lambda>c. copy_id c = i \<and> claimable c) (copies d) = Some c) \<and> x = i \<and>
     d' = d\<lparr>copies := claim_upd i (copies d)\<rparr>"
  by (auto simp: claim_copy_def claim_upd_def dest: find_SomeD split: option.splits)

lemma insert_loan_Inr:
  assumes "insert_loan nid p d = Inr (l, d')"
  obtains c b where "bp_borrowed_at p < bp_due_at p" and "nid \<notin> loan_id ` set (loans d)"
    and "open_loans_of_copy (bp_copy p) d = 0" and "bp_user p \<in> user_ids d"
    and "bp_issued_by p \<in> user_ids d" and "find_copy_row (bp_copy p) d = Some c"
    and "find_book_row (copy_book c) d = Some b"
    and "l = \<lparr>loan_id = nid, loan_copy = bp_copy p, loan_user = bp_user p,
               loan_borrowed_at = bp_borrowed_at p, loan_due_at = bp_due_at p,
               loan_returned_at = None, loan_issued_by = bp_issued_by p,
               loan_returned_to = None, loan_book_title = book_title b,
               loan_accession = copy_accession c, loan_member_name = ''''\<rparr>"
    and "d' = d\<lparr>loans := loans d @ [loan_row_of l]\<rparr>"
  using assms
  by (auto simp: insert_loan_def loan_row_of_def find_user_row_None
      split: if_splits option.splits)

text \<open>The state a successful loan leaves, in one equation.\<close>

definition claimed_db :: "uuid \<Rightarrow> db \<Rightarrow> db" where
  "claimed_db i d = d\<lparr>copies := claim_upd i (copies d)\<rparr>"

definition lent :: "borrow_params \<Rightarrow> uuid \<Rightarrow> loan \<Rightarrow> audit_row \<Rightarrow> db \<Rightarrow> db" where
  "lent p rid l a d =
     d\<lparr>copies := claim_upd (bp_copy p) (copies d), loans := loans d @ [loan_row_of l],
       reservations := fulfil_upd rid (bp_user p) (reservations d),
       audit_log := audit_log d @ [a]\<rparr>"

lemma borrow_claimed_Inr:
  assumes "borrow_claimed fl now nid p self rid d = Inr (l, d')"
  obtains c d2 a where "c \<in> set (copies d)" and "copy_id c = bp_copy p" and "claimable c"
    and "case shelf_counts (bp_copy p) (claimed_db (bp_copy p) d) of
           (stock, avail) \<Rightarrow> stock < 2 \<or> 0 < avail"
    and "int (open_loans_of_user (bp_user p) d) < bp_max_loans p"
    and "insert_loan nid p (claimed_db (bp_copy p) d) = Inr (l, d2)"
    and "a = audit_line (bp_issued_by p) (loan_action self) ''loan'' nid (loan_metadata self l) now"
    and "d' = lent p rid l a d"
proof -
  let ?d1 = "claimed_db (bp_copy p) d"
  from assms obtain c where claim: "find (\<lambda>c. copy_id c = bp_copy p \<and> claimable c) (copies d) = Some c"
    by (auto simp: borrow_claimed_def claim_copy_Inr split: sum.splits prod.splits)
  from assms obtain d2 d3 where
    counts: "case shelf_counts (bp_copy p) ?d1 of (stock, avail) \<Rightarrow> stock < 2 \<or> 0 < avail"
    and limit: "int (open_loans_of_user (bp_user p) ?d1) < bp_max_loans p"
    and ins: "insert_loan nid p ?d1 = Inr (l, d2)"
    and ful: "(if rid \<noteq> uuid_nil then sql fl 8 (fulfil_reservation rid (bp_user p) d2)
               else Inr ((), d2)) = Inr ((), d3)"
    and aud: "recordAudit (bp_issued_by p) (loan_action self) ''loan''
                (loan_id l) (loan_metadata self l) now d3 = Inr ((), d')"
    by (auto simp: borrow_claimed_def claim_copy_Inr claimed_db_def [symmetric] andthen_Inr CountActiveLoans_def
        not_le split: sum.splits prod.splits)
  from ful have d3: "d3 = d2\<lparr>reservations := fulfil_upd rid (bp_user p) (reservations d2)\<rparr>"
    by (auto simp: fulfil_reservation_def fulfil_upd_def split: if_splits)
  from ins have l: "loan_id l = nid" and d2: "d2 = ?d1\<lparr>loans := loans d @ [loan_row_of l]\<rparr>"
    by (auto elim!: insert_loan_Inr simp: claimed_db_def)
  from aud obtain a where a: "d' = d3\<lparr>audit_log := audit_log d3 @ [a]\<rparr>"
    "a = audit_line (bp_issued_by p) (loan_action self) ''loan'' nid (loan_metadata self l) now"
    by (auto elim!: recordAudit_InrE simp: l)
  have "d' = lent p rid l a d" by (simp add: a(1) d3 d2 lent_def claimed_db_def)
  with claim counts limit ins a show thesis
    by (intro that [of c d2 a]) (auto dest: find_SomeD simp: claimed_db_def open_loans_of_user_def)
qed

lemma borrow_tx_Inr:
  assumes "borrow_tx fl now nid p self d = Inr (l, d')"
  obtains "borrow_claimed fl now nid p self (head_id (bp_copy p) d) d = Inr (l, d')"
    and "\<And>r. head_reservation (bp_copy p) d = Some r \<Longrightarrow> res_user r = bp_user p"
  using assms
  by (cases "head_reservation (bp_copy p) d")
     (auto simp: borrow_tx_def select_head_def head_id_def exec_Inl andthen_Inr
       split: sum.splits prod.splits)

text \<open>The invariant is kept, part by part.\<close>

lemma claim_upd_maps [simp]:
  "map copy_id (claim_upd i cs) = map copy_id cs"
  "map copy_accession (claim_upd i cs) = map copy_accession cs"
  "map copy_book (claim_upd i cs) = map copy_book cs"
  "map copy_policy (claim_upd i cs) = map copy_policy cs"
  by (simp_all add: claim_upd_def map_update_where)

lemma fulfil_upd_maps [simp]:
  "map res_id (fulfil_upd rid u rs) = map res_id rs"
  "map res_book (fulfil_upd rid u rs) = map res_book rs"
  "map res_user (fulfil_upd rid u rs) = map res_user rs"
  by (simp_all add: fulfil_upd_def map_update_where)

lemmas claim_upd_sets [simp] = claim_upd_maps [THEN map_eq_set]
lemmas fulfil_upd_sets [simp] = fulfil_upd_maps [THEN map_eq_set]

lemma queue_fulfil_upd:
  "distinct (map f (filter open_reservation rs)) \<Longrightarrow>
   (\<And>r. f (r\<lparr>res_status := ResFulfilled\<rparr>) = f r) \<Longrightarrow>
   distinct (map f (filter open_reservation (fulfil_upd rid u rs)))"
proof (induction rs)
  case (Cons r rs)
  have "set (filter open_reservation (fulfil_upd rid u rs)) \<subseteq> set (filter open_reservation rs)"
    by (auto simp: fulfil_upd_def set_update_where open_reservation_def split: if_splits)
  then have "f ` set (filter open_reservation (fulfil_upd rid u rs))
      \<subseteq> f ` set (filter open_reservation rs)" by blast
  with Cons show ?case
    by (cases "rid = uuid_nil") (auto simp: fulfil_upd_def open_reservation_def)
qed (simp add: fulfil_upd_def)

lemma open_loans_of_copy_lent:
  "loan_returned_at l = None \<Longrightarrow>
   open_loans_of_copy i (lent p rid l a d) =
     open_loans_of_copy i d + (if i = loan_copy l then 1 else 0)"
  by (simp add: open_loans_of_copy_def lent_def loan_row_of_def open_loan_def)

lemma open_loans_of_user_lent:
  "loan_returned_at l = None \<Longrightarrow>
   open_loans_of_user i (lent p rid l a d) =
     open_loans_of_user i d + (if i = loan_user l then 1 else 0)"
  by (simp add: open_loans_of_user_def lent_def loan_row_of_def open_loan_def)

lemma ids_lent [simp]:
  "user_ids (lent p rid l a d) = user_ids d"
  "book_ids (lent p rid l a d) = book_ids d"
  "copy_ids (lent p rid l a d) = copy_ids d"
  by (simp_all add: id_sets lent_def)

lemma ids_claimed [simp]:
  "user_ids (claimed_db i d) = user_ids d"
  "book_ids (claimed_db i d) = book_ids d"
  "copy_ids (claimed_db i d) = copy_ids d"
  "open_loans_of_copy j (claimed_db i d) = open_loans_of_copy j d"
  "loans (claimed_db i d) = loans d"
  "users (claimed_db i d) = users d"
  by (simp_all add: id_sets claimed_db_def open_loans_of_copy_def)

lemma lent_inv:
  assumes inv: "lib_inv d" and c: "c \<in> set (copies d)" "copy_id c = bp_copy p" "claimable c"
    and ins: "insert_loan nid p (claimed_db (bp_copy p) d) = Inr (l, d2)"
  shows "lib_inv (lent p rid l a d)"
proof
  from ins have l: "loan_id l = nid" "loan_copy l = bp_copy p" "loan_user l = bp_user p"
    "loan_returned_at l = None" "nid \<notin> loan_id ` set (loans d)" "bp_user p \<in> user_ids d"
    "loan_borrowed_at l < loan_due_at l" and nol: "open_loans_of_copy (bp_copy p) d = 0"
    by (auto elim!: insert_loan_Inr)
  show "keys_ok (lent p rid l a d)"
    using inv l by (auto simp: lib_inv_def keys_ok_def lent_def loan_row_of_def)
  show "users_ok (lent p rid l a d)"
    using inv by (auto simp: lib_inv_def users_ok_def lent_def)
  have "bp_copy p \<in> copy_id ` set (copies d)" using c by (metis image_eqI)
  then show "refs_ok (lent p rid l a d)"
    using inv l by (auto simp: lib_inv_def refs_ok_def lent_def loan_row_of_def id_sets)
  show "custody_ok (lent p rid l a d)"
    unfolding custody_ok_def
  proof
    fix c' assume "c' \<in> set (copies (lent p rid l a d))"
    then obtain c0 where c0: "c0 \<in> set (copies d)"
      "c' = (if copy_id c0 = bp_copy p \<and> claimable c0 then c0\<lparr>copy_status := CopyOnLoan\<rparr> else c0)"
      by (auto simp: lent_def claim_upd_def set_update_where)
    have cust: "open_loans_of_copy (copy_id c0) d = (if copy_status c0 = CopyOnLoan then 1 else 0)"
      using inv c0 by (auto simp: lib_inv_def custody_ok_def)
    show "open_loans_of_copy (copy_id c') (lent p rid l a d) =
        (if copy_status c' = CopyOnLoan then 1 else 0)"
    proof (cases "copy_id c0 = bp_copy p")
      case True
      then have "c0 = c" using c c0 inv by (auto intro: lib_inv_copy_key)
      with c c0 l nol show ?thesis by (simp add: open_loans_of_copy_lent)
    next
      case False
      with c0 l cust show ?thesis by (simp add: open_loans_of_copy_lent)
    qed
  qed
  show "queue_ok (lent p rid l a d)"
    using inv by (auto simp: lib_inv_def queue_ok_def lent_def intro!: queue_fulfil_upd)
qed

lemma borrow_tx_inv: "lib_inv d \<Longrightarrow> borrow_tx fl now nid p self d = Inr (l, d') \<Longrightarrow> lib_inv d'"
  by (auto elim!: borrow_tx_Inr borrow_claimed_Inr intro: lent_inv)

lemma borrow_inv: "lib_inv d \<Longrightarrow> lib_inv (snd (borrow fl now nid p self d))"
  unfolding borrow_def by (rule transact_inv) (auto dest: borrow_tx_inv)

section \<open>What a successful return did\<close>

definition close_upd :: "time \<Rightarrow> uuid \<Rightarrow> uuid \<Rightarrow> loan_row list \<Rightarrow> loan_row list" where
  "close_upd now i staff = update_where (\<lambda>l. loan_id l = i \<and> open_loan l)
     (\<lambda>l. l\<lparr>loan_returned_at := Some now, loan_returned_to := Some staff\<rparr>)"

definition shelve_upd :: "uuid \<Rightarrow> copy list \<Rightarrow> copy list" where
  "shelve_upd i = update_where (\<lambda>c. copy_id c = i \<and> copy_status c = CopyOnLoan)
     (\<lambda>c. c\<lparr>copy_status := CopyAvailable\<rparr>)"

definition returned :: "time \<Rightarrow> uuid \<Rightarrow> loan_row \<Rightarrow> audit_row \<Rightarrow> db \<Rightarrow> db" where
  "returned now staff row a d =
     d\<lparr>loans := close_upd now (loan_id row) staff (loans d),
       copies := shelve_upd (loan_copy row) (copies d), audit_log := audit_log d @ [a]\<rparr>"

lemma Return_tx_Inr:
  assumes "Return_tx fl now i staff d = Inr (l, d')"
  obtains row a where "row \<in> set (loans d)" and "loan_id row = i" and "open_loan row"
    and "loan_borrowed_at row \<le> now" and "staff \<in> user_ids d"
    and "l = scanned_loan (row\<lparr>loan_returned_at := Some now, loan_returned_to := Some staff\<rparr>)"
    and "a = audit_line staff ''LOAN_RETURNED'' ''loan'' i (return_metadata l) now"
    and "d' = returned now staff row a d"
proof -
  from assms obtain row where
    row: "find (\<lambda>l. loan_id l = i \<and> open_loan l) (loans d) = Some row" "loan_borrowed_at row \<le> now"
      "staff \<in> user_ids d"
    and l: "l = scanned_loan (row\<lparr>loan_returned_at := Some now, loan_returned_to := Some staff\<rparr>)"
    and aud: "recordAudit staff ''LOAN_RETURNED'' ''loan'' (loan_id l) (return_metadata l) now
        (d\<lparr>loans := close_upd now i staff (loans d),
           copies := shelve_upd (loan_copy row) (copies d)\<rparr>) = Inr ((), d')"
    by (auto simp: Return_tx_def close_loan_def shelve_copy_def close_upd_def shelve_upd_def andthen_Inr
        scanned_loan_def find_user_row_None Let_def
        split: sum.splits prod.splits option.splits if_splits)
  from row(1) have r: "row \<in> set (loans d)" "loan_id row = i" "open_loan row"
    by (auto dest: find_SomeD)
  from aud obtain a where "a = audit_line staff ''LOAN_RETURNED'' ''loan'' i (return_metadata l) now"
    "d' = returned now staff row a d"
    by (auto elim!: recordAudit_InrE simp: returned_def r(2) l scanned_loan_def)
  with r row l show thesis by (intro that)
qed

lemma close_upd_maps [simp]:
  "map loan_id (close_upd now i staff ls) = map loan_id ls"
  "map loan_copy (close_upd now i staff ls) = map loan_copy ls"
  "map loan_user (close_upd now i staff ls) = map loan_user ls"
  "map loan_borrowed_at (close_upd now i staff ls) = map loan_borrowed_at ls"
  "map loan_due_at (close_upd now i staff ls) = map loan_due_at ls"
  by (simp_all add: close_upd_def map_update_where)

lemmas close_upd_sets [simp] = close_upd_maps [THEN map_eq_set]

lemma close_upd_due:
  "l \<in> set (close_upd now i staff ls) \<Longrightarrow> \<forall>l \<in> set ls. loan_borrowed_at l < loan_due_at l \<Longrightarrow>
     loan_borrowed_at l < loan_due_at l"
  by (auto simp: close_upd_def set_update_where)

lemma shelve_upd_maps [simp]:
  "map copy_id (shelve_upd i cs) = map copy_id cs"
  "map copy_accession (shelve_upd i cs) = map copy_accession cs"
  "map copy_book (shelve_upd i cs) = map copy_book cs"
  "map copy_policy (shelve_upd i cs) = map copy_policy cs"
  by (simp_all add: shelve_upd_def map_update_where)

lemmas shelve_upd_sets [simp] = shelve_upd_maps [THEN map_eq_set]

text \<open>Closing a loan takes one open loan from its copy and its member, and from no other.\<close>

lemma open_loans_close:
  assumes "distinct (map loan_id ls)" and "row \<in> set ls" and "open_loan row"
    and "\<And>l. k (l\<lparr>loan_returned_at := Some now, loan_returned_to := Some staff\<rparr>) = k l"
  shows "count_where (\<lambda>l. k l = x \<and> open_loan l) ls =
     count_where (\<lambda>l. k l = x \<and> open_loan l) (close_upd now (loan_id row) staff ls) +
     (if k row = x then 1 else 0)"
  using assms
proof (induction ls)
  case (Cons l ls)
  show ?case
  proof (cases "l = row")
    case True
    with Cons.prems have "close_upd now (loan_id row) staff ls = ls"
      unfolding close_upd_def by (intro update_where_none) (auto simp: image_iff)
    with True Cons.prems show ?thesis by (simp add: close_upd_def open_loan_def)
  next
    case False
    with Cons.prems have "loan_id l \<noteq> loan_id row" "row \<in> set ls" by (auto simp: image_iff)
    with Cons show ?thesis by (simp add: close_upd_def)
  qed
qed simp

lemma open_loans_returned:
  assumes "keys_ok d" and "row \<in> set (loans d)" and "open_loan row"
  shows "open_loans_of_copy c d =
      open_loans_of_copy c (returned now staff row a d) + (if loan_copy row = c then 1 else 0)"
    and "open_loans_of_user u d =
      open_loans_of_user u (returned now staff row a d) + (if loan_user row = u then 1 else 0)"
  using assms open_loans_close [where ls = "loans d" and row = row and k = loan_copy and x = c]
    open_loans_close [where ls = "loans d" and row = row and k = loan_user and x = u]
  by (auto simp: keys_ok_def open_loans_of_copy_def open_loans_of_user_def returned_def)

lemma ids_returned [simp]:
  "user_ids (returned now staff row a d) = user_ids d"
  "book_ids (returned now staff row a d) = book_ids d"
  "copy_ids (returned now staff row a d) = copy_ids d"
  by (simp_all add: id_sets returned_def)

lemma returned_inv:
  assumes inv: "lib_inv d" and row: "row \<in> set (loans d)" "open_loan row"
  shows "lib_inv (returned now staff row a d)"
proof
  have k: "keys_ok d" using inv by blast
  show "keys_ok (returned now staff row a d)" using k by (simp add: keys_ok_def returned_def)
  show "users_ok (returned now staff row a d)"
    using inv by (auto simp: lib_inv_def users_ok_def returned_def)
  show "queue_ok (returned now staff row a d)"
    using inv by (auto simp: lib_inv_def queue_ok_def returned_def)
  show "refs_ok (returned now staff row a d)"
    using inv by (auto simp: lib_inv_def refs_ok_def returned_def id_sets close_upd_due)
  show "custody_ok (returned now staff row a d)"
    unfolding custody_ok_def
  proof
    fix c' assume "c' \<in> set (copies (returned now staff row a d))"
    then obtain c where c: "c \<in> set (copies d)" "c' = (if copy_id c = loan_copy row \<and>
        copy_status c = CopyOnLoan then c\<lparr>copy_status := CopyAvailable\<rparr> else c)"
      by (auto simp: returned_def shelve_upd_def set_update_where)
    have "open_loans_of_copy (copy_id c) d = (if copy_status c = CopyOnLoan then 1 else 0)"
      using inv c by (auto simp: lib_inv_def custody_ok_def)
    with c open_loans_returned(1) [OF k row, of "copy_id c" now staff a]
    show "open_loans_of_copy (copy_id c') (returned now staff row a d) =
        (if copy_status c' = CopyOnLoan then 1 else 0)"
      by (auto split: if_splits)
  qed
qed

lemma Return_tx_inv: "lib_inv d \<Longrightarrow> Return_tx fl now i staff d = Inr (l, d') \<Longrightarrow> lib_inv d'"
  by (auto elim!: Return_tx_Inr intro: returned_inv)

lemma Return_inv: "lib_inv d \<Longrightarrow> lib_inv (snd (Return fl now i staff d))"
  unfolding Return_def by (rule transact_inv) (auto dest: Return_tx_inv)

section \<open>The shelf counts of a claimed copy\<close>

lemma book_of_copy_key:
  "keys_ok d \<Longrightarrow> c \<in> set (copies d) \<Longrightarrow> book_of_copy (copy_id c) d = Some (copy_book c)"
  by (simp add: book_of_copy_def find_copy_row_key)

lemma claim_upd_key:
  assumes "distinct (map copy_id cs)" and "c \<in> set cs" and "claimable c"
  shows "claim_upd (copy_id c) cs =
    update_where (\<lambda>x. copy_id x = copy_id c) (\<lambda>c. c\<lparr>copy_status := CopyOnLoan\<rparr>) cs"
  using assms unfolding claim_upd_def update_where_def
  by (auto dest: distinct_key)

lemma find_copy_claimed:
  "find_copy_row i (claimed_db i d) = map_option
     (\<lambda>c. if claimable c then c\<lparr>copy_status := CopyOnLoan\<rparr> else c) (find_copy_row i d)"
proof -
  have "find (\<lambda>c. copy_id c = i) (claim_upd i (copies d)) = map_option
    (\<lambda>c. if copy_id c = i \<and> claimable c then c\<lparr>copy_status := CopyOnLoan\<rparr> else c)
    (find (\<lambda>c. copy_id c = i) (copies d))"
    unfolding claim_upd_def by (rule find_update_where) simp
  then show ?thesis
    by (cases "find (\<lambda>c. copy_id c = i) (copies d)")
      (auto simp: find_copy_row_def claimed_db_def dest: find_SomeD)
qed

lemma stock_claimed:
  "stock_of_book b (claimed_db i d) = stock_of_book b d"
  by (auto simp: stock_of_book_def claimed_db_def claim_upd_def count_where_update_where
    circulating_def claimable_def intro!: count_where_cong)

lemma available_claimed:
  assumes "keys_ok d" and c: "c \<in> set (copies d)" "claimable c"
  shows "Suc (available_of_book (copy_book c) (claimed_db (copy_id c) d)) =
     available_of_book (copy_book c) d"
  using assms
  by (simp add: available_of_book_def claimed_db_def keys_ok_def claim_upd_key)
     (rule count_where_key_update; simp add: claimable_def circulating_def)

lemma shelf_counts_claimed:
  assumes k: "keys_ok d" and c: "c \<in> set (copies d)" "claimable c"
  shows "shelf_counts (copy_id c) (claimed_db (copy_id c) d) =
     (stock_of_book (copy_book c) d, available_of_book (copy_book c) d - 1)"
  using available_claimed [OF assms] c
  by (simp add: shelf_counts_def book_of_copy_def find_copy_claimed find_copy_row_key [OF k]
    stock_claimed)

text \<open>The test of the transaction is the rule of the domain.\<close>

lemma retention_is_BorrowableCount:
  "0 < available \<Longrightarrow>
     (2 \<le> stock \<and> available - 1 = (0::nat)) \<longleftrightarrow> BorrowableCount (int stock) (int available) \<le> 0"
  by (auto simp: BorrowableCount_def)

section \<open>The decision, stated over the state before\<close>

definition borrow_verdict :: "borrow_params \<Rightarrow> db \<Rightarrow> error option" where
  "borrow_verdict p d =
     (if \<exists>r. head_reservation (bp_copy p) d = Some r \<and> res_user r \<noteq> bp_user p
      then Some ErrReservedForOther
      else case find_copy_row (bp_copy p) d of
        None \<Rightarrow> Some ErrCopyNotFound
      | Some c \<Rightarrow>
          if \<not> IsBorrowable (copy_policy c) then Some ErrCopyNotBorrowable
          else if copy_status c \<noteq> CopyAvailable then Some ErrCopyNotAvailable
          else if BorrowableCount (int (stock_of_book (copy_book c) d)) (int (available_of_book (copy_book c) d)) \<le> 0
          then Some ErrLastCopyRetained
          else if bp_max_loans p \<le> int (open_loans_of_user (bp_user p) d) then Some ErrLoanLimitReached
          else None)"

text \<open>What the service guarantees of a request: a real desk and member, a due date ahead.\<close>

definition sound_request :: "uuid \<Rightarrow> borrow_params \<Rightarrow> db \<Rightarrow> bool" where
  "sound_request nid p d \<longleftrightarrow>
     bp_borrowed_at p < bp_due_at p \<and> bp_user p \<in> user_ids d \<and> bp_issued_by p \<in> user_ids d \<and>
     nid \<notin> loan_id ` set (loans d)"

lemma find_claimable:
  "keys_ok d \<Longrightarrow>
   find (\<lambda>c. copy_id c = i \<and> claimable c) (copies d) =
     (case find_copy_row i d of Some c \<Rightarrow> if claimable c then Some c else None | None \<Rightarrow> None)"
proof (cases "find_copy_row i d")
  case None
  then have "find (\<lambda>c. copy_id c = i \<and> claimable c) (copies d) = None"
    by (auto simp: find_copy_row_def find_None)
  with None show ?thesis by simp
next
  case (Some c)
  assume k: "keys_ok d"
  from Some have c: "c \<in> set (copies d)" "copy_id c = i" by (auto dest: find_rowD)
  show ?thesis
  proof (cases "find (\<lambda>c. copy_id c = i \<and> claimable c) (copies d)")
    case None
    with Some c show ?thesis by (auto simp: find_None)
  next
    case (Some c')
    then have "c' \<in> set (copies d)" "copy_id c' = i" "claimable c'" by (auto dest: find_SomeD)
    with k c have "c' = c" by (auto simp: keys_ok_def dest: distinct_key)
    with Some \<open>find_copy_row i d = Some c\<close> \<open>claimable c'\<close> show ?thesis by simp
  qed
qed

lemma claim_copy_None:
  "keys_ok d \<Longrightarrow> find_copy_row i d = None \<Longrightarrow> claim_copy i d = Inl NoRows"
  by (simp add: claim_copy_def find_claimable)

lemma claim_copy_not:
  "keys_ok d \<Longrightarrow> find_copy_row i d = Some c \<Longrightarrow> \<not> claimable c \<Longrightarrow> claim_copy i d = Inl NoRows"
  by (simp add: claim_copy_def find_claimable)

lemma claim_copy_ok:
  "keys_ok d \<Longrightarrow> find_copy_row i d = Some c \<Longrightarrow> claimable c \<Longrightarrow>
     claim_copy i d = Inr (i, claimed_db i d)"
  by (auto simp: claim_copy_def find_claimable claimed_db_def claim_upd_def dest: find_rowD)

lemma insert_loan_ok:
  assumes inv: "lib_inv d" and req: "sound_request nid p d"
    and c: "find_copy_row (bp_copy p) d = Some c" and cl: "claimable c"
  obtains l where "insert_loan nid p (claimed_db (bp_copy p) d) =
    Inr (l, (claimed_db (bp_copy p) d)\<lparr>loans := loans d @ [loan_row_of l]\<rparr>)" and "loan_id l = nid"
proof -
  let ?d = "claimed_db (bp_copy p) d"
  from c have cs: "c \<in> set (copies d)" "copy_id c = bp_copy p" by (auto dest: find_rowD)
  with inv cl have "open_loans_of_copy (bp_copy p) d = 0"
    by (auto simp: lib_inv_def custody_ok_def claimable_def)
  moreover have "copy_book c \<in> book_ids ?d" using inv cs by (auto simp: lib_inv_def refs_ok_def)
  then obtain b where "find_book_row (copy_book c) ?d = Some b"
    by (metis find_book_row_None option.exhaust)
  moreover have "find_copy_row (bp_copy p) ?d = Some (c\<lparr>copy_status := CopyOnLoan\<rparr>)"
    using c cl by (simp add: find_copy_claimed)
  moreover obtain u v where "find_user_row (bp_user p) ?d = Some u"
    "find_user_row (bp_issued_by p) ?d = Some v"
    using req by (metis sound_request_def find_user_row_None ids_claimed(1) option.exhaust)
  ultimately have "\<exists>l. insert_loan nid p ?d = Inr (l, ?d\<lparr>loans := loans d @ [loan_row_of l]\<rparr>) \<and> loan_id l = nid"
    using req by (simp add: insert_loan_def sound_request_def loan_row_of_def)
  then show thesis using that by blast
qed

lemma borrow_tx_head:
  assumes "\<not> (\<exists>r. head_reservation (bp_copy p) d = Some r \<and> res_user r \<noteq> bp_user p)"
  shows "borrow_tx no_faults now nid p self d =
    borrow_claimed no_faults now nid p self (head_id (bp_copy p) d) d"
  using assms by (cases "head_reservation (bp_copy p) d")
    (auto simp: borrow_tx_def select_head_def head_id_def)

lemma borrow_claimed_decides:
  assumes inv: "lib_inv d" and req: "sound_request nid p d"
    and c: "find_copy_row (bp_copy p) d = Some c" and cl: "claimable c"
  shows "case borrow_claimed no_faults now nid p self rid d of
      Inl e \<Rightarrow>
        (if BorrowableCount (int (stock_of_book (copy_book c) d))
              (int (available_of_book (copy_book c) d)) \<le> 0
         then e = ErrLastCopyRetained
         else bp_max_loans p \<le> int (open_loans_of_user (bp_user p) d) \<and> e = ErrLoanLimitReached)
    | Inr (l, d') \<Rightarrow>
        0 < BorrowableCount (int (stock_of_book (copy_book c) d))
              (int (available_of_book (copy_book c) d)) \<and>
        int (open_loans_of_user (bp_user p) d) < bp_max_loans p"
proof -
  from inv have k: "keys_ok d" by blast
  from c have cs: "c \<in> set (copies d)" "copy_id c = bp_copy p" by (auto dest: find_rowD)
  have counts: "shelf_counts (bp_copy p) (claimed_db (bp_copy p) d) =
      (stock_of_book (copy_book c) d, available_of_book (copy_book c) d - 1)"
    using shelf_counts_claimed [OF k cs(1) cl] by (simp add: cs(2))
  have av: "0 < available_of_book (copy_book c) d"
    using available_claimed [OF k cs(1) cl] by simp
  obtain l where ins: "insert_loan nid p (claimed_db (bp_copy p) d) =
      Inr (l, (claimed_db (bp_copy p) d)\<lparr>loans := loans d @ [loan_row_of l]\<rparr>)"
    by (rule insert_loan_ok [OF inv req c cl]) blast
  obtain u where u: "find_user_row (bp_issued_by p) d = Some u"
    using req by (auto simp: sound_request_def find_user_row_None)
      (metis find_user_row_None option.exhaust)
  have ou: "open_loans_of_user (bp_user p) (claimed_db (bp_copy p) d) =
      open_loans_of_user (bp_user p) d"
    by (simp add: open_loans_of_user_def claimed_db_def)
  show ?thesis
    using u retention_is_BorrowableCount [OF av]
    by (simp add: borrow_claimed_def claim_copy_ok [OF k c cl] counts ins CountActiveLoans_def ou
        fulfil_reservation_def recordAudit_def find_user_row_def fail_if_def not_le)
qed

lemma borrow_tx_decides:
  assumes inv: "lib_inv d" and req: "sound_request nid p d"
  shows "case borrow_verdict p d of
      Some e \<Rightarrow> borrow_tx no_faults now nid p self d = Inl e
    | None \<Rightarrow> \<exists>l d'. borrow_tx no_faults now nid p self d = Inr (l, d')"
proof (cases "\<exists>r. head_reservation (bp_copy p) d = Some r \<and> res_user r \<noteq> bp_user p")
  case True
  then show ?thesis by (auto simp: borrow_verdict_def borrow_tx_def select_head_def)
next
  case False
  note head = borrow_tx_head [OF False]
  from inv have k: "keys_ok d" by blast
  show ?thesis
  proof (cases "find_copy_row (bp_copy p) d")
    case None
    with False k show ?thesis
      by (simp add: borrow_verdict_def head borrow_claimed_def claim_copy_None
          explainUnclaimableCopy_def)
  next
    case (Some c)
    show ?thesis
    proof (cases "claimable c")
      case True
      with False Some borrow_claimed_decides [OF inv req Some True, of now self "head_id (bp_copy p) d"]
      show ?thesis
        by (cases "borrow_claimed no_faults now nid p self (head_id (bp_copy p) d) d")
          (auto simp: borrow_verdict_def head claimable_def IsBorrowable_def split: if_splits)
    next
      case cl: False
      with False Some k show ?thesis
        by (auto simp: borrow_verdict_def head borrow_claimed_def claim_copy_not
            explainUnclaimableCopy_def claimable_def IsBorrowable_def)
    qed
  qed
qed

section \<open>Listings\<close>

text \<open>The joins of a loan with its copy, its book and its member.\<close>

definition loan_view :: "db \<Rightarrow> loan_row \<Rightarrow> loan option" where
  "loan_view d l =
     (case (find_copy_row (loan_copy l) d, find_user_row (loan_user l) d) of
        (Some c, Some u) \<Rightarrow> map_option (\<lambda>b.
          \<lparr>loan_id = loan_id l, loan_copy = loan_copy l, loan_user = loan_user l,
           loan_borrowed_at = loan_borrowed_at l, loan_due_at = loan_due_at l,
           loan_returned_at = loan_returned_at l, loan_issued_by = loan_issued_by l,
           loan_returned_to = None, loan_book_title = book_title b,
           loan_accession = copy_accession c, loan_member_name = user_full_name u\<rparr>)
          (find_book_row (copy_book c) d)
      | _ \<Rightarrow> None)"

definition LoansForUser :: "faults \<Rightarrow> uuid \<Rightarrow> bool \<Rightarrow> db \<Rightarrow> error + loan list" where
  "LoansForUser fl u openOnly d =
     sql fl 0 (Inr (sort_key (\<lambda>l. (- loan_borrowed_at l, loan_id l))
       (filter (\<lambda>l. loan_user l = u \<and> (openOnly \<longrightarrow> loan_returned_at l = None))
         (List.map_filter (loan_view d) (loans d)))))"

definition synthetic_borrower :: "db \<Rightarrow> loan \<Rightarrow> bool" where
  "synthetic_borrower d l =
     (case find_user_row (loan_user l) d of None \<Rightarrow> False | Some u \<Rightarrow> user_is_synthetic u)"

definition loan_matches :: "db \<Rightarrow> time \<Rightarrow> bool \<Rightarrow> bool \<Rightarrow> bool \<Rightarrow> loan \<Rightarrow> bool" where
  "loan_matches d now overdueOnly openOnly syntheticOnly l \<longleftrightarrow>
     (overdueOnly \<longrightarrow> loan_returned_at l = None \<and> loan_due_at l < now) \<and>
     (openOnly \<longrightarrow> loan_returned_at l = None) \<and>
     (syntheticOnly \<longrightarrow> synthetic_borrower d l)"

text \<open>
  The total is a window count carried by the rows of the page, so an empty page reports none.
  A negative limit or offset is an error of the database.
\<close>

definition page_total :: "'r list \<Rightarrow> 'r list \<Rightarrow> nat" where
  "page_total all_rows page = (if page = [] then 0 else length all_rows)"

definition ListLoans ::
  "faults \<Rightarrow> time \<Rightarrow> bool \<Rightarrow> bool \<Rightarrow> int \<Rightarrow> int \<Rightarrow> bool \<Rightarrow> db \<Rightarrow> error + loan list \<times> nat" where
  "ListLoans fl now overdueOnly openOnly limit offset syntheticOnly d =
     sql fl 0
       (if limit < 0 \<or> offset < 0 then Inl (DriverFailure ''negative limit or offset'')
        else let rows = sort_key (\<lambda>l. (loan_due_at l, loan_id l))
                   (filter (loan_matches d now overdueOnly openOnly syntheticOnly)
                     (List.map_filter (loan_view d) (loans d)));
                 page = page_of (nat limit) (nat offset) rows
             in Inr (page, page_total rows page))"

record stats =
  st_books :: nat
  st_copies :: nat
  st_members :: nat
  st_active_loans :: nat
  st_overdue :: nat

definition Stats :: "faults \<Rightarrow> time \<Rightarrow> db \<Rightarrow> error + stats" where
  "Stats fl now d = sql fl 0 (Inr
     \<lparr>st_books = count_where (\<lambda>b. book_status b = BookActive) (books d),
      st_copies = count_where (\<lambda>c. copy_status c \<noteq> CopyWithdrawn) (copies d),
      st_members = count_where (\<lambda>u. user_role u = RoleMember) (users d),
      st_active_loans = count_where (\<lambda>l. loan_returned_at l = None) (loans d),
      st_overdue = count_where (\<lambda>l. loan_returned_at l = None \<and> loan_due_at l < now) (loans d)\<rparr>)"

text \<open>Under the foreign keys no loan is lost by the joins.\<close>

lemma loan_view_total:
  assumes inv: "lib_inv d" and l: "l \<in> set (loans d)"
  shows "\<exists>v. loan_view d l = Some v \<and> loan_id v = loan_id l \<and>
    loan_returned_at v = loan_returned_at l \<and> loan_user v = loan_user l \<and>
    loan_due_at v = loan_due_at l \<and> loan_copy v = loan_copy l \<and>
    loan_borrowed_at v = loan_borrowed_at l"
proof -
  from inv l have "loan_copy l \<in> copy_ids d" "loan_user l \<in> user_ids d"
    by (auto simp: lib_inv_def refs_ok_def)
  then obtain c u where c: "find_copy_row (loan_copy l) d = Some c"
    and u: "find_user_row (loan_user l) d = Some u"
    by (metis find_copy_row_None find_user_row_None option.exhaust)
  from c inv have "copy_book c \<in> book_ids d" by (auto simp: lib_inv_def refs_ok_def dest: find_rowD)
  then obtain b where "find_book_row (copy_book c) d = Some b"
    by (metis find_book_row_None option.exhaust)
  with c u show ?thesis by (simp add: loan_view_def)
qed

lemma length_map_filter_total:
  "(\<And>x. x \<in> set xs \<Longrightarrow> \<exists>y. f x = Some y \<and> (Q y \<longleftrightarrow> P x)) \<Longrightarrow>
   length (filter Q (List.map_filter f xs)) = count_where P xs"
proof (induction xs)
  case (Cons x xs)
  then obtain y where "f x = Some y" "Q y \<longleftrightarrow> P x" by (meson list.set_intros(1))
  with Cons show ?case by (simp add: map_filter_simps)
qed (simp add: map_filter_simps)

section \<open>Borrow then return\<close>

lemma shelve_claim_id:
  assumes "distinct (map copy_id cs)" and "c \<in> set cs" and "claimable c"
  shows "shelve_upd (copy_id c) (claim_upd (copy_id c) cs) = cs"
proof -
  have "(\<lambda>r. if copy_id r = copy_id c \<and> copy_status r = CopyOnLoan
             then r\<lparr>copy_status := CopyAvailable\<rparr> else r)
        (if copy_id r = copy_id c \<and> claimable r then r\<lparr>copy_status := CopyOnLoan\<rparr> else r) = r"
    if "r \<in> set cs" for r
    using assms that distinct_key [OF assms(1), of r c] by (auto simp: claimable_def)
  then show ?thesis
    by (simp add: shelve_upd_def claim_upd_def update_where_def comp_def cong: map_cong)
qed

lemma close_upd_last:
  "loan_id l \<notin> loan_id ` set ls \<Longrightarrow> open_loan l \<Longrightarrow>
   close_upd now (loan_id l) staff (ls @ [l]) =
     ls @ [l\<lparr>loan_returned_at := Some now, loan_returned_to := Some staff\<rparr>]"
  by (auto simp: close_upd_def image_iff intro!: update_where_none)

lemma Return_of_open_loan:
  assumes k: "keys_ok d" and l: "l \<in> set (loans d)" "open_loan l" "loan_borrowed_at l \<le> now"
    and s: "staff \<in> user_ids d"
  shows "Return no_faults now (loan_id l) staff d =
    (let v = scanned_loan (l\<lparr>loan_returned_at := Some now, loan_returned_to := Some staff\<rparr>) in
     (Inr v, returned now staff l
        (audit_line staff ''LOAN_RETURNED'' ''loan'' (loan_id l) (return_metadata v) now) d))"
proof -
  have key: "find (\<lambda>x. loan_id x = loan_id l \<and> open_loan x) (loans d) = Some l"
  proof -
    obtain l' where l': "find (\<lambda>x. loan_id x = loan_id l \<and> open_loan x) (loans d) = Some l'"
      using l by (metis (mono_tags, lifting) find_None option.exhaust)
    with k l(1) have "l' = l" by (auto simp: keys_ok_def dest!: find_SomeD dest: distinct_key)
    with l' show ?thesis by simp
  qed
  obtain u where u: "find_user_row staff d = Some u"
    using s by (metis find_user_row_None option.exhaust)
  then have u': "find (\<lambda>u. user_id u = staff) (users d) = Some u" by (simp add: find_user_row_def)
  from l(3) u' show ?thesis
    by (simp add: Return_def transact_def Return_tx_def close_loan_def key
        find_user_row_def Let_def shelve_copy_def recordAudit_def scanned_loan_def
        returned_def close_upd_def shelve_upd_def)
qed

section \<open>Properties\<close>

lemma borrow_Inr:
  assumes "borrow fl now nid p self d = (Inr l, d')"
  obtains c d2 a where "c \<in> set (copies d)" and "copy_id c = bp_copy p" and "claimable c"
    and "case shelf_counts (bp_copy p) (claimed_db (bp_copy p) d) of
           (stock, avail) \<Rightarrow> stock < 2 \<or> 0 < avail"
    and "int (open_loans_of_user (bp_user p) d) < bp_max_loans p"
    and "insert_loan nid p (claimed_db (bp_copy p) d) = Inr (l, d2)"
    and "a = audit_line (bp_issued_by p) (loan_action self) ''loan'' nid (loan_metadata self l) now"
    and "d' = lent p (head_id (bp_copy p) d) l a d"
    and "\<forall>r. head_reservation (bp_copy p) d = Some r \<longrightarrow> res_user r = bp_user p"
proof -
  from assms have "borrow_tx fl now nid p self d = Inr (l, d')"
    by (auto simp: borrow_def dest: transact_InrD)
  then have c: "borrow_claimed fl now nid p self (head_id (bp_copy p) d) d = Inr (l, d')"
    and h: "\<forall>r. head_reservation (bp_copy p) d = Some r \<longrightarrow> res_user r = bp_user p"
    by (auto elim!: borrow_tx_Inr)
  show thesis by (rule borrow_claimed_Inr [OF c], rule that) (assumption | rule h)+
qed

lemma insert_loan_facts:
  "insert_loan nid p d = Inr (l, d') \<Longrightarrow>
     loan_id l = nid \<and> loan_copy l = bp_copy p \<and> loan_user l = bp_user p \<and>
     loan_returned_at l = None \<and> nid \<notin> loan_id ` set (loans d) \<and>
     loan_borrowed_at l = bp_borrowed_at p \<and> loan_due_at l = bp_due_at p \<and>
     open_loans_of_copy (bp_copy p) d = 0"
  by (auto elim!: insert_loan_Inr)

text \<open>C4: whichever statements of the transaction the driver fails, lending a copy (at the desk or
  by self-checkout) keeps the library's invariant: keys, references, one open loan exactly for the
  copies marked on loan, one open reservation per member and title.\<close>

theorem borrow_keeps_invariant:
  assumes "lib_inv d"
  shows "lib_inv (snd (borrow fl now nid p self d))"
  using assms by (rule borrow_inv)

definition sample_request :: borrow_params where
  "sample_request = \<lparr>bp_copy = 11, bp_user = 2, bp_issued_by = 1, bp_borrowed_at = 0,
     bp_due_at = 14 * day, bp_max_loans = 2\<rparr>"

lemma sample_borrow:
  "\<exists>l d'. borrow no_faults 0 500 sample_request False sample_db = (Inr l, d')"
  by (simp add: borrow_def transact_def borrow_tx_def sample_request_def
      select_head_def head_reservation_def first_by_def waits_for_def book_of_copy_def find_copy_row_def
      borrow_claimed_def claim_copy_def claimable_def shelf_counts_def stock_of_book_def
      available_of_book_def circulating_def CountActiveLoans_def open_loans_of_user_def open_loan_def
      insert_loan_def open_loans_of_copy_def find_user_row_def find_book_row_def recordAudit_def)

theorem borrow_keeps_invariant_witness:
  "lib_inv (snd (borrow no_faults 0 500 sample_request False sample_db))"
  by (rule borrow_keeps_invariant [OF sample_inv])

text \<open>C5: the decision to lend. When no statement fails, the transaction refuses exactly with the
  error the rules give over the state before it, in their order (somebody else heads the queue; no
  such copy; a policy that does not circulate; not on the shelf; the last copy is retained by
  DEC-018's count; the member's limit), leaves the database untouched, and lends in every other
  case.\<close>

theorem borrow_decides:
  assumes "lib_inv d" and "sound_request nid p d"
  shows "case borrow_verdict p d of
      Some e \<Rightarrow> borrow no_faults now nid p self d = (Inl e, d)
    | None \<Rightarrow> \<exists>l d'. borrow no_faults now nid p self d = (Inr l, d')"
  using borrow_tx_decides [OF assms, of now self]
  by (auto simp: borrow_def transact_def split: option.splits)

theorem borrow_decides_witness:
  "borrow_verdict sample_request sample_db = None \<and>
   (\<exists>l d'. borrow no_faults 0 500 sample_request False sample_db = (Inr l, d'))"
proof -
  have v: "borrow_verdict sample_request sample_db = None"
    by (simp add: borrow_verdict_def sample_request_def head_reservation_def first_by_def
      waits_for_def book_of_copy_def find_copy_row_def IsBorrowable_def BorrowableCount_def
      stock_of_book_def available_of_book_def circulating_def open_loans_of_user_def open_loan_def)
  have "sound_request 500 sample_request sample_db"
    by (simp add: sound_request_def sample_request_def id_sets)
  from borrow_decides [OF sample_inv this, of 0 False] v show ?thesis by simp
qed

text \<open>What a successful loan did. Exactly one loan row is added, open, of the claimed copy to the
  member; the copy was on the shelf and no loan of it was open; the member ends within the limit;
  a title stocked in two or more copies still has one on the shelf; the member was at the head of
  the queue if there was one, and their reservation is fulfilled; one audit line says so.\<close>

theorem borrow_success:
  assumes "lib_inv d" and "borrow fl now nid p self d = (Inr l, d')"
  shows "\<exists>c. find_copy_row (bp_copy p) d = Some c \<and> claimable c \<and>
    open_loans_of_copy (bp_copy p) d = 0 \<and>
    loans d' = loans d @ [loan_row_of l] \<and> loan_copy l = bp_copy p \<and> loan_user l = bp_user p \<and>
    loan_due_at l = bp_due_at p \<and> loan_returned_at l = None \<and>
    find_copy_row (bp_copy p) d' = Some (c\<lparr>copy_status := CopyOnLoan\<rparr>) \<and>
    int (open_loans_of_user (bp_user p) d') \<le> bp_max_loans p \<and>
    (2 \<le> stock_of_book (copy_book c) d' \<longrightarrow> 1 \<le> available_of_book (copy_book c) d') \<and>
    (\<forall>r. head_reservation (bp_copy p) d = Some r \<longrightarrow>
       res_user r = bp_user p \<and>
       reservations d' = fulfil_upd (res_id r) (bp_user p) (reservations d)) \<and>
    audit_log d' = audit_log d @
      [audit_line (bp_issued_by p) (loan_action self) ''loan'' nid (loan_metadata self l) now]"
proof -
  from assms(2) obtain c d2 a where c: "c \<in> set (copies d)" "copy_id c = bp_copy p" "claimable c"
    and counts: "case shelf_counts (bp_copy p) (claimed_db (bp_copy p) d) of
           (stock, avail) \<Rightarrow> stock < 2 \<or> 0 < avail"
    and limit: "int (open_loans_of_user (bp_user p) d) < bp_max_loans p"
    and ins: "insert_loan nid p (claimed_db (bp_copy p) d) = Inr (l, d2)"
    and a: "a = audit_line (bp_issued_by p) (loan_action self) ''loan'' nid (loan_metadata self l) now"
    and d': "d' = lent p (head_id (bp_copy p) d) l a d"
    and head: "\<forall>r. head_reservation (bp_copy p) d = Some r \<longrightarrow> res_user r = bp_user p"
    by (rule borrow_Inr)
  from assms(1) have k: "keys_ok d" by blast
  note f = insert_loan_facts [OF ins]
  have row: "find_copy_row (bp_copy p) d = Some c" using find_copy_row_key [OF k c(1)] c(2) by simp
  have same: "copies d' = copies (claimed_db (bp_copy p) d)" by (simp add: d' lent_def claimed_db_def)
  have "find_copy_row (bp_copy p) d' = find_copy_row (bp_copy p) (claimed_db (bp_copy p) d)"
    "stock_of_book (copy_book c) d' = stock_of_book (copy_book c) (claimed_db (bp_copy p) d)"
    "available_of_book (copy_book c) d' = available_of_book (copy_book c) (claimed_db (bp_copy p) d)"
    by (simp_all add: same find_copy_row_def stock_of_book_def available_of_book_def)
  with counts row c(3) f limit head show ?thesis
    by (auto simp: shelf_counts_def book_of_copy_def find_copy_claimed d' open_loans_of_user_lent
        head_id_def) (simp_all add: lent_def a)
qed

theorem borrow_success_witness:
  "\<exists>l d'. borrow no_faults 0 500 sample_request False sample_db = (Inr l, d') \<and>
     loans d' = loans sample_db @ [loan_row_of l] \<and> loan_copy l = 11 \<and> loan_user l = 2"
proof -
  obtain l d' where b: "borrow no_faults 0 500 sample_request False sample_db = (Inr l, d')"
    using sample_borrow by blast
  with borrow_success [OF sample_inv b] show ?thesis by (auto simp: sample_request_def)
qed

text \<open>C8: a successful return closes exactly the named open loan at the current time and in the staff
  member's name, puts its copy back on the shelf, takes one open loan from the member, writes one
  audit line, and keeps the invariant; a failed one changes nothing.\<close>

theorem return_effect:
  assumes "lib_inv d" and "Return fl now i staff d = (r, d')"
  shows "lib_inv d' \<and>
    (case r of
       Inl e \<Rightarrow> d' = d
     | Inr l \<Rightarrow> \<exists>row c. find_loan_row i d = Some row \<and> open_loan row \<and>
         loans d' = update_where (\<lambda>x. loan_id x = i)
            (\<lambda>x. x\<lparr>loan_returned_at := Some now, loan_returned_to := Some staff\<rparr>) (loans d) \<and>
         find_copy_row (loan_copy row) d = Some c \<and> copy_status c = CopyOnLoan \<and>
         find_copy_row (loan_copy row) d' = Some (c\<lparr>copy_status := CopyAvailable\<rparr>) \<and>
         open_loans_of_user (loan_user row) d = Suc (open_loans_of_user (loan_user row) d') \<and>
         loan_returned_at l = Some now \<and>
         length (audit_log d') = Suc (length (audit_log d)))"
proof (cases r)
  case (Inl e)
  with assms show ?thesis by (auto simp: Return_def dest: transact_InlD)
next
  case (Inr l)
  with assms(2) have "Return_tx fl now i staff d = Inr (l, d')"
    by (auto simp: Return_def dest: transact_InrD)
  then obtain row a where row: "row \<in> set (loans d)" "loan_id row = i" "open_loan row"
    and l: "l = scanned_loan (row\<lparr>loan_returned_at := Some now, loan_returned_to := Some staff\<rparr>)"
    and d': "d' = returned now staff row a d"
    by (rule Return_tx_Inr)
  from assms(1) have k: "keys_ok d" by blast
  have "loan_copy row \<in> copy_ids d" using assms(1) row(1) by (auto simp: lib_inv_def refs_ok_def)
  then obtain c where c: "find_copy_row (loan_copy row) d = Some c"
    by (metis find_copy_row_None option.exhaust)
  have "0 < open_loans_of_copy (loan_copy row) d"
    using row by (auto simp: open_loans_of_copy_def count_where_pos)
  with c assms(1) have on: "copy_status c = CopyOnLoan"
    by (auto simp: lib_inv_def custody_ok_def dest!: find_rowD split: if_splits)
  have "find (\<lambda>x. copy_id x = loan_copy row) (shelve_upd (loan_copy row) (copies d)) =
      map_option (\<lambda>x. if copy_id x = loan_copy row \<and> copy_status x = CopyOnLoan
        then x\<lparr>copy_status := CopyAvailable\<rparr> else x)
        (find (\<lambda>x. copy_id x = loan_copy row) (copies d))"
    unfolding shelve_upd_def by (rule find_update_where) simp
  with c on have c': "find_copy_row (loan_copy row) d' = Some (c\<lparr>copy_status := CopyAvailable\<rparr>)"
    by (auto simp: find_copy_row_def d' returned_def dest: find_SomeD)
  have "close_upd now i staff (loans d) = update_where (\<lambda>x. loan_id x = i)
      (\<lambda>x. x\<lparr>loan_returned_at := Some now, loan_returned_to := Some staff\<rparr>) (loans d)"
    using k row by (auto simp: close_upd_def update_where_def keys_ok_def dest: distinct_key)
  moreover have "lib_inv d'" unfolding d' by (rule returned_inv [OF assms(1) row(1,3)])
  moreover have "find_loan_row i d = Some row" using find_loan_row_key [OF k row(1)] row(2) by simp
  ultimately show ?thesis
    using Inr l row c on c' open_loans_returned(2) [OF k row(1,3), of "loan_user row" now staff a]
    by (auto simp: d' scanned_loan_def) (auto simp: returned_def)
qed

theorem return_effect_witness:
  "\<exists>l d'. Return no_faults 7 100 1 sample_db = (Inr l, d') \<and> lib_inv d'"
proof -
  obtain l d' where r: "Return no_faults 7 100 1 sample_db = (Inr l, d')"
    by (simp add: Return_def transact_def Return_tx_def close_loan_def open_loan_def
      find_user_row_def Let_def shelve_copy_def recordAudit_def scanned_loan_def)
  with return_effect [OF sample_inv r] show ?thesis by blast
qed

text \<open>A loan is returned once. Returning a loan that the library does not have, or one already
  closed, is refused with the error that tells the two apart and changes nothing; returning an open
  one after it was made succeeds, and returning it again is refused as already closed.\<close>

theorem return_once:
  assumes "lib_inv d" and "staff \<in> user_ids d"
  shows "(case find_loan_row i d of
      None \<Rightarrow> Return no_faults now i staff d = (Inl ErrNotFound, d)
    | Some l \<Rightarrow>
        (if open_loan l then loan_borrowed_at l \<le> now \<longrightarrow>
           (\<exists>v d'. Return no_faults now i staff d = (Inr v, d') \<and>
              Return no_faults later i staff d' = (Inl ErrLoanAlreadyClosed, d'))
         else Return no_faults now i staff d = (Inl ErrLoanAlreadyClosed, d)))"
proof -
  from assms have k: "keys_ok d" by blast
  have closed: "Return no_faults t i staff s = (Inl ErrLoanAlreadyClosed, s)"
    if "find_loan_row i s \<noteq> None" and "\<forall>l \<in> set (loans s). loan_id l = i \<longrightarrow> \<not> open_loan l" for t s
  proof -
    have "find (\<lambda>l. loan_id l = i \<and> open_loan l) (loans s) = None" using that(2) by (simp add: find_None)
    with that(1) show ?thesis
      by (auto simp: Return_def transact_def Return_tx_def close_loan_def explainUnreturnableLoan_def)
  qed
  show ?thesis
  proof (cases "find_loan_row i d")
    case None
    then have "find (\<lambda>l. loan_id l = i \<and> open_loan l) (loans d) = None"
      by (auto simp: find_loan_row_def find_None)
    with None show ?thesis
      by (simp add: Return_def transact_def Return_tx_def close_loan_def explainUnreturnableLoan_def)
  next
    case (Some l)
    then have l: "l \<in> set (loans d)" "loan_id l = i" by (auto dest: find_rowD)
    show ?thesis
    proof (cases "open_loan l")
      case False
      have "\<forall>x \<in> set (loans d). loan_id x = i \<longrightarrow> \<not> open_loan x"
        using k l False by (auto simp: keys_ok_def dest: distinct_key)
      with closed [of d now] Some False show ?thesis by simp
    next
      case True
      have "Return no_faults later i staff (returned now staff l a d) =
          (Inl ErrLoanAlreadyClosed, returned now staff l a d)" for a
      proof (rule closed)
        show "find_loan_row i (returned now staff l a d) \<noteq> None"
          using l by (auto simp: find_loan_row_None returned_def)
        show "\<forall>x \<in> set (loans (returned now staff l a d)). loan_id x = i \<longrightarrow> \<not> open_loan x"
          using l by (auto simp: returned_def close_upd_def set_update_where open_loan_def)
      qed
      with Return_of_open_loan [OF k l(1) True, of now staff] assms(2) Some True l(2) show ?thesis
        by (auto simp: Let_def)
    qed
  qed
qed

theorem return_once_witness:
  "\<exists>v d'. Return no_faults 7 100 1 sample_db = (Inr v, d') \<and>
      Return no_faults 8 100 1 d' = (Inl ErrLoanAlreadyClosed, d')"
  using return_once [OF sample_inv, where staff = 1 and i = 100 and now = 7 and later = 8]
  by (simp add: id_sets find_loan_row_def open_loan_def)

text \<open>C9: borrowing and returning is a round trip for the shelf: the copies are exactly as they were
  before, and so are the numbers of open loans of every copy and every member.\<close>

theorem borrow_return_roundtrip:
  assumes "lib_inv d" and "borrow fl t nid p self d = (Inr l, d1)"
    and "staff \<in> user_ids d" and "bp_borrowed_at p \<le> now"
  shows "\<exists>v d2. Return no_faults now (loan_id l) staff d1 = (Inr v, d2) \<and>
    copies d2 = copies d \<and> (\<forall>c. open_loans_of_copy c d2 = open_loans_of_copy c d) \<and>
    (\<forall>u. open_loans_of_user u d2 = open_loans_of_user u d)"
proof -
  from assms(2) obtain c d2 a where c: "c \<in> set (copies d)" "copy_id c = bp_copy p" "claimable c"
    and ins: "insert_loan nid p (claimed_db (bp_copy p) d) = Inr (l, d2)"
    and d1: "d1 = lent p (head_id (bp_copy p) d) l a d"
    by (rule borrow_Inr)
  note f = insert_loan_facts [OF ins]
  have inv1: "lib_inv d1" unfolding d1 by (rule lent_inv [OF assms(1) c ins])
  then have k1: "keys_ok d1" by blast
  have row: "loan_row_of l \<in> set (loans d1)" "open_loan (loan_row_of l)"
    "loan_borrowed_at (loan_row_of l) \<le> now" "staff \<in> user_ids d1"
    using f assms(3,4) by (simp_all add: d1 open_loan_def loan_row_of_def) (simp add: lent_def loan_row_of_def)
  define b where "b = audit_line staff ''LOAN_RETURNED'' ''loan'' (loan_id l) (return_metadata
    (scanned_loan ((loan_row_of l)\<lparr>loan_returned_at := Some now, loan_returned_to := Some staff\<rparr>))) now"
  have ids: "loan_id (loan_row_of l) = loan_id l" "loan_copy (loan_row_of l) = loan_copy l"
    "loan_user (loan_row_of l) = loan_user l"
    by (simp_all add: loan_row_of_def)
  have ret: "Return no_faults now (loan_id l) staff d1 =
      (Inr (scanned_loan ((loan_row_of l)\<lparr>loan_returned_at := Some now, loan_returned_to := Some staff\<rparr>)),
       returned now staff (loan_row_of l) b d1)"
    using Return_of_open_loan [OF k1 row(1-4)] by (simp add: ids Let_def b_def)
  have "distinct (map copy_id (copies d))" using assms(1) by (auto simp: lib_inv_def keys_ok_def)
  from shelve_claim_id [OF this c(1,3)] f c(2)
  have "copies (returned now staff (loan_row_of l) b d1) = copies d"
    by (simp add: returned_def ids d1 lent_def)
  moreover have "open_loans_of_copy x (returned now staff (loan_row_of l) b d1) = open_loans_of_copy x d" for x
    using open_loans_returned(1) [OF k1 row(1,2), of x now staff b] f
    by (simp add: ids d1 open_loans_of_copy_lent split: if_splits)
  moreover have "open_loans_of_user x (returned now staff (loan_row_of l) b d1) = open_loans_of_user x d" for x
    using open_loans_returned(2) [OF k1 row(1,2), of x now staff b] f
    by (simp add: ids d1 open_loans_of_user_lent split: if_splits)
  ultimately show ?thesis using ret by blast
qed

theorem borrow_return_roundtrip_witness:
  "\<exists>l d1 v d2. borrow no_faults 0 500 sample_request False sample_db = (Inr l, d1) \<and>
     Return no_faults 9 (loan_id l) 1 d1 = (Inr v, d2) \<and> copies d2 = copies sample_db"
proof -
  obtain l d' where b: "borrow no_faults 0 500 sample_request False sample_db = (Inr l, d')"
    using sample_borrow by blast
  have "1 \<in> user_ids sample_db" "bp_borrowed_at sample_request \<le> 9"
    by (simp_all add: id_sets sample_request_def)
  from borrow_return_roundtrip [OF sample_inv b this] b show ?thesis by blast
qed

end
