(* ===== verification/Copies.thy ===== *)
theory Copies
  imports Circulation
begin

text \<open>
  The inventory of physical volumes (catalogue_repo.go): registering a copy, reading one by id or by
  the accession number on its spine, editing policy and status, and taking a copy out of service
  while it is on loan.
\<close>

section \<open>Registering and reading copies\<close>

definition new_copy :: "uuid \<Rightarrow> uuid \<Rightarrow> string \<Rightarrow> loan_policy \<Rightarrow> copy" where
  "new_copy nid b acc pol =
     \<lparr>copy_id = nid, copy_book = b, copy_accession = acc, copy_policy = pol,
      copy_status = CopyAvailable, copy_acquired_at = None, copy_notes = ''''\<rparr>"

definition insert_copy ::
  "uuid \<Rightarrow> uuid \<Rightarrow> string \<Rightarrow> loan_policy \<Rightarrow> db \<Rightarrow> pg_error + copy \<times> db" where
  "insert_copy nid b acc pol d =
     (if nid \<in> copy_ids d then Inl (UniqueViolation ''copies_pkey'')
      else if acc \<in> copy_accession ` set (copies d)
      then Inl (UniqueViolation ''copies_accession_number_key'')
      else if find_book_row b d = None then Inl (ForeignKeyViolation ''copies_book_id_fkey'')
      else Inr (new_copy nid b acc pol, d\<lparr>copies := copies d @ [new_copy nid b acc pol]\<rparr>))"

definition AddCopy_tx ::
  "faults \<Rightarrow> time \<Rightarrow> uuid \<Rightarrow> uuid \<Rightarrow> string \<Rightarrow> loan_policy \<Rightarrow> uuid \<Rightarrow> db \<Rightarrow> error + copy \<times> db" where
  "AddCopy_tx fl now nid bookID accession policy staffID d =
     andthen (sql fl 0 (Inr ((), d))) (\<lambda>_ d.
       case exec fl 1 (insert_copy nid bookID (trim_space accession) policy d) of
         Inl e \<Rightarrow> Inl (if isUniqueViolation e ''copies_accession_number_key''
                       then ErrDuplicateAccession else translate e)
       | Inr (c, d) \<Rightarrow>
           andthen (sql fl 2 (recordAudit staffID ''COPY_ADDED'' ''copy'' (copy_id c)
              [(''book_id'', JUuid bookID), (''accession_number'', JStr (copy_accession c)),
               (''loan_policy'', JStr (policy_string (copy_policy c)))] now d)) (\<lambda>_ d.
           commit fl 3 c d))"

definition AddCopy ::
  "faults \<Rightarrow> time \<Rightarrow> uuid \<Rightarrow> uuid \<Rightarrow> string \<Rightarrow> loan_policy \<Rightarrow> uuid \<Rightarrow> db \<Rightarrow> (error + copy) \<times> db" where
  "AddCopy fl now nid bookID accession policy staffID =
     transact (AddCopy_tx fl now nid bookID accession policy staffID)"

text \<open>ORDER BY accession_number, with the collation's key as a parameter.\<close>

definition ListCopies :: "(string \<Rightarrow> 'k::linorder) \<Rightarrow> faults \<Rightarrow> uuid \<Rightarrow> db \<Rightarrow> error + copy list" where
  "ListCopies collate fl bookID d = sql fl 0 (Inr
     (sort_key (\<lambda>c. collate (copy_accession c)) (filter (\<lambda>c. copy_book c = bookID) (copies d))))"

definition FindCopy :: "faults \<Rightarrow> uuid \<Rightarrow> db \<Rightarrow> error + copy" where
  "FindCopy fl i d = sql fl 0 (case find_copy_row i d of None \<Rightarrow> Inl NoRows | Some c \<Rightarrow> Inr c)"

record copy_at_desk =
  cad_copy :: copy
  cad_book_title :: string
  cad_call_number :: string
  cad_loan :: "loan option"

text \<open>The trim of SQL removes blanks only; two numbers are compared without case.\<close>

definition sql_trim :: "string \<Rightarrow> string" where
  "sql_trim s = rev (dropWhile (\<lambda>c. c = CHR '' '') (rev (dropWhile (\<lambda>c. c = CHR '' '') s)))"

definition accession_key :: "string \<Rightarrow> string" where
  "accession_key s = to_upper (sql_trim s)"

definition desk_loan :: "copy \<Rightarrow> string \<Rightarrow> db \<Rightarrow> loan_row \<Rightarrow> loan" where
  "desk_loan c title d l =
     \<lparr>loan_id = loan_id l, loan_copy = copy_id c, loan_user = loan_user l,
      loan_borrowed_at = loan_borrowed_at l, loan_due_at = loan_due_at l,
      loan_returned_at = None, loan_issued_by = uuid_nil, loan_returned_to = None,
      loan_book_title = title, loan_accession = copy_accession c,
      loan_member_name =
        (case find_user_row (loan_user l) d of None \<Rightarrow> '''' | Some u \<Rightarrow> user_full_name u)\<rparr>"

definition FindCopyByAccession :: "faults \<Rightarrow> string \<Rightarrow> db \<Rightarrow> error + copy_at_desk" where
  "FindCopyByAccession fl accession d = sql fl 0
     (case List.map_filter (\<lambda>c. map_option (\<lambda>b. (c, b)) (find_book_row (copy_book c) d))
             (filter (\<lambda>c. accession_key (copy_accession c) = accession_key accession) (copies d)) of
        [] \<Rightarrow> Inl NoRows
      | (c, b) # _ \<Rightarrow>
          Inr \<lparr>cad_copy = c, cad_book_title = book_title b, cad_call_number = book_call_number b,
               cad_loan = map_option (desk_loan c (book_title b) d)
                 (find (\<lambda>l. loan_copy l = copy_id c \<and> open_loan l) (loans d))\<rparr>)"

section \<open>Editing a copy\<close>

definition close_loans_of_copy :: "time \<Rightarrow> uuid \<Rightarrow> uuid \<Rightarrow> db \<Rightarrow> pg_error + unit \<times> db" where
  "close_loans_of_copy now i staff d =
     (let P = (\<lambda>l. loan_copy l = i \<and> open_loan l) in
      if \<exists>l \<in> set (loans d). P l \<and> now < loan_borrowed_at l
      then Inl (CheckViolation ''returned_after_borrow'')
      else if (\<exists>l \<in> set (loans d). P l) \<and> find_user_row staff d = None
      then Inl (ForeignKeyViolation ''loans_returned_to_fkey'')
      else Inr ((), d\<lparr>loans := update_where P
        (\<lambda>l. l\<lparr>loan_returned_at := Some now, loan_returned_to := Some staff\<rparr>) (loans d)\<rparr>))"

text \<open>UPDATE copies SET status: the number of rows affected and the new table.\<close>

definition update_copies ::
  "uuid \<Rightarrow> (copy \<Rightarrow> copy) \<Rightarrow> db \<Rightarrow> pg_error + nat \<times> db" where
  "update_copies i f d =
     Inr (count_where (\<lambda>c. copy_id c = i) (copies d),
          d\<lparr>copies := update_where (\<lambda>c. copy_id c = i) f (copies d)\<rparr>)"

text \<open>The audit line written by hand: here the actor is never stored as NULL.\<close>

definition audit_marked :: "copy_status \<Rightarrow> uuid \<Rightarrow> uuid \<Rightarrow> time \<Rightarrow> db \<Rightarrow> pg_error + unit \<times> db" where
  "audit_marked s i staff now d =
     (if find_user_row staff d = None then Inl (ForeignKeyViolation ''audit_log_actor_id_fkey'')
      else Inr ((), d\<lparr>audit_log := audit_log d @
        [\<lparr>au_actor = Some staff, au_action = ''COPY_MARKED_'' @ copy_status_string s,
          au_entity_type = ''copy'', au_entity = Some i,
          au_metadata = [(''closed_open_loan'', JBool True)], au_created_at = now\<rparr>]\<rparr>))"

definition SetCopyStatusClosingLoan_tx ::
  "faults \<Rightarrow> time \<Rightarrow> uuid \<Rightarrow> copy_status \<Rightarrow> uuid \<Rightarrow> db \<Rightarrow> error + unit \<times> db" where
  "SetCopyStatusClosingLoan_tx fl now i status staff d =
     andthen (sql fl 0 (Inr ((), d))) (\<lambda>_ d.
     andthen (sql fl 1 (close_loans_of_copy now i staff d)) (\<lambda>_ d.
     andthen (sql fl 2 (update_copies i (\<lambda>c. c\<lparr>copy_status := status\<rparr>) d)) (\<lambda>n d.
     fail_if (n = 0) ErrNotFound (
     andthen (sql fl 3 (audit_marked status i staff now d)) (\<lambda>_ d.
     commit fl 4 () d)))))"

definition SetCopyStatusClosingLoan ::
  "faults \<Rightarrow> time \<Rightarrow> uuid \<Rightarrow> copy_status \<Rightarrow> uuid \<Rightarrow> db \<Rightarrow> (error + unit) \<times> db" where
  "SetCopyStatusClosingLoan fl now i status staff =
     transact (SetCopyStatusClosingLoan_tx fl now i status staff)"

definition edit_copy :: "loan_policy option \<Rightarrow> copy_status option \<Rightarrow> copy \<Rightarrow> copy" where
  "edit_copy policy status c =
     c\<lparr>copy_policy := (case policy of None \<Rightarrow> copy_policy c | Some p \<Rightarrow> p),
       copy_status := (case status of None \<Rightarrow> copy_status c | Some s \<Rightarrow> s)\<rparr>"

definition changed_fields :: "loan_policy option \<Rightarrow> copy_status option \<Rightarrow> payload" where
  "changed_fields policy status =
     (case policy of None \<Rightarrow> [] | Some p \<Rightarrow> [(''loan_policy'', JStr (policy_string p))]) @
     (case status of None \<Rightarrow> [] | Some s \<Rightarrow> [(''status'', JStr (copy_status_string s))])"

definition UpdateCopy_tx ::
  "faults \<Rightarrow> time \<Rightarrow> uuid \<Rightarrow> loan_policy option \<Rightarrow> copy_status option \<Rightarrow> uuid \<Rightarrow> db \<Rightarrow> error + unit \<times> db"
  where
  "UpdateCopy_tx fl now i policy status staff d =
     andthen (sql fl 0 (Inr ((), d))) (\<lambda>_ d.
     andthen (sql fl 1 (update_copies i (edit_copy policy status) d)) (\<lambda>n d.
     fail_if (n = 0) ErrNotFound (
     andthen (sql fl 2 (recordAudit staff ''COPY_UPDATED'' ''copy'' i (changed_fields policy status) now d)) (\<lambda>_ d.
     commit fl 3 () d))))"

definition UpdateCopyRow ::
  "faults \<Rightarrow> time \<Rightarrow> uuid \<Rightarrow> loan_policy option \<Rightarrow> copy_status option \<Rightarrow> uuid \<Rightarrow> db \<Rightarrow> (error + unit) \<times> db"
  where
  "UpdateCopyRow fl now i policy status staff = transact (UpdateCopy_tx fl now i policy status staff)"

section \<open>The invariant\<close>

lemma lib_inv_copies:
  assumes inv: "lib_inv d" and "map copy_id cs = map copy_id (copies d)"
    and "map copy_accession cs = map copy_accession (copies d)"
    and "map copy_book cs = map copy_book (copies d)"
    and "map loan_id ls = map loan_id (loans d)" and "map loan_copy ls = map loan_copy (loans d)"
    and "map loan_user ls = map loan_user (loans d)"
    and "\<forall>l \<in> set ls. loan_borrowed_at l < loan_due_at l"
    and "custody_ok (d\<lparr>copies := cs, loans := ls\<rparr>)"
  shows "lib_inv (d\<lparr>copies := cs, loans := ls\<rparr>)"
proof
  show "keys_ok (d\<lparr>copies := cs, loans := ls\<rparr>)"
    using inv assms(2,3,5) by (simp add: lib_inv_def keys_ok_def)
  show "users_ok (d\<lparr>copies := cs, loans := ls\<rparr>)" using inv by (simp add: lib_inv_def users_ok_def)
  show "queue_ok (d\<lparr>copies := cs, loans := ls\<rparr>)" using inv by (simp add: lib_inv_def queue_ok_def)
  have "refs_ok d" using inv by blast
  then show "refs_ok (d\<lparr>copies := cs, loans := ls\<rparr>)"
    using assms(8) assms(2,4,6,7) [THEN map_eq_set] by (simp add: refs_ok_def id_sets)
qed (rule assms(9))

lemma map_update_copies:
  "(\<And>c. copy_id (f c) = copy_id c \<and> copy_accession (f c) = copy_accession c \<and> copy_book (f c) = copy_book c) \<Longrightarrow>
   map copy_id (update_where P f cs) = map copy_id cs \<and>
   map copy_accession (update_where P f cs) = map copy_accession cs \<and>
   map copy_book (update_where P f cs) = map copy_book cs"
  by (simp add: map_update_where)

lemma AddCopy_tx_Inr:
  assumes "AddCopy_tx fl now nid b acc pol staff d = Inr (c, d')"
  obtains a where "nid \<notin> copy_ids d" and "trim_space acc \<notin> copy_accession ` set (copies d)"
    and "b \<in> book_ids d" and "c = new_copy nid b (trim_space acc) pol"
    and "d' = d\<lparr>copies := copies d @ [c], audit_log := audit_log d @ [a]\<rparr>"
  using assms
  by (auto simp: AddCopy_tx_def insert_copy_def find_book_row_None andthen_Inr
      elim!: recordAudit_InrE split: sum.splits prod.splits if_splits)

lemma AddCopy_inv: "lib_inv d \<Longrightarrow> lib_inv (snd (AddCopy fl now nid b acc pol staff d))"
  unfolding AddCopy_def
proof (rule transact_inv)
  fix c d' assume inv: "lib_inv d" and "AddCopy_tx fl now nid b acc pol staff d = Inr (c, d')"
  then obtain a where new: "nid \<notin> copy_ids d" "trim_space acc \<notin> copy_accession ` set (copies d)"
    "b \<in> book_ids d" "c = new_copy nid b (trim_space acc) pol"
    "d' = d\<lparr>copies := copies d @ [c], audit_log := audit_log d @ [a]\<rparr>"
    by (elim AddCopy_tx_Inr)
  have "open_loans_of_copy nid d = 0" using inv new(1) by (auto intro: open_loans_of_copy_0)
  with inv new show "lib_inv d'"
    by (auto simp: lib_inv_def lib_inv_parts new_copy_def)
qed

lemma close_loans_of_copy_Inr:
  assumes "close_loans_of_copy now i staff d = Inr (x, d')"
  shows "d' = d\<lparr>loans := update_where (\<lambda>l. loan_copy l = i \<and> open_loan l)
    (\<lambda>l. l\<lparr>loan_returned_at := Some now, loan_returned_to := Some staff\<rparr>) (loans d)\<rparr>"
  using assms by (auto simp: close_loans_of_copy_def Let_def split: if_splits)

lemma SetCopyStatusClosingLoan_tx_Inr:
  assumes "SetCopyStatusClosingLoan_tx fl now i s staff d = Inr (x, d')"
  obtains a where "i \<in> copy_ids d" and
    "d' = d\<lparr>loans := update_where (\<lambda>l. loan_copy l = i \<and> open_loan l)
              (\<lambda>l. l\<lparr>loan_returned_at := Some now, loan_returned_to := Some staff\<rparr>) (loans d),
            copies := update_where (\<lambda>c. copy_id c = i) (\<lambda>c. c\<lparr>copy_status := s\<rparr>) (copies d),
            audit_log := audit_log d @ [a]\<rparr>"
  using assms
  by (auto simp: SetCopyStatusClosingLoan_tx_def andthen_Inr update_copies_def audit_marked_def
      count_where_pos copy_ids_def dest!: close_loans_of_copy_Inr split: if_splits)

lemma open_loans_closed:
  "count_where (\<lambda>l. loan_copy l = c \<and> open_loan l)
     (update_where (\<lambda>l. loan_copy l = i \<and> open_loan l)
       (\<lambda>l. l\<lparr>loan_returned_at := Some now, loan_returned_to := Some staff\<rparr>) ls) =
   (if c = i then 0 else count_where (\<lambda>l. loan_copy l = c \<and> open_loan l) ls)"
  by (induction ls) (auto simp: open_loan_def)

lemma SetCopyStatusClosingLoan_inv:
  assumes inv: "lib_inv d" and s: "s \<noteq> CopyOnLoan"
  shows "lib_inv (snd (SetCopyStatusClosingLoan fl now i s staff d))"
  unfolding SetCopyStatusClosingLoan_def
proof (rule transact_inv [where I = lib_inv, OF _ inv])
  fix x d' assume "SetCopyStatusClosingLoan_tx fl now i s staff d = Inr (x, d')"
  then obtain a where d': "d' = d\<lparr>loans := update_where (\<lambda>l. loan_copy l = i \<and> open_loan l)
              (\<lambda>l. l\<lparr>loan_returned_at := Some now, loan_returned_to := Some staff\<rparr>) (loans d),
            copies := update_where (\<lambda>c. copy_id c = i) (\<lambda>c. c\<lparr>copy_status := s\<rparr>) (copies d),
            audit_log := audit_log d @ [a]\<rparr>" (is "d' = d\<lparr>loans := ?ls, copies := ?cs, audit_log := _\<rparr>")
    by (rule SetCopyStatusClosingLoan_tx_Inr)
  have "lib_inv (d\<lparr>copies := ?cs, loans := ?ls\<rparr>)"
  proof (rule lib_inv_copies [OF inv])
    have "refs_ok d" "custody_ok d" using inv by blast+
    then show "\<forall>l \<in> set ?ls. loan_borrowed_at l < loan_due_at l"
      and "custody_ok (d\<lparr>copies := ?cs, loans := ?ls\<rparr>)"
      using s by (auto simp: refs_ok_def custody_ok_def open_loans_of_copy_def open_loans_closed
          set_update_where)
  qed (simp_all add: map_update_where)
  moreover have "lib_inv d' = lib_inv (d\<lparr>copies := ?cs, loans := ?ls\<rparr>)"
    by (rule lib_inv_cong) (simp_all add: d')
  ultimately show "lib_inv d'" by simp
qed

lemma UpdateCopy_tx_Inr:
  assumes "UpdateCopy_tx fl now i pol st staff d = Inr (x, d')"
  obtains a where "i \<in> copy_ids d" and
    "d' = d\<lparr>copies := update_where (\<lambda>c. copy_id c = i) (edit_copy pol st) (copies d),
            audit_log := audit_log d @ [a]\<rparr>"
  using assms
  by (auto simp: UpdateCopy_tx_def andthen_Inr update_copies_def count_where_pos copy_ids_def
      elim!: recordAudit_InrE)

text \<open>
  Editing a status keeps custody only when the edit leaves the copy on the same side of being out:
  the repository does not look, so its caller must.
\<close>

lemma UpdateCopyRow_inv:
  assumes inv: "lib_inv d"
    and ok: "\<forall>c s. find_copy_row i d = Some c \<longrightarrow> st = Some s \<longrightarrow>
      (s = CopyOnLoan \<longleftrightarrow> copy_status c = CopyOnLoan)"
  shows "lib_inv (snd (UpdateCopyRow fl now i pol st staff d))"
  unfolding UpdateCopyRow_def
proof (rule transact_inv [where I = lib_inv, OF _ inv])
  fix x d' assume "UpdateCopy_tx fl now i pol st staff d = Inr (x, d')"
  then obtain a where d': "d' = d\<lparr>copies := update_where (\<lambda>c. copy_id c = i) (edit_copy pol st) (copies d),
            audit_log := audit_log d @ [a]\<rparr>" (is "d' = d\<lparr>copies := ?cs, audit_log := _\<rparr>")
    by (rule UpdateCopy_tx_Inr)
  have "lib_inv (d\<lparr>copies := ?cs, loans := loans d\<rparr>)"
  proof (rule lib_inv_copies [OF inv])
    show "\<forall>l \<in> set (loans d). loan_borrowed_at l < loan_due_at l"
      using inv by (auto simp: lib_inv_def refs_ok_def)
    show "custody_ok (d\<lparr>copies := ?cs, loans := loans d\<rparr>)"
      unfolding custody_ok_def
    proof
      fix c' assume "c' \<in> set (copies (d\<lparr>copies := ?cs, loans := loans d\<rparr>))"
      then obtain c where c: "c \<in> set (copies d)" "c' = (if copy_id c = i then edit_copy pol st c else c)"
        by (auto simp: set_update_where)
      have "open_loans_of_copy (copy_id c) d = (if copy_status c = CopyOnLoan then 1 else 0)"
        using inv c by (auto simp: lib_inv_def custody_ok_def)
      moreover have "copy_status c' = CopyOnLoan \<longleftrightarrow> copy_status c = CopyOnLoan"
        using c ok inv find_copy_row_key [of d c] by (auto simp: edit_copy_def split: option.splits)
      moreover have "copy_id c' = copy_id c" using c by (simp add: edit_copy_def)
      ultimately show "open_loans_of_copy (copy_id c') (d\<lparr>copies := ?cs, loans := loans d\<rparr>) =
          (if copy_status c' = CopyOnLoan then 1 else 0)"
        by (simp add: open_loans_of_copy_def)
    qed
  qed (simp_all add: map_update_where edit_copy_def)
  moreover have "lib_inv d' = lib_inv (d\<lparr>copies := ?cs, loans := loans d\<rparr>)"
    by (rule lib_inv_cong) (simp_all add: d')
  ultimately show "lib_inv d'" by simp
qed

end
