(* ===== verification/Catalogue.thy ===== *)
theory Catalogue
  imports Copies
begin

text \<open>
  The bibliographic records (catalogue_repo.go and book_edit_repo.go): availability computed from the
  copies at every read, the searches and listings of the public catalogue, and the transactions that
  add, edit and archive a title.

  Full text search, its rank and the collation of the database are parameters.
\<close>

section \<open>Availability\<close>

definition availability_of :: "uuid \<Rightarrow> db \<Rightarrow> availability" where
  "availability_of b d = (let n = (\<lambda>P. int (count_where (\<lambda>c. copy_book c = b \<and> P c) (copies d))) in
     \<lparr>TotalCopies = n (\<lambda>c. copy_status c \<noteq> CopyWithdrawn),
      Available = n (\<lambda>c. copy_status c = CopyAvailable \<and> copy_policy c = PolicyCirculating),
      OnLoan = n (\<lambda>c. copy_status c = CopyOnLoan),
      NotForLoan = n (\<lambda>c. copy_status c = CopyAvailable \<and> copy_policy c \<noteq> PolicyCirculating),
      Stock = n (\<lambda>c. copy_policy c = PolicyCirculating \<and>
                 (copy_status c = CopyAvailable \<or> copy_status c = CopyOnLoan))\<rparr>)"

text \<open>The row a query of books returns: subject headings in collation order, counts computed.\<close>

definition scanBook :: "collation \<Rightarrow> db \<Rightarrow> book_row \<Rightarrow> book" where
  "scanBook collate d b =
     \<lparr>book_id = book_id b, book_title = book_title b, book_subtitle = book_subtitle b,
      book_isbn13 = book_isbn13 b, book_isbn10 = book_isbn10 b, book_publisher = book_publisher b,
      book_place = book_place b, book_published_year = book_published_year b,
      book_call_number = book_call_number b, book_lcc_class = book_lcc_class b,
      book_description = book_description b, book_status = book_status b,
      book_edition = book_edition b, book_language = book_language b, book_faculty = book_faculty b,
      book_department = book_department b, book_created_at = book_created_at b,
      book_updated_at = 0, book_authors = book_authors b,
      book_subjects = sort_key collate (book_subjects b),
      book_availability = availability_of (book_id b) d\<rparr>"

definition borrowableExpression :: "uuid \<Rightarrow> db \<Rightarrow> int" where
  "borrowableExpression b d =
     (let stock = int (stock_of_book b d); available = int (available_of_book b d)
      in if stock < 2 then available else max (available - 1) 0)"

definition wingExpression :: "book_row \<Rightarrow> string" where
  "wingExpression b =
     (if ''A'' \<le> book_lcc_class b \<and> book_lcc_class b \<le> ''J'' then ''South''
      else if ''K'' \<le> book_lcc_class b \<and> book_lcc_class b \<le> ''Z'' then ''North'' else ''Unknown'')"

lemma availability_counts:
  "Stock (availability_of b d) = int (stock_of_book b d)"
  "Available (availability_of b d) = int (available_of_book b d)"
  by (auto simp: availability_of_def Let_def stock_of_book_def available_of_book_def circulating_def
      intro!: count_where_cong)

section \<open>Search\<close>

record search_params =
  sp_Faculty :: string
  sp_Department :: string
  sp_Language :: string
  sp_Wing :: string
  sp_YearFrom :: "int option"
  sp_YearTo :: "int option"
  sp_Available :: "bool option"
  sp_Borrowable :: "bool option"
  sp_Sort :: string
  sp_Query :: string
  sp_Title :: string
  sp_Author :: string
  sp_Subject :: string
  sp_ISBN :: string
  sp_CallNumber :: string
  sp_LCCClass :: string
  sp_OnlyAvailable :: bool
  sp_Limit :: int
  sp_Offset :: int

text \<open>What the text search of the database answers: does a query match a title, and how well.\<close>

record text_search =
  ts_matches :: "string \<Rightarrow> book_row \<Rightarrow> bool"
  ts_rank :: "string \<Rightarrow> book_row \<Rightarrow> int"

definition ilike_contains :: "string \<Rightarrow> string \<Rightarrow> bool" where
  "ilike_contains t q = ilike t (''%'' @ q @ ''%'')"

definition search_available :: "search_params \<Rightarrow> bool option" where
  "search_available p =
     (if sp_Available p = None \<and> sp_OnlyAvailable p then Some True else sp_Available p)"

definition searchWhere :: "text_search \<Rightarrow> search_params \<Rightarrow> db \<Rightarrow> book_row \<Rightarrow> bool" where
  "searchWhere ts p d b \<longleftrightarrow>
     book_status b = BookActive \<and>
     (sp_Query p = '''' \<or> ts_matches ts (sp_Query p) b) \<and>
     (sp_Title p = '''' \<or> ilike_contains (book_title b) (sp_Title p)) \<and>
     (sp_Author p = '''' \<or> list_ex (\<lambda>a. ilike_contains a (sp_Author p)) (book_authors b)) \<and>
     (sp_Subject p = '''' \<or> list_ex (\<lambda>s. ilike_contains s (sp_Subject p)) (book_subjects b)) \<and>
     (let isbn = filter (\<lambda>c. c \<noteq> CHR ''-'') (sp_ISBN p) in
        isbn = '''' \<or> book_isbn13 b = isbn \<or> book_isbn10 b = isbn) \<and>
     (sp_CallNumber p = '''' \<or> ilike (book_call_number b) (sp_CallNumber p @ ''%'')) \<and>
     (sp_LCCClass p = '''' \<or> book_lcc_class b = sp_LCCClass p) \<and>
     (case search_available p of None \<Rightarrow> True | Some v \<Rightarrow> (0 < borrowableExpression (book_id b) d) = v) \<and>
     (case sp_Borrowable p of None \<Rightarrow> True | Some v \<Rightarrow> (0 < borrowableExpression (book_id b) d) = v) \<and>
     (sp_Faculty p = '''' \<or> to_lower (book_faculty b) = to_lower (sp_Faculty p)) \<and>
     (sp_Department p = '''' \<or> to_lower (book_department b) = to_lower (sp_Department p)) \<and>
     (sp_Language p = '''' \<or> to_lower (book_language b) = to_lower (sp_Language p)) \<and>
     (sp_Wing p = '''' \<or> wingExpression b = sp_Wing p) \<and>
     (case sp_YearFrom p of None \<Rightarrow> True
        | Some y \<Rightarrow> (case book_published_year b of None \<Rightarrow> False | Some x \<Rightarrow> y \<le> x)) \<and>
     (case sp_YearTo p of None \<Rightarrow> True
        | Some y \<Rightarrow> (case book_published_year b of None \<Rightarrow> False | Some x \<Rightarrow> x \<le> y))"

text \<open>The ORDER BY of the search; a CASE that does not apply is NULL for every row.\<close>

definition search_order ::
  "text_search \<Rightarrow> collation \<Rightarrow> search_params \<Rightarrow> book_row \<Rightarrow> int \<times> (int \<times> int) \<times> (int \<times> int) \<times> string \<times> uuid"
  where
  "search_order ts collate p b =
     (let sort = (if sp_Sort p = '''' then ''relevance'' else sp_Sort p) in
      (if sort = ''relevance'' then - ts_rank ts (sp_Query p) b else 0,
       if sort = ''newest'' then (case book_published_year b of None \<Rightarrow> (1, 0) | Some y \<Rightarrow> (0, - y)) else (0, 0),
       if sort = ''oldest'' then (case book_published_year b of None \<Rightarrow> (1, 0) | Some y \<Rightarrow> (0, y)) else (0, 0),
       collate (book_title b), book_id b))"

text \<open>One read-only snapshot serves the count and the page.\<close>

definition bookPage ::
  "faults \<Rightarrow> collation \<Rightarrow> (book_row \<Rightarrow> bool) \<Rightarrow> (book_row \<Rightarrow> 'k::linorder) \<Rightarrow> int \<Rightarrow> int \<Rightarrow> db \<Rightarrow>
   error + book list \<times> nat" where
  "bookPage fl collate cond order limit offset d = result_of (
     andthen (sql fl 0 (Inr ((), d))) (\<lambda>_ d.
     andthen (sql fl 1 (Inr (count_where cond (books d), d))) (\<lambda>total d.
     andthen (sql fl 2
       (if limit < 0 \<or> offset < 0 then Inl (DriverFailure ''negative limit or offset'')
        else Inr (map (scanBook collate d)
                   (page_of (nat limit) (nat offset) (sort_key order (filter cond (books d)))), d)))
       (\<lambda>page d.
     commit fl 3 (page, total) d))))"

definition Search ::
  "text_search \<Rightarrow> collation \<Rightarrow> faults \<Rightarrow> search_params \<Rightarrow> db \<Rightarrow> error + book list \<times> nat" where
  "Search ts collate fl p d =
     bookPage fl collate (searchWhere ts p d) (search_order ts collate p) (sp_Limit p) (sp_Offset p) d"

definition NewArrivals ::
  "collation \<Rightarrow> faults \<Rightarrow> int \<Rightarrow> int \<Rightarrow> db \<Rightarrow> error + book list \<times> nat" where
  "NewArrivals collate fl limit offset d =
     bookPage fl collate (\<lambda>b. book_status b = BookActive) (\<lambda>b. (- book_created_at b, book_id b))
       limit offset d"

section \<open>Related titles and facets\<close>

definition shared :: "string list \<Rightarrow> string list \<Rightarrow> nat" where
  "shared xs ys = count_where (\<lambda>x. List.member ys x) xs"

definition Related :: "collation \<Rightarrow> faults \<Rightarrow> uuid \<Rightarrow> nat \<Rightarrow> db \<Rightarrow> error + book list" where
  "Related collate fl i limit d = sql fl 0 (Inr
     (case find_book_row i d of
        None \<Rightarrow> []
      | Some source \<Rightarrow>
          if book_status source \<noteq> BookActive then []
          else let subjects = (\<lambda>b. shared (book_subjects b) (book_subjects source));
                   authors = (\<lambda>b. shared (book_authors b) (book_authors source))
               in map (scanBook collate d) (take limit
                    (sort_key (\<lambda>b. (- int (subjects b), - int (authors b), collate (book_title b), book_id b))
                      (filter (\<lambda>b. book_status b = BookActive \<and> book_id b \<noteq> i \<and>
                                 (0 < subjects b \<or> 0 < authors b)) (books d))))))"

definition facet_keys :: "string list" where
  "facet_keys = [''subjects'', ''authors'', ''languages'', ''publication_years'', ''wings'',
     ''faculties'', ''departments'']"

definition facet_values :: "string \<Rightarrow> book_row \<Rightarrow> string list" where
  "facet_values facet b =
     (if facet = ''subjects'' then book_subjects b
      else if facet = ''authors'' then book_authors b
      else if facet = ''languages'' then [book_language b]
      else if facet = ''publication_years'' then
        (case book_published_year b of None \<Rightarrow> [] | Some y \<Rightarrow> [decimal_int y])
      else if facet = ''wings'' then [wingExpression b]
      else if facet = ''faculties'' then [book_faculty b]
      else if facet = ''departments'' then [book_department b] else [])"

text \<open>GROUP BY value: each value that is not blank with the number of distinct titles having it.\<close>

definition facet_counts :: "collation \<Rightarrow> book_row list \<Rightarrow> string \<Rightarrow> (string \<times> nat) list" where
  "facet_counts collate bs facet =
     map (\<lambda>v. (v, count_where (\<lambda>b. List.member (facet_values facet b) v) bs))
       (sort_key collate (remdups (filter (\<lambda>v. sql_trim v \<noteq> '''')
          (concat (map (facet_values facet) bs)))))"

definition Facets :: "collation \<Rightarrow> faults \<Rightarrow> db \<Rightarrow> error + (string \<times> (string \<times> nat) list) list" where
  "Facets collate fl d = sql fl 0 (Inr
     (map (\<lambda>k. (k, facet_counts collate (filter (\<lambda>b. book_status b = BookActive) (books d)) k)) facet_keys))"

section \<open>Reading one title\<close>

definition FindBook :: "collation \<Rightarrow> faults \<Rightarrow> nat \<Rightarrow> uuid \<Rightarrow> db \<Rightarrow> error + book" where
  "FindBook collate fl k i d =
     sql fl k (case find_book_row i d of None \<Rightarrow> Inl NoRows | Some b \<Rightarrow> Inr (scanBook collate d b))"

definition FindBookByISBN :: "collation \<Rightarrow> faults \<Rightarrow> string \<Rightarrow> db \<Rightarrow> error + book" where
  "FindBookByISBN collate fl s d =
     (let isbn = strip_hyphens_blanks (trim_space s) in
      if isbn = '''' then Inl ErrNotFound
      else sql fl 0 (case find (\<lambda>b. book_isbn13 b = isbn) (books d) of
                       None \<Rightarrow> Inl NoRows | Some b \<Rightarrow> Inr (scanBook collate d b)))"

end
