(* ===== verification/Catalogue_Edit.thy ===== *)
theory Catalogue_Edit
  imports Catalogue
begin

text \<open>
  The transactions on bibliographic records: adding a title with its authors and subjects, editing
  its metadata field by field, and archiving it (catalogue_repo.go, book_edit_repo.go).
\<close>

section \<open>Access points\<close>

text \<open>
  Attaching names in entry order: two statements for each name that is not blank, a name already
  attached is left where it is. Statement numbers continue from k; the next free one is returned.
\<close>

fun link_names :: "faults \<Rightarrow> nat \<Rightarrow> string list \<Rightarrow> string list \<Rightarrow> error + string list \<times> nat" where
  "link_names fl k [] linked = Inr (linked, k)"
| "link_names fl k (name # names) linked =
     (let name = trim_space name in
      if name = '''' then link_names fl k names linked
      else andthen (sql fl k (Inr ((), k))) (\<lambda>_ _.
           andthen (sql fl (Suc k) (Inr ((), k))) (\<lambda>_ _.
           link_names fl (Suc (Suc k)) names
             (if List.member linked name then linked else linked @ [name]))))"

definition linkAuthors :: "faults \<Rightarrow> nat \<Rightarrow> uuid \<Rightarrow> string list \<Rightarrow> db \<Rightarrow> error + nat \<times> db" where
  "linkAuthors fl k i names d =
     (case link_names fl k names (case find_book_row i d of None \<Rightarrow> [] | Some b \<Rightarrow> book_authors b) of
        Inl e \<Rightarrow> Inl e
      | Inr (linked, k) \<Rightarrow> Inr (k, d\<lparr>books := update_where (\<lambda>b. book_id b = i)
          (\<lambda>b. b\<lparr>book_authors := linked\<rparr>) (books d)\<rparr>))"

definition linkSubjects :: "faults \<Rightarrow> nat \<Rightarrow> uuid \<Rightarrow> string list \<Rightarrow> db \<Rightarrow> error + nat \<times> db" where
  "linkSubjects fl k i headings d =
     (case link_names fl k headings (case find_book_row i d of None \<Rightarrow> [] | Some b \<Rightarrow> book_subjects b) of
        Inl e \<Rightarrow> Inl e
      | Inr (linked, k) \<Rightarrow> Inr (k, d\<lparr>books := update_where (\<lambda>b. book_id b = i)
          (\<lambda>b. b\<lparr>book_subjects := linked\<rparr>) (books d)\<rparr>))"

section \<open>Adding a title\<close>

record create_book_params =
  cb_Edition :: string
  cb_Language :: string
  cb_Faculty :: string
  cb_Department :: string
  cb_Title :: string
  cb_Subtitle :: string
  cb_ISBN13 :: string
  cb_ISBN10 :: string
  cb_Publisher :: string
  cb_Place :: string
  cb_PublishedYear :: "int option"
  cb_CallNumber :: string
  cb_Description :: string
  cb_Authors :: "string list"
  cb_Subjects :: "string list"
  cb_StaffID :: uuid

definition nullif :: "string \<Rightarrow> string" where
  "nullif s = (if trim_space s = '''' then '''' else s)"

definition lcc_letter :: "string \<Rightarrow> bool" where
  "lcc_letter s \<longleftrightarrow> (case s of [c] \<Rightarrow> is_upper_byte c | _ \<Rightarrow> False)"

definition plausible_year :: "int option \<Rightarrow> bool" where
  "plausible_year y \<longleftrightarrow> (case y of None \<Rightarrow> True | Some n \<Rightarrow> 1000 \<le> n \<and> n \<le> 2100)"

text \<open>The checks and unique indexes of the table, for a row stored beside the others.\<close>

definition book_constraints :: "book_row \<Rightarrow> book_row list \<Rightarrow> pg_error option" where
  "book_constraints b others =
     (if \<not> lcc_letter (book_lcc_class b) then Some (CheckViolation ''lcc_class_is_a_letter'')
      else if \<not> plausible_year (book_published_year b)
      then Some (CheckViolation ''published_year_is_plausible'')
      else if book_isbn13 b \<noteq> '''' \<and> (\<exists>x \<in> set others. book_isbn13 x = book_isbn13 b)
      then Some (UniqueViolation ''books_isbn13_unique'')
      else None)"

definition new_book :: "time \<Rightarrow> uuid \<Rightarrow> string \<Rightarrow> create_book_params \<Rightarrow> book_row" where
  "new_book now nid lcc p =
     \<lparr>book_id = nid, book_title = cb_Title p, book_subtitle = nullif (cb_Subtitle p),
      book_isbn13 = cb_ISBN13 p, book_isbn10 = cb_ISBN10 p, book_publisher = cb_Publisher p,
      book_place = cb_Place p, book_published_year = cb_PublishedYear p,
      book_call_number = trim_space (cb_CallNumber p), book_lcc_class = lcc,
      book_description = cb_Description p, book_status = BookActive, book_edition = cb_Edition p,
      book_language = cb_Language p, book_faculty = cb_Faculty p, book_department = cb_Department p,
      book_created_at = now, book_updated_at = now, book_authors = [], book_subjects = []\<rparr>"

definition insert_book ::
  "time \<Rightarrow> uuid \<Rightarrow> string \<Rightarrow> create_book_params \<Rightarrow> db \<Rightarrow> pg_error + uuid \<times> db" where
  "insert_book now nid lcc p d =
     (let b = new_book now nid lcc p in
      if nid \<in> book_ids d then Inl (UniqueViolation ''books_pkey'')
      else case book_constraints b (books d) of
        Some e \<Rightarrow> Inl e
      | None \<Rightarrow> Inr (nid, d\<lparr>books := books d @ [b]\<rparr>))"

definition CreateBook_tx ::
  "faults \<Rightarrow> time \<Rightarrow> uuid \<Rightarrow> create_book_params \<Rightarrow> db \<Rightarrow> error + (uuid \<times> nat) \<times> db" where
  "CreateBook_tx fl now nid p d =
     andthen (sql fl 0 (Inr ((), d))) (\<lambda>_ d.
     let lccClass = to_upper (trim_space (cb_CallNumber p)) in
     fail_if (lccClass = '''') ErrInvalidCallNumber (
     case exec fl 1 (insert_book now nid (take 1 lccClass) p d) of
       Inl e \<Rightarrow> Inl (if isUniqueViolation e ''books_isbn13_unique'' then ErrDuplicateISBN else translate e)
     | Inr (i, d) \<Rightarrow>
         andthen (linkAuthors fl 2 i (cb_Authors p) d) (\<lambda>k d.
         andthen (linkSubjects fl k i (cb_Subjects p) d) (\<lambda>k d.
         andthen (sql fl k (Inr ((), d))) (\<lambda>_ d.
         andthen (sql fl (k + 1) (recordAudit (cb_StaffID p) ''BOOK_CREATED'' ''book'' i
            [(''title'', JStr (cb_Title p)), (''call_number'', JStr (cb_CallNumber p))] now d)) (\<lambda>_ d.
         commit fl (k + 2) (i, k + 3) d))))))"

text \<open>The record is read back after the commit: a failure then is reported though the title exists.\<close>

definition CreateBook ::
  "collation \<Rightarrow> faults \<Rightarrow> time \<Rightarrow> uuid \<Rightarrow> create_book_params \<Rightarrow> db \<Rightarrow> (error + book) \<times> db" where
  "CreateBook collate fl now nid p d =
     (case transact (CreateBook_tx fl now nid p) d of
        (Inl e, d) \<Rightarrow> (Inl e, d)
      | (Inr (i, k), d) \<Rightarrow> (FindBook collate fl k i d, d))"

section \<open>Archiving\<close>

definition ArchiveBook_tx :: "faults \<Rightarrow> time \<Rightarrow> uuid \<Rightarrow> uuid \<Rightarrow> db \<Rightarrow> error + unit \<times> db" where
  "ArchiveBook_tx fl now i staffID d =
     andthen (sql fl 0 (Inr ((), d))) (\<lambda>_ d.
     andthen (sql fl 1 (Inr (count_where (\<lambda>b. book_id b = i) (books d),
        d\<lparr>books := update_where (\<lambda>b. book_id b = i)
            (\<lambda>b. b\<lparr>book_status := BookArchived, book_updated_at := now\<rparr>) (books d)\<rparr>))) (\<lambda>n d.
     fail_if (n = 0) ErrNotFound (
     andthen (sql fl 2 (recordAudit staffID ''BOOK_ARCHIVED'' ''book'' i [] now d)) (\<lambda>_ d.
     commit fl 3 () d))))"

definition ArchiveBook :: "faults \<Rightarrow> time \<Rightarrow> uuid \<Rightarrow> uuid \<Rightarrow> db \<Rightarrow> (error + unit) \<times> db" where
  "ArchiveBook fl now i staffID = transact (ArchiveBook_tx fl now i staffID)"

section \<open>Editing a title\<close>

record update_book_params =
  ub_Title :: "string option"
  ub_Subtitle :: "string option"
  ub_ISBN13 :: "string option"
  ub_ISBN10 :: "string option"
  ub_Publisher :: "string option"
  ub_Place :: "string option"
  ub_CallNumber :: "string option"
  ub_Edition :: "string option"
  ub_Language :: "string option"
  ub_Description :: "string option"
  ub_Faculty :: "string option"
  ub_Department :: "string option"
  ub_PublishedYear :: "int option"
  ub_Authors :: "string list option"
  ub_Subjects :: "string list option"
  ub_StaffID :: uuid

definition text_fields :: "update_book_params \<Rightarrow> book \<Rightarrow> (string \<times> string option \<times> string) list" where
  "text_fields p before =
     [(''title'', ub_Title p, book_title before), (''subtitle'', ub_Subtitle p, book_subtitle before),
      (''isbn13'', ub_ISBN13 p, book_isbn13 before), (''isbn10'', ub_ISBN10 p, book_isbn10 before),
      (''publisher'', ub_Publisher p, book_publisher before),
      (''place_of_publication'', ub_Place p, book_place before),
      (''call_number'', ub_CallNumber p, book_call_number before),
      (''edition'', ub_Edition p, book_edition before), (''language'', ub_Language p, book_language before),
      (''description'', ub_Description p, book_description before),
      (''faculty'', ub_Faculty p, book_faculty before),
      (''department'', ub_Department p, book_department before)]"

definition changed_of :: "update_book_params \<Rightarrow> book \<Rightarrow> string list" where
  "changed_of p before =
     map fst (filter (\<lambda>(name, supplied, previous).
        case supplied of None \<Rightarrow> False | Some v \<Rightarrow> v \<noteq> previous) (text_fields p before)) @
     (case ub_PublishedYear p of None \<Rightarrow> []
        | Some y \<Rightarrow> if book_published_year before = Some y then [] else [''published_year'']) @
     (case ub_Authors p of None \<Rightarrow> [] | Some a \<Rightarrow> if a = book_authors before then [] else [''authors'']) @
     (case ub_Subjects p of None \<Rightarrow> []
        | Some s \<Rightarrow> if sort s = sort (book_subjects before) then [] else [''subjects''])"

definition or_old :: "'a option \<Rightarrow> 'a \<Rightarrow> 'a" where
  "or_old new old = (case new of None \<Rightarrow> old | Some v \<Rightarrow> v)"

definition edited_book :: "time \<Rightarrow> string option \<Rightarrow> update_book_params \<Rightarrow> book_row \<Rightarrow> book_row" where
  "edited_book now lcc p b =
     b\<lparr>book_title := or_old (ub_Title p) (book_title b),
       book_subtitle := or_old (ub_Subtitle p) (book_subtitle b),
       book_isbn13 := or_old (ub_ISBN13 p) (book_isbn13 b),
       book_isbn10 := or_old (ub_ISBN10 p) (book_isbn10 b),
       book_publisher := or_old (ub_Publisher p) (book_publisher b),
       book_place := or_old (ub_Place p) (book_place b),
       book_published_year := (case ub_PublishedYear p of None \<Rightarrow> book_published_year b | Some y \<Rightarrow> Some y),
       book_call_number := or_old (ub_CallNumber p) (book_call_number b),
       book_lcc_class := or_old lcc (book_lcc_class b),
       book_edition := or_old (ub_Edition p) (book_edition b),
       book_language := or_old (ub_Language p) (book_language b),
       book_description := or_old (ub_Description p) (book_description b),
       book_faculty := or_old (ub_Faculty p) (book_faculty b),
       book_department := or_old (ub_Department p) (book_department b),
       book_updated_at := now\<rparr>"

definition update_book_row ::
  "time \<Rightarrow> uuid \<Rightarrow> string option \<Rightarrow> update_book_params \<Rightarrow> db \<Rightarrow> pg_error + unit \<times> db" where
  "update_book_row now i lcc p d =
     (case find_book_row i d of
        None \<Rightarrow> Inr ((), d)
      | Some b \<Rightarrow>
          (case book_constraints (edited_book now lcc p b) (filter (\<lambda>x. book_id x \<noteq> i) (books d)) of
             Some e \<Rightarrow> Inl e
           | None \<Rightarrow> Inr ((), d\<lparr>books := update_where (\<lambda>b. book_id b = i) (edited_book now lcc p) (books d)\<rparr>)))"

definition clear_authors :: "uuid \<Rightarrow> db \<Rightarrow> db" where
  "clear_authors i d = d\<lparr>books := update_where (\<lambda>b. book_id b = i) (\<lambda>b. b\<lparr>book_authors := []\<rparr>) (books d)\<rparr>"

definition clear_subjects :: "uuid \<Rightarrow> db \<Rightarrow> db" where
  "clear_subjects i d = d\<lparr>books := update_where (\<lambda>b. book_id b = i) (\<lambda>b. b\<lparr>book_subjects := []\<rparr>) (books d)\<rparr>"

definition apply_edit ::
  "collation \<Rightarrow> faults \<Rightarrow> time \<Rightarrow> uuid \<Rightarrow> update_book_params \<Rightarrow> string list \<Rightarrow> string option \<Rightarrow> db \<Rightarrow>
   error + book \<times> db" where
  "apply_edit collate fl now i p changed lcc d =
     (case exec fl 3 (update_book_row now i lcc p d) of
        Inl e \<Rightarrow> Inl (if isUniqueViolation e ''books_isbn13_unique'' then ErrDuplicateISBN else translate e)
      | Inr (_, d) \<Rightarrow>
          andthen (if List.member changed ''authors''
                   then andthen (sql fl 4 (Inr ((), clear_authors i d))) (\<lambda>_ d.
                        linkAuthors fl 5 i (or_old (ub_Authors p) []) d)
                   else Inr (5, d)) (\<lambda>k d.
          andthen (if List.member changed ''subjects''
                   then andthen (sql fl k (Inr ((), clear_subjects i d))) (\<lambda>_ d.
                        linkSubjects fl (k + 1) i (or_old (ub_Subjects p) []) d)
                   else Inr (k + 1, d)) (\<lambda>k d.
          andthen (sql fl k (Inr ((), d))) (\<lambda>_ d.
          andthen (sql fl (k + 1) (recordAudit (ub_StaffID p) ''BOOK_METADATA_UPDATED'' ''book'' i
             [(''changed_fields'', JStrs (sort changed))] now d)) (\<lambda>_ d.
          andthen (sql fl (k + 2) (case find_book_row i d of
                     None \<Rightarrow> Inl NoRows | Some b \<Rightarrow> Inr (scanBook collate d b, d))) (\<lambda>updated d.
          commit fl (k + 3) updated d))))))"

definition UpdateBook_tx ::
  "collation \<Rightarrow> faults \<Rightarrow> time \<Rightarrow> uuid \<Rightarrow> update_book_params \<Rightarrow> db \<Rightarrow> error + book \<times> db" where
  "UpdateBook_tx collate fl now i p d =
     andthen (sql fl 0 (Inr ((), d))) (\<lambda>_ d.
     andthen (sql fl 1 (case find_book_row i d of None \<Rightarrow> Inl NoRows | Some b \<Rightarrow> Inr (book_id b, d))) (\<lambda>_ d.
     andthen (sql fl 2 (case find_book_row i d of
                None \<Rightarrow> Inl NoRows | Some b \<Rightarrow> Inr (scanBook collate d b, d))) (\<lambda>before d.
     let changed = changed_of p before in
     if changed = [] then commit fl 3 before d
     else case ub_CallNumber p of
         None \<Rightarrow> apply_edit collate fl now i p changed None d
       | Some cn \<Rightarrow>
           let class = to_upper (trim_space cn) in
           fail_if (class = '''') ErrInvalidCallNumber
             (apply_edit collate fl now i p changed (Some (take 1 class)) d))))"

definition UpdateBook ::
  "collation \<Rightarrow> faults \<Rightarrow> time \<Rightarrow> uuid \<Rightarrow> update_book_params \<Rightarrow> db \<Rightarrow> (error + book) \<times> db" where
  "UpdateBook collate fl now i p = transact (UpdateBook_tx collate fl now i p)"

section \<open>The invariants\<close>

text \<open>
  What the table's checks and these transactions keep of every title: its class letter is the first
  letter of its class mark, its year is plausible, and no access point is attached twice.
\<close>

definition title_ok :: "book_row \<Rightarrow> bool" where
  "title_ok b \<longleftrightarrow> lcc_letter (book_lcc_class b) \<and>
     book_lcc_class b = take 1 (to_upper (trim_space (book_call_number b))) \<and>
     plausible_year (book_published_year b) \<and> distinct (book_authors b) \<and> distinct (book_subjects b)"

definition catalogue_ok :: "db \<Rightarrow> bool" where
  "catalogue_ok d \<longleftrightarrow> (\<forall>b \<in> set (books d). title_ok b)"

lemma link_names_distinct:
  "link_names fl k names linked = Inr (linked', k') \<Longrightarrow> distinct linked \<Longrightarrow> distinct linked'"
  by (induction fl k names linked rule: link_names.induct)
    (auto simp: Let_def andthen_Inr split: if_splits)

lemma lib_inv_books:
  assumes "lib_inv d" and "map book_id bs = map book_id (books d)"
    and "distinct (filter (\<lambda>s. s \<noteq> []) (map book_isbn13 bs))"
  shows "lib_inv (d\<lparr>books := bs\<rparr>)"
proof
  show "keys_ok (d\<lparr>books := bs\<rparr>)" using assms by (simp add: lib_inv_def keys_ok_def)
  show "users_ok (d\<lparr>books := bs\<rparr>)" using assms(1) by (simp add: lib_inv_def users_ok_def)
  show "refs_ok (d\<lparr>books := bs\<rparr>)"
    using assms(1) map_eq_set [OF assms(2)] by (simp add: lib_inv_def refs_ok_def id_sets)
  show "custody_ok (d\<lparr>books := bs\<rparr>)"
    using assms(1) by (simp add: lib_inv_def custody_ok_def open_loans_of_copy_def)
  show "queue_ok (d\<lparr>books := bs\<rparr>)" using assms(1) by (simp add: lib_inv_def queue_ok_def)
qed

lemma distinct_nonempty_update:
  assumes "distinct (filter (\<lambda>s. s \<noteq> []) (map g xs))" and "distinct (map k xs)"
    and "\<And>x. x \<in> set xs \<Longrightarrow> k x = i \<Longrightarrow> g (f x) = [] \<or> g (f x) \<notin> g ` {y \<in> set xs. k y \<noteq> i}"
  shows "distinct (filter (\<lambda>s. s \<noteq> []) (map g (update_where (\<lambda>x. k x = i) f xs)))"
  using assms
proof (induction xs)
  case (Cons x xs)
  have IH: "distinct (filter (\<lambda>s. s \<noteq> []) (map g (update_where (\<lambda>x. k x = i) f xs)))"
  proof (rule Cons.IH)
    fix y assume y: "y \<in> set xs" "k y = i"
    then have "{z \<in> set xs. k z \<noteq> i} \<subseteq> {z \<in> set (x # xs). k z \<noteq> i}" by auto
    with Cons.prems(3) [of y] y show "g (f y) = [] \<or> g (f y) \<notin> g ` {z \<in> set xs. k z \<noteq> i}" by auto
  qed (use Cons.prems in \<open>auto split: if_splits\<close>)
  show ?case
  proof (cases "k x = i")
    case True
    with Cons.prems(2) have same: "update_where (\<lambda>x. k x = i) f xs = xs"
      by (intro update_where_none) (auto simp: image_iff)
    have "\<forall>y \<in> set xs. k y \<noteq> i" using True Cons.prems(2) by (auto simp: image_iff)
    with Cons.prems(3) [of x] True have "g (f x) = [] \<or> g (f x) \<notin> g ` set xs" by auto
    with IH same True show ?thesis by auto
  next
    case False
    have "g x \<noteq> [] \<Longrightarrow> g x \<notin> g ` set (update_where (\<lambda>x. k x = i) f xs)"
    proof
      assume ne: "g x \<noteq> []" and "g x \<in> g ` set (update_where (\<lambda>x. k x = i) f xs)"
      then obtain y where y: "y \<in> set xs" "g x = g (if k y = i then f y else y)"
        by (auto simp: set_update_where)
      show False
      proof (cases "k y = i")
        case True
        moreover have "g x \<in> g ` {z \<in> set (x # xs). k z \<noteq> i}" using \<open>k x \<noteq> i\<close> by auto
        ultimately show False using Cons.prems(3) [of y] y ne by auto
      next
        case False
        with y ne Cons.prems(1) show False by auto
      qed
    qed
    with IH False show ?thesis by auto
  qed
qed simp

lemma books_update_inv:
  assumes inv: "lib_inv d"
    and id: "\<And>b. book_id (f b) = book_id b"
    and isbn: "\<And>b. b \<in> set (books d) \<Longrightarrow> book_id b = i \<Longrightarrow>
      book_isbn13 (f b) = book_isbn13 b \<or> book_isbn13 (f b) = [] \<or>
      book_isbn13 (f b) \<notin> book_isbn13 ` {x \<in> set (books d). book_id x \<noteq> i}"
  shows "lib_inv (d\<lparr>books := update_where (\<lambda>b. book_id b = i) f (books d)\<rparr>)"
proof (rule lib_inv_books [OF inv])
  show "map book_id (update_where (\<lambda>b. book_id b = i) f (books d)) = map book_id (books d)"
    by (simp add: map_update_where id)
  have k: "distinct (filter (\<lambda>s. s \<noteq> []) (map book_isbn13 (books d)))" "distinct (map book_id (books d))"
    using inv by (auto simp: lib_inv_def keys_ok_def)
  have old: "book_isbn13 b = [] \<or> book_isbn13 b \<notin> book_isbn13 ` {x \<in> set (books d). book_id x \<noteq> i}"
    if b: "b \<in> set (books d)" "book_id b = i" for b
  proof (rule ccontr)
    assume "\<not> ?thesis"
    then obtain x where x: "x \<in> set (books d)" "book_id x \<noteq> i" "book_isbn13 x = book_isbn13 b"
      "book_isbn13 b \<noteq> []" by auto
    have "distinct (map book_isbn13 (filter (\<lambda>b. book_isbn13 b \<noteq> []) (books d)))"
      using k(1) by (simp add: filter_map comp_def)
    from distinct_key [OF this, of x b] x b show False by auto
  qed
  show "distinct (filter (\<lambda>s. s \<noteq> []) (map book_isbn13 (update_where (\<lambda>b. book_id b = i) f (books d))))"
  proof (rule distinct_nonempty_update [OF k])
    fix b assume b: "b \<in> set (books d)" "book_id b = i"
    from isbn [OF b] show "book_isbn13 (f b) = [] \<or>
        book_isbn13 (f b) \<notin> book_isbn13 ` {x \<in> set (books d). book_id x \<noteq> i}"
      by (elim disjE) (use old [OF b] in simp_all)
  qed
qed

lemma catalogue_update:
  "catalogue_ok d \<Longrightarrow> (\<And>b. b \<in> set (books d) \<Longrightarrow> book_id b = i \<Longrightarrow> title_ok (f b)) \<Longrightarrow>
   catalogue_ok (d\<lparr>books := update_where (\<lambda>b. book_id b = i) f (books d)\<rparr>)"
  by (auto simp: catalogue_ok_def set_update_where)

lemma catalogue_frame [simp]:
  "catalogue_ok (d\<lparr>audit_log := a\<rparr>) = catalogue_ok d"
  "catalogue_ok (d\<lparr>copies := cs\<rparr>) = catalogue_ok d"
  by (simp_all add: catalogue_ok_def)

definition books_inv :: "db \<Rightarrow> bool" where
  "books_inv d \<longleftrightarrow> lib_inv d \<and> catalogue_ok d"

lemma books_inv_frame [simp]: "books_inv (d\<lparr>audit_log := a\<rparr>) = books_inv d"
  by (simp add: books_inv_def)

lemma books_inv_update:
  assumes "books_inv d" and "\<And>b. book_id (f b) = book_id b"
    and "\<And>b. b \<in> set (books d) \<Longrightarrow> book_id b = i \<Longrightarrow> title_ok b \<Longrightarrow> title_ok (f b)"
    and "\<And>b. b \<in> set (books d) \<Longrightarrow> book_id b = i \<Longrightarrow>
      book_isbn13 (f b) = book_isbn13 b \<or> book_isbn13 (f b) = [] \<or>
      book_isbn13 (f b) \<notin> book_isbn13 ` {x \<in> set (books d). book_id x \<noteq> i}"
  shows "books_inv (d\<lparr>books := update_where (\<lambda>b. book_id b = i) f (books d)\<rparr>)"
proof -
  have "lib_inv d" "catalogue_ok d" using assms(1) by (simp_all add: books_inv_def)
  then show ?thesis
    unfolding books_inv_def using assms(2-4)
    by (intro conjI books_update_inv catalogue_update) (auto simp: catalogue_ok_def)
qed

lemma find_book_distinct:
  "books_inv d \<Longrightarrow> distinct (case find_book_row i d of None \<Rightarrow> [] | Some b \<Rightarrow> book_authors b) \<and>
     distinct (case find_book_row i d of None \<Rightarrow> [] | Some b \<Rightarrow> book_subjects b)"
  by (auto simp: books_inv_def catalogue_ok_def title_ok_def dest: find_rowD split: option.splits)

lemma linkAuthors_inv: "books_inv d \<Longrightarrow> linkAuthors fl k i names d = Inr (k', d') \<Longrightarrow> books_inv d'"
  using find_book_distinct [of d i]
  by (auto simp: linkAuthors_def title_ok_def intro!: books_inv_update split: sum.splits
      dest!: link_names_distinct)

lemma linkSubjects_inv: "books_inv d \<Longrightarrow> linkSubjects fl k i names d = Inr (k', d') \<Longrightarrow> books_inv d'"
  using find_book_distinct [of d i]
  by (auto simp: linkSubjects_def title_ok_def intro!: books_inv_update split: sum.splits
      dest!: link_names_distinct)

lemma recordAudit_inv: "books_inv d \<Longrightarrow> recordAudit a act ty e md now d = Inr (x, d') \<Longrightarrow> books_inv d'"
  by (auto elim!: recordAudit_InrE)

lemma insert_book_inv:
  assumes ins: "insert_book now nid lcc p d = Inr (i, d')" and inv: "books_inv d"
    and lcc: "lcc = take 1 (to_upper (trim_space (cb_CallNumber p)))"
  shows "books_inv d'"
proof -
  let ?b = "new_book now nid lcc p"
  from ins have d': "d' = d\<lparr>books := books d @ [?b]\<rparr>" and c: "book_constraints ?b (books d) = None"
    and new: "nid \<notin> book_ids d"
    by (auto simp: insert_book_def Let_def split: if_splits option.splits)
  from c have t: "title_ok ?b"
    by (auto simp: book_constraints_def title_ok_def new_book_def lcc split: if_splits)
  have isbn: "book_isbn13 ?b = [] \<or> book_isbn13 ?b \<notin> book_isbn13 ` set (books d)"
    using c by (auto simp: book_constraints_def split: if_splits)
  have "lib_inv d'"
    using inv new isbn unfolding d' books_inv_def
    by (auto simp: lib_inv_def lib_inv_parts new_book_def)
  with t inv show ?thesis by (auto simp: books_inv_def catalogue_ok_def d')
qed

lemma CreateBook_tx_inv: "books_inv d \<Longrightarrow> CreateBook_tx fl now nid p d = Inr (x, d') \<Longrightarrow> books_inv d'"
proof -
  assume inv: "books_inv d" and "CreateBook_tx fl now nid p d = Inr (x, d')"
  then obtain i d1 k2 d2 k3 d3 where
    1: "insert_book now nid (take 1 (to_upper (trim_space (cb_CallNumber p)))) p d = Inr (i, d1)"
    and 2: "linkAuthors fl 2 i (cb_Authors p) d1 = Inr (k2, d2)"
    and 3: "linkSubjects fl k2 i (cb_Subjects p) d2 = Inr (k3, d3)"
    and 4: "recordAudit (cb_StaffID p) ''BOOK_CREATED'' ''book'' i
       [(''title'', JStr (cb_Title p)), (''call_number'', JStr (cb_CallNumber p))] now d3 = Inr ((), d')"
    by (auto simp: CreateBook_tx_def andthen_Inr Let_def split: sum.splits prod.splits)
  show ?thesis
    by (rule recordAudit_inv [OF linkSubjects_inv [OF linkAuthors_inv
      [OF insert_book_inv [OF 1 inv refl] 2] 3] 4])
qed

lemma CreateBook_inv: "books_inv d \<Longrightarrow> books_inv (snd (CreateBook collate fl now nid p d))"
  using CreateBook_tx_inv [of d fl now nid p]
  by (auto simp: CreateBook_def transact_def split: sum.splits prod.splits)

lemma ArchiveBook_inv: "books_inv d \<Longrightarrow> books_inv (snd (ArchiveBook fl now i staffID d))"
  unfolding ArchiveBook_def
  by (rule transact_inv)
    (auto simp: ArchiveBook_tx_def andthen_Inr title_ok_def elim!: recordAudit_InrE intro!: books_inv_update)

lemma update_book_row_inv:
  assumes inv: "books_inv d" and upd: "update_book_row now i lcc p d = Inr (x, d')"
    and lcc: "lcc = map_option (\<lambda>cn. take 1 (to_upper (trim_space cn))) (ub_CallNumber p)"
  shows "books_inv d'"
proof (cases "find_book_row i d")
  case None
  with upd inv show ?thesis by (simp add: update_book_row_def)
next
  case (Some b)
  with upd have c: "book_constraints (edited_book now lcc p b) (filter (\<lambda>x. book_id x \<noteq> i) (books d)) = None"
    and d': "d' = d\<lparr>books := update_where (\<lambda>b. book_id b = i) (edited_book now lcc p) (books d)\<rparr>"
    by (auto simp: update_book_row_def split: option.splits)
  have only: "b' = b" if "b' \<in> set (books d)" "book_id b' = i" for b'
    using that find_rowD(3) [OF Some] inv
    by (auto simp: books_inv_def lib_inv_def keys_ok_def dest: distinct_key)
  show ?thesis unfolding d'
  proof (rule books_inv_update [OF inv])
    fix b' assume b': "b' \<in> set (books d)" "book_id b' = i"
    then have "b' = b" by (rule only)
    with c show "title_ok b' \<Longrightarrow> title_ok (edited_book now lcc p b')"
      by (auto simp: title_ok_def book_constraints_def edited_book_def or_old_def lcc
          split: if_splits option.splits)
    from \<open>b' = b\<close> c show "book_isbn13 (edited_book now lcc p b') = book_isbn13 b' \<or>
        book_isbn13 (edited_book now lcc p b') = [] \<or>
        book_isbn13 (edited_book now lcc p b') \<notin> book_isbn13 ` {x \<in> set (books d). book_id x \<noteq> i}"
      by (auto simp: book_constraints_def split: if_splits)
  qed (simp add: edited_book_def)
qed

lemma clear_inv:
  "books_inv d \<Longrightarrow> books_inv (clear_authors i d)" "books_inv d \<Longrightarrow> books_inv (clear_subjects i d)"
  by (auto simp: clear_authors_def clear_subjects_def title_ok_def intro!: books_inv_update)

lemma apply_edit_inv:
  assumes inv: "books_inv d"
    and lcc: "lcc = map_option (\<lambda>cn. take 1 (to_upper (trim_space cn))) (ub_CallNumber p)"
    and res: "apply_edit collate fl now i p changed lcc d = Inr (x, d')"
  shows "books_inv d'"
proof -
  from res obtain d1 k2 d2 k3 d3 d4 where
    1: "update_book_row now i lcc p d = Inr ((), d1)"
    and 2: "(if List.member changed ''authors''
             then andthen (sql fl 4 (Inr ((), clear_authors i d1))) (\<lambda>_ d.
                  linkAuthors fl 5 i (or_old (ub_Authors p) []) d)
             else Inr (5, d1)) = Inr (k2, d2)"
    and 3: "(if List.member changed ''subjects''
             then andthen (sql fl k2 (Inr ((), clear_subjects i d2))) (\<lambda>_ d.
                  linkSubjects fl (k2 + 1) i (or_old (ub_Subjects p) []) d)
             else Inr (k2 + 1, d2)) = Inr (k3, d3)"
    and 4: "recordAudit (ub_StaffID p) ''BOOK_METADATA_UPDATED'' ''book'' i
             [(''changed_fields'', JStrs (sort changed))] now d3 = Inr ((), d4)" and "d' = d4"
    by (auto simp: apply_edit_def andthen_Inr split: sum.splits prod.splits option.splits)
  have i1: "books_inv d1" by (rule update_book_row_inv [OF inv 1 lcc])
  have i2: "books_inv d2" using 2 i1
    by (auto simp: andthen_Inr split: if_splits elim: linkAuthors_inv [OF clear_inv(1)])
  have "books_inv d3" using 3 i2
    by (auto simp: andthen_Inr split: if_splits elim: linkSubjects_inv [OF clear_inv(2)])
  then show ?thesis using recordAudit_inv [OF _ 4] \<open>d' = d4\<close> by simp
qed

lemma UpdateBook_inv: "books_inv d \<Longrightarrow> books_inv (snd (UpdateBook collate fl now i p d))"
  unfolding UpdateBook_def
proof (rule transact_inv)
  fix x d' assume inv: "books_inv d" and "UpdateBook_tx collate fl now i p d = Inr (x, d')"
  then show "books_inv d'"
    by (auto simp: UpdateBook_tx_def andthen_Inr Let_def split: if_splits option.splits
        elim!: apply_edit_inv [OF inv, rotated])
qed

section \<open>What an edit leaves alone\<close>

definition others_same :: "uuid \<Rightarrow> db \<Rightarrow> db \<Rightarrow> bool" where
  "others_same i d d' \<longleftrightarrow>
     filter (\<lambda>b. book_id b \<noteq> i) (books d') = filter (\<lambda>b. book_id b \<noteq> i) (books d) \<and>
     copies d' = copies d \<and> loans d' = loans d \<and> reservations d' = reservations d \<and> users d' = users d"

lemma others_same_refl [simp]: "others_same i d d"
  by (simp add: others_same_def)

lemma others_same_trans: "others_same i d d' \<Longrightarrow> others_same i d' d'' \<Longrightarrow> others_same i d d''"
  by (simp add: others_same_def)

lemma filter_update_others:
  "(\<And>b. book_id (f b) = book_id b) \<Longrightarrow>
   filter (\<lambda>b. book_id b \<noteq> i) (update_where (\<lambda>b. book_id b = i) f bs) = filter (\<lambda>b. book_id b \<noteq> i) bs"
  by (induction bs) auto

lemma others_same_update [simp]:
  "(\<And>b. book_id (f b) = book_id b) \<Longrightarrow>
   others_same i d (d\<lparr>books := update_where (\<lambda>b. book_id b = i) f (books d)\<rparr>)"
  by (simp add: others_same_def filter_update_others)

lemma others_same_audit [simp]: "others_same i d (d\<lparr>audit_log := a\<rparr>)"
  by (simp add: others_same_def)

lemma linkAuthors_same: "linkAuthors fl k i names d = Inr (k', d') \<Longrightarrow> others_same i d d'"
  by (auto simp: linkAuthors_def split: sum.splits)

lemma linkSubjects_same: "linkSubjects fl k i names d = Inr (k', d') \<Longrightarrow> others_same i d d'"
  by (auto simp: linkSubjects_def split: sum.splits)

lemma clear_same: "others_same i d (clear_authors i d)" "others_same i d (clear_subjects i d)"
  by (simp_all add: clear_authors_def clear_subjects_def)

lemma apply_edit_same:
  assumes res: "apply_edit collate fl now i p changed lcc d = Inr (x, d')"
  shows "others_same i d d'"
proof -
  from res obtain d1 k2 d2 k3 d3 where
    1: "update_book_row now i lcc p d = Inr ((), d1)"
    and 2: "(if List.member changed ''authors''
             then andthen (sql fl 4 (Inr ((), clear_authors i d1))) (\<lambda>_ d.
                  linkAuthors fl 5 i (or_old (ub_Authors p) []) d)
             else Inr (5, d1)) = Inr (k2, d2)"
    and 3: "(if List.member changed ''subjects''
             then andthen (sql fl k2 (Inr ((), clear_subjects i d2))) (\<lambda>_ d.
                  linkSubjects fl (k2 + 1) i (or_old (ub_Subjects p) []) d)
             else Inr (k2 + 1, d2)) = Inr (k3, d3)"
    and 4: "recordAudit (ub_StaffID p) ''BOOK_METADATA_UPDATED'' ''book'' i
             [(''changed_fields'', JStrs (sort changed))] now d3 = Inr ((), d')"
    by (auto simp: apply_edit_def andthen_Inr split: sum.splits prod.splits option.splits)
  have "others_same i d d1"
    using 1 by (auto simp: update_book_row_def edited_book_def split: option.splits)
  moreover have "others_same i d1 d2" using 2
    by (auto simp: andthen_Inr split: if_splits
        dest!: linkAuthors_same intro: others_same_trans [OF clear_same(1)])
  moreover have "others_same i d2 d3" using 3
    by (auto simp: andthen_Inr split: if_splits
        dest!: linkSubjects_same intro: others_same_trans [OF clear_same(2)])
  moreover have "others_same i d3 d'" using 4 by (auto elim!: recordAudit_InrE)
  ultimately show ?thesis by (blast intro: others_same_trans)
qed

section \<open>Properties\<close>

text \<open>Adding, editing and archiving a title keep the library's invariant and, of every title, that its
  class letter is the letter its class mark starts with, that its year is plausible, and that no
  author or subject is attached twice, whichever statement fails; a failed edit or archive leaves
  the database as it was.\<close>

theorem catalogue_keeps_invariant:
  assumes "books_inv d"
  shows "books_inv (snd (CreateBook collate fl now nid p d)) \<and>
    books_inv (snd (ArchiveBook fl now i staffID d)) \<and>
    books_inv (snd (UpdateBook collate fl now i q d)) \<and>
    (\<forall>e. fst (UpdateBook collate fl now i q d) = Inl e \<longrightarrow> snd (UpdateBook collate fl now i q d) = d)"
  using CreateBook_inv [OF assms] ArchiveBook_inv [OF assms] UpdateBook_inv [OF assms]
  by (simp add: UpdateBook_def transact_rollback)

lemma sample_books_inv: "books_inv sample_db"
  using sample_inv
  by (simp add: books_inv_def catalogue_ok_def title_ok_def sample_book_def lcc_letter_def plausible_year_def
      trim_space_def to_upper_def upper_byte_def is_lower_byte_def is_upper_byte_def is_space_byte_def)

definition sample_new_book :: create_book_params where
  "sample_new_book = \<lparr>cb_Edition = '''', cb_Language = '''', cb_Faculty = '''', cb_Department = '''',
     cb_Title = ''Networks'', cb_Subtitle = '''', cb_ISBN13 = '''', cb_ISBN10 = '''', cb_Publisher = '''',
     cb_Place = '''', cb_PublishedYear = None, cb_CallNumber = ''tk5105'', cb_Description = '''',
     cb_Authors = [''Tanenbaum'', ''Tanenbaum''], cb_Subjects = [], cb_StaffID = 1\<rparr>"

theorem catalogue_keeps_invariant_witness:
  "books_inv (snd (CreateBook id no_faults 9 30 sample_new_book sample_db))"
  using catalogue_keeps_invariant [OF sample_books_inv, where collate = id and fl = no_faults and now = 9
    and nid = 30 and p = sample_new_book] by blast

text \<open>C13: the expressions the searches compute in SQL are the rules of the domain: the borrowable count is
  the domain's over the availability the same query reports, so a title counts as available exactly
  when a copy could leave the building, and the wing is the domain's for every stored class letter.\<close>

theorem sql_mirrors_domain:
  assumes "lcc_letter (book_lcc_class b)"
  shows "borrowableExpression (book_id b) d = Borrowable (book_availability (scanBook collate d b)) \<and>
    (0 < borrowableExpression (book_id b) d) = IsAvailable (book_availability (scanBook collate d b)) \<and>
    wingExpression b =
      (case Wing (scanBook collate d b) of
         WingSouth \<Rightarrow> ''South'' | WingNorth \<Rightarrow> ''North'' | WingUnknown \<Rightarrow> ''Unknown'')"
proof -
  obtain c where c: "book_lcc_class b = [c]" "is_upper_byte c"
    using assms by (auto simp: lcc_letter_def split: list.splits)
  have "borrowableExpression (book_id b) d = Borrowable (book_availability (scanBook collate d b))"
    by (simp add: borrowableExpression_def Borrowable_def scanBook_def availability_counts
        BorrowableCount_def Let_def)
  moreover have "[x] \<le> [y] \<longleftrightarrow> x \<le> y" for x y :: char
    by (simp add: le_less)
  ultimately show ?thesis
    by (simp add: IsAvailable_def wingExpression_def Wing_def WingFor_def c scanBook_def)
qed

theorem sql_mirrors_domain_witness:
  "borrowableExpression 10 sample_db = 1 \<and>
   borrowableExpression 10 sample_db =
     Borrowable (book_availability (scanBook id sample_db (sample_book 10 ''Algorithms'' '''')))"
  using sql_mirrors_domain [of "sample_book 10 ''Algorithms'' ''''" sample_db id]
  by (simp add: sample_book_def lcc_letter_def is_upper_byte_def borrowableExpression_def
      stock_of_book_def available_of_book_def circulating_def)

text \<open>A search reports the number of all matching titles whatever page is asked for, also past the
  last one, and its page holds only public titles that satisfy every filter, in the order asked,
  no more than the limit, and none twice.\<close>

theorem search_page:
  assumes "lib_inv d" and "Search ts collate fl p d = Inr (page, n)"
  shows "n = length (filter (searchWhere ts p d) (books d)) \<and>
    length page \<le> nat (sp_Limit p) \<and>
    (\<exists>rows. page = map (scanBook collate d) rows \<and> distinct (map book_id rows) \<and>
       sorted (map (search_order ts collate p) rows) \<and>
       (\<forall>b \<in> set rows. b \<in> set (books d) \<and> book_status b = BookActive \<and> searchWhere ts p d b))"
proof -
  let ?rows = "sort_key (search_order ts collate p) (filter (searchWhere ts p d) (books d))"
  let ?page = "page_of (nat (sp_Limit p)) (nat (sp_Offset p)) ?rows"
  from assms(2) have page: "page = map (scanBook collate d) ?page"
    and n: "n = count_where (searchWhere ts p d) (books d)"
    by (auto simp: Search_def bookPage_def result_of_Inr andthen_Inr split: if_splits)
  have "distinct (map book_id (filter (searchWhere ts p d) (books d)))"
    using assms(1) by (simp add: lib_inv_def keys_ok_def distinct_map_filter)
  then have "distinct (map book_id ?rows)"
    by (simp add: distinct_map)
  then have "distinct (map book_id ?page)" by (simp only: map_page_of distinct_page_of)
  moreover have "sorted (map (search_order ts collate p) ?page)"
    by (simp only: map_page_of sorted_page_of sorted_sort_key)
  moreover have "\<forall>b \<in> set ?page. b \<in> set (books d) \<and> book_status b = BookActive \<and> searchWhere ts p d b"
    using set_page_of [of "nat (sp_Limit p)" "nat (sp_Offset p)" ?rows]
    by (auto simp: searchWhere_def)
  moreover have "length page \<le> nat (sp_Limit p)" by (simp only: page length_map length_page_of)
  moreover have "n = length (filter (searchWhere ts p d) (books d))" by (simp only: n count_where_def)
  ultimately show ?thesis using page by blast
qed

definition sample_search :: search_params where
  "sample_search = \<lparr>sp_Faculty = '''', sp_Department = '''', sp_Language = '''', sp_Wing = '''',
     sp_YearFrom = None, sp_YearTo = None, sp_Available = Some False, sp_Borrowable = None,
     sp_Sort = '''', sp_Query = '''', sp_Title = ''comp%'', sp_Author = '''', sp_Subject = '''',
     sp_ISBN = '''', sp_CallNumber = '''', sp_LCCClass = '''', sp_OnlyAvailable = False,
     sp_Limit = 20, sp_Offset = 40\<rparr>"

definition sample_text_search :: text_search where
  "sample_text_search = \<lparr>ts_matches = (\<lambda>q b. True), ts_rank = (\<lambda>q b. 0)\<rparr>"

theorem search_page_witness:
  "\<exists>page n. Search sample_text_search id no_faults sample_search sample_db = Inr (page, n) \<and>
     page = [] \<and> n = length (filter (searchWhere sample_text_search sample_search sample_db) (books sample_db))"
proof -
  have s: "Search sample_text_search id no_faults sample_search sample_db =
    Inr ([], count_where (searchWhere sample_text_search sample_search sample_db) (books sample_db))"
  proof -
    have "length (filter (searchWhere sample_text_search sample_search sample_db) (books sample_db)) \<le> 2"
      by (rule order_trans [OF length_filter_le]) simp
    then show ?thesis
      by (simp add: Search_def bookPage_def page_of_def del: sample_tables) (simp add: sample_search_def)
  qed
  with search_page [OF sample_inv s] show ?thesis by blast
qed

text \<open>Editing one title touches nothing else. A successful edit leaves every other title, every copy,
  loan, reservation and account as they were, and a patch that changes no field returns the stored
  record and writes nothing at all, not even an audit line.\<close>

theorem update_book_frame:
  assumes "UpdateBook collate fl now i p d = (Inr b, d')"
  shows "others_same i d d' \<and>
    (\<forall>row. find_book_row i d = Some row \<longrightarrow> changed_of p (scanBook collate d row) = [] \<longrightarrow>
       b = scanBook collate d row \<and> d' = d)"
proof -
  from assms have tx: "UpdateBook_tx collate fl now i p d = Inr (b, d')"
    by (auto simp: UpdateBook_def dest: transact_InrD)
  then have "others_same i d d'"
    by (auto simp: UpdateBook_tx_def andthen_Inr Let_def split: if_splits option.splits dest!: apply_edit_same)
  moreover from tx have "\<forall>row. find_book_row i d = Some row \<longrightarrow> changed_of p (scanBook collate d row) = [] \<longrightarrow>
       b = scanBook collate d row \<and> d' = d"
    by (auto simp: UpdateBook_tx_def andthen_Inr Let_def)
  ultimately show ?thesis by blast
qed

definition sample_edit :: update_book_params where
  "sample_edit = \<lparr>ub_Title = Some ''Algorithms'', ub_Subtitle = None, ub_ISBN13 = None, ub_ISBN10 = None,
     ub_Publisher = None, ub_Place = None, ub_CallNumber = None, ub_Edition = None, ub_Language = None,
     ub_Description = None, ub_Faculty = None, ub_Department = None, ub_PublishedYear = None,
     ub_Authors = Some [''Author''], ub_Subjects = None, ub_StaffID = 1\<rparr>"

theorem update_book_frame_witness:
  "\<exists>b. UpdateBook id no_faults 9 10 sample_edit sample_db = (Inr b, sample_db)"
proof -
  have "changed_of sample_edit (scanBook id sample_db (sample_book 10 ''Algorithms'' '''')) = []"
    by (simp add: changed_of_def text_fields_def sample_edit_def scanBook_def sample_book_def)
  then have u: "UpdateBook id no_faults 9 10 sample_edit sample_db =
      (Inr (scanBook id sample_db (sample_book 10 ''Algorithms'' '''')), sample_db)"
    by (simp add: UpdateBook_def transact_def UpdateBook_tx_def find_book_row_def Let_def)
  with update_book_frame [OF u] show ?thesis by blast
qed

text \<open>The desk can be shown the wrong volume. Accession numbers are unique with their case, and looked up
  without it: after a copy of the second title is registered as ''a11'' beside the ''A11'' of the first,
  reading ''a11'' at the desk answers with the other title's copy.\<close>

theorem accession_lookup_ambiguous:
  "\<exists>c d'. AddCopy no_faults 9 31 20 ''a11'' PolicyCirculating 1 sample_db = (Inr c, d') \<and>
     copy_accession c = ''a11'' \<and> copy_book c = 20 \<and>
     (\<exists>v. FindCopyByAccession no_faults ''a11'' d' = Inr v \<and>
        copy_accession (cad_copy v) = ''A11'' \<and> copy_book (cad_copy v) = 10)"
proof -
  have "upper_byte CHR ''a'' = CHR ''A''" by code_simp
  then show ?thesis
  by (simp add: AddCopy_def transact_def AddCopy_tx_def insert_copy_def id_sets find_book_row_def
      new_copy_def recordAudit_def find_user_row_def FindCopyByAccession_def accession_key_def
      sql_trim_def to_upper_def upper_byte_unchanged is_lower_byte_def trim_space_def is_space_byte_def
      map_filter_simps)
qed

text \<open>Registering a copy stores one available volume of an existing title under its trimmed, unused
  accession number and keeps the invariant; taking a borrowed copy out of service closes its loan
  and moves the copy in the same transaction, so no open loan of it remains.\<close>

theorem inventory_effects:
  assumes "lib_inv d"
  shows "lib_inv (snd (AddCopy fl now nid b acc pol staff d)) \<and>
    (\<forall>c d'. AddCopy fl now nid b acc pol staff d = (Inr c, d') \<longrightarrow>
       copies d' = copies d @ [c] \<and> copy_accession c = trim_space acc \<and> copy_status c = CopyAvailable \<and>
       copy_accession c \<notin> copy_accession ` set (copies d) \<and> copy_book c \<in> book_ids d) \<and>
    (s \<noteq> CopyOnLoan \<longrightarrow> lib_inv (snd (SetCopyStatusClosingLoan fl now i s staff d))) \<and>
    (\<forall>x d'. SetCopyStatusClosingLoan fl now i s staff d = (Inr x, d') \<longrightarrow>
       open_loans_of_copy i d' = 0 \<and> (\<forall>c. find_copy_row i d = Some c \<longrightarrow>
         find_copy_row i d' = Some (c\<lparr>copy_status := s\<rparr>)))"
proof -
  have "copies d' = copies d @ [c] \<and> copy_accession c = trim_space acc \<and> copy_status c = CopyAvailable \<and>
       copy_accession c \<notin> copy_accession ` set (copies d) \<and> copy_book c \<in> book_ids d"
    if "AddCopy fl now nid b acc pol staff d = (Inr c, d')" for c d'
    using that unfolding AddCopy_def
    by (auto dest!: transact_InrD elim!: AddCopy_tx_Inr simp: new_copy_def)
  moreover have "open_loans_of_copy i d' = 0 \<and> (\<forall>c. find_copy_row i d = Some c \<longrightarrow>
         find_copy_row i d' = Some (c\<lparr>copy_status := s\<rparr>))"
    if "SetCopyStatusClosingLoan fl now i s staff d = (Inr x, d')" for x d'
  proof -
    from that have "SetCopyStatusClosingLoan_tx fl now i s staff d = Inr (x, d')"
      by (simp add: SetCopyStatusClosingLoan_def transact_InrD)
    then obtain a where d': "d' = d\<lparr>loans := update_where (\<lambda>l. loan_copy l = i \<and> open_loan l)
              (\<lambda>l. l\<lparr>loan_returned_at := Some now, loan_returned_to := Some staff\<rparr>) (loans d),
            copies := update_where (\<lambda>c. copy_id c = i) (\<lambda>c. c\<lparr>copy_status := s\<rparr>) (copies d),
            audit_log := audit_log d @ [a]\<rparr>"
      by (rule SetCopyStatusClosingLoan_tx_Inr)
    have "find (\<lambda>c. copy_id c = i) (update_where (\<lambda>c. copy_id c = i) (\<lambda>c. c\<lparr>copy_status := s\<rparr>) (copies d)) =
        map_option (\<lambda>c. if copy_id c = i then c\<lparr>copy_status := s\<rparr> else c) (find (\<lambda>c. copy_id c = i) (copies d))"
      by (rule find_update_where) simp
    then show ?thesis
      by (auto simp: d' open_loans_of_copy_def open_loans_closed find_copy_row_def dest: find_SomeD)
  qed
  ultimately show ?thesis
    using AddCopy_inv [OF assms] SetCopyStatusClosingLoan_inv [OF assms] by blast
qed

theorem inventory_effects_witness:
  "\<exists>x d'. SetCopyStatusClosingLoan no_faults 9 13 CopyLost 1 sample_db = (Inr x, d') \<and>
     lib_inv d' \<and> open_loans_of_copy 13 d' = 0"
proof -
  obtain x d' where s: "SetCopyStatusClosingLoan no_faults 9 13 CopyLost 1 sample_db = (Inr x, d')"
    by (simp add: SetCopyStatusClosingLoan_def transact_def SetCopyStatusClosingLoan_tx_def
        close_loans_of_copy_def Let_def open_loan_def find_user_row_def update_copies_def audit_marked_def)
  with inventory_effects [OF sample_inv, where fl = no_faults and now = 9 and i = 13 and s = CopyLost
      and staff = 1 and nid = 0 and b = 0 and acc = "''''" and pol = PolicyCirculating]
  show ?thesis by (auto simp: s)
qed

end
