(* ===== verification/Book_Metadata.thy ===== *)
theory Book_Metadata
  imports Catalogue_Edit Copies
begin

text \<open>
  What the catalogue service accepts (book_metadata.go and the class mark pattern of
  catalogue_service.go): the regular expression of a Library of Congress class mark, text limits, ISBN
  checksums, the validation shared by creating and editing a title, and the two service operations
  that rest on it.
\<close>

section \<open>Regular expressions\<close>

text \<open>The operators the pattern uses, over bytes; matching is by derivatives.\<close>

datatype rexp =
    Nothing
  | Empty
  | Byte "char \<Rightarrow> bool"
  | Either rexp rexp
  | Then rexp rexp
  | Many rexp

definition Maybe :: "rexp \<Rightarrow> rexp" where
  "Maybe r = Either r Empty"

fun nullable :: "rexp \<Rightarrow> bool" where
  "nullable Nothing = False"
| "nullable Empty = True"
| "nullable (Byte C) = False"
| "nullable (Either r s) = (nullable r \<or> nullable s)"
| "nullable (Then r s) = (nullable r \<and> nullable s)"
| "nullable (Many r) = True"

fun after :: "char \<Rightarrow> rexp \<Rightarrow> rexp" where
  "after c Nothing = Nothing"
| "after c Empty = Nothing"
| "after c (Byte C) = (if C c then Empty else Nothing)"
| "after c (Either r s) = Either (after c r) (after c s)"
| "after c (Then r s) =
     (if nullable r then Either (Then (after c r) s) (after c s) else Then (after c r) s)"
| "after c (Many r) = Then (after c r) (Many r)"

fun matches :: "rexp \<Rightarrow> string \<Rightarrow> bool" where
  "matches r [] = nullable r"
| "matches r (c # s) = matches (after c r) s"

text \<open>What matching means, operator by operator.\<close>

lemma matches_Nothing [simp]: "\<not> matches Nothing s"
  by (induction s) simp_all

lemma matches_Empty [simp]: "matches Empty s \<longleftrightarrow> s = []"
  by (cases s) simp_all

lemma matches_Byte: "matches (Byte C) s \<longleftrightarrow> (\<exists>c. s = [c] \<and> C c)"
  by (cases s) auto

lemma matches_Either [simp]: "matches (Either r q) s \<longleftrightarrow> matches r s \<or> matches q s"
  by (induction s arbitrary: r q) simp_all

lemma split_Cons:
  "(\<exists>a b. c # s = a @ b \<and> P a b) \<longleftrightarrow> P [] (c # s) \<or> (\<exists>a b. s = a @ b \<and> P (c # a) b)"
  (is "?l \<longleftrightarrow> ?r")
proof
  show "?l \<Longrightarrow> ?r" by (auto simp: Cons_eq_append_conv)
  show "?r \<Longrightarrow> ?l" by (metis append_Cons append_Nil)
qed

lemma matches_Then: "matches (Then r q) s \<longleftrightarrow> (\<exists>a b. s = a @ b \<and> matches r a \<and> matches q b)"
proof (induction s arbitrary: r q)
  case (Cons c s)
  show ?case
    by (simp add: Cons.IH split_Cons [of c s "\<lambda>a b. matches r a \<and> matches q b"]) blast
qed auto

lemma matches_Maybe [simp]: "matches (Maybe r) s \<longleftrightarrow> matches r s \<or> s = []"
  by (simp add: Maybe_def)

lemma matches_Many_Byte: "matches (Many (Byte C)) s \<longleftrightarrow> list_all C s"
proof (induction s)
  case (Cons c s)
  have "matches (Then Empty r) s = matches r s" for r by (simp add: matches_Then)
  moreover have "\<not> matches (Then Nothing r) s" for r by (simp add: matches_Then)
  ultimately show ?case using Cons by simp
qed simp

section \<open>Class marks\<close>

definition is_pattern_blank :: "char \<Rightarrow> bool" where
  "is_pattern_blank c \<longleftrightarrow> List.member [CHR 0x09, CHR 0x0A, CHR 0x0C, CHR 0x0D, CHR '' ''] c"

definition is_cutter_byte :: "char \<Rightarrow> bool" where
  "is_cutter_byte c \<longleftrightarrow> is_upper_byte c \<or> is_digit_byte c \<or>
     List.member [CHR '' '', CHR ''.'', CHR '':'', CHR ''/'', CHR ''-''] c"

text \<open>One to three capitals, blanks, digits, a decimal, and a Cutter number after a blank or a point.\<close>

definition callNumberPattern :: rexp where
  "callNumberPattern =
     Then (Then (Byte is_upper_byte) (Then (Maybe (Byte is_upper_byte)) (Maybe (Byte is_upper_byte))))
    (Then (Many (Byte is_pattern_blank))
    (Then (Then (Byte is_digit_byte) (Many (Byte is_digit_byte)))
    (Then (Maybe (Then (Byte (\<lambda>c. c = CHR ''.'')) (Then (Byte is_digit_byte) (Many (Byte is_digit_byte)))))
          (Maybe (Then (Byte (\<lambda>c. c = CHR '' '' \<or> c = CHR ''.''))
                 (Then (Byte (\<lambda>c. is_upper_byte c \<or> is_digit_byte c)) (Many (Byte is_cutter_byte))))))))"

lemma class_mark_shape:
  assumes "matches callNumberPattern s"
  obtains letters blanks ds rest where "s = letters @ blanks @ ds @ rest"
    and "list_all is_upper_byte letters" and "length letters \<in> {1..3}"
    and "list_all is_pattern_blank blanks" and "ds \<noteq> []" and "list_all is_digit_byte ds"
proof -
  from assms obtain letters blanks ds rest where s: "s = letters @ blanks @ ds @ rest"
    and l: "matches (Then (Byte is_upper_byte) (Then (Maybe (Byte is_upper_byte)) (Maybe (Byte is_upper_byte)))) letters"
    and b: "matches (Many (Byte is_pattern_blank)) blanks"
    and d: "matches (Then (Byte is_digit_byte) (Many (Byte is_digit_byte))) ds"
    unfolding callNumberPattern_def matches_Then [of "Then (Byte is_upper_byte) r" for r]
      matches_Then [of "Many (Byte is_pattern_blank)"] matches_Then [of "Then (Byte is_digit_byte) r" for r]
    by metis
  show thesis
  proof (rule that [OF s])
    show "list_all is_upper_byte letters" "length letters \<in> {1..3}"
      using l by (auto simp: matches_Then matches_Byte)
    show "list_all is_pattern_blank blanks" using b by (simp add: matches_Many_Byte)
    show "ds \<noteq> []" "list_all is_digit_byte ds" using d by (auto simp: matches_Then matches_Byte matches_Many_Byte)
  qed
qed

lemma class_mark_first:
  assumes "matches callNumberPattern s"
  obtains c t where "s = c # t" and "is_upper_byte c"
proof -
  from assms obtain letters blanks ds rest where "s = letters @ blanks @ ds @ rest"
    "list_all is_upper_byte letters" "length letters \<in> {1..3}"
    by (rule class_mark_shape)
  then show thesis by (cases letters) (auto intro: that)
qed

section \<open>Text\<close>

definition validMetadataText :: "string \<Rightarrow> nat \<Rightarrow> bool \<Rightarrow> bool" where
  "validMetadataText value limit multiline \<longleftrightarrow>
     utf8_valid value \<and> rune_count value \<le> limit \<and>
     list_all (\<lambda>r. is_control r \<longrightarrow> multiline \<and> (r = 10 \<or> r = 13 \<or> r = 9)) (runes value)"

section \<open>ISBN checksums\<close>

definition normaliseISBN :: "string \<Rightarrow> string" where
  "normaliseISBN isbn = strip_hyphens_blanks (trim_space isbn)"

definition digit_value :: "char \<Rightarrow> int" where
  "digit_value c = int (of_char c) - 48"

text \<open>The loops over the bytes; an invalid digit ends the loop with no sum.\<close>

fun isbn10_sum :: "nat \<Rightarrow> string \<Rightarrow> int option" where
  "isbn10_sum i [] = Some 0"
| "isbn10_sum i (c # s) =
     (if i = 9 \<and> c = CHR ''X'' then map_option (\<lambda>t. (10 - int i) * 10 + t) (isbn10_sum (Suc i) s)
      else if \<not> is_digit_byte c then None
      else map_option (\<lambda>t. (10 - int i) * digit_value c + t) (isbn10_sum (Suc i) s))"

definition isbn13_weight :: "nat \<Rightarrow> int" where
  "isbn13_weight i = (if i mod 2 = 1 then 3 else 1)"

fun isbn13_sum :: "nat \<Rightarrow> string \<Rightarrow> int option" where
  "isbn13_sum i [] = Some 0"
| "isbn13_sum i (c # s) =
     (if \<not> is_digit_byte c then None
      else map_option (\<lambda>t. isbn13_weight i * digit_value c + t) (isbn13_sum (Suc i) s))"

definition validISBN :: "string \<Rightarrow> nat \<Rightarrow> bool" where
  "validISBN value n =
     (if length value \<noteq> n then False
      else if n = 10 then (case isbn10_sum 0 value of None \<Rightarrow> False | Some t \<Rightarrow> t mod 11 = 0)
      else if \<not> has_prefix value ''978'' \<and> \<not> has_prefix value ''979'' then False
      else (case isbn13_sum 0 value of None \<Rightarrow> False | Some t \<Rightarrow> t mod 10 = 0))"

section \<open>Validation\<close>

text \<open>The table of text fields: the value, the greatest length, is it required, may it have lines.\<close>

definition metadata_fields :: "update_book_params \<Rightarrow> (string option \<times> nat \<times> bool \<times> bool) list" where
  "metadata_fields p =
     [(ub_Title p, 500, True, False), (ub_Subtitle p, 500, False, False), (ub_ISBN13 p, 40, False, False),
      (ub_ISBN10 p, 40, False, False), (ub_Publisher p, 500, False, False), (ub_Place p, 500, False, False),
      (ub_CallNumber p, 200, True, False), (ub_Edition p, 200, False, False),
      (ub_Language p, 200, False, False), (ub_Faculty p, 200, False, False),
      (ub_Department p, 200, False, False), (ub_Description p, 20000, False, True)]"

definition field_ok :: "string option \<times> nat \<times> bool \<times> bool \<Rightarrow> bool" where
  "field_ok f = (case f of (value, limit, required, multiline) \<Rightarrow>
     (case value of None \<Rightarrow> True
      | Some v \<Rightarrow> validMetadataText (trim_space v) limit multiline \<and> (required \<longrightarrow> trim_space v \<noteq> '''')))"

definition trim_fields :: "update_book_params \<Rightarrow> update_book_params" where
  "trim_fields p = (let t = map_option trim_space in
     p\<lparr>ub_Title := t (ub_Title p), ub_Subtitle := t (ub_Subtitle p), ub_ISBN13 := t (ub_ISBN13 p),
       ub_ISBN10 := t (ub_ISBN10 p), ub_Publisher := t (ub_Publisher p), ub_Place := t (ub_Place p),
       ub_CallNumber := t (ub_CallNumber p), ub_Edition := t (ub_Edition p), ub_Language := t (ub_Language p),
       ub_Description := t (ub_Description p), ub_Faculty := t (ub_Faculty p),
       ub_Department := t (ub_Department p)\<rparr>)"

definition isbn_value :: "string \<Rightarrow> string" where
  "isbn_value s = to_upper (normaliseISBN s)"

definition isbn_ok :: "nat \<Rightarrow> string option \<Rightarrow> bool" where
  "isbn_ok n v = (case v of None \<Rightarrow> True | Some s \<Rightarrow> isbn_value s = '''' \<or> validISBN (isbn_value s) n)"

definition class_mark_ok :: "string option \<Rightarrow> bool" where
  "class_mark_ok v = (case v of None \<Rightarrow> True | Some s \<Rightarrow> matches callNumberPattern (to_upper s))"

definition year_ok :: "int \<Rightarrow> int option \<Rightarrow> bool" where
  "year_ok this_year y = (case y of None \<Rightarrow> True | Some n \<Rightarrow> 1000 \<le> n \<and> n \<le> this_year + 1 \<and> n \<le> 2100)"

fun clean_names :: "string list \<Rightarrow> string list \<Rightarrow> error + string list" where
  "clean_names seen [] = Inr []"
| "clean_names seen (value # vs) =
     (let v = trim_space value in
      if v = '''' \<or> \<not> validMetadataText v 200 False \<or> List.member seen v then Inl ErrInvalidBookMetadata
      else case clean_names (v # seen) vs of Inl e \<Rightarrow> Inl e | Inr ws \<Rightarrow> Inr (v # ws))"

definition check_names :: "string list option \<Rightarrow> error + string list option" where
  "check_names names =
     (case names of
        None \<Rightarrow> Inr None
      | Some vs \<Rightarrow>
          if 100 < length vs then Inl ErrInvalidBookMetadata
          else case clean_names [] vs of Inl e \<Rightarrow> Inl e | Inr ws \<Rightarrow> Inr (Some ws))"

definition supplied :: "update_book_params \<Rightarrow> nat" where
  "supplied p = count_where (\<lambda>f. fst f \<noteq> None) (metadata_fields p) +
     (if ub_PublishedYear p = None then 0 else 1) + (if ub_Authors p = None then 0 else 1) +
     (if ub_Subjects p = None then 0 else 1)"

definition validateBookMetadata :: "int \<Rightarrow> update_book_params \<Rightarrow> error + update_book_params" where
  "validateBookMetadata this_year p0 =
     (if \<not> list_all field_ok (metadata_fields p0) then Inl ErrInvalidBookMetadata
      else let p = trim_fields p0 in
        if \<not> class_mark_ok (ub_CallNumber p) then Inl ErrInvalidBookMetadata
        else if \<not> isbn_ok 13 (ub_ISBN13 p) \<or> \<not> isbn_ok 10 (ub_ISBN10 p) then Inl ErrInvalidBookMetadata
        else let p = p\<lparr>ub_ISBN13 := map_option isbn_value (ub_ISBN13 p),
                       ub_ISBN10 := map_option isbn_value (ub_ISBN10 p)\<rparr> in
          if \<not> year_ok this_year (ub_PublishedYear p) then Inl ErrInvalidBookMetadata
          else case check_names (ub_Authors p) of
            Inl e \<Rightarrow> Inl e
          | Inr authors \<Rightarrow>
              (case check_names (ub_Subjects p) of
                 Inl e \<Rightarrow> Inl e
               | Inr subjects \<Rightarrow>
                   if supplied p = 0 then Inl ErrInvalidBookMetadata
                   else Inr (p\<lparr>ub_Authors := authors, ub_Subjects := map_option sort subjects\<rparr>)))"

section \<open>The service\<close>

definition UpdateBookService ::
  "collation \<Rightarrow> faults \<Rightarrow> int \<Rightarrow> time \<Rightarrow> uuid \<Rightarrow> update_book_params \<Rightarrow> db \<Rightarrow> (error + book) \<times> db" where
  "UpdateBookService collate fl this_year now i p d =
     (if ub_StaffID p = uuid_nil then (Inl ErrUnauthenticated, d)
      else case validateBookMetadata this_year p of
        Inl e \<Rightarrow> (Inl e, d)
      | Inr p \<Rightarrow> UpdateBook collate fl now i p d)"

definition metadata_of :: "create_book_params \<Rightarrow> update_book_params" where
  "metadata_of p =
     \<lparr>ub_Title = Some (cb_Title p), ub_Subtitle = Some (cb_Subtitle p), ub_ISBN13 = Some (cb_ISBN13 p),
      ub_ISBN10 = Some (cb_ISBN10 p), ub_Publisher = Some (cb_Publisher p), ub_Place = Some (cb_Place p),
      ub_CallNumber = Some (cb_CallNumber p), ub_Edition = Some (cb_Edition p),
      ub_Language = Some (cb_Language p), ub_Description = Some (cb_Description p),
      ub_Faculty = Some (cb_Faculty p), ub_Department = Some (cb_Department p),
      ub_PublishedYear = cb_PublishedYear p, ub_Authors = Some (cb_Authors p),
      ub_Subjects = Some (cb_Subjects p), ub_StaffID = uuid_nil\<rparr>"

definition with_metadata :: "create_book_params \<Rightarrow> update_book_params \<Rightarrow> create_book_params" where
  "with_metadata p m =
     p\<lparr>cb_Title := or_old (ub_Title m) '''', cb_Subtitle := or_old (ub_Subtitle m) '''',
       cb_ISBN13 := or_old (ub_ISBN13 m) '''', cb_ISBN10 := or_old (ub_ISBN10 m) '''',
       cb_Publisher := or_old (ub_Publisher m) '''', cb_Place := or_old (ub_Place m) '''',
       cb_CallNumber := or_old (ub_CallNumber m) '''', cb_Description := or_old (ub_Description m) '''',
       cb_Edition := or_old (ub_Edition m) '''', cb_Language := or_old (ub_Language m) '''',
       cb_Faculty := or_old (ub_Faculty m) '''', cb_Department := or_old (ub_Department m) '''',
       cb_Authors := or_old (ub_Authors m) [], cb_Subjects := or_old (ub_Subjects m) []\<rparr>"

definition CreateBookService ::
  "collation \<Rightarrow> faults \<Rightarrow> int \<Rightarrow> time \<Rightarrow> uuid \<Rightarrow> create_book_params \<Rightarrow> db \<Rightarrow> (error + book) \<times> db" where
  "CreateBookService collate fl this_year now nid p d =
     (if trim_space (cb_Title p) = '''' then (Inl ErrInvalidCallNumber, d)
      else if \<not> matches callNumberPattern (to_upper (trim_space (cb_CallNumber p)))
      then (Inl ErrInvalidCallNumber, d)
      else case validateBookMetadata this_year (metadata_of p) of
        Inl e \<Rightarrow> (Inl e, d)
      | Inr m \<Rightarrow> CreateBook collate fl now nid (with_metadata p m) d)"

text \<open>A missing title is answered as a missing class mark. The first three marks are the examples the
  code's comment gives; the last, a cutter after a space with no decimal before it, is refused.\<close>

lemma empty_title_is_a_call_number:
  "trim_space (cb_Title p) = '''' \<Longrightarrow>
   CreateBookService collate fl this_year now nid p d = (Inl ErrInvalidCallNumber, d)"
  by (simp add: CreateBookService_def)

lemma call_number_examples:
  "matches callNumberPattern ''QA76.73''" "matches callNumberPattern ''DT 515.15 .OB21''"
  "matches callNumberPattern ''Z1003''" "\<not> matches callNumberPattern ''DT515 .O21''"
  by code_simp+

section \<open>Checksums detect a mistyped digit\<close>

lemma digit_value_bounds: "is_digit_byte c \<Longrightarrow> 0 \<le> digit_value c \<and> digit_value c \<le> 9"
  by (auto simp: is_digit_byte_def digit_value_def Let_def)

lemma digit_value_inj: "digit_value c = digit_value c' \<Longrightarrow> c = c'"
  by (simp add: digit_value_def of_char_eq_iff)

lemma isbn13_replace:
  assumes "isbn13_sum k s = Some t" and "i < length s" and "isbn13_sum k (s[i := c]) = Some t'"
  shows "is_digit_byte c \<and> is_digit_byte (s ! i) \<and>
    t' = t + isbn13_weight (k + i) * (digit_value c - digit_value (s ! i))"
  using assms
proof (induction s arbitrary: k i t t')
  case (Cons x s)
  show ?case
  proof (cases i)
    case 0
    with Cons.prems show ?thesis by (auto split: if_splits simp: algebra_simps)
  next
    case (Suc j)
    with Cons.prems obtain u u' where "isbn13_sum (Suc k) s = Some u" "isbn13_sum (Suc k) (s[j := c]) = Some u'"
      and "t = isbn13_weight k * digit_value x + u" "t' = isbn13_weight k * digit_value x + u'"
      by (auto split: if_splits)
    with Cons.IH [of "Suc k" u j u'] Cons.prems Suc show ?thesis by (simp add: algebra_simps)
  qed
qed simp

text \<open>The value a byte has at a place of an ISBN-10, where X stands for ten at the last one.\<close>

definition isbn10_value :: "nat \<Rightarrow> char \<Rightarrow> int option" where
  "isbn10_value i c = (if i = 9 \<and> c = CHR ''X'' then Some 10
     else if is_digit_byte c then Some (digit_value c) else None)"

lemma isbn10_value_bounds: "isbn10_value i c = Some v \<Longrightarrow> 0 \<le> v \<and> v \<le> 10"
  using digit_value_bounds [of c] by (auto simp: isbn10_value_def split: if_splits)

lemma isbn10_value_inj: "isbn10_value i c = Some v \<Longrightarrow> isbn10_value i c' = Some v \<Longrightarrow> c = c'"
  using digit_value_bounds [of c] digit_value_bounds [of c'] digit_value_inj [of c c']
  by (auto simp: isbn10_value_def split: if_splits)

lemma isbn10_step: "isbn10_sum i (c # s) =
   (case isbn10_value i c of None \<Rightarrow> None | Some v \<Rightarrow> map_option (\<lambda>t. (10 - int i) * v + t) (isbn10_sum (Suc i) s))"
  by (simp add: isbn10_value_def)

lemma isbn10_replace:
  assumes "isbn10_sum k s = Some t" and "i < length s" and "isbn10_sum k (s[i := c]) = Some t'"
  shows "\<exists>v v'. isbn10_value (k + i) (s ! i) = Some v \<and> isbn10_value (k + i) c = Some v' \<and>
    t' = t + (10 - int (k + i)) * (v' - v)"
  using assms
proof (induction s arbitrary: k i t t')
  case (Cons x s)
  show ?case
  proof (cases i)
    case 0
    with Cons.prems show ?thesis
      by (auto simp: isbn10_step simp del: isbn10_sum.simps split: option.splits simp: algebra_simps)
  next
    case (Suc j)
    with Cons.prems obtain v u u' where "isbn10_sum (Suc k) s = Some u" "isbn10_sum (Suc k) (s[j := c]) = Some u'"
      and "t = (10 - int k) * v + u" "t' = (10 - int k) * v + u'"
      by (auto simp: isbn10_step simp del: isbn10_sum.simps split: option.splits)
    with Cons.IH [of "Suc k" u j u'] Cons.prems Suc show ?thesis by (auto simp: algebra_simps)
  qed
qed simp

lemma weight11: "1 \<le> (w::int) \<Longrightarrow> w \<le> 10 \<Longrightarrow> (w * e) mod 11 = 0 \<Longrightarrow> - 10 \<le> e \<Longrightarrow> e \<le> 10 \<Longrightarrow> e = 0"
proof -
  assume w: "1 \<le> w" "w \<le> 10" and m: "(w * e) mod 11 = 0" and e: "- 10 \<le> e" "e \<le> 10"
  from w have "w = 1 \<or> w = 2 \<or> w = 3 \<or> w = 4 \<or> w = 5 \<or> w = 6 \<or> w = 7 \<or> w = 8 \<or> w = 9 \<or> w = 10" by presburger
  with m e show "e = 0" by (elim disjE; simp; presburger)
qed

lemma weight10: "w = 1 \<or> w = (3::int) \<Longrightarrow> (w * e) mod 10 = 0 \<Longrightarrow> - 9 \<le> e \<Longrightarrow> e \<le> 9 \<Longrightarrow> e = 0"
  by (elim disjE; simp; presburger)

section \<open>Normal form\<close>

lemma clean_names_eq:
  "clean_names seen vs =
     (if (\<forall>v \<in> set vs. trim_space v \<noteq> [] \<and> validMetadataText (trim_space v) 200 False) \<and>
         distinct (map trim_space vs) \<and> trim_space ` set vs \<inter> set seen = {}
      then Inr (map trim_space vs) else Inl ErrInvalidBookMetadata)"
  by (induction vs arbitrary: seen) (auto simp: Let_def)

lemma check_names_eq:
  "check_names names =
     (case names of None \<Rightarrow> Inr None
      | Some vs \<Rightarrow>
          if length vs \<le> 100 \<and> distinct (map trim_space vs) \<and>
             (\<forall>v \<in> set vs. trim_space v \<noteq> [] \<and> validMetadataText (trim_space v) 200 False)
          then Inr (Some (map trim_space vs)) else Inl ErrInvalidBookMetadata)"
  by (auto simp: check_names_def clean_names_eq split: option.splits)

lemma check_names_Inr:
  "check_names names = Inr r \<longleftrightarrow>
     (case names of None \<Rightarrow> r = None
      | Some vs \<Rightarrow> r = Some (map trim_space vs) \<and> length vs \<le> 100 \<and> distinct (map trim_space vs) \<and>
          (\<forall>v \<in> set vs. trim_space v \<noteq> [] \<and> validMetadataText (trim_space v) 200 False))"
  by (auto simp: check_names_eq split: option.splits)

lemma check_names_Inl: "check_names names = Inl e \<Longrightarrow> e = ErrInvalidBookMetadata"
  by (auto simp: check_names_eq split: option.splits if_splits)

text \<open>Digits and an X are plain text.\<close>

definition isbn_byte :: "char \<Rightarrow> bool" where
  "isbn_byte c \<longleftrightarrow> is_digit_byte c \<or> c = CHR ''X''"

lemma isbn10_sum_bytes: "isbn10_sum k s = Some t \<Longrightarrow> list_all isbn_byte s"
  by (induction s arbitrary: k t) (auto simp: isbn_byte_def split: if_splits)

lemma isbn13_sum_bytes: "isbn13_sum k s = Some t \<Longrightarrow> list_all isbn_byte s"
  by (induction s arbitrary: k t) (auto simp: isbn_byte_def split: if_splits)

lemma validISBN_bytes: "validISBN s n \<Longrightarrow> list_all isbn_byte s \<and> length s = n"
  by (auto simp: validISBN_def dest: isbn10_sum_bytes isbn13_sum_bytes split: if_splits option.splits)

lemma isbn_byte_plain:
  assumes "isbn_byte c"
  shows "\<not> is_space_byte c" "c \<noteq> CHR ''-''" "c \<noteq> CHR '' ''" "upper_byte c = c"
    "(of_char c :: nat) < 128" "\<not> is_control (of_char c)"
proof -
  from assms have "(of_char c :: nat) \<in> {48..57} \<union> {88}"
    by (auto simp: isbn_byte_def is_digit_byte_def Let_def)
  then have n: "48 \<le> (of_char c :: nat)" "(of_char c :: nat) \<le> 88" by auto
  then show "\<not> is_space_byte c" "(of_char c :: nat) < 128" "\<not> is_control (of_char c)"
    by (auto simp: is_space_byte_def is_control_def Let_def)
  show "upper_byte c = c" using n by (simp add: upper_byte_def is_lower_byte_def Let_def)
  show "c \<noteq> CHR ''-''" "c \<noteq> CHR '' ''" using n by auto
qed

lemma runes_ascii: "\<forall>b \<in> set bs. b < 128 \<Longrightarrow> runes_of bs = bs \<and> utf8_ok bs"
  by (induction bs) auto

lemma isbn_bytes_plain:
  assumes "list_all isbn_byte s"
  shows "trim_space s = s" "strip_hyphens_blanks s = s" "to_upper s = s" "isbn_value s = s"
    "length s \<le> n \<Longrightarrow> validMetadataText s n False"
proof -
  have plain: "c \<in> set s \<Longrightarrow> isbn_byte c" for c using assms by (simp add: list_all_iff)
  show trim: "trim_space s = s"
    by (rule trim_space_fixed) (metis plain hd_in_set last_in_set isbn_byte_plain(1))+
  show strip: "strip_hyphens_blanks s = s"
    by (auto simp: strip_hyphens_blanks_def filter_id_conv isbn_byte_plain plain)
  show up: "to_upper s = s" by (auto simp: to_upper_def map_idI isbn_byte_plain plain)
  show "isbn_value s = s" by (simp add: isbn_value_def normaliseISBN_def trim strip up)
  have "\<forall>b \<in> set (bytes_of s). b < 128" by (auto simp: bytes_of_def isbn_byte_plain plain)
  with runes_ascii have "runes s = bytes_of s" and "utf8_valid s" by (auto simp: runes_def utf8_valid_def)
  moreover have "list_all (\<lambda>r. \<not> is_control r) (bytes_of s)"
    by (auto simp: bytes_of_def list_all_iff isbn_byte_plain plain)
  ultimately show "validMetadataText s n False" if "length s \<le> n"
    using that by (auto simp: validMetadataText_def rune_count_def bytes_of_def list_all_iff)
qed

lemma isbn_ok_value: "isbn_ok n (Some s) \<Longrightarrow> list_all isbn_byte (isbn_value s) \<and> length (isbn_value s) \<le> n"
  by (auto simp: isbn_ok_def dest: validISBN_bytes)

lemma isbn_value_trim [simp]: "isbn_value (trim_space s) = isbn_value s"
  by (simp add: isbn_value_def normaliseISBN_def)

lemma isbn_ok_trim [simp]: "isbn_ok n (map_option trim_space v) = isbn_ok n v"
  by (cases v) (simp_all add: isbn_ok_def)

lemma trim_fields_sel [simp]:
  "ub_ISBN13 (trim_fields p) = map_option trim_space (ub_ISBN13 p)"
  "ub_ISBN10 (trim_fields p) = map_option trim_space (ub_ISBN10 p)"
  "ub_CallNumber (trim_fields p) = map_option trim_space (ub_CallNumber p)"
  "ub_PublishedYear (trim_fields p) = ub_PublishedYear p" "ub_Authors (trim_fields p) = ub_Authors p"
  "ub_Subjects (trim_fields p) = ub_Subjects p"
  by (simp_all add: trim_fields_def Let_def)

definition normal_fields :: "update_book_params \<Rightarrow> update_book_params" where
  "normal_fields p = (trim_fields p)
     \<lparr>ub_ISBN13 := map_option isbn_value (ub_ISBN13 p), ub_ISBN10 := map_option isbn_value (ub_ISBN10 p),
      ub_Authors := map_option (map trim_space) (ub_Authors p),
      ub_Subjects := map_option (\<lambda>s. sort (map trim_space s)) (ub_Subjects p)\<rparr>"

lemma supplied_normal:
  "supplied (trim_fields p\<lparr>ub_ISBN13 := map_option isbn_value (ub_ISBN13 p),
     ub_ISBN10 := map_option isbn_value (ub_ISBN10 p)\<rparr>) = supplied p"
  by (simp add: supplied_def metadata_fields_def trim_fields_def Let_def)

lemma isbn_trim_twice: "map_option (\<lambda>s. isbn_value (trim_space s)) v = map_option isbn_value v"
  by (cases v) simp_all

lemma validate_Inr:
  "validateBookMetadata y p = Inr q \<longleftrightarrow>
     list_all field_ok (metadata_fields p) \<and> class_mark_ok (map_option trim_space (ub_CallNumber p)) \<and>
     isbn_ok 13 (ub_ISBN13 p) \<and> isbn_ok 10 (ub_ISBN10 p) \<and> year_ok y (ub_PublishedYear p) \<and>
     (\<exists>a. check_names (ub_Authors p) = Inr a) \<and> (\<exists>s. check_names (ub_Subjects p) = Inr s) \<and>
     supplied p \<noteq> 0 \<and> q = normal_fields p"
proof -
  have n: "check_names names = Inr r \<Longrightarrow> r = map_option (map trim_space) names" for names r
    by (auto simp: check_names_Inr split: option.splits)
  show ?thesis
    unfolding validateBookMetadata_def Let_def
    by (auto simp: supplied_normal option.map_comp comp_def normal_fields_def
        dest!: n split: sum.splits if_splits)
qed

lemma validate_Inl: "validateBookMetadata y p = Inl e \<Longrightarrow> e = ErrInvalidBookMetadata"
  unfolding validateBookMetadata_def Let_def
  by (auto dest: check_names_Inl split: sum.splits if_splits)

lemma normal_fields_sel [simp]:
  "ub_CallNumber (normal_fields p) = map_option trim_space (ub_CallNumber p)"
  "ub_PublishedYear (normal_fields p) = ub_PublishedYear p"
  "ub_ISBN13 (normal_fields p) = map_option isbn_value (ub_ISBN13 p)"
  "ub_ISBN10 (normal_fields p) = map_option isbn_value (ub_ISBN10 p)"
  "ub_Authors (normal_fields p) = map_option (map trim_space) (ub_Authors p)"
  "ub_Subjects (normal_fields p) = map_option (\<lambda>s. sort (map trim_space s)) (ub_Subjects p)"
  by (simp_all add: normal_fields_def)

lemma normal_fields_again: "normal_fields (normal_fields p) = normal_fields p"
  if "isbn_ok 13 (ub_ISBN13 p)" and "isbn_ok 10 (ub_ISBN10 p)"
proof -
  have v: "isbn_value (isbn_value s) = isbn_value s" "trim_space (isbn_value s) = isbn_value s"
    if "isbn_ok n (Some s)" for n s
    using isbn_ok_value [OF that] by (auto simp: isbn_bytes_plain)
  have m: "map_option isbn_value (map_option isbn_value x) = map_option isbn_value x"
    if "isbn_ok n x" for n x
    using that v by (cases x) auto
  have names: "map_option (map trim_space) (map_option (map trim_space) x) = map_option (map trim_space) x" for x
    by (cases x) auto
  have sorted: "map_option (\<lambda>s. sort (map trim_space s)) (map_option (\<lambda>s. sort (map trim_space s)) x) =
      map_option (\<lambda>s. sort (map trim_space s)) x" for x
  proof (cases x)
    case (Some s)
    have "map trim_space (sort (map trim_space s)) = sort (map trim_space s)" by (rule map_idI) auto
    then show ?thesis by (simp add: Some sorted_sort_id)
  qed simp
  have t: "map_option trim_space (map_option trim_space x) = map_option trim_space x" for x
    by (cases x) auto
  show ?thesis
    using that by (simp add: normal_fields_def trim_fields_def Let_def m names sorted t)
qed

lemma field_ok_trim: "field_ok (map_option trim_space v, rest) = field_ok (v, rest)"
  by (cases rest; cases v) (simp_all add: field_ok_def)

lemma field_ok_isbn:
  "isbn_ok n v \<Longrightarrow> n \<le> 40 \<Longrightarrow> field_ok (map_option isbn_value v, 40, False, False)"
  by (cases v) (auto simp: field_ok_def isbn_bytes_plain dest!: isbn_ok_value)

lemma normal_fields_ok:
  assumes "list_all field_ok (metadata_fields p)" and "isbn_ok 13 (ub_ISBN13 p)" and "isbn_ok 10 (ub_ISBN10 p)"
  shows "list_all field_ok (metadata_fields (normal_fields p))"
  using assms(1) field_ok_isbn [OF assms(2)] field_ok_isbn [OF assms(3)]
  by (simp add: metadata_fields_def normal_fields_def trim_fields_def Let_def field_ok_trim)

lemma isbn_ok_normal: "isbn_ok n v \<Longrightarrow> isbn_ok n (map_option isbn_value v)"
proof (cases v)
  case (Some s)
  assume ok: "isbn_ok n v"
  then have "isbn_value (isbn_value s) = isbn_value s"
    using isbn_ok_value [of n s] by (simp add: Some isbn_bytes_plain)
  with ok show ?thesis by (simp add: Some isbn_ok_def)
qed simp

lemma check_names_again:
  "check_names v = Inr r \<Longrightarrow> \<exists>a. check_names (map_option (map trim_space) v) = Inr a"
  "check_names v = Inr r \<Longrightarrow> \<exists>a. check_names (map_option (\<lambda>s. sort (map trim_space s)) v) = Inr a"
proof -
  assume "check_names v = Inr r"
  then show "\<exists>a. check_names (map_option (map trim_space) v) = Inr a"
    by (cases v) (auto simp: check_names_eq comp_def split: if_splits)
next
  assume c: "check_names v = Inr r"
  have "map trim_space (sort (map trim_space s)) = sort (map trim_space s)" for s
    by (rule map_idI) auto
  with c show "\<exists>a. check_names (map_option (\<lambda>s. sort (map trim_space s)) v) = Inr a"
    by (cases v) (auto simp: check_names_eq split: if_splits)
qed

lemma supplied_again: "supplied (normal_fields p) = supplied p"
  by (simp add: supplied_def metadata_fields_def normal_fields_def trim_fields_def Let_def)

section \<open>Attaching checked names\<close>

lemma link_names_ok:
  "(\<And>n. n \<in> set names \<Longrightarrow> n \<noteq> [] \<and> trim_space n = n) \<Longrightarrow> distinct names \<Longrightarrow> set names \<inter> set linked = {} \<Longrightarrow>
   link_names no_faults k names linked = Inr (linked @ names, k + 2 * length names)"
proof (induction names arbitrary: k linked)
  case (Cons n names)
  then show ?case by (simp del: no_faults_simp)
qed simp

lemma update_last:
  "i \<notin> k ` set rs \<Longrightarrow> update_where (\<lambda>b. k b = i) f rs = rs"
  by (rule update_where_none) auto

lemma find_last: "i \<notin> k ` set rs \<Longrightarrow> find (\<lambda>b. k b = i) (rs @ [r]) = (if k r = i then Some r else None)"
  by (induction rs) auto

lemma validISBN_sums:
  "validISBN s 10 \<Longrightarrow> \<exists>t. isbn10_sum 0 s = Some t \<and> t mod 11 = 0"
  "validISBN s 13 \<Longrightarrow> \<exists>t. isbn13_sum 0 s = Some t \<and> t mod 10 = 0"
  by (simp_all add: validISBN_def split: option.splits if_splits)

section \<open>Properties\<close>

text \<open>C18: the checksums of both ISBN forms reject every single mistyped character: a valid ISBN-10 or
  ISBN-13 in which the byte of one place is replaced by any other byte is not valid, whichever the
  place and the byte.\<close>

theorem isbn_detects_typo:
  assumes "validISBN s n" and "n = 10 \<or> n = 13" and "i < n" and "c \<noteq> s ! i"
  shows "\<not> validISBN (s[i := c]) n"
proof
  assume new: "validISBN (s[i := c]) n"
  have len: "length s = n" using validISBN_bytes [OF assms(1)] by simp
  show False
  proof (cases "n = 10")
    case True
    obtain t where t: "isbn10_sum 0 s = Some t" "t mod 11 = 0"
      using validISBN_sums(1) [of s] assms(1) True by auto
    obtain t' where s': "isbn10_sum 0 (s[i := c]) = Some t'" "t' mod 11 = 0"
      using validISBN_sums(1) [of "s[i := c]"] new True by auto
    note sums = t(1) s'(1) and m = t(2) s'(2)
    from isbn10_replace [OF sums(1) _ sums(2)] assms(3) len obtain v v'
      where v: "isbn10_value i (s ! i) = Some v" "isbn10_value i c = Some v'"
        and t': "t' = t + (10 - int i) * (v' - v)"
      by auto
    have "(t' - t) mod 11 = 0" using m by presburger
    then have z: "((10 - int i) * (v' - v)) mod 11 = 0" by (simp add: t')
    have b: "- 10 \<le> v' - v" "v' - v \<le> 10" using v [THEN isbn10_value_bounds] by linarith+
    have w: "1 \<le> 10 - int i" "10 - int i \<le> 10" using assms(3) True by auto
    have "v' - v = 0" by (rule weight11 [OF w z b])
    then have "c = s ! i" using isbn10_value_inj [of i c v' "s ! i"] v by simp
    with assms(4) show False by simp
  next
    case False
    with assms(2) have n: "n = 13" by simp
    obtain t where t: "isbn13_sum 0 s = Some t" "t mod 10 = 0"
      using validISBN_sums(2) [of s] assms(1) n by auto
    obtain t' where s': "isbn13_sum 0 (s[i := c]) = Some t'" "t' mod 10 = 0"
      using validISBN_sums(2) [of "s[i := c]"] new n by auto
    note sums = t(1) s'(1) and m = t(2) s'(2)
    from isbn13_replace [OF sums(1) _ sums(2)] assms(3) len
    have d: "is_digit_byte c" "is_digit_byte (s ! i)"
      and t': "t' = t + isbn13_weight i * (digit_value c - digit_value (s ! i))"
      by auto
    have "(t' - t) mod 10 = 0" using m by presburger
    then have z: "(isbn13_weight i * (digit_value c - digit_value (s ! i))) mod 10 = 0" by (simp add: t')
    have b: "- 9 \<le> digit_value c - digit_value (s ! i)" "digit_value c - digit_value (s ! i) \<le> 9"
      using d [THEN digit_value_bounds] by linarith+
    have w: "isbn13_weight i = 1 \<or> isbn13_weight i = 3" by (simp add: isbn13_weight_def)
    have "digit_value c - digit_value (s ! i) = 0" by (rule weight10 [OF w z b])
    then have "c = s ! i" by (intro digit_value_inj) simp
    with assms(4) show False by simp
  qed
qed

theorem isbn_detects_typo_witness:
  "validISBN ''9780132350884'' 13 \<and> \<not> validISBN (''9780132350884''[12 := CHR ''5'']) 13 \<and>
   validISBN ''080442957X'' 10 \<and> \<not> validISBN (''080442957X''[9 := CHR ''1'']) 10"
proof -
  have v: "validISBN ''9780132350884'' 13" "validISBN ''080442957X'' 10" by code_simp+
  with isbn_detects_typo [OF v(1), of 12 "CHR ''5''"] isbn_detects_typo [OF v(2), of 9 "CHR ''1''"]
  show ?thesis by simp
qed

text \<open>Validation is a normal form, and what it accepts is what the catalogue expects. Validating
  an accepted record again changes nothing; its class mark, in capitals, begins with one to three
  letters followed by digits (so a purely numeric mark is refused); its ISBNs are empty or pass their
  checksums; its year is plausible; its author names are trimmed, not blank, pairwise different and at
  most a hundred, and its subject headings are besides in order.\<close>

theorem metadata_normal_form:
  assumes "validateBookMetadata y p = Inr q"
  shows "validateBookMetadata y q = Inr q \<and>
    (\<forall>cn. ub_CallNumber q = Some cn \<longrightarrow> trim_space cn = cn \<and>
       (\<exists>letters blanks ds rest. to_upper cn = letters @ blanks @ ds @ rest \<and> list_all is_upper_byte letters \<and>
          length letters \<in> {1..3} \<and> list_all is_pattern_blank blanks \<and> ds \<noteq> [] \<and> list_all is_digit_byte ds)) \<and>
    (\<forall>s. ub_ISBN13 q = Some s \<longrightarrow> s = [] \<or> validISBN s 13) \<and>
    (\<forall>s. ub_ISBN10 q = Some s \<longrightarrow> s = [] \<or> validISBN s 10) \<and> plausible_year (ub_PublishedYear q) \<and>
    (\<forall>ns. ub_Authors q = Some ns \<longrightarrow> distinct ns \<and> length ns \<le> 100 \<and>
       (\<forall>n \<in> set ns. n \<noteq> [] \<and> trim_space n = n)) \<and>
    (\<forall>ns. ub_Subjects q = Some ns \<longrightarrow> sorted ns \<and> distinct ns \<and> length ns \<le> 100)"
proof -
  from assms have f: "list_all field_ok (metadata_fields p)"
      "class_mark_ok (map_option trim_space (ub_CallNumber p))" "isbn_ok 13 (ub_ISBN13 p)"
      "isbn_ok 10 (ub_ISBN10 p)" "year_ok y (ub_PublishedYear p)" "supplied p \<noteq> 0"
    and names: "\<exists>a. check_names (ub_Authors p) = Inr a" "\<exists>s. check_names (ub_Subjects p) = Inr s"
    and q: "q = normal_fields p"
    by (auto simp: validate_Inr)
  note sel = normal_fields_sel [of p, folded q]
  have "map_option trim_space (map_option trim_space v) = map_option trim_space v" for v
    by (cases v) simp_all
  with f names have again: "validateBookMetadata y q = Inr q"
    unfolding validate_Inr
    by (auto simp: isbn_ok_normal q normal_fields_ok normal_fields_again supplied_again
        dest: check_names_again)
  have mark: "trim_space cn = cn \<and>
      (\<exists>letters blanks ds rest. to_upper cn = letters @ blanks @ ds @ rest \<and> list_all is_upper_byte letters \<and>
         length letters \<in> {1..3} \<and> list_all is_pattern_blank blanks \<and> ds \<noteq> [] \<and> list_all is_digit_byte ds)"
    if cn: "ub_CallNumber q = Some cn" for cn
  proof -
    from f(2) cn have "trim_space cn = cn" and "matches callNumberPattern (to_upper cn)"
      by (auto simp: sel class_mark_ok_def)
    then show ?thesis by (elim class_mark_shape) blast
  qed
  have isbns: "\<forall>s. ub_ISBN13 q = Some s \<longrightarrow> s = [] \<or> validISBN s 13" "\<forall>s. ub_ISBN10 q = Some s \<longrightarrow> s = [] \<or> validISBN s 10"
    using f(3,4) by (auto simp: sel isbn_ok_def)
  have "plausible_year (ub_PublishedYear q)"
    using f(5) by (auto simp: sel year_ok_def plausible_year_def split: option.splits)
  moreover have "\<forall>ns. ub_Authors q = Some ns \<longrightarrow> distinct ns \<and> length ns \<le> 100 \<and>
       (\<forall>n \<in> set ns. n \<noteq> [] \<and> trim_space n = n)"
    using names(1) by (auto simp: sel check_names_eq split: if_splits) (metis)
  moreover have "\<forall>ns. ub_Subjects q = Some ns \<longrightarrow> sorted ns \<and> distinct ns \<and> length ns \<le> 100"
    using names(2) by (auto simp: sel check_names_eq split: if_splits)
  ultimately show ?thesis using again mark isbns by blast
qed

definition sample_metadata :: update_book_params where
  "sample_metadata = \<lparr>ub_Title = None, ub_Subtitle = None, ub_ISBN13 = Some ''978-0-13-235088-4'',
     ub_ISBN10 = None, ub_Publisher = None, ub_Place = None, ub_CallNumber = Some ''q7'',
     ub_Edition = None, ub_Language = None, ub_Description = None, ub_Faculty = None, ub_Department = None,
     ub_PublishedYear = Some 2009, ub_Authors = None, ub_Subjects = Some [], ub_StaffID = 1\<rparr>"

theorem metadata_normal_form_witness:
  "\<exists>q. validateBookMetadata 2025 sample_metadata = Inr q \<and> validateBookMetadata 2025 q = Inr q"
proof -
  have isbn: "validISBN (isbn_value ''978-0-13-235088-4'') 13"
    "validMetadataText (trim_space ''978-0-13-235088-4'') 40 False" by code_simp+
  have mark: "matches callNumberPattern (to_upper (trim_space ''q7''))"
    "validMetadataText (trim_space ''q7'') 200 False" "trim_space ''q7'' \<noteq> []" by code_simp+
  have "validateBookMetadata 2025 sample_metadata = Inr (normal_fields sample_metadata)"
    by (simp add: validate_Inr sample_metadata_def metadata_fields_def field_ok_def isbn mark class_mark_ok_def
        isbn_ok_def year_ok_def check_names_eq supplied_def)
  with metadata_normal_form [OF this] show ?thesis by blast
qed

end
