(* ===== verification/Catalogue_Service.thy ===== *)
theory Catalogue_Service
  imports Book_Metadata Circulation
begin

text \<open>
  The catalogue service (catalogue_service.go, catalogue_discovery.go): what it checks before the
  repository is called, the view of a title a reader is given, and the edit of a physical copy, which
  reads the copy in one transaction and changes it in another. What other requests do between the two
  is a parameter of that operation.
\<close>

section \<open>Reading\<close>

definition SearchService ::
  "(search_params \<Rightarrow> 's \<Rightarrow> error + book list \<times> nat) \<Rightarrow> search_params \<Rightarrow> 's \<Rightarrow> error + book list \<times> nat" where
  "SearchService store_search p s =
     store_search (p\<lparr>sp_Limit := (if sp_Limit p \<le> 0 \<or> 100 < sp_Limit p then 20 else sp_Limit p),
                     sp_Offset := (if sp_Offset p < 0 then 0 else sp_Offset p),
                     sp_LCCClass := to_upper (trim_space (sp_LCCClass p))\<rparr>) s"

record book_view =
  bv_Book :: book
  bv_Wing :: wing
  bv_IsAvailable :: bool
  bv_Borrowable :: int
  bv_OnShelf :: bool
  bv_ShelfCopyRetained :: bool

definition NewBookView :: "book \<Rightarrow> book_view" where
  "NewBookView b =
     (let a = book_availability b in
      \<lparr>bv_Book = b, bv_Wing = Wing b, bv_IsAvailable = IsAvailable a, bv_Borrowable = Borrowable a,
       bv_OnShelf = OnShelf a, bv_ShelfCopyRetained = (RetainsAShelfCopy (Stock a) \<and> Available a = 1)\<rparr>)"

definition GetBook ::
  "(uuid \<Rightarrow> 's \<Rightarrow> error + book) \<Rightarrow> (uuid \<Rightarrow> 's \<Rightarrow> error + copy list) \<Rightarrow> uuid \<Rightarrow> 's \<Rightarrow>
   error + book_view \<times> copy list" where
  "GetBook find_book list_copies i s =
     (case find_book i s of
        Inl e \<Rightarrow> Inl e
      | Inr b \<Rightarrow> (case list_copies i s of Inl e \<Rightarrow> Inl e | Inr cs \<Rightarrow> Inr (NewBookView b, cs)))"

definition FindByISBN :: "(string \<Rightarrow> 's \<Rightarrow> error + book) \<Rightarrow> string \<Rightarrow> 's \<Rightarrow> error + book" where
  "FindByISBN find_by_isbn isbn s = find_by_isbn (normaliseISBN isbn) s"

definition CopyAtDesk :: "(string \<Rightarrow> 's \<Rightarrow> error + copy_at_desk) \<Rightarrow> string \<Rightarrow> 's \<Rightarrow> error + copy_at_desk" where
  "CopyAtDesk find_by_accession accession s =
     (let a = trim_space accession in
      if a = '''' then Inl ErrNotFound else find_by_accession a s)"

text \<open>The discovery queries are refused out of bounds and when the store does not offer them.\<close>

definition NewArrivalsService ::
  "(int \<Rightarrow> int \<Rightarrow> 's \<Rightarrow> error + book list \<times> nat) option \<Rightarrow> int \<Rightarrow> int \<Rightarrow> 's \<Rightarrow> error + book list \<times> nat" where
  "NewArrivalsService store limit offset s =
     (if limit < 1 \<or> 100 < limit \<or> offset < 0 then Inl ErrInvalidSearch
      else case store of None \<Rightarrow> Inl ErrNotFound | Some f \<Rightarrow> f limit offset s)"

definition RelatedService ::
  "(uuid \<Rightarrow> int \<Rightarrow> 's \<Rightarrow> error + book list) option \<Rightarrow> uuid \<Rightarrow> int \<Rightarrow> 's \<Rightarrow> error + book list" where
  "RelatedService store i limit s =
     (if i = uuid_nil \<or> limit < 1 \<or> 100 < limit then Inl ErrInvalidSearch
      else case store of None \<Rightarrow> Inl ErrNotFound | Some f \<Rightarrow> f i limit s)"

definition FacetsService ::
  "('s \<Rightarrow> error + (string \<times> (string \<times> nat) list) list) option \<Rightarrow> 's \<Rightarrow>
   error + (string \<times> (string \<times> nat) list) list" where
  "FacetsService store s = (case store of None \<Rightarrow> Inl ErrNotFound | Some f \<Rightarrow> f s)"

section \<open>Copies\<close>

text \<open>No policy in the request is the empty string of the code.\<close>

definition AddCopyService ::
  "(uuid \<Rightarrow> string \<Rightarrow> loan_policy \<Rightarrow> uuid \<Rightarrow> 's \<Rightarrow> (error + copy) \<times> 's) \<Rightarrow>
   uuid \<Rightarrow> string \<Rightarrow> loan_policy option \<Rightarrow> uuid \<Rightarrow> 's \<Rightarrow> (error + copy) \<times> 's" where
  "AddCopyService add bookID accession policy staffID s =
     (if trim_space accession = '''' then (Inl ErrDuplicateAccession, s)
      else add bookID accession (case policy of None \<Rightarrow> PolicyCirculating | Some p \<Rightarrow> p) staffID s)"

definition ArchiveService :: "(uuid \<Rightarrow> uuid \<Rightarrow> 's \<Rightarrow> (error + unit) \<times> 's) \<Rightarrow> uuid \<Rightarrow> uuid \<Rightarrow> 's \<Rightarrow> (error + unit) \<times> 's" where
  "ArchiveService archive i staffID s = archive i staffID s"

text \<open>After the status has been dealt with: the policy guard and the plain update.\<close>

definition finish_update ::
  "(uuid \<Rightarrow> loan_policy option \<Rightarrow> copy_status option \<Rightarrow> uuid \<Rightarrow> 's \<Rightarrow> (error + unit) \<times> 's) \<Rightarrow>
   uuid \<Rightarrow> copy \<Rightarrow> loan_policy option \<Rightarrow> copy_status option \<Rightarrow> uuid \<Rightarrow> 's \<Rightarrow> (error + unit) \<times> 's" where
  "finish_update update i current policy status staffID s =
     (if policy \<noteq> None \<and> copy_status current = CopyOnLoan then (Inl ErrCopyOnLoan, s)
      else if policy = None \<and> status = None then (Inr (), s)
      else update i policy status staffID s)"

definition UpdateCopyService ::
  "(uuid \<Rightarrow> 's \<Rightarrow> error + copy) \<Rightarrow> (uuid \<Rightarrow> copy_status \<Rightarrow> uuid \<Rightarrow> 's \<Rightarrow> (error + unit) \<times> 's) \<Rightarrow>
   (uuid \<Rightarrow> loan_policy option \<Rightarrow> copy_status option \<Rightarrow> uuid \<Rightarrow> 's \<Rightarrow> (error + unit) \<times> 's) \<Rightarrow>
   ('s \<Rightarrow> 's) \<Rightarrow> uuid \<Rightarrow> loan_policy option \<Rightarrow> copy_status option \<Rightarrow> uuid \<Rightarrow> 's \<Rightarrow> (error + unit) \<times> 's" where
  "UpdateCopyService find_copy close_out update others i policy status staffID s =
     (case find_copy i s of
        Inl e \<Rightarrow> (Inl e, s)
      | Inr current \<Rightarrow>
          let s = others s in
          case status of
            None \<Rightarrow> finish_update update i current policy None staffID s
          | Some st \<Rightarrow>
              if st = copy_status current then finish_update update i current policy status staffID s
              else if \<not> CanTransitionTo (copy_status current) st then (Inl ErrInvalidTransition, s)
              else if copy_status current = CopyOnLoan \<and> ClosesAnOpenLoan st then
                (case close_out i st staffID s of
                   (Inl e, s) \<Rightarrow> (Inl e, s)
                 | (Inr _, s) \<Rightarrow> finish_update update i current policy None staffID s)
              else finish_update update i current policy status staffID s)"

section \<open>What the service relies on\<close>

text \<open>
  The store of copies: its invariant survives closing a loan with any status but on loan, and an edit
  that leaves the copy on the same side of being out.
\<close>

locale copy_store =
  fixes find_copy :: "uuid \<Rightarrow> 's \<Rightarrow> error + copy"
    and close_out :: "uuid \<Rightarrow> copy_status \<Rightarrow> uuid \<Rightarrow> 's \<Rightarrow> (error + unit) \<times> 's"
    and update :: "uuid \<Rightarrow> loan_policy option \<Rightarrow> copy_status option \<Rightarrow> uuid \<Rightarrow> 's \<Rightarrow> (error + unit) \<times> 's"
    and good :: "'s \<Rightarrow> bool"
  assumes close_good: "good s \<Longrightarrow> st \<noteq> CopyOnLoan \<Longrightarrow> good (snd (close_out i st staff s))"
    and update_policy_good: "good s \<Longrightarrow> good (snd (update i policy None staff s))"
    and update_status_good: "good s \<Longrightarrow> find_copy i s = Inr c \<Longrightarrow>
      (st = CopyOnLoan \<longleftrightarrow> copy_status c = CopyOnLoan) \<Longrightarrow> good (snd (update i policy (Some st) staff s))"
begin

lemma finish_policy: "good s \<Longrightarrow> good (snd (finish_update update i c policy None staff s))"
  by (simp add: finish_update_def update_policy_good)

lemma finish_status:
  "good s \<Longrightarrow> find_copy i s = Inr c \<Longrightarrow> (st = CopyOnLoan \<longleftrightarrow> copy_status c = CopyOnLoan) \<Longrightarrow>
   good (snd (finish_update update i c policy (Some st) staff s))"
  by (simp add: finish_update_def update_status_good)

text \<open>Run without interference, the service keeps the store's invariant.\<close>

lemma update_service_good:
  assumes "good s"
  shows "good (snd (UpdateCopyService find_copy close_out update (\<lambda>s. s) i policy status staff s))"
proof (cases "find_copy i s")
  case (Inr c)
  show ?thesis
  proof (cases status)
    case None
    with assms Inr show ?thesis by (simp add: UpdateCopyService_def finish_policy)
  next
    case (Some st)
    consider "st = copy_status c" | "st \<noteq> copy_status c" "\<not> CanTransitionTo (copy_status c) st"
      | "st \<noteq> copy_status c" "CanTransitionTo (copy_status c) st" "copy_status c = CopyOnLoan"
      | "st \<noteq> copy_status c" "CanTransitionTo (copy_status c) st" "copy_status c \<noteq> CopyOnLoan"
      by blast
    then show ?thesis
    proof cases
      case 1
      with assms Inr Some show ?thesis by (simp add: UpdateCopyService_def finish_status)
    next
      case 2
      with assms Inr Some show ?thesis by (simp add: UpdateCopyService_def)
    next
      case 3
      then have "ClosesAnOpenLoan st" using on_loan_transition_closes [of st] by simp
      moreover have "good (snd (close_out i st staff s))" using assms 3 by (auto intro: close_good)
      ultimately show ?thesis using 3 Inr Some
        by (cases "close_out i st staff s")
          (auto simp: UpdateCopyService_def finish_policy split: sum.splits)
    next
      case 4
      then have "st \<noteq> CopyOnLoan" using no_transition_to_on_loan [of "copy_status c"] by auto
      with 4 assms Inr Some show ?thesis by (simp add: UpdateCopyService_def finish_status)
    qed
  qed
qed (use assms in \<open>simp add: UpdateCopyService_def\<close>)

end

interpretation copy_table:
  copy_store "FindCopy f1" "\<lambda>i st staff. SetCopyStatusClosingLoan f2 now i st staff"
    "\<lambda>i pol st staff. UpdateCopyRow f3 now i pol st staff" lib_inv
  for f1 f2 now f3
proof
  show "lib_inv s \<Longrightarrow> st \<noteq> CopyOnLoan \<Longrightarrow> lib_inv (snd (SetCopyStatusClosingLoan f2 now i st staff s))"
    for s st i staff by (rule SetCopyStatusClosingLoan_inv)
  show "lib_inv s \<Longrightarrow> lib_inv (snd (UpdateCopyRow f3 now i policy None staff s))" for s i policy staff
    by (rule UpdateCopyRow_inv) simp_all
  show "lib_inv s \<Longrightarrow> FindCopy f1 i s = Inr c \<Longrightarrow> (st = CopyOnLoan) = (copy_status c = CopyOnLoan) \<Longrightarrow>
      lib_inv (snd (UpdateCopyRow f3 now i policy (Some st) staff s))" for s i c st policy staff
    by (rule UpdateCopyRow_inv) (auto simp: FindCopy_def split: option.splits)
qed

section \<open>Properties\<close>

lemma find_copy_update:
  "find_copy_row i (d\<lparr>copies := update_where (\<lambda>c. copy_id c = i) f (copies d), audit_log := a\<rparr>) =
     map_option f (find_copy_row i d)" if "\<And>c. copy_id (f c) = copy_id c"
proof -
  have "find (\<lambda>c. copy_id c = i) (update_where (\<lambda>c. copy_id c = i) f cs) =
      map_option f (find (\<lambda>c. copy_id c = i) cs)" for cs
    using that by (induction cs) auto
  then show ?thesis by (simp add: find_copy_row_def)
qed

lemma UpdateCopyRow_ok:
  assumes "find_copy_row i d = Some c" and "staff \<in> user_ids d"
  shows "UpdateCopyRow no_faults now i pol st staff d =
    (Inr (), d\<lparr>copies := update_where (\<lambda>c. copy_id c = i) (edit_copy pol st) (copies d),
       audit_log := audit_log d @ [audit_line staff ''COPY_UPDATED'' ''copy'' i (changed_fields pol st) now]\<rparr>)"
proof -
  have "count_where (\<lambda>c. copy_id c = i) (copies d) \<noteq> 0"
    using find_rowD(2) [OF assms(1)] by (auto simp: count_where_0)
  moreover have "find_user_row staff d \<noteq> None" using assms(2) by (simp add: find_user_row_None)
  ultimately show ?thesis
    by (simp add: UpdateCopyRow_def transact_def UpdateCopy_tx_def update_copies_def recordAudit_def find_user_row_def
        del: no_faults_simp)
qed



text \<open>An edit of a copy that is out which names both a closing status and a policy is refused
  after it has half happened: with no statement failing, the service answers that the copy is on
  loan, and the loan is closed and the copy marked all the same.\<close>

theorem copy_edit_half_done:
  assumes "lib_inv d" and "find_copy_row i d = Some c" and "copy_status c = CopyOnLoan"
    and "ClosesAnOpenLoan st" and "staff \<in> user_ids d"
    and "\<forall>l \<in> set (loans d). loan_copy l = i \<and> open_loan l \<longrightarrow> loan_borrowed_at l \<le> now"
  shows "\<exists>d'. UpdateCopyService (FindCopy no_faults) (\<lambda>i st staff. SetCopyStatusClosingLoan no_faults now i st staff)
      (\<lambda>i pol st staff. UpdateCopyRow no_faults now i pol st staff) (\<lambda>d. d) i (Some pol) (Some st) staff d =
      (Inl ErrCopyOnLoan, d') \<and>
    open_loans_of_copy i d = 1 \<and> open_loans_of_copy i d' = 0 \<and>
    find_copy_row i d' = Some (c\<lparr>copy_status := st\<rparr>)"
proof -
  let ?P = "\<lambda>l. loan_copy l = i \<and> open_loan l"
  let ?ls = "update_where ?P (\<lambda>l. l\<lparr>loan_returned_at := Some now, loan_returned_to := Some staff\<rparr>) (loans d)"
  let ?cs = "update_where (\<lambda>c. copy_id c = i) (\<lambda>c. c\<lparr>copy_status := st\<rparr>) (copies d)"
  have c: "c \<in> set (copies d)" "copy_id c = i" using find_rowD(2) [OF assms(2)] by auto
  then have n: "count_where (\<lambda>c. copy_id c = i) (copies d) \<noteq> 0" by (auto simp: count_where_0)
  have u: "find_user_row staff d \<noteq> None" using assms(5) by (simp add: find_user_row_None)
  have st: "CanTransitionTo (copy_status c) st" "st \<noteq> copy_status c"
    using assms(3,4) by (auto simp: CanTransitionTo_def copyTransitions_def ClosesAnOpenLoan_def)
  have "close_loans_of_copy now i staff d = Inr ((), d\<lparr>loans := ?ls\<rparr>)"
    using assms(6) u by (auto simp: close_loans_of_copy_def Let_def not_less)
  then obtain d' where set: "SetCopyStatusClosingLoan no_faults now i st staff d = (Inr (), d')"
    and d': "copies d' = ?cs" "loans d' = ?ls"
    using n u
    by (simp add: SetCopyStatusClosingLoan_def transact_def SetCopyStatusClosingLoan_tx_def update_copies_def
        audit_marked_def find_user_row_def del: no_faults_simp)
  have "find (\<lambda>c. copy_id c = i) (update_where (\<lambda>c. copy_id c = i) (\<lambda>c. c\<lparr>copy_status := st\<rparr>) cs) =
      map_option (\<lambda>c. c\<lparr>copy_status := st\<rparr>) (find (\<lambda>c. copy_id c = i) cs)" for cs :: "copy list"
    by (induction cs) auto
  then have found: "find_copy_row i d' = Some (c\<lparr>copy_status := st\<rparr>)"
    using assms(2) by (simp add: find_copy_row_def d')
  have "open_loans_of_copy i d' = 0"
    by (simp add: open_loans_of_copy_def d' open_loans_closed)
  moreover have "open_loans_of_copy i d = 1"
    using assms(1,3) c by (auto simp: lib_inv_def custody_ok_def)
  ultimately show ?thesis
    using found set st assms(2-4)
    by (simp add: UpdateCopyService_def FindCopy_def finish_update_def del: no_faults_simp)
qed

theorem copy_edit_half_done_witness:
  "\<exists>d'. UpdateCopyService (FindCopy no_faults) (\<lambda>i st staff. SetCopyStatusClosingLoan no_faults 9 i st staff)
      (\<lambda>i pol st staff. UpdateCopyRow no_faults 9 i pol st staff) (\<lambda>d. d) 13 (Some PolicyRestricted)
      (Some CopyLost) 1 sample_db = (Inl ErrCopyOnLoan, d') \<and> open_loans_of_copy 13 d' = 0"
  using copy_edit_half_done [OF sample_inv, of 13 "sample_copy 13 10 ''A13'' CopyOnLoan" CopyLost 1 9 PolicyRestricted]
  by (auto simp: find_copy_row_def ClosesAnOpenLoan_def id_sets)

text \<open>C20: reading a copy and changing it are separate transactions, and a loan between them is lost
  sight of. If the copy was on the shelf when the service read it and is lent before the service
  writes, an edit that marks it damaged (or lost, or withdrawn) succeeds, and leaves a copy that is
  not on loan with an open loan: custody no longer holds.\<close>

theorem copy_edit_race:
  assumes "lib_inv d" and "find_copy_row i d = Some c" and "copy_status c = CopyAvailable"
    and "st \<in> {CopyDamaged, CopyLost, CopyWithdrawn}"
    and "borrow fb t nid p self d = (Inr l, d1)" and "bp_copy p = i" and "staff \<in> user_ids d1"
  shows "\<exists>d'. UpdateCopyService (FindCopy no_faults) (\<lambda>i st staff. SetCopyStatusClosingLoan no_faults now i st staff)
      (\<lambda>i pol st staff. UpdateCopyRow no_faults now i pol st staff) (\<lambda>d. snd (borrow fb t nid p self d))
      i None (Some st) staff d = (Inr (), d') \<and>
    find_copy_row i d' = Some (c\<lparr>copy_status := st\<rparr>) \<and> open_loans_of_copy i d' = 1 \<and> \<not> custody_ok d'"
proof -
  have inv1: "lib_inv d1" using borrow_inv [OF assms(1), of fb t nid p self] assms(5) by simp
  obtain rid a where d1: "d1 = lent p rid l a d" "loan_returned_at l = None" "loan_copy l = i" and cl: "claimable c"
  proof -
    have "borrow_tx fb t nid p self d = Inr (l, d1)" using assms(5) by (auto simp: borrow_def dest: transact_InrD)
    then obtain rid where "borrow_claimed fb t nid p self rid d = Inr (l, d1)" by (rule borrow_tx_Inr)
    then show thesis
    proof (rule borrow_claimed_Inr)
      fix c' d2 a
      assume c': "c' \<in> set (copies d)" "copy_id c' = bp_copy p" "claimable c'"
        and ins: "insert_loan nid p (claimed_db (bp_copy p) d) = Inr (l, d2)" and d1: "d1 = lent p rid l a d"
      have "c' = c" using lib_inv_copy_key [OF assms(1) c'(1), of c] find_rowD(2) [OF assms(2)] c'(2) assms(6) by auto
      moreover have "loan_returned_at l = None \<and> loan_copy l = i" using ins assms(6) by (auto elim!: insert_loan_Inr)
      ultimately show thesis using that [of rid a] d1 c'(3) by simp
    qed
  qed
  have "find (\<lambda>c. copy_id c = i) (claim_upd i (copies d)) = Some (c\<lparr>copy_status := CopyOnLoan\<rparr>)"
  proof -
    have "find (\<lambda>x. copy_id x = i) (claim_upd i (copies d)) =
        map_option (\<lambda>x. if copy_id x = i \<and> claimable x then x\<lparr>copy_status := CopyOnLoan\<rparr> else x)
          (find (\<lambda>x. copy_id x = i) (copies d))"
      unfolding claim_upd_def by (rule find_update_where) simp
    with assms(2) cl find_rowD(2) [OF assms(2)] show ?thesis by (simp add: find_copy_row_def)
  qed
  then have out: "find_copy_row i d1 = Some (c\<lparr>copy_status := CopyOnLoan\<rparr>)"
    by (simp add: d1(1) find_copy_row_def lent_def assms(6))
  then have open1: "open_loans_of_copy i d1 = 1"
    using inv1 find_rowD(2) [OF out] by (auto simp: lib_inv_def custody_ok_def)
  obtain d' where upd: "UpdateCopyRow no_faults now i None (Some st) staff d1 = (Inr (), d')"
    and d': "find_copy_row i d' = map_option (edit_copy None (Some st)) (find_copy_row i d1)" "loans d' = loans d1"
    using UpdateCopyRow_ok [OF out assms(7), of now None "Some st"]
    by (simp add: find_copy_update edit_copy_def del: no_faults_simp)
  have found: "find_copy_row i d' = Some (c\<lparr>copy_status := st\<rparr>)" by (simp add: d' out edit_copy_def)
  have "open_loans_of_copy i d' = 1" using open1 by (simp add: open_loans_of_copy_def d')
  moreover have "\<not> custody_ok d'"
  proof
    assume "custody_ok d'"
    with find_rowD(2) [OF found] have "open_loans_of_copy i d' = (if st = CopyOnLoan then 1 else 0)"
      by (force simp: custody_ok_def)
    with \<open>open_loans_of_copy i d' = 1\<close> assms(4) show False by auto
  qed
  moreover have "UpdateCopyService (FindCopy no_faults) (\<lambda>i st staff. SetCopyStatusClosingLoan no_faults now i st staff)
      (\<lambda>i pol st staff. UpdateCopyRow no_faults now i pol st staff) (\<lambda>d. snd (borrow fb t nid p self d))
      i None (Some st) staff d = (Inr (), d')"
    using assms(2-5) upd
    by (auto simp: UpdateCopyService_def FindCopy_def finish_update_def CanTransitionTo_def copyTransitions_def
        simp del: no_faults_simp)
  ultimately show ?thesis using found by blast
qed

lemma sample_borrow_facts:
  assumes "borrow no_faults 0 500 sample_request False sample_db = (Inr l, d1)"
  shows "users d1 = users sample_db"
proof -
  have "borrow_tx no_faults 0 500 sample_request False sample_db = Inr (l, d1)"
    using assms by (auto simp: borrow_def dest: transact_InrD)
  then show ?thesis
    by (rule borrow_tx_Inr) (erule borrow_claimed_Inr, simp add: lent_def)
qed

theorem copy_edit_race_witness:
  "\<exists>d'. UpdateCopyService (FindCopy no_faults) (\<lambda>i st staff. SetCopyStatusClosingLoan no_faults 9 i st staff)
      (\<lambda>i pol st staff. UpdateCopyRow no_faults 9 i pol st staff)
      (\<lambda>d. snd (borrow no_faults 0 500 sample_request False d)) 11 None (Some CopyDamaged) 1 sample_db = (Inr (), d') \<and>
    open_loans_of_copy 11 d' = 1 \<and> \<not> custody_ok d'"
proof -
  obtain l d1 where b: "borrow no_faults 0 500 sample_request False sample_db = (Inr l, d1)"
    using sample_borrow by blast
  have "bp_copy sample_request = 11" by (simp add: sample_request_def)
  moreover have "1 \<in> user_ids d1" using sample_borrow_facts [OF b] by (simp add: user_ids_def)
  moreover have "find_copy_row 11 sample_db = Some (sample_copy 11 10 ''A11'' CopyAvailable)"
    by (simp add: find_copy_row_def)
  ultimately show ?thesis
    using copy_edit_race [OF sample_inv, of 11 "sample_copy 11 10 ''A11'' CopyAvailable" CopyDamaged no_faults 0 500
        sample_request False l d1 1 9] b by auto
qed

text \<open>What a reader is told agrees with what the desk will do. For a title read from the database,
  the view says that it can be borrowed exactly when the retention rule would let a copy go: for every
  circulating copy of it on the shelf, with nobody else first in the queue and a member below the
  limit, the desk lends when the view says so and refuses with the retention error when it does not;
  and then the view names the retained copy as the reason. A title that can be borrowed is on the shelf.\<close>

theorem view_agrees_with_desk:
  assumes "find_book_row b d = Some row" and "find_copy_row (bp_copy p) d = Some c" and "copy_book c = b"
    and "claimable c" and "\<forall>r. head_reservation (bp_copy p) d = Some r \<longrightarrow> res_user r = bp_user p"
    and "int (open_loans_of_user (bp_user p) d) < bp_max_loans p"
  shows "let v = NewBookView (scanBook collate d row) in
    borrow_verdict p d = (if bv_IsAvailable v then None else Some ErrLastCopyRetained) \<and>
    (\<not> bv_IsAvailable v \<longrightarrow> bv_ShelfCopyRetained v) \<and> bv_OnShelf v"
proof -
  let ?s = "int (stock_of_book b d)" and ?a = "int (available_of_book b d)"
  have id: "book_id row = b" using find_rowD(3) [OF assms(1)] by simp
  have c: "c \<in> set (copies d)" "copy_policy c = PolicyCirculating" "copy_status c = CopyAvailable"
    using find_rowD(2) [OF assms(2)] assms(4) by (auto simp: claimable_def)
  have avail: "0 < available_of_book b d"
    using c assms(3) by (auto simp: available_of_book_def circulating_def count_where_pos)
  have "\<not> (bp_max_loans p \<le> int (open_loans_of_user (bp_user p) d))" using assms(6) by simp
  then have "borrow_verdict p d = (if BorrowableCount ?s ?a \<le> 0 then Some ErrLastCopyRetained else None)"
    using assms(2,3,5) c by (auto simp: borrow_verdict_def IsBorrowable_def)
  moreover have "BorrowableCount ?s ?a \<le> 0 \<longleftrightarrow> 2 \<le> ?s \<and> ?a = 1"
    using avail by (auto simp: BorrowableCount_def)
  ultimately show ?thesis
    using avail
    by (auto simp: NewBookView_def scanBook_def Let_def id IsAvailable_def Borrowable_def OnShelf_def
        RetainsAShelfCopy_def availability_counts)
qed

theorem view_agrees_with_desk_witness:
  "bv_IsAvailable (NewBookView (scanBook (\<lambda>s. s) sample_db (sample_book 10 ''Algorithms'' ''''))) \<and>
   borrow_verdict sample_request sample_db = None"
proof -
  have "head_reservation 11 sample_db = None"
    by (simp add: head_reservation_def first_by_def waits_for_def book_of_copy_def find_copy_row_def)
  with view_agrees_with_desk [of 10 sample_db "sample_book 10 ''Algorithms'' ''''" sample_request
      "sample_copy 11 10 ''A11'' CopyAvailable" "\<lambda>s. s"]
  have "let v = NewBookView (scanBook (\<lambda>s. s) sample_db (sample_book 10 ''Algorithms'' '''')) in
    borrow_verdict sample_request sample_db = (if bv_IsAvailable v then None else Some ErrLastCopyRetained)"
    by (simp add: find_book_row_def find_copy_row_def sample_request_def claimable_def
        open_loans_of_user_def open_loan_def Let_def)
  moreover have "bv_IsAvailable (NewBookView (scanBook (\<lambda>s. s) sample_db (sample_book 10 ''Algorithms'' '''')))"
    by (simp add: NewBookView_def scanBook_def Let_def IsAvailable_def Borrowable_def availability_counts
        stock_of_book_def available_of_book_def circulating_def BorrowableCount_def)
  ultimately show ?thesis by (simp add: Let_def)
qed

end
