(* ===== verification/Catalogue_Query.thy ===== *)
theory Catalogue_Query
  imports Catalogue_Service "HOL-Library.Multiset"
begin

text \<open>
  The public search contract (catalogue_query.go): parsing the parameters of a request, and the
  validation of a stored query, which is the same contract over JSON values. The parameters of a
  request are a Go map, so the list of them comes in no particular order.
\<close>

section \<open>Numbers\<close>

definition digits_value :: "string \<Rightarrow> int" where
  "digits_value ds = foldl (\<lambda>n c. 10 * n + digit_value c) 0 ds"

text \<open>strconv.Atoi: an optional sign, digits, the range of a 64-bit integer.\<close>

definition atoi :: "string \<Rightarrow> int option" where
  "atoi s =
     (let neg = (take 1 s = ''-''); ds = (if neg \<or> take 1 s = ''+'' then drop 1 s else s) in
      if ds = '''' \<or> \<not> list_all is_digit_byte ds then None
      else let n = (if neg then - digits_value ds else digits_value ds) in
        if - (2 ^ 63) \<le> n \<and> n < 2 ^ 63 then Some n else None)"

section \<open>Parameters\<close>

datatype clause =
    CQuery string | CTitle string | CAuthor string | CSubject string | CFaculty string
  | CDepartment string | CLanguage string | CISBN string | CCallNumber string | CClass string
  | CWing string | CAvailable bool | CBorrowable bool | CYearFrom int | CYearTo int | CSort string
  | CPage int | CPerPage int

definition text_keys :: "string list" where
  "text_keys = [''q'', ''title'', ''author'', ''subject'', ''faculty'', ''department'', ''language'',
     ''isbn'', ''call_number'', ''class'']"

definition query_text_ok :: "string \<Rightarrow> nat \<Rightarrow> bool" where
  "query_text_ok v limit \<longleftrightarrow> utf8_valid v \<and> rune_count v \<le> limit \<and> \<not> list_ex is_control (runes v)"

text \<open>Digits at every place, and an X of either case at the last of ten.\<close>

definition isbn_query_ok :: "string \<Rightarrow> bool" where
  "isbn_query_ok v \<longleftrightarrow> (length v = 10 \<or> length v = 13) \<and>
     list_all (\<lambda>(i, c). is_digit_byte c \<or> (length v = 10 \<and> i = 9 \<and> (c = CHR ''X'' \<or> c = CHR ''x'')))
       (enumerate 0 v)"

definition parse_text :: "string \<Rightarrow> string \<Rightarrow> clause option" where
  "parse_text key v =
     (if \<not> query_text_ok v (if key = ''q'' then 500 else 200) then None
      else if key = ''q'' then Some (CQuery v)
      else if key = ''title'' then Some (CTitle v)
      else if key = ''author'' then Some (CAuthor v)
      else if key = ''subject'' then Some (CSubject v)
      else if key = ''faculty'' then Some (CFaculty v)
      else if key = ''department'' then Some (CDepartment v)
      else if key = ''language'' then Some (CLanguage v)
      else if key = ''isbn'' then
        (if isbn_query_ok (normaliseISBN v) then Some (CISBN (to_upper (normaliseISBN v))) else None)
      else if key = ''call_number'' then Some (CCallNumber v)
      else if lcc_letter (to_upper v) then Some (CClass (to_upper v)) else None)"

definition parse_flag :: "string \<Rightarrow> bool option" where
  "parse_flag v =
     (if v = ''true'' \<or> v = ''1'' then Some True
      else if v = ''false'' \<or> v = ''0'' then Some False else None)"

definition parse_number :: "string \<Rightarrow> int \<Rightarrow> int option" where
  "parse_number v greatest =
     (case atoi v of None \<Rightarrow> None | Some n \<Rightarrow> if n < 1 \<or> greatest < n then None else Some n)"

definition parse_value :: "string \<Rightarrow> string \<Rightarrow> clause option" where
  "parse_value key v =
     (if List.member text_keys key then parse_text key v
      else if key = ''wing'' then
        (if v = ''South'' \<or> v = ''North'' \<or> v = ''Unknown'' then Some (CWing v) else None)
      else if key = ''available'' then map_option CAvailable (parse_flag v)
      else if key = ''borrowable'' then map_option CBorrowable (parse_flag v)
      else if key = ''year_from'' then map_option CYearFrom (parse_number v 9999)
      else if key = ''year_to'' then map_option CYearTo (parse_number v 9999)
      else if key = ''sort'' then
        (if List.member [''relevance'', ''title'', ''newest'', ''oldest''] v then Some (CSort v)
         else if v = ''year_desc'' then Some (CSort ''newest'')
         else if v = ''year_asc'' then Some (CSort ''oldest'') else None)
      else if key = ''page'' then map_option CPage (parse_number v 1000000)
      else if key = ''per_page'' then map_option CPerPage (parse_number v 100)
      else None)"

fun apply_clause :: "clause \<Rightarrow> search_params \<times> int \<Rightarrow> search_params \<times> int" where
  "apply_clause (CQuery v) (p, page) = (p\<lparr>sp_Query := v\<rparr>, page)"
| "apply_clause (CTitle v) (p, page) = (p\<lparr>sp_Title := v\<rparr>, page)"
| "apply_clause (CAuthor v) (p, page) = (p\<lparr>sp_Author := v\<rparr>, page)"
| "apply_clause (CSubject v) (p, page) = (p\<lparr>sp_Subject := v\<rparr>, page)"
| "apply_clause (CFaculty v) (p, page) = (p\<lparr>sp_Faculty := v\<rparr>, page)"
| "apply_clause (CDepartment v) (p, page) = (p\<lparr>sp_Department := v\<rparr>, page)"
| "apply_clause (CLanguage v) (p, page) = (p\<lparr>sp_Language := v\<rparr>, page)"
| "apply_clause (CISBN v) (p, page) = (p\<lparr>sp_ISBN := v\<rparr>, page)"
| "apply_clause (CCallNumber v) (p, page) = (p\<lparr>sp_CallNumber := v\<rparr>, page)"
| "apply_clause (CClass v) (p, page) = (p\<lparr>sp_LCCClass := v\<rparr>, page)"
| "apply_clause (CWing v) (p, page) = (p\<lparr>sp_Wing := v\<rparr>, page)"
| "apply_clause (CAvailable b) (p, page) = (p\<lparr>sp_Available := Some b\<rparr>, page)"
| "apply_clause (CBorrowable b) (p, page) = (p\<lparr>sp_Borrowable := Some b\<rparr>, page)"
| "apply_clause (CYearFrom n) (p, page) = (p\<lparr>sp_YearFrom := Some n\<rparr>, page)"
| "apply_clause (CYearTo n) (p, page) = (p\<lparr>sp_YearTo := Some n\<rparr>, page)"
| "apply_clause (CSort v) (p, page) = (p\<lparr>sp_Sort := v\<rparr>, page)"
| "apply_clause (CPage n) (p, page) = (p, n)"
| "apply_clause (CPerPage n) (p, page) = (p\<lparr>sp_Limit := n\<rparr>, page)"

definition no_search :: search_params where
  "no_search = \<lparr>sp_Faculty = '''', sp_Department = '''', sp_Language = '''', sp_Wing = '''',
     sp_YearFrom = None, sp_YearTo = None, sp_Available = None, sp_Borrowable = None,
     sp_Sort = ''relevance'', sp_Query = '''', sp_Title = '''', sp_Author = '''', sp_Subject = '''',
     sp_ISBN = '''', sp_CallNumber = '''', sp_LCCClass = '''', sp_OnlyAvailable = False,
     sp_Limit = 20, sp_Offset = 0\<rparr>"

text \<open>One entry of the map: its only value, trimmed, and what its key makes of it.\<close>

definition parse_entry :: "string \<times> string list \<Rightarrow> clause option" where
  "parse_entry e =
     (case e of (key, values) \<Rightarrow>
        (case values of
           [v] \<Rightarrow> if trim_space v = '''' then None else parse_value key (trim_space v)
         | _ \<Rightarrow> None))"

fun parse_params :: "(string \<times> string list) list \<Rightarrow> search_params \<times> int \<Rightarrow> (search_params \<times> int) option" where
  "parse_params [] acc = Some acc"
| "parse_params (e # q) acc =
     (case parse_entry e of None \<Rightarrow> None | Some c \<Rightarrow> parse_params q (apply_clause c acc))"

definition years_crossed :: "search_params \<Rightarrow> bool" where
  "years_crossed p \<longleftrightarrow>
     (case (sp_YearFrom p, sp_YearTo p) of (Some a, Some b) \<Rightarrow> b < a | _ \<Rightarrow> False)"

definition ParseCatalogueQuery :: "(string \<times> string list) list \<Rightarrow> error + search_params \<times> int" where
  "ParseCatalogueQuery q =
     (case parse_params q (no_search, 1) of
        None \<Rightarrow> Inl ErrInvalidSearch
      | Some (p, page) \<Rightarrow>
          if years_crossed p then Inl ErrInvalidSearch
          else Inr (p\<lparr>sp_Offset := (page - 1) * sp_Limit p\<rparr>, page))"

section \<open>Stored queries\<close>

text \<open>The text a JSON value stands for under a key, when it has the type the key wants.\<close>

definition saved_value :: "string \<Rightarrow> jval \<Rightarrow> string option" where
  "saved_value key raw =
     (if key = ''available'' \<or> key = ''borrowable'' then
        (case raw of JBool b \<Rightarrow> Some (if b then ''true'' else ''false'') | _ \<Rightarrow> None)
      else if List.member [''year_from'', ''year_to'', ''page'', ''per_page''] key then
        (case raw of JInt n \<Rightarrow> if - (2 ^ 63) \<le> n \<and> n < 2 ^ 63 then Some (decimal_int n) else None | _ \<Rightarrow> None)
      else (case raw of JStr v \<Rightarrow> Some v | _ \<Rightarrow> None))"

fun saved_values :: "payload \<Rightarrow> (string \<times> string list) list option" where
  "saved_values [] = Some []"
| "saved_values ((key, raw) # q) =
     (case saved_value key raw of
        None \<Rightarrow> None
      | Some v \<Rightarrow> map_option (\<lambda>vs. (key, [v]) # vs) (saved_values q))"

definition ValidateSavedQuery :: "payload option \<Rightarrow> error option" where
  "ValidateSavedQuery query =
     (case query of
        None \<Rightarrow> Some ErrInvalidSearch
      | Some q \<Rightarrow> (case saved_values q of
          None \<Rightarrow> Some ErrInvalidSearch
        | Some values \<Rightarrow> (case ParseCatalogueQuery values of Inl e \<Rightarrow> Some e | Inr _ \<Rightarrow> None)))"

section \<open>The order of the parameters\<close>

fun clause_key :: "clause \<Rightarrow> string" where
  "clause_key (CQuery v) = ''q''" | "clause_key (CTitle v) = ''title''"
| "clause_key (CAuthor v) = ''author''" | "clause_key (CSubject v) = ''subject''"
| "clause_key (CFaculty v) = ''faculty''" | "clause_key (CDepartment v) = ''department''"
| "clause_key (CLanguage v) = ''language''" | "clause_key (CISBN v) = ''isbn''"
| "clause_key (CCallNumber v) = ''call_number''" | "clause_key (CClass v) = ''class''"
| "clause_key (CWing v) = ''wing''" | "clause_key (CAvailable b) = ''available''"
| "clause_key (CBorrowable b) = ''borrowable''" | "clause_key (CYearFrom n) = ''year_from''"
| "clause_key (CYearTo n) = ''year_to''" | "clause_key (CSort v) = ''sort''"
| "clause_key (CPage n) = ''page''" | "clause_key (CPerPage n) = ''per_page''"

lemma parse_value_key: "parse_value key v = Some c \<Longrightarrow> clause_key c = key"
  by (auto simp: parse_value_def parse_text_def text_keys_def split: if_splits)

lemma parse_entry_key: "parse_entry e = Some c \<Longrightarrow> clause_key c = fst e"
  by (auto simp: parse_entry_def dest: parse_value_key split: prod.splits list.splits if_splits)

lemma apply_commutes:
  "clause_key c \<noteq> clause_key c' \<Longrightarrow> apply_clause c \<circ> apply_clause c' = apply_clause c' \<circ> apply_clause c"
  by (cases c; cases c'; auto simp: fun_eq_iff)

lemma parse_params_fold:
  "parse_params q acc =
     (if \<forall>e \<in> set q. parse_entry e \<noteq> None
      then Some (fold (\<lambda>e. apply_clause (the (parse_entry e))) q acc) else None)"
  by (induction q arbitrary: acc) (auto split: option.splits)

lemma parse_params_perm:
  assumes "distinct (map fst q)" and "mset q = mset q'"
  shows "parse_params q acc = parse_params q' acc"
proof -
  have sets: "set q = set q'" using assms(2) by (metis set_mset_mset)
  show ?thesis
  proof (cases "\<forall>e \<in> set q. parse_entry e \<noteq> None")
    case True
    have "fold (\<lambda>e. apply_clause (the (parse_entry e))) q = fold (\<lambda>e. apply_clause (the (parse_entry e))) q'"
    proof (rule fold_multiset_equiv [OF _ assms(2)])
      fix x y assume xy: "x \<in> set q" "y \<in> set q"
      show "apply_clause (the (parse_entry x)) \<circ> apply_clause (the (parse_entry y)) =
          apply_clause (the (parse_entry y)) \<circ> apply_clause (the (parse_entry x))"
      proof (cases "x = y")
        case False
        with xy have "fst x \<noteq> fst y" using assms(1) by (metis distinct_key)
        with True xy parse_entry_key [of x] parse_entry_key [of y] show ?thesis
          by (intro apply_commutes) auto
      qed simp
    qed
    with True sets show ?thesis by (simp add: parse_params_fold)
  next
    case False
    then have "\<not> (\<forall>e \<in> set q'. parse_entry e \<noteq> None)" using sets by simp
    with False show ?thesis unfolding parse_params_fold by (simp only: if_False)
  qed
qed

section \<open>What a parsed query satisfies\<close>

definition query_ok :: "search_params \<times> int \<Rightarrow> bool" where
  "query_ok r = (case r of (p, page) \<Rightarrow>
     1 \<le> page \<and> page \<le> 1000000 \<and> 1 \<le> sp_Limit p \<and> sp_Limit p \<le> 100 \<and>
     (sp_LCCClass p = '''' \<or> lcc_letter (sp_LCCClass p)) \<and>
     List.member [''relevance'', ''title'', ''newest'', ''oldest''] (sp_Sort p) \<and>
     (case sp_YearFrom p of None \<Rightarrow> True | Some y \<Rightarrow> 1 \<le> y \<and> y \<le> 9999) \<and>
     (case sp_YearTo p of None \<Rightarrow> True | Some y \<Rightarrow> 1 \<le> y \<and> y \<le> 9999) \<and> \<not> sp_OnlyAvailable p)"

lemma parse_number_bounds: "parse_number v k = Some n \<Longrightarrow> 1 \<le> n \<and> n \<le> k"
  by (auto simp: parse_number_def split: option.splits if_splits)

lemma parse_value_ok: "parse_value key v = Some c \<Longrightarrow> query_ok r \<Longrightarrow> query_ok (apply_clause c r)"
  by (cases r; cases c)
    (auto simp: parse_value_def parse_text_def query_ok_def dest!: parse_number_bounds split: if_splits)

lemma parse_entry_ok: "parse_entry e = Some c \<Longrightarrow> query_ok r \<Longrightarrow> query_ok (apply_clause c r)"
  by (cases e) (auto simp: parse_entry_def split: list.splits if_splits intro: parse_value_ok)

lemma parse_params_ok: "parse_params q acc = Some r \<Longrightarrow> query_ok acc \<Longrightarrow> query_ok r"
proof (induction q arbitrary: acc)
  case (Cons e q)
  then obtain c where "parse_entry e = Some c" and "parse_params q (apply_clause c acc) = Some r"
    by (auto split: option.splits)
  with Cons show ?case by (blast intro: parse_entry_ok)
qed simp

lemma no_search_ok: "query_ok (no_search, 1)"
  by (simp add: query_ok_def no_search_def)

lemma upper_lcc: "lcc_letter s \<Longrightarrow> to_upper (trim_space s) = s"
proof -
  assume "lcc_letter s"
  then obtain c where s: "s = [c]" "is_upper_byte c" by (auto simp: lcc_letter_def split: list.splits)
  then have "\<not> is_space_byte c" "\<not> is_lower_byte c"
    by (auto simp: is_upper_byte_def is_space_byte_def is_lower_byte_def Let_def)
  then show ?thesis by (simp add: s trim_space_def to_upper_def upper_byte_unchanged)
qed

section \<open>Numbers survive being written out\<close>

lemma of_char_digit: "n < 10 \<Longrightarrow> (of_char (digit_char n) :: nat) = 48 + n"
  by (simp add: digit_char_def)

lemma digit_char_facts: "n < 10 \<Longrightarrow> is_digit_byte (digit_char n) \<and> digit_value (digit_char n) = int n"
  by (simp add: is_digit_byte_def digit_value_def of_char_digit Let_def)

lemma digits_value_snoc: "digits_value (ds @ [c]) = 10 * digits_value ds + digit_value c"
  by (simp add: digits_value_def)

lemma decimal_facts: "decimal n \<noteq> [] \<and> list_all is_digit_byte (decimal n) \<and> digits_value (decimal n) = int n"
proof (induction n rule: decimal.induct)
  case (1 n)
  show ?case
  proof (cases "n < 10")
    case True
    then show ?thesis
      by (subst (1 2 3) decimal.simps) (simp add: digit_char_facts digits_value_def)
  next
    case False
    then show ?thesis using 1 digit_char_facts [of "n mod 10"]
      by (subst (1 2 3) decimal.simps) (simp add: digits_value_snoc, presburger)
  qed
qed

lemma digit_first: "list_all is_digit_byte ds \<Longrightarrow> take 1 ds \<noteq> ''-'' \<and> take 1 ds \<noteq> ''+''"
  by (cases ds) (auto simp: is_digit_byte_def Let_def)

lemma atoi_decimal: "- (2 ^ 63) \<le> n \<Longrightarrow> n < 2 ^ 63 \<Longrightarrow> atoi (decimal_int n) = Some n"
  using decimal_facts [of "nat n"] decimal_facts [of "nat (- n)"] digit_first [of "decimal (nat n)"]
  by (auto simp: atoi_def decimal_int_def Let_def)

section \<open>Properties\<close>

text \<open>A search means the same in whatever order its parameters are iterated. A Go map is walked in
  no fixed order, and each key of a request occurs once: two iterations of the same parameters give
  the same query and page, or the same refusal.\<close>

theorem query_order_is_irrelevant:
  assumes "distinct (map fst q)" and "mset q = mset q'"
  shows "ParseCatalogueQuery q = ParseCatalogueQuery q'"
  using parse_params_perm [OF assms] by (simp add: ParseCatalogueQuery_def)

theorem query_order_is_irrelevant_witness:
  "ParseCatalogueQuery [(''page'', [''3'']), (''per_page'', [''50''])] =
   ParseCatalogueQuery [(''per_page'', [''50'']), (''page'', [''3''])]"
  by (rule query_order_is_irrelevant) simp_all

text \<open>The bounds of a parsed query. An accepted query asks for a page between one and a million of
  one to a hundred titles, its offset is that page's and stays below a hundred million, its class is
  one capital letter or none, its sort is one the database knows, its years lie between 1 and 9999
  and do not cross; and the bounds the catalogue service applies to every search leave it as it is.\<close>

theorem parsed_query_bounds:
  assumes "ParseCatalogueQuery q = Inr (p, page)"
  shows "1 \<le> page \<and> page \<le> 1000000 \<and> 1 \<le> sp_Limit p \<and> sp_Limit p \<le> 100 \<and>
    sp_Offset p = (page - 1) * sp_Limit p \<and> 0 \<le> sp_Offset p \<and> sp_Offset p < 100000000 \<and>
    (sp_LCCClass p = '''' \<or> lcc_letter (sp_LCCClass p)) \<and>
    List.member [''relevance'', ''title'', ''newest'', ''oldest''] (sp_Sort p) \<and> \<not> years_crossed p \<and>
    SearchService store p s = store p s"
proof -
  from assms obtain p0 where p0: "parse_params q (no_search, 1) = Some (p0, page)" "\<not> years_crossed p0"
    and "p = p0\<lparr>sp_Offset := (page - 1) * sp_Limit p0\<rparr>"
    by (auto simp: ParseCatalogueQuery_def split: option.splits if_splits)
  define off where "off = (page - 1) * sp_Limit p0"
  have p: "p = p0\<lparr>sp_Offset := off\<rparr>" by (simp add: off_def) fact
  have ok: "query_ok (p0, page)" by (rule parse_params_ok [OF p0(1) no_search_ok])
  then have b: "1 \<le> page" "page \<le> 1000000" "1 \<le> sp_Limit p0" "sp_Limit p0 \<le> 100"
    by (auto simp: query_ok_def)
  have "off \<le> 999999 * 100" unfolding off_def by (rule mult_mono) (use b in auto)
  moreover have "0 \<le> off" using b by (simp add: off_def)
  moreover have "to_upper (trim_space (sp_LCCClass p0)) = sp_LCCClass p0"
  proof (cases "sp_LCCClass p0 = []")
    case False
    with ok show ?thesis by (intro upper_lcc) (auto simp: query_ok_def)
  qed (simp add: to_upper_def)
  moreover have "years_crossed p = years_crossed p0" by (simp add: p years_crossed_def)
  ultimately show ?thesis using ok b p0(2)
    by (auto simp: p query_ok_def SearchService_def off_def [symmetric])
qed

theorem parsed_query_bounds_witness:
  "\<exists>p. ParseCatalogueQuery [(''page'', [''3'']), (''per_page'', ['' 50 ''])] = Inr (p, 3) \<and> sp_Offset p = 100"
proof -
  have "ParseCatalogueQuery [(''page'', [''3'']), (''per_page'', ['' 50 ''])] =
      Inr (no_search\<lparr>sp_Limit := 50, sp_Offset := 100\<rparr>, 3)"
    by code_simp
  with parsed_query_bounds [OF this] show ?thesis by auto
qed

text \<open>A stored query is the public contract over JSON. A page number stored as a JSON integer is
  accepted exactly when the same number written out is accepted as a parameter, that is between one
  and a million; a null, a value of another type or an unknown key is refused.\<close>

theorem saved_page_agrees:
  assumes "- (2 ^ 63) \<le> n" and "n < 2 ^ 63"
  shows "(ValidateSavedQuery (Some [(''page'', JInt n)]) = None) = (1 \<le> n \<and> n \<le> 1000000) \<and>
    ValidateSavedQuery (Some [(''page'', JNull)]) = Some ErrInvalidSearch \<and>
    ValidateSavedQuery (Some [(''page'', JStr (decimal_int n))]) = Some ErrInvalidSearch \<and>
    ValidateSavedQuery None = Some ErrInvalidSearch"
proof -
  have ne: "decimal_int n \<noteq> []" using decimal_facts by (simp add: decimal_int_def)
  have digit_plain: "is_digit_byte c \<Longrightarrow> \<not> is_space_byte c" for c
    by (auto simp: is_digit_byte_def is_space_byte_def Let_def)
  have trim: "trim_space (decimal_int n) = decimal_int n"
  proof (rule trim_space_fixed)
    have "list_all (\<lambda>c. \<not> is_space_byte c) (decimal k)" for k
      using decimal_facts [of k] digit_plain by (auto simp: list_all_iff)
    moreover have "\<not> is_space_byte (CHR ''-'')" by code_simp
    ultimately have "list_all (\<lambda>c. \<not> is_space_byte c) (decimal_int n)" by (simp add: decimal_int_def)
    then show "decimal_int n \<noteq> [] \<Longrightarrow> \<not> is_space_byte (hd (decimal_int n))"
      "decimal_int n \<noteq> [] \<Longrightarrow> \<not> is_space_byte (last (decimal_int n))"
      by (simp_all add: list_all_iff)
  qed
  have "parse_entry (''page'', [decimal_int n]) = map_option CPage (parse_number (decimal_int n) 1000000)"
    by (simp add: parse_entry_def trim ne parse_value_def text_keys_def)
  also have "\<dots> = (if 1 \<le> n \<and> n \<le> 1000000 then Some (CPage n) else None)"
    using atoi_decimal [OF assms] by (auto simp: parse_number_def)
  finally show ?thesis
    using assms
    by (auto simp: ValidateSavedQuery_def saved_value_def ParseCatalogueQuery_def years_crossed_def no_search_def)
qed

theorem saved_page_agrees_witness:
  "ValidateSavedQuery (Some [(''page'', JInt 7)]) = None \<and>
   ValidateSavedQuery (Some [(''page'', JInt 0)]) \<noteq> None"
  using saved_page_agrees [of 7] saved_page_agrees [of 0] by simp

end
