(* ===== verification/Auth.thy ===== *)
theory Auth
  imports Users Rate_Limit Catalogue_Query
begin

text \<open>
  Credentials and sessions: password hashes and the password policy (auth/password.go), access and
  opaque tokens (auth/token.go), and the authentication service (service/auth_service.go) over the
  accounts, the stored tokens, the outbox and a rate limiter with its in-process fallback. Argon2,
  base64, SHA-256, the JWT signature, the random source and the Unicode tables are parameters.
\<close>

section \<open>Password hashes\<close>

text \<open>argon2.IDKey takes the password, the salt, time, memory, threads and the length of the key.\<close>

record password_lib =
  pl_IDKey :: "string \<Rightarrow> string \<Rightarrow> nat \<Rightarrow> nat \<Rightarrow> nat \<Rightarrow> nat \<Rightarrow> string"
  pl_encode :: "string \<Rightarrow> string"
  pl_decode :: "string \<Rightarrow> string option"
  pl_letter :: "nat \<Rightarrow> bool"
  pl_number :: "nat \<Rightarrow> bool"

definition argonMemory :: nat where "argonMemory = 64 * 1024"
definition argonTime :: nat where "argonTime = 1"
definition argonThreads :: nat where "argonThreads = 4"
definition argonKeyLen :: nat where "argonKeyLen = 32"
definition argonVersion :: nat where "argonVersion = 19"

definition ErrInvalidHashFormat :: error where
  "ErrInvalidHashFormat = ErrText ''stored password hash is malformed''"

definition HashPassword :: "password_lib \<Rightarrow> string option \<Rightarrow> string \<Rightarrow> error + string" where
  "HashPassword lib random plain =
     (case random of
        None \<Rightarrow> Inl (ErrText ''generating salt'')
      | Some salt \<Rightarrow>
          Inr (''$argon2id$v='' @ decimal argonVersion @ ''$m='' @ decimal argonMemory @ '',t='' @
               decimal argonTime @ '',p='' @ decimal argonThreads @ ''$'' @ pl_encode lib salt @ ''$'' @
               pl_encode lib (pl_IDKey lib plain salt argonTime argonMemory argonThreads argonKeyLen)))"

text \<open>fmt.Sscanf: a literal of the format, then a number after optional blanks, at its width.\<close>

definition scan_number :: "string \<Rightarrow> nat \<Rightarrow> string \<Rightarrow> (nat \<times> string) option" where
  "scan_number literal bound s =
     (case cut_prefix s literal of
        None \<Rightarrow> None
      | Some r \<Rightarrow>
          let r = dropWhile (\<lambda>c. is_space_byte c \<and> c \<noteq> CHR 0x0A) r; ds = takeWhile is_digit_byte r;
              n = nat (digits_value ds)
          in if ds = [] \<or> bound < n then None else Some (n, dropWhile is_digit_byte r))"

definition scan_version :: "string \<Rightarrow> bool" where
  "scan_version s =
     (scan_number ''v='' (2 ^ 63 - 1) s \<noteq> None \<or> scan_number ''v=+'' (2 ^ 63 - 1) s \<noteq> None \<or>
      scan_number ''v=-'' (2 ^ 63) s \<noteq> None)"

definition scan_params :: "string \<Rightarrow> (nat \<times> nat \<times> nat) option" where
  "scan_params s =
     (case scan_number ''m='' (2 ^ 32 - 1) s of
        None \<Rightarrow> None
      | Some (m, s) \<Rightarrow> (case scan_number '',t='' (2 ^ 32 - 1) s of
          None \<Rightarrow> None
        | Some (t, s) \<Rightarrow> (case scan_number '',p='' (2 ^ 8 - 1) s of
            None \<Rightarrow> None
          | Some (p, s) \<Rightarrow> Some (m, t, p))))"

definition VerifyPassword :: "password_lib \<Rightarrow> string \<Rightarrow> string \<Rightarrow> error + bool" where
  "VerifyPassword lib plain encoded =
     (case split_on (CHR ''$'') encoded of
        [_, kind, version, params, salt, key] \<Rightarrow>
          if kind \<noteq> ''argon2id'' \<or> \<not> scan_version version then Inl ErrInvalidHashFormat
          else (case scan_params params of
            None \<Rightarrow> Inl ErrInvalidHashFormat
          | Some (memory, iterations, threads) \<Rightarrow> (case pl_decode lib salt of
              None \<Rightarrow> Inl ErrInvalidHashFormat
            | Some salt \<Rightarrow> (case pl_decode lib key of
                None \<Rightarrow> Inl ErrInvalidHashFormat
              | Some want \<Rightarrow>
                  Inr (pl_IDKey lib plain salt iterations memory threads (length want) = want))))
      | _ \<Rightarrow> Inl ErrInvalidHashFormat)"

definition MinPasswordLength :: nat where
  "MinPasswordLength = 10"

definition ValidatePassword :: "password_lib \<Rightarrow> string \<Rightarrow> string option" where
  "ValidatePassword lib p =
     (if rune_count p < MinPasswordLength
      then Some (''password must be at least '' @ decimal MinPasswordLength @ '' characters'')
      else if \<not> list_ex (pl_letter lib) (runes p) \<or>
              \<not> list_ex (\<lambda>r. \<not> pl_letter lib r \<and> pl_number lib r) (runes p)
      then Some ''password must contain at least one letter and one number''
      else None)"

section \<open>Tokens\<close>

record claims =
  cl_UserID :: uuid
  cl_Role :: string
  cl_Pending :: bool
  cl_IssuedAt :: time
  cl_ExpiresAt :: time
  cl_Issuer :: string

text \<open>A NumericDate is a whole second.\<close>

definition numeric_date :: "time \<Rightarrow> time" where
  "numeric_date t = t div second * second"

text \<open>
  The token library: signing, and what decoding a text finds (the named algorithm, whether the
  signature is right for the secret, and the claims).
\<close>

record jwt =
  jwt_alg :: string
  jwt_signed :: bool
  jwt_claims :: claims

record token_issuer =
  ti_sign :: "claims \<Rightarrow> string + string"
  ti_decode :: "string \<Rightarrow> jwt option"
  ti_accessTTL :: duration
  ti_refreshTTL :: duration
  ti_base64url :: "string \<Rightarrow> string"
  ti_sha256_hex :: "string \<Rightarrow> string"

definition access_claims :: "token_issuer \<Rightarrow> time \<Rightarrow> uuid \<Rightarrow> string \<Rightarrow> bool \<Rightarrow> claims" where
  "access_claims ti now u r pending =
     \<lparr>cl_UserID = u, cl_Role = r, cl_Pending = pending, cl_IssuedAt = numeric_date now,
      cl_ExpiresAt = numeric_date (now + ti_accessTTL ti), cl_Issuer = ''holibrary''\<rparr>"

definition IssueAccessToken :: "token_issuer \<Rightarrow> time \<Rightarrow> uuid \<Rightarrow> string \<Rightarrow> bool \<Rightarrow> error + string" where
  "IssueAccessToken ti now u r pending =
     (case ti_sign ti (access_claims ti now u r pending) of
        Inl e \<Rightarrow> Inl (ErrText (''signing access token: '' @ e)) | Inr s \<Rightarrow> Inr s)"

definition ParseAccessToken :: "token_issuer \<Rightarrow> time \<Rightarrow> string \<Rightarrow> claims option" where
  "ParseAccessToken ti now raw =
     (case ti_decode ti raw of
        None \<Rightarrow> None
      | Some j \<Rightarrow> if jwt_alg j = ''HS256'' \<and> jwt_signed j \<and> now < cl_ExpiresAt (jwt_claims j)
                  then Some (jwt_claims j) else None)"

definition HashToken :: "token_issuer \<Rightarrow> string \<Rightarrow> string" where
  "HashToken ti token = ti_sha256_hex ti token"

definition NewOpaqueToken :: "token_issuer \<Rightarrow> string option \<Rightarrow> error + string \<times> string" where
  "NewOpaqueToken ti random =
     (case random of
        None \<Rightarrow> Inl (ErrText ''generating token'')
      | Some raw \<Rightarrow> let token = ti_base64url ti raw in Inr (token, HashToken ti token))"

section \<open>The service\<close>

record 'l auth_service =
  as_limiter :: "(string \<Rightarrow> int \<Rightarrow> duration \<Rightarrow> time \<Rightarrow> 'l \<Rightarrow> (string + bool) \<times> 'l) option"
  as_issuer :: token_issuer
  as_passwords :: password_lib
  as_uuid :: "uuid \<Rightarrow> string"

record 'l auth_world =
  aw_db :: db
  aw_limiter :: 'l
  aw_fallback :: memory

text \<open>What one call meets: the time, the faults of its statements, the random draws and a new row id.\<close>

record call =
  at_now :: time
  at_plan :: "nat \<Rightarrow> faults"
  at_random :: "nat \<Rightarrow> string option"
  at_id :: uuid

definition allow ::
  "'l auth_service \<Rightarrow> time \<Rightarrow> string \<Rightarrow> string \<Rightarrow> policy \<Rightarrow> 'l auth_world \<Rightarrow> bool \<times> 'l auth_world" where
  "allow s now scope identity p w =
     (case as_limiter s of
        None \<Rightarrow> (True, w)
      | Some limit \<Rightarrow>
          let key = ''rl:'' @ scope @ '':'' @ to_lower (trim_space identity) in
          case limit key (pol_Limit p) (pol_Window p) now (aw_limiter w) of
            (Inr ok, l) \<Rightarrow> (ok, w\<lparr>aw_limiter := l\<rparr>)
          | (Inl e, l) \<Rightarrow>
              (case Memory_Allow key (pol_Limit p) (pol_Window p) now (aw_fallback w) of
                 (ok, m) \<Rightarrow> (ok, w\<lparr>aw_limiter := l, aw_fallback := m\<rparr>)))"

record session =
  se_AccessToken :: string
  se_RefreshToken :: string
  se_ExpiresIn :: int
  se_MustChangePassword :: bool
  se_User :: user

text \<open>A statement of a store within the world.\<close>

definition on_store :: "(db \<Rightarrow> 'r \<times> db) \<Rightarrow> 'l auth_world \<Rightarrow> 'r \<times> 'l auth_world" where
  "on_store f w = (case f (aw_db w) of (r, d) \<Rightarrow> (r, w\<lparr>aw_db := d\<rparr>))"

definition issueSession ::
  "'l auth_service \<Rightarrow> call \<Rightarrow> nat \<Rightarrow> user \<Rightarrow> 'l auth_world \<Rightarrow> (error + session) \<times> 'l auth_world" where
  "issueSession s c k user w =
     (case IssueAccessToken (as_issuer s) (at_now c) (user_id user) (role_string (user_role user))
             (user_must_change_password user) of
        Inl e \<Rightarrow> (Inl e, w)
      | Inr access \<Rightarrow> (case NewOpaqueToken (as_issuer s) (at_random c k) of
          Inl e \<Rightarrow> (Inl e, w)
        | Inr (refresh, refreshHash) \<Rightarrow>
            (case on_store (SaveRefreshToken (at_plan c k) (at_now c) (user_id user) refreshHash
                    (at_now c + ti_refreshTTL (as_issuer s))) w of
               (Inl e, w) \<Rightarrow> (Inl e, w)
             | (Inr _, w) \<Rightarrow>
                 (Inr \<lparr>se_AccessToken = access, se_RefreshToken = refresh,
                       se_ExpiresIn = ti_accessTTL (as_issuer s) div second,
                       se_MustChangePassword = user_must_change_password user, se_User = user\<rparr>, w))))"

definition Login ::
  "'l auth_service \<Rightarrow> call \<Rightarrow> string \<Rightarrow> string \<Rightarrow> 'l auth_world \<Rightarrow> (error + session) \<times> 'l auth_world" where
  "Login s c login password w =
     (case FindByLogin (at_plan c 0) login (aw_db w) of
        Inl e \<Rightarrow> (Inl (if errors_is e ErrNotFound then ErrInvalidCredentials else e), w)
      | Inr (user, hash) \<Rightarrow>
          (case allow s (at_now c) ''login:uid'' (as_uuid s (user_id user)) PerAccountLogin w of
             (ok, w) \<Rightarrow>
               if \<not> ok then (Inl ErrRateLimited, w)
               else if VerifyPassword (as_passwords s) password hash \<noteq> Inr True
               then (Inl ErrInvalidCredentials, w)
               else if user_status user \<noteq> UserActive then (Inl ErrMemberNotActive, w)
               else issueSession s c 1 user w))"

definition Refresh ::
  "'l auth_service \<Rightarrow> call \<Rightarrow> string \<Rightarrow> 'l auth_world \<Rightarrow> (error + session) \<times> 'l auth_world" where
  "Refresh s c refreshToken w =
     (case on_store (ConsumeRefreshToken (at_plan c 0) (at_now c) (HashToken (as_issuer s) refreshToken)) w of
        (Inl e, w) \<Rightarrow> (Inl ErrTokenInvalid, w)
      | (Inr userID, w) \<Rightarrow>
          (case FindByID (at_plan c 1) userID (aw_db w) of
             Inl e \<Rightarrow> (Inl ErrTokenInvalid, w)
           | Inr user \<Rightarrow>
               if user_status user \<noteq> UserActive then (Inl ErrMemberNotActive, w)
               else issueSession s c 2 user w))"

definition Logout :: "'l auth_service \<Rightarrow> call \<Rightarrow> string \<Rightarrow> 'l auth_world \<Rightarrow> (error + unit) \<times> 'l auth_world" where
  "Logout s c refreshToken =
     on_store (RevokeRefreshToken (at_plan c 0) (at_now c) (HashToken (as_issuer s) refreshToken))"

text \<open>The new hash, then the revocation of the stored tokens: two statements of their own.\<close>

definition set_password ::
  "'l auth_service \<Rightarrow> call \<Rightarrow> nat \<Rightarrow> uuid \<Rightarrow> string \<Rightarrow> 'l auth_world \<Rightarrow> (error + unit) \<times> 'l auth_world" where
  "set_password s c k userID next w =
     (case HashPassword (as_passwords s) (at_random c k) next of
        Inl e \<Rightarrow> (Inl e, w)
      | Inr newHash \<Rightarrow>
          (case on_store (UpdatePassword (at_plan c k) (at_now c) userID newHash) w of
             (Inl e, w) \<Rightarrow> (Inl e, w)
           | (Inr _, w) \<Rightarrow> on_store (RevokeAllRefreshTokens (at_plan c (Suc k)) (at_now c) userID) w))"

definition ChangePassword ::
  "'l auth_service \<Rightarrow> call \<Rightarrow> uuid \<Rightarrow> string \<Rightarrow> string \<Rightarrow> 'l auth_world \<Rightarrow> (error + unit) \<times> 'l auth_world" where
  "ChangePassword s c userID current next w =
     (case PasswordHash (at_plan c 0) userID (aw_db w) of
        Inl e \<Rightarrow> (Inl e, w)
      | Inr hash \<Rightarrow>
          if VerifyPassword (as_passwords s) current hash \<noteq> Inr True then (Inl ErrInvalidCredentials, w)
          else (case ValidatePassword (as_passwords s) next of
            Some why \<Rightarrow> (Inl (ErrWrap why ErrPasswordTooWeak), w)
          | None \<Rightarrow> set_password s c 1 userID next w))"

definition PasswordResetTTL :: duration where
  "PasswordResetTTL = 30 * minute"

definition RequestPasswordReset ::
  "'l auth_service \<Rightarrow> call \<Rightarrow> string \<Rightarrow> 'l auth_world \<Rightarrow> (error + unit) \<times> 'l auth_world" where
  "RequestPasswordReset s c email w =
     (case allow s (at_now c) ''reset'' email PerAccountReset w of
        (ok, w) \<Rightarrow>
          if \<not> ok then (Inr (), w)
          else (case FindByEmail (at_plan c 0) email (aw_db w) of
            Inl e \<Rightarrow> (if errors_is e ErrNotFound then Inr () else Inl e, w)
          | Inr user \<Rightarrow> (case NewOpaqueToken (as_issuer s) (at_random c 0) of
              Inl e \<Rightarrow> (Inl e, w)
            | Inr (token, hash) \<Rightarrow>
                (case on_store (SavePasswordReset (at_plan c 1) (user_id user) hash
                        (at_now c + PasswordResetTTL)) w of
                   (Inl e, w) \<Rightarrow> (Inl e, w)
                 | (Inr _, w) \<Rightarrow>
                     on_store (Queue (at_plan c 2) (at_now c) (at_id c) (user_id user) ''email''
                       ''password_reset''
                       [(''full_name'', JStr (user_full_name user)), (''token'', JStr token)]) w))))"

definition ResetPassword ::
  "'l auth_service \<Rightarrow> call \<Rightarrow> string \<Rightarrow> string \<Rightarrow> 'l auth_world \<Rightarrow> (error + unit) \<times> 'l auth_world" where
  "ResetPassword s c token next w =
     (case ValidatePassword (as_passwords s) next of
        Some why \<Rightarrow> (Inl (ErrWrap why ErrPasswordTooWeak), w)
      | None \<Rightarrow>
          (case on_store (ConsumePasswordReset (at_plan c 0) (at_now c) (HashToken (as_issuer s) token)) w of
             (Inl e, w) \<Rightarrow> (Inl ErrTokenInvalid, w)
           | (Inr userID, w) \<Rightarrow>
               (case FindByID (at_plan c 1) userID (aw_db w) of
                  Inl e \<Rightarrow> (Inl e, w)
                | Inr user \<Rightarrow>
                    if user_status user \<noteq> UserActive then (Inl ErrMemberNotActive, w)
                    else set_password s c 2 userID next w)))"

section \<open>Facts about the pieces\<close>

lemma digit_chars:
  "digit_char 1 = CHR ''1''" "digit_char (Suc 0) = CHR ''1''" "digit_char 3 = CHR ''3''"
  "digit_char 4 = CHR ''4''" "digit_char 5 = CHR ''5''" "digit_char 6 = CHR ''6''" "digit_char 9 = CHR ''9''"
  by code_simp+

lemma allow_db: "aw_db (snd (allow s now scope i p w)) = aw_db w"
  by (auto simp: allow_def Let_def split: option.splits sum.splits prod.splits)

lemma issueSession_Inr:
  assumes "issueSession s c k u w = (Inr se, w')"
  obtains token hash where "NewOpaqueToken (as_issuer s) (at_random c k) = Inr (token, hash)"
    and "ti_sign (as_issuer s) (access_claims (as_issuer s) (at_now c) (user_id u) (role_string (user_role u))
           (user_must_change_password u)) = Inr (se_AccessToken se)"
    and "se_RefreshToken se = token" and "hash = HashToken (as_issuer s) token" and "se_User se = u"
    and "se_MustChangePassword se = user_must_change_password u"
    and "aw_db w' = aw_db w\<lparr>refresh_tokens := refresh_tokens (aw_db w) @
      [\<lparr>rt_user = user_id u, rt_hash = hash, rt_expires_at = at_now c + ti_refreshTTL (as_issuer s),
        rt_revoked_at = None, rt_created_at = at_now c\<rparr>]\<rparr>"
    and "aw_limiter w' = aw_limiter w" and "aw_fallback w' = aw_fallback w"
  using assms
  by (auto simp: issueSession_def IssueAccessToken_def on_store_def SaveRefreshToken_def transact_def
      NewOpaqueToken_def Let_def split: sum.splits prod.splits option.splits if_splits)

lemma FindByLogin_Inr:
  assumes "FindByLogin fl login d = Inr (user, hash)"
  obtains u where "u \<in> set (users d)" and "login_matches (trim_space login) u" and "user = scanUser u"
    and "hash = password_hash u"
  using assms by (auto simp: FindByLogin_def split: option.splits dest: find_SomeD)

lemma scanUser_sel [simp]:
  "user_id (scanUser u) = user_id u" "user_status (scanUser u) = user_status u"
  "user_role (scanUser u) = user_role u" "user_full_name (scanUser u) = user_full_name u"
  "user_must_change_password (scanUser u) = user_must_change_password u"
  by (simp_all add: scanUser_def)

lemma set_password_Inr:
  assumes "set_password s c k i next w = (Inr x, w')"
  obtains hash d where "HashPassword (as_passwords s) (at_random c k) next = Inr hash"
    and "UpdatePassword (at_plan c k) (at_now c) i hash (aw_db w) = (Inr (), d)"
    and "RevokeAllRefreshTokens (at_plan c (Suc k)) (at_now c) i d = (Inr (), aw_db w')"
  using assms
  by (auto simp: set_password_def on_store_def split: sum.splits prod.splits)

lemma RevokeAll_Inr:
  "RevokeAllRefreshTokens fl now u d = (Inr x, d') \<Longrightarrow> d' = d\<lparr>refresh_tokens :=
     update_where (\<lambda>t. rt_user t = u \<and> rt_revoked_at t = None) (\<lambda>t. t\<lparr>rt_revoked_at := Some now\<rparr>) (refresh_tokens d)\<rparr>"
  by (auto simp: RevokeAllRefreshTokens_def transact_def split: sum.splits)

lemma ConsumeReset_Inr:
  assumes "ConsumePasswordReset fl now hash d = (Inr u, d')"
  obtains t where "t \<in> set (password_resets d)" and "pr_hash t = hash" and "pr_used_at t = None"
    and "now < pr_expires_at t" and "pr_user t = u"
    and "d' = d\<lparr>password_resets := update_where (\<lambda>t. pr_hash t = hash \<and> pr_used_at t = None \<and> now < pr_expires_at t)
      (\<lambda>t. t\<lparr>pr_used_at := Some now\<rparr>) (password_resets d)\<rparr>"
proof -
  let ?P = "\<lambda>t. pr_hash t = hash \<and> pr_used_at t = None \<and> now < pr_expires_at t"
  show thesis
  proof (cases "find ?P (password_resets d)")
    case None
    with assms show ?thesis
      by (auto simp: ConsumePasswordReset_def transact_def exec_def Let_def split: option.splits sum.splits)
  next
    case (Some t)
    with assms have "pr_user t = u"
      "d' = d\<lparr>password_resets := update_where ?P (\<lambda>t. t\<lparr>pr_used_at := Some now\<rparr>) (password_resets d)\<rparr>"
      by (auto simp: ConsumePasswordReset_def transact_def exec_def Let_def split: option.splits sum.splits)
    with find_SomeD [OF Some] that show ?thesis by blast
  qed
qed

lemma scan_parameters:
  "scan_version ''v=19''" "scan_params ''m=65536,t=1,p=4'' = Some (argonMemory, argonTime, argonThreads)"
  by (simp_all add: scan_version_def scan_params_def scan_number_def cut_prefix_def has_prefix_def
      is_space_byte_def is_digit_byte_def digits_value_def digit_value_def argonMemory_def argonTime_def
      argonThreads_def)

lemma revoked_all:
  "r \<in> set (update_where (\<lambda>t. rt_user t = u \<and> rt_revoked_at t = None) (\<lambda>t. t\<lparr>rt_revoked_at := Some now\<rparr>) ts) \<Longrightarrow>
   rt_user r = u \<longrightarrow> rt_revoked_at r \<noteq> None"
proof -
  let ?P = "\<lambda>t. rt_user t = u \<and> rt_revoked_at t = None" and ?f = "\<lambda>t. t\<lparr>rt_revoked_at := Some now\<rparr>"
  assume "r \<in> set (update_where ?P ?f ts)"
  then obtain t where r: "r = (if ?P t then ?f t else t)" unfolding set_update_where by (rule imageE)
  show ?thesis
  proof (cases "?P t")
    case True
    with r have "r = ?f t" by simp
    then show ?thesis by simp
  next
    case False
    with r have "r = t" by simp
    with False show ?thesis by simp
  qed
qed

text \<open>Verifying against a text of the shape HashPassword writes.\<close>

lemma verify_encoded:
  assumes "encoded = ''$argon2id$v=19$m=65536,t=1,p=4$'' @ pl_encode lib salt @ CHR ''$'' # pl_encode lib key"
    and "pl_decode lib (pl_encode lib salt) = Some salt" and "CHR ''$'' \<notin> set (pl_encode lib salt)"
    and "pl_decode lib (pl_encode lib key) = Some key" and "CHR ''$'' \<notin> set (pl_encode lib key)"
    and "length key = argonKeyLen"
  shows "VerifyPassword lib other encoded =
    Inr (pl_IDKey lib other salt argonTime argonMemory argonThreads argonKeyLen = key)"
proof -
  have split: "split_on c (s @ c # t) = s # split_on c t" "split_on c s = [s]" if "c \<notin> set s" for c s t
    using that by (induction s) auto
  have parts: "split_on (CHR ''$'') encoded =
      [[], ''argon2id'', ''v=19'', ''m=65536,t=1,p=4'', pl_encode lib salt, pl_encode lib key]"
    unfolding assms(1) using assms(3,5) by (simp add: split)
  show ?thesis using assms(2,4,6) scan_parameters by (simp add: VerifyPassword_def parts)
qed

section \<open>Properties\<close>

text \<open>C26: a hash that was stored is read back. Verifying any password against the hash made of a password
  parses it to the same salt and parameters, never reports it as malformed, accepts the password itself,
  and accepts another only if Argon2 gives both the same key.\<close>

theorem password_roundtrip:
  assumes "HashPassword lib (Some salt) plain = Inr encoded"
    and "pl_decode lib (pl_encode lib salt) = Some salt" and "CHR ''$'' \<notin> set (pl_encode lib salt)"
    and "key = pl_IDKey lib plain salt argonTime argonMemory argonThreads argonKeyLen"
    and "pl_decode lib (pl_encode lib key) = Some key" and "CHR ''$'' \<notin> set (pl_encode lib key)"
    and "length key = argonKeyLen"
  shows "VerifyPassword lib other encoded =
    Inr (pl_IDKey lib other salt argonTime argonMemory argonThreads argonKeyLen = key) \<and>
    VerifyPassword lib plain encoded = Inr True"
proof -
  have dec: "decimal argonVersion = ''19''" "decimal argonMemory = ''65536''" "decimal argonTime = ''1''"
    "decimal argonThreads = ''4''"
    by (simp_all add: argonVersion_def argonMemory_def argonTime_def argonThreads_def decimal.simps digit_chars)
  have "encoded = ''$argon2id$v=19$m=65536,t=1,p=4$'' @ pl_encode lib salt @ CHR ''$'' # pl_encode lib key"
    using assms(1,4) by (simp add: HashPassword_def dec)
  from verify_encoded [OF this assms(2,3,5-7)] assms(4) show ?thesis by simp
qed

text \<open>C27: who gets a session, and what it is. A login succeeds only for a stored, active account that the
  login names and whose hash the password verifies against; the access token is the signature of that
  account's id, role and pending flag, so a holder of a temporary password gets a session that carries
  the duty to change it; and the only change to the database is one refresh token of that account, kept
  as its hash.\<close>

theorem login_is_sound:
  assumes "Login s c login password w = (Inr se, w')"
  shows "\<exists>u \<in> set (users (aw_db w)). login_matches (trim_space login) u \<and> user_status u = UserActive \<and>
    VerifyPassword (as_passwords s) password (password_hash u) = Inr True \<and>
    ti_sign (as_issuer s) (access_claims (as_issuer s) (at_now c) (user_id u) (role_string (user_role u))
      (user_must_change_password u)) = Inr (se_AccessToken se) \<and>
    se_MustChangePassword se = user_must_change_password u \<and>
    aw_db w' = aw_db w\<lparr>refresh_tokens := refresh_tokens (aw_db w) @
      [\<lparr>rt_user = user_id u, rt_hash = HashToken (as_issuer s) (se_RefreshToken se),
        rt_expires_at = at_now c + ti_refreshTTL (as_issuer s), rt_revoked_at = None,
        rt_created_at = at_now c\<rparr>]\<rparr>"
proof -
  obtain user hash where f: "FindByLogin (at_plan c 0) login (aw_db w) = Inr (user, hash)"
    using assms by (auto simp: Login_def split: sum.splits)
  then obtain u where u: "u \<in> set (users (aw_db w))" "login_matches (trim_space login) u" "user = scanUser u"
    "hash = password_hash u" by (rule FindByLogin_Inr)
  obtain ok v where a: "allow s (at_now c) ''login:uid'' (as_uuid s (user_id user)) PerAccountLogin w = (ok, v)"
    by (rule prod.exhaust)
  then have v: "aw_db v = aw_db w" using allow_db by (metis snd_conv)
  from assms f a have "VerifyPassword (as_passwords s) password hash = Inr True" "user_status user = UserActive"
    "issueSession s c 1 user v = (Inr se, w')"
    by (auto simp: Login_def split: if_splits)
  with u v show ?thesis by (elim issueSession_Inr) (rule bexI [of _ u]; simp)
qed

text \<open>After a reset nothing of the old credentials is left. A reset succeeds only for a token that was
  stored, unused and unexpired and for an active account; then the stored hash is one of the new
  password, every access token issued earlier fails the session check, every refresh token of the
  account is spent, and the reset token cannot be used again.\<close>

theorem reset_ends_sessions:
  assumes "ResetPassword s c token next w = (Inr x, w')" and "issued < at_now c" and "at_now c \<le> later"
  shows "\<exists>t u hash. t \<in> set (password_resets (aw_db w)) \<and> pr_hash t = HashToken (as_issuer s) token \<and>
      pr_used_at t = None \<and> at_now c < pr_expires_at t \<and> user_id u = pr_user t \<and>
      u \<in> set (users (aw_db w)) \<and> user_status u = UserActive \<and>
      HashPassword (as_passwords s) (at_random c 2) next = Inr hash \<and>
      PasswordHash no_faults (pr_user t) (aw_db w') = Inr hash \<and>
      SessionValid no_faults (pr_user t) issued tokenRole (aw_db w') = Inr False \<and>
      (\<forall>r \<in> set (refresh_tokens (aw_db w')). rt_user r = pr_user t \<longrightarrow> rt_revoked_at r \<noteq> None) \<and>
      fst (ConsumePasswordReset no_faults later (HashToken (as_issuer s) token) (aw_db w')) = Inl ErrTokenInvalid"
proof -
  let ?h = "HashToken (as_issuer s) token"
  from assms(1) have valid: "ValidatePassword (as_passwords s) next = None"
    by (auto simp: ResetPassword_def split: option.splits)
  obtain i d where con: "ConsumePasswordReset (at_plan c 0) (at_now c) ?h (aw_db w) = (Inr i, d)"
    using assms(1) valid by (auto simp: ResetPassword_def on_store_def split: sum.splits prod.splits)
  then obtain t where t: "t \<in> set (password_resets (aw_db w))" "pr_hash t = ?h" "pr_used_at t = None"
      "at_now c < pr_expires_at t" "pr_user t = i"
    and d: "d = aw_db w\<lparr>password_resets := update_where (\<lambda>t. pr_hash t = ?h \<and> pr_used_at t = None \<and> at_now c < pr_expires_at t)
      (\<lambda>t. t\<lparr>pr_used_at := Some (at_now c)\<rparr>) (password_resets (aw_db w))\<rparr>"
    by (rule ConsumeReset_Inr)
  obtain user where f: "FindByID (at_plan c 1) i d = Inr user" and act: "user_status user = UserActive"
    and set: "set_password s c 2 i next (w\<lparr>aw_db := d\<rparr>) = (Inr x, w')"
    using assms(1) valid con by (auto simp: ResetPassword_def on_store_def split: sum.splits if_splits)
  from f obtain u where u: "find_user_row i d = Some u" "user = scanUser u"
    by (auto simp: FindByID_def split: option.splits)
  from set obtain hash d2 where h: "HashPassword (as_passwords s) (at_random c 2) next = Inr hash"
    and up: "UpdatePassword (at_plan c 2) (at_now c) i hash d = (Inr (), d2)"
    and rev: "RevokeAllRefreshTokens (at_plan c 3) (at_now c) i d2 = (Inr (), aw_db w')"
    by (elim set_password_Inr) simp
  from up have d2: "d2 = update_user i (\<lambda>u. u\<lparr>password_hash := hash, user_must_change_password := False,
      tokens_invalid_before := at_now c, password_changed_at := Some (at_now c), user_updated_at := at_now c\<rparr>) d"
    by (elim UpdatePassword_Inr) simp
  from RevokeAll_Inr [OF rev] have w': "aw_db w' = d2\<lparr>refresh_tokens := update_where
      (\<lambda>t. rt_user t = i \<and> rt_revoked_at t = None) (\<lambda>t. t\<lparr>rt_revoked_at := Some (at_now c)\<rparr>) (refresh_tokens d2)\<rparr>" .
  have row: "find_user_row i (aw_db w') = Some (u\<lparr>password_hash := hash, user_must_change_password := False,
      tokens_invalid_before := at_now c, password_changed_at := Some (at_now c), user_updated_at := at_now c\<rparr>)"
    using find_update_user [of _ i i d] u(1) by (simp add: w' d2 find_user_row_def) (auto simp: find_user_row_def dest: find_SomeD)
  have res: "password_resets (aw_db w') = password_resets d" by (simp add: w' d2 update_user_def)
  have "find (\<lambda>t. pr_hash t = ?h \<and> pr_used_at t = None \<and> later < pr_expires_at t) (password_resets (aw_db w')) = None"
    using assms(3) by (auto simp: find_None res d set_update_where split: if_splits)
  then have spent: "fst (ConsumePasswordReset no_faults later ?h (aw_db w')) = Inl ErrTokenInvalid"
    by (simp add: ConsumePasswordReset_def transact_def Let_def)
  have revoked: "\<forall>r \<in> set (refresh_tokens (aw_db w')). rt_user r = i \<longrightarrow> rt_revoked_at r \<noteq> None"
    unfolding w' by (simp del: not_None_eq) (intro ballI, rule revoked_all)
  have "u \<in> set (users (aw_db w))" "user_id u = i" using u(1) by (auto simp: d find_user_row_def dest: find_SomeD)
  moreover have "PasswordHash no_faults i (aw_db w') = Inr hash"
    "SessionValid no_faults i issued tokenRole (aw_db w') = Inr False"
    using row assms(2) by (simp_all add: PasswordHash_def SessionValid_def)
  moreover have "user_status u = UserActive" using act u(2) by simp
  ultimately show ?thesis using t(1-4) h spent revoked unfolding t(5) [symmetric]
    by (intro exI [of _ t] exI [of _ u] exI [of _ hash] conjI)
qed

text \<open>A login names no account. For a login that matches no account and for a wrong password the answer
  is the same error; but only an existing account is counted, so once its attempts are used up it
  answers differently while an unknown login goes on as before, at any rate of asking: the separate
  reply tells the two apart.\<close>

theorem locked_account_is_told_apart:
  assumes "as_limiter s = Some (\<lambda>k n wd now l. case Memory_Allow k n wd now l of (ok, l) \<Rightarrow> (Inr ok, l))"
    and "find (login_matches (trim_space unknown)) (users (aw_db w)) = None"
    and "find (login_matches (trim_space known)) (users (aw_db w)) = Some u"
    and "VerifyPassword (as_passwords s) wrong (password_hash u) \<noteq> Inr True"
    and "at_plan c = (\<lambda>_. no_faults)"
  shows "Login s c unknown wrong w = (Inl ErrInvalidCredentials, w) \<and>
    fst (Login s c known wrong w) =
      (if memory_used (''rl:login:uid:'' @ to_lower (trim_space (as_uuid s (user_id u)))) (at_now c) (aw_limiter w) < 5
       then Inl ErrInvalidCredentials else Inl ErrRateLimited)"
proof -
  let ?key = "''rl:login:uid:'' @ to_lower (trim_space (as_uuid s (user_id u)))"
  have "fst (allow s (at_now c) ''login:uid'' (as_uuid s (user_id u)) PerAccountLogin w) \<longleftrightarrow>
      memory_used ?key (at_now c) (aw_limiter w) < 5"
    using mem.allow_iff [of ?key "pol_Limit PerAccountLogin" "pol_Window PerAccountLogin" "at_now c" "aw_limiter w"]
    by (auto simp: allow_def assms(1) Let_def PerAccountLogin_def split: prod.splits)
  then show ?thesis using assms(2-5)
    by (auto simp: Login_def FindByLogin_def split: prod.splits)
qed

section \<open>Witnesses\<close>

definition sample_lib :: password_lib where
  "sample_lib = \<lparr>pl_IDKey = (\<lambda>p s t m th n. take n (p @ replicate n (CHR ''x''))), pl_encode = (\<lambda>s. s), pl_decode = Some,
     pl_letter = (\<lambda>r. (97 \<le> r \<and> r < 123)), pl_number = (\<lambda>r. 48 \<le> r \<and> r < 58)\<rparr>"

definition sample_key :: "string \<Rightarrow> string" where
  "sample_key p = take 32 (p @ replicate 32 (CHR ''x''))"

definition sample_hash :: string where
  "sample_hash = ''$argon2id$v=19$m=65536,t=1,p=4$'' @ ''salt'' @ CHR ''$'' # sample_key ''open sesame 1''"

lemma sample_verify: "VerifyPassword sample_lib other sample_hash = Inr (sample_key other = sample_key ''open sesame 1'')"
proof -
  let ?key = "sample_key ''open sesame 1''"
  have k: "length ?key = argonKeyLen" "CHR ''$'' \<notin> set ?key" by (simp_all add: sample_key_def argonKeyLen_def numeral_eq_Suc)
  have "sample_hash = ''$argon2id$v=19$m=65536,t=1,p=4$'' @ pl_encode sample_lib ''salt'' @
      CHR ''$'' # pl_encode sample_lib ?key"
    by (simp only: sample_hash_def sample_lib_def password_lib.simps)
  from verify_encoded [OF this, of other] k show ?thesis
    by (simp add: sample_lib_def argonKeyLen_def sample_key_def del: append.simps)
qed

definition sample_issuer :: token_issuer where
  "sample_issuer = \<lparr>ti_sign = (\<lambda>c. Inr ''jwt''), ti_decode = (\<lambda>s. None), ti_accessTTL = 15 * minute,
     ti_refreshTTL = 30 * day, ti_base64url = (\<lambda>s. s), ti_sha256_hex = (\<lambda>s. ''sha '' @ s)\<rparr>"

definition sample_auth :: "memory auth_service" where
  "sample_auth = \<lparr>as_limiter = Some (\<lambda>k n wd now l. case Memory_Allow k n wd now l of (ok, l) \<Rightarrow> (Inr ok, l)),
     as_issuer = sample_issuer, as_passwords = sample_lib, as_uuid = decimal\<rparr>"

definition sample_call :: call where
  "sample_call = \<lparr>at_now = 9, at_plan = (\<lambda>_. no_faults), at_random = (\<lambda>_. Some ''salt''), at_id = 700\<rparr>"

definition sample_auth_world :: "memory auth_world" where
  "sample_auth_world =
     \<lparr>aw_db = (update_user 2 (\<lambda>u. u\<lparr>password_hash := sample_hash\<rparr>) sample_db)\<lparr>password_resets :=
        [\<lparr>pr_user = 2, pr_hash = ''sha reset'', pr_expires_at = 30 * minute, pr_used_at = None\<rparr>]\<rparr>,
      aw_limiter = (\<lambda>_. None), aw_fallback = (\<lambda>_. None)\<rparr>"

theorem password_roundtrip_witness:
  "\<exists>encoded. HashPassword sample_lib (Some ''salt'') ''open sesame 1'' = Inr encoded \<and>
     VerifyPassword sample_lib ''open sesame 1'' encoded = Inr True"
proof -
  obtain encoded where e: "HashPassword sample_lib (Some ''salt'') ''open sesame 1'' = Inr encoded"
    by (simp add: HashPassword_def)
  have k: "length (sample_key ''open sesame 1'') = argonKeyLen" "CHR ''$'' \<notin> set (sample_key ''open sesame 1'')"
    by (simp_all add: sample_key_def argonKeyLen_def numeral_eq_Suc)
  from password_roundtrip [OF e _ _ refl, of "''open sesame 1''"] k e show ?thesis
    by (simp add: sample_lib_def sample_key_def argonKeyLen_def del: append.simps)
qed

lemma sample_users_auth:
  "users (aw_db sample_auth_world) = [sample_user 1 ''LIB/1'' RoleLibrarian None,
     (sample_user 2 ''CSC/2020/001'' RoleMember (Some CategoryUndergraduate))\<lparr>password_hash := sample_hash\<rparr>,
     sample_user 3 ''CSC/2020/002'' RoleMember (Some CategoryPostgraduate), sample_user 4 ''ADM/1'' RoleAdmin None]"
  by (simp add: sample_auth_world_def update_user_def)

lemma sample_login:
  "find (login_matches (trim_space ''CSC/2020/001'')) (users (aw_db sample_auth_world)) =
     Some ((sample_user 2 ''CSC/2020/001'' RoleMember (Some CategoryUndergraduate))\<lparr>password_hash := sample_hash\<rparr>)"
  "find (login_matches (trim_space ''nobody'')) (users (aw_db sample_auth_world)) = None"
  unfolding sample_users_auth
  by (simp_all add: login_matches_def sample_user_def to_lower_def lower_byte_def is_upper_byte_def
      trim_space_def is_space_byte_def)

theorem login_is_sound_witness:
  "\<exists>se w'. Login sample_auth sample_call ''CSC/2020/001'' ''open sesame 1'' sample_auth_world = (Inr se, w') \<and>
     length (refresh_tokens (aw_db w')) = 1"
proof -
  obtain se w' where l: "Login sample_auth sample_call ''CSC/2020/001'' ''open sesame 1'' sample_auth_world = (Inr se, w')"
    using sample_login(1) sample_verify [of "''open sesame 1''"]
    by (simp add: Login_def FindByLogin_def sample_auth_def sample_call_def allow_def Memory_Allow_def Let_def
        issueSession_def IssueAccessToken_def NewOpaqueToken_def on_store_def SaveRefreshToken_def transact_def
        sample_issuer_def PerAccountLogin_def)
      (simp add: sample_auth_world_def update_user_def find_user_row_def scanUser_def Let_def
        issueSession_def IssueAccessToken_def NewOpaqueToken_def on_store_def SaveRefreshToken_def transact_def)
  from login_is_sound [OF l] have "length (refresh_tokens (aw_db w')) = 1"
    by (auto simp: sample_auth_world_def update_user_def)
  with l show ?thesis by blast
qed

theorem reset_ends_sessions_witness:
  "\<exists>w'. ResetPassword sample_auth sample_call ''reset'' ''new secret 22'' sample_auth_world = (Inr (), w') \<and>
     SessionValid no_faults 2 5 ''member'' (aw_db w') = Inr False"
proof -
  have valid: "ValidatePassword sample_lib ''new secret 22'' = None" by code_simp
  obtain w' where r: "ResetPassword sample_auth sample_call ''reset'' ''new secret 22'' sample_auth_world = (Inr (), w')"
    using valid
    by (simp add: ResetPassword_def sample_auth_def sample_call_def on_store_def ConsumePasswordReset_def
        transact_def Let_def HashToken_def sample_issuer_def FindByID_def set_password_def HashPassword_def
        UpdatePassword_def RevokeAllRefreshTokens_def)
      (simp add: sample_auth_world_def update_user_def find_user_row_def scanUser_def durations FindByID_def
        set_password_def HashPassword_def on_store_def UpdatePassword_def RevokeAllRefreshTokens_def transact_def)
  from reset_ends_sessions [OF r, of 5 10 "''member''"] obtain t where
    "t \<in> set (password_resets (aw_db sample_auth_world))" "SessionValid no_faults (pr_user t) 5 ''member'' (aw_db w') = Inr False"
    by (auto simp: sample_call_def)
  with r show ?thesis by (auto simp: sample_auth_world_def)
qed

theorem locked_account_is_told_apart_witness:
  "fst (Login sample_auth sample_call ''nobody'' ''guess'' sample_auth_world) = Inl ErrInvalidCredentials \<and>
   fst (Login sample_auth sample_call ''CSC/2020/001'' ''guess''
     (sample_auth_world\<lparr>aw_limiter := (\<lambda>_. Some \<lparr>win_count = 5, win_reset = minute\<rparr>)\<rparr>)) = Inl ErrRateLimited"
proof -
  have lim: "as_limiter sample_auth = Some (\<lambda>k n wd now l. case Memory_Allow k n wd now l of (ok, l) \<Rightarrow> (Inr ok, l))"
    by (simp add: sample_auth_def)
  have wrong: "VerifyPassword (as_passwords sample_auth) ''guess'' sample_hash \<noteq> Inr True"
    using sample_verify [of "''guess''"] by (simp add: sample_auth_def sample_key_def numeral_eq_Suc)
  let ?w = "\<lambda>l. sample_auth_world\<lparr>aw_limiter := l\<rparr>"
  have both: "Login sample_auth sample_call ''nobody'' ''guess'' (?w l) = (Inl ErrInvalidCredentials, ?w l) \<and>
     fst (Login sample_auth sample_call ''CSC/2020/001'' ''guess'' (?w l)) =
      (if memory_used (''rl:login:uid:'' @ to_lower (trim_space (as_uuid sample_auth 2))) 9 l < 5
       then Inl ErrInvalidCredentials else Inl ErrRateLimited)" for l
    using locked_account_is_told_apart [OF lim, of "''nobody''" "?w l" "''CSC/2020/001''" _ "''guess''" sample_call]
      sample_login wrong by (simp add: sample_call_def)
  have "sample_auth_world = ?w (aw_limiter sample_auth_world)" by simp
  with both [of "aw_limiter sample_auth_world"] both [of "\<lambda>_. Some \<lparr>win_count = 5, win_reset = minute\<rparr>"]
  show ?thesis by (simp add: memory_used_def durations)
qed

end
