(* ===== verification/Members.thy ===== *)
theory Members
  imports Auth
begin

text \<open>
  The registration desk (service/member_service.go): who may create whom, creating an account with
  its setup link, importing a roll from a spreadsheet with a dry run, inviting again, and changing
  status and role. The bytes of a spreadsheet are read by encoding/csv, whose records, with the line
  each begins on, are the input of the import.
\<close>

section \<open>Messages of errors\<close>

fun error_message :: "(pg_error \<Rightarrow> string) \<Rightarrow> error \<Rightarrow> string" where
  "error_message driver_text ErrInvalidCredentials = ''invalid credentials''"
| "error_message driver_text ErrUnauthenticated = ''authentication required''"
| "error_message driver_text ErrForbidden = ''not permitted''"
| "error_message driver_text ErrPasswordTooWeak = ''password does not meet the minimum policy''"
| "error_message driver_text ErrTokenInvalid = ''token is invalid or has expired''"
| "error_message driver_text ErrMustChangePassword = ''password change required before continuing''"
| "error_message driver_text ErrRateLimited = ''too many attempts''"
| "error_message driver_text ErrMemberSuspended = ''member account is suspended''"
| "error_message driver_text ErrNotFound = ''not found''"
| "error_message driver_text ErrConflict = ''conflicts with existing data''"
| "error_message driver_text ErrInvalidBookMetadata = ''invalid bibliographic metadata''"
| "error_message driver_text ErrInvalidSearch = ''invalid catalogue search parameters''"
| "error_message driver_text ErrSavedSearchLimit = ''saved search limit reached''"
| "error_message driver_text ErrDuplicateAccession = ''accession number already exists''"
| "error_message driver_text ErrDuplicateISBN = ''a book with this ISBN already exists''"
| "error_message driver_text ErrInvalidCallNumber = ''call number is not a valid LCC class mark''"
| "error_message driver_text ErrCopyNotFound = ''that copy was not found''"
| "error_message driver_text ErrCopyNotAvailable = ''that copy is not available''"
| "error_message driver_text ErrCopyNotBorrowable = ''that copy does not circulate''"
| "error_message driver_text ErrLoanLimitReached = ''borrowing limit reached for this member category''"
| "error_message driver_text ErrMemberNotActive = ''member account is not active''"
| "error_message driver_text ErrLoanAlreadyClosed = ''that loan has already been returned''"
| "error_message driver_text ErrLastCopyRetained = ''the last available copy is kept on the shelf''"
| "error_message driver_text ErrInvalidMemberCategory = ''category must be undergraduate, postgraduate or staff''"
| "error_message driver_text ErrNoCategory = ''member has no borrowing category''"
| "error_message driver_text ErrReservedForOther = ''that copy is reserved for another member''"
| "error_message driver_text ErrAlreadyReserved = ''you already have an open reservation for this title''"
| "error_message driver_text ErrNotReservable = ''that title cannot be reserved''"
| "error_message driver_text ErrCopiesAvailable = ''copies are available; reservation is unnecessary''"
| "error_message driver_text ErrInvalidTransition = ''that is not a valid change of status for this copy''"
| "error_message driver_text ErrCopyOnLoan = ''that copy is currently on loan''"
| "error_message driver_text (ErrDriver p) = driver_text p"
| "error_message driver_text (ErrText s) = s"
| "error_message driver_text (ErrWrap s inner) = s @ '': '' @ error_message driver_text inner"

section \<open>A new member\<close>

record new_member_params =
  nm_Identifier :: string
  nm_Email :: string
  nm_FullName :: string
  nm_FirstName :: string
  nm_LastName :: string
  nm_Faculty :: string
  nm_Department :: string
  nm_Level :: string
  nm_Category :: string
  nm_Role :: string
  nm_IsSynthetic :: bool
  nm_InvitationBatchID :: uuid

definition displayName :: "new_member_params \<Rightarrow> string" where
  "displayName p =
     (let full = trim_space (nm_FullName p) in
      if full \<noteq> [] then full
      else trim_space (trim_space (nm_FirstName p) @ '' '' @ trim_space (nm_LastName p)))"

definition RolesCreatableBy :: "role \<Rightarrow> role list" where
  "RolesCreatableBy actor =
     (case actor of RoleAdmin \<Rightarrow> [RoleMember, RoleLibrarian, RoleAdmin] | RoleLibrarian \<Rightarrow> [RoleMember] | _ \<Rightarrow> [])"

definition validateNewMember :: "new_member_params \<Rightarrow> error option" where
  "validateNewMember p =
     (if trim_space (nm_Identifier p) = [] then Some (ErrText ''matriculation or staff number is required'')
      else if \<not> contains (nm_Email p) ''@'' then Some (ErrText ''a valid email address is required'')
      else if displayName p = [] then Some (ErrText ''full name, or first and last name, is required'')
      else if (nm_Role p = [] \<or> nm_Role p = ''member'') \<and> TermsFor (nm_Category p) = None
      then Some (ErrText ''category must be undergraduate, postgraduate or staff'')
      else None)"

text \<open>What a desk operation meets, with the ids its inserts get.\<close>

record desk_call =
  dc_now :: time
  dc_plan :: "nat \<Rightarrow> faults"
  dc_random :: "nat \<Rightarrow> string option"
  dc_id :: "nat \<Rightarrow> uuid"

text \<open>The service, with the two collaborators that may be absent.\<close>

record member_service =
  ms_issuer :: token_issuer
  ms_passwords :: password_lib
  ms_tokens :: bool
  ms_notifier :: bool

definition AccountSetupTTL :: duration where
  "AccountSetupTTL = 7 * 24 * hour"

definition create_params :: "uuid \<Rightarrow> role \<Rightarrow> string \<Rightarrow> new_member_params \<Rightarrow> create_user_params" where
  "create_params actorID r hash p =
     \<lparr>cu_Identifier = trim_space (nm_Identifier p), cu_Email = to_lower (trim_space (nm_Email p)),
      cu_FullName = displayName p, cu_FirstName = trim_space (nm_FirstName p),
      cu_LastName = trim_space (nm_LastName p), cu_Faculty = trim_space (nm_Faculty p),
      cu_Department = trim_space (nm_Department p), cu_Level = trim_space (nm_Level p),
      cu_PasswordHash = hash, cu_Role = r,
      cu_Category = (if r = RoleMember then parse_category (nm_Category p) else None),
      cu_IsSynthetic = nm_IsSynthetic p, cu_CreatedBy = actorID\<rparr>"

definition setup_payload :: "user \<Rightarrow> string \<Rightarrow> uuid \<Rightarrow> payload" where
  "setup_payload user token batch =
     [(''full_name'', JStr (user_full_name user)), (''token'', JStr token)] @
     (if batch \<noteq> uuid_nil then [(''batch_id'', JUuid batch)] else [])"

text \<open>The link of an account: the stored token, then the tracked message that carries it.\<close>

definition send_setup ::
  "member_service \<Rightarrow> desk_call \<Rightarrow> nat \<Rightarrow> user \<Rightarrow> uuid \<Rightarrow> db \<Rightarrow> (error + unit) \<times> db" where
  "send_setup s c k user batch d =
     (case NewOpaqueToken (ms_issuer s) (dc_random c k) of
        Inl e \<Rightarrow> (Inl e, d)
      | Inr (token, hash) \<Rightarrow>
          (case (if ms_tokens s then SavePasswordReset (dc_plan c k) (user_id user) hash (dc_now c + AccountSetupTTL) d
                 else (Inr (), d)) of
             (Inl e, d) \<Rightarrow> (Inl e, d)
           | (Inr _, d) \<Rightarrow>
               if ms_notifier s
               then (case QueueTracked (dc_plan c (Suc k)) (dc_now c) (dc_id c k) (user_id user) ''email''
                         ''account_setup'' (setup_payload user token batch) d of
                       (Inl e, d) \<Rightarrow> (Inl e, d) | (Inr _, d) \<Rightarrow> (Inr (), d))
               else (Inr (), d)))"

definition CreateMember ::
  "member_service \<Rightarrow> desk_call \<Rightarrow> role \<Rightarrow> uuid \<Rightarrow> new_member_params \<Rightarrow> db \<Rightarrow> (error + user) \<times> db" where
  "CreateMember s c actor actorID p d =
     (case validateNewMember p of
        Some e \<Rightarrow> (Inl e, d)
      | None \<Rightarrow>
          (case find (\<lambda>r. role_string r = (if nm_Role p = [] then ''member'' else nm_Role p)) (RolesCreatableBy actor) of
             None \<Rightarrow> (Inl ErrForbidden, d)
           | Some r \<Rightarrow>
               (case NewOpaqueToken (ms_issuer s) (dc_random c 0) of
                  Inl e \<Rightarrow> (Inl e, d)
                | Inr (bootstrap, _) \<Rightarrow>
                    (case HashPassword (ms_passwords s) (dc_random c 1) bootstrap of
                       Inl e \<Rightarrow> (Inl e, d)
                     | Inr hash \<Rightarrow>
                         (case CreateUser (dc_plan c 0) (dc_now c) (dc_id c 0) (create_params actorID r hash p) d of
                            (Inl e, d) \<Rightarrow> (Inl e, d)
                          | (Inr user, d) \<Rightarrow>
                              (case send_setup s c 2 user (nm_InvitationBatchID p) d of
                                 (Inl e, d) \<Rightarrow> (Inl e, d) | (Inr _, d) \<Rightarrow> (Inr user, d)))))))"

definition ResendInvitation :: "member_service \<Rightarrow> desk_call \<Rightarrow> uuid \<Rightarrow> db \<Rightarrow> (error + unit) \<times> db" where
  "ResendInvitation s c i d =
     (case FindByID (dc_plan c 0) i d of
        Inl e \<Rightarrow> (Inl e, d)
      | Inr user \<Rightarrow>
          if \<not> ms_tokens s \<or> \<not> ms_notifier s
          then (Inl (ErrText ''invitation delivery is not configured''), d)
          else (case InvalidatePasswordResets (dc_plan c 1) (dc_now c) (user_id user) d of
            (Inl e, d) \<Rightarrow> (Inl e, d)
          | (Inr _, d) \<Rightarrow> (case InvalidateForMember (dc_plan c 2) (user_id user) d of
              (Inl e, d) \<Rightarrow> (Inl e, d)
            | (Inr _, d) \<Rightarrow> send_setup s c 3 user uuid_nil d)))"

definition ListMembers :: "desk_call \<Rightarrow> string \<Rightarrow> int \<Rightarrow> int \<Rightarrow> db \<Rightarrow> error + user list \<times> nat" where
  "ListMembers c search limit offset d = ListUsers (dc_plan c 0) search limit offset d"

definition GetMember :: "desk_call \<Rightarrow> uuid \<Rightarrow> db \<Rightarrow> error + user" where
  "GetMember c i d = FindByID (dc_plan c 0) i d"

definition SetStatus :: "desk_call \<Rightarrow> uuid \<Rightarrow> user_status \<Rightarrow> uuid \<Rightarrow> db \<Rightarrow> (error + unit) \<times> db" where
  "SetStatus c i status staffID = UpdateStatus (dc_plan c 0) (dc_now c) i status staffID"

definition SetRole :: "desk_call \<Rightarrow> uuid \<Rightarrow> string \<Rightarrow> string option \<Rightarrow> uuid \<Rightarrow> db \<Rightarrow> (error + unit) \<times> db" where
  "SetRole c i r category staffID d =
     (if (case category of None \<Rightarrow> False | Some x \<Rightarrow> TermsFor x = None) then (Inl ErrInvalidMemberCategory, d)
      else case parse_role r of
        Some r \<Rightarrow> UpdateRole (dc_plan c 0) (dc_now c) i r category staffID d
      | None \<Rightarrow> (Inl (ErrText ''role must be member, librarian or admin''), d))"

section \<open>Importing a roll\<close>

datatype csv_item = BadRow int string | Row int "string list"

datatype row_status = RowPending | RowValid | RowCreated | RowDuplicate | RowInvalid

record import_row =
  ir_Line :: int
  ir_Identifier :: string
  ir_Status :: row_status
  ir_Detail :: string
  ir_EmailQueued :: bool

record import_result =
  im_DryRun :: bool
  im_TotalRows :: nat
  im_Valid :: nat
  im_Created :: nat
  im_Duplicate :: nat
  im_Invalid :: nat
  im_Rows :: "import_row list"

definition csvAliases :: "(string \<times> string list) list" where
  "csvAliases =
     [(''identifier'', [''identifier'', ''student_id'', ''matric_no'', ''matric_number'']),
      (''email'', [''email'', ''e-mail'', ''email_address'']),
      (''first_name'', [''first_name'', ''firstname'', ''given_name'']),
      (''last_name'', [''last_name'', ''lastname'', ''surname'', ''family_name'']),
      (''full_name'', [''full_name'', ''fullname'', ''name'']),
      (''department'', [''department'', ''dept'']),
      (''faculty'', [''faculty'']),
      (''level'', [''level'', ''year'']),
      (''category'', [''category'', ''member_category''])]"

definition present :: "string list \<Rightarrow> string \<Rightarrow> nat option" where
  "present header = map_of (rev (zip (map (\<lambda>h. to_lower (trim_space h)) header) [0..<length header]))"

definition resolve_alias :: "string list \<Rightarrow> string list \<Rightarrow> nat option" where
  "resolve_alias header aliases =
     (case List.map_filter (present header) aliases of [] \<Rightarrow> None | i # _ \<Rightarrow> Some i)"

fun joined :: "string list \<Rightarrow> string" where
  "joined [] = []"
| "joined [s] = s"
| "joined (s # ss) = s @ '','' @ joined ss"

definition columnIndex :: "string list \<Rightarrow> error + (string \<times> nat) list" where
  "columnIndex header =
     (let index = List.map_filter (\<lambda>(f, as). map_option (Pair f) (resolve_alias header as)) csvAliases in
      if map_of index ''identifier'' = None
      then Inl (ErrText (''CSV needs a student_id (or identifier) column; header was: '' @ joined header))
      else if map_of index ''email'' = None
      then Inl (ErrText (''CSV needs an email column; header was: '' @ joined header))
      else if map_of index ''full_name'' = None \<and> map_of index ''first_name'' = None
      then Inl (ErrText ''CSV needs either a full_name column or first_name and last_name columns'')
      else Inr index)"

definition field_of :: "(string \<times> nat) list \<Rightarrow> string list \<Rightarrow> string \<Rightarrow> string" where
  "field_of index record name =
     (case map_of index name of
        None \<Rightarrow> [] | Some i \<Rightarrow> if length record \<le> i then [] else trim_space (record ! i))"

definition row_params :: "(string \<times> nat) list \<Rightarrow> uuid \<Rightarrow> string list \<Rightarrow> new_member_params" where
  "row_params index batchID record =
     (let f = field_of index record; category = to_lower (f ''category'') in
      \<lparr>nm_Identifier = f ''identifier'', nm_Email = f ''email'', nm_FullName = f ''full_name'',
       nm_FirstName = f ''first_name'', nm_LastName = f ''last_name'', nm_Faculty = f ''faculty'',
       nm_Department = f ''department'', nm_Level = f ''level'',
       nm_Category = (if category = [] then ''undergraduate'' else category),
       nm_Role = ''member'', nm_IsSynthetic = False, nm_InvitationBatchID = batchID\<rparr>)"

text \<open>The state of the loop: the result so far, the lines of identifiers seen, rows a dry run must settle.\<close>

record import_state =
  is_result :: import_result
  is_seen :: "(string \<times> int) list"
  is_pending :: "(nat \<times> string) list"
  is_db :: db

definition add_row :: "import_row \<Rightarrow> (import_result \<Rightarrow> import_result) \<Rightarrow> import_state \<Rightarrow> import_state" where
  "add_row row tally st =
     st\<lparr>is_result := (tally (is_result st))\<lparr>im_Rows := im_Rows (is_result st) @ [row]\<rparr>\<rparr>"

definition one_total :: "import_result \<Rightarrow> import_result" where
  "one_total r = r\<lparr>im_TotalRows := Suc (im_TotalRows r)\<rparr>"

definition one_invalid :: "import_result \<Rightarrow> import_result" where
  "one_invalid r = r\<lparr>im_Invalid := Suc (im_Invalid r)\<rparr>"

definition one_duplicate :: "import_result \<Rightarrow> import_result" where
  "one_duplicate r = r\<lparr>im_Duplicate := Suc (im_Duplicate r)\<rparr>"

definition one_created :: "import_result \<Rightarrow> import_result" where
  "one_created r = r\<lparr>im_Created := Suc (im_Created r), im_Valid := Suc (im_Valid r)\<rparr>"

definition new_row :: "int \<Rightarrow> string \<Rightarrow> row_status \<Rightarrow> string \<Rightarrow> import_row" where
  "new_row line ident status detail =
     \<lparr>ir_Line = line, ir_Identifier = ident, ir_Status = status, ir_Detail = detail, ir_EmailQueued = False\<rparr>"

definition import_one ::
  "member_service \<Rightarrow> (pg_error \<Rightarrow> string) \<Rightarrow> desk_call \<Rightarrow> role \<Rightarrow> uuid \<Rightarrow> bool \<Rightarrow> uuid \<Rightarrow> (string \<times> nat) list \<Rightarrow>
   csv_item \<Rightarrow> import_state \<Rightarrow> import_state" where
  "import_one s driver_text c actor actorID dryRun batchID index item st =
     (let st = st\<lparr>is_result := one_total (is_result st)\<rparr> in
      case item of
        BadRow line msg \<Rightarrow> add_row (new_row line [] RowInvalid (''malformed row: '' @ msg)) one_invalid st
      | Row line record \<Rightarrow>
          let p = row_params index batchID record; ident = nm_Identifier p; key = to_lower ident in
          (case validateNewMember p of
             Some e \<Rightarrow> add_row (new_row line ident RowInvalid (error_message driver_text e)) one_invalid st
           | None \<Rightarrow>
               (case map_of (is_seen st) key of
                  Some first \<Rightarrow>
                    add_row (new_row line ident RowDuplicate
                      (''same identifier as line '' @ decimal_int first @ '' of this file'')) one_duplicate st
                | None \<Rightarrow>
                    let st = st\<lparr>is_seen := (key, line) # is_seen st\<rparr> in
                    if dryRun
                    then add_row (new_row line ident RowPending [])
                           (\<lambda>r. r) (st\<lparr>is_pending := is_pending st @ [(length (im_Rows (is_result st)), ident)]\<rparr>)
                    else (case CreateMember s c actor actorID p (is_db st) of
                       (Inl e, d) \<Rightarrow>
                         if errors_is e ErrConflict
                         then add_row (new_row line ident RowDuplicate ''already registered'') one_duplicate (st\<lparr>is_db := d\<rparr>)
                         else add_row (new_row line ident RowInvalid (error_message driver_text e)) one_invalid (st\<lparr>is_db := d\<rparr>)
                     | (Inr user, d) \<Rightarrow>
                         add_row ((new_row line (user_identifier user) RowCreated [])\<lparr>ir_EmailQueued := ms_notifier s\<rparr>)
                           one_created (st\<lparr>is_db := d\<rparr>)))))"

text \<open>Settling the rows of a dry run against the identifiers that are taken.\<close>

definition settle :: "string set \<Rightarrow> nat \<times> string \<Rightarrow> import_result \<Rightarrow> import_result" where
  "settle taken pend r =
     (case pend of (at, ident) \<Rightarrow>
        if to_lower (trim_space ident) \<in> taken
        then r\<lparr>im_Duplicate := Suc (im_Duplicate r), im_Rows := (im_Rows r)[at :=
                 (im_Rows r ! at)\<lparr>ir_Status := RowDuplicate, ir_Detail := ''already registered''\<rparr>]\<rparr>
        else r\<lparr>im_Valid := Suc (im_Valid r), im_Rows := (im_Rows r)[at :=
                 (im_Rows r ! at)\<lparr>ir_Status := RowValid\<rparr>]\<rparr>)"

fun import_loop ::
  "member_service \<Rightarrow> (pg_error \<Rightarrow> string) \<Rightarrow> (nat \<Rightarrow> desk_call) \<Rightarrow> role \<Rightarrow> uuid \<Rightarrow> bool \<Rightarrow> uuid \<Rightarrow>
   (string \<times> nat) list \<Rightarrow> csv_item list \<Rightarrow> import_state \<Rightarrow> import_state" where
  "import_loop s dt calls actor actorID dryRun batchID index [] st = st"
| "import_loop s dt calls actor actorID dryRun batchID index (x # xs) st =
     import_loop s dt calls actor actorID dryRun batchID index xs
       (import_one s dt (calls (im_TotalRows (is_result st))) actor actorID dryRun batchID index x st)"

definition ImportCSV ::
  "member_service \<Rightarrow> (pg_error \<Rightarrow> string) \<Rightarrow> (nat \<Rightarrow> desk_call) \<Rightarrow> faults \<Rightarrow> role \<Rightarrow> uuid \<Rightarrow> uuid \<Rightarrow>
   string + string list \<Rightarrow> csv_item list \<Rightarrow> bool \<Rightarrow> db \<Rightarrow> (error + import_result) \<times> db" where
  "ImportCSV s driver_text calls fl actor actorID batchID header items dryRun d =
     (case header of
        Inl e \<Rightarrow> (Inl (ErrText (''reading CSV header: '' @ e)), d)
      | Inr header \<Rightarrow>
          (case columnIndex header of
             Inl e \<Rightarrow> (Inl e, d)
           | Inr index \<Rightarrow>
               let st = import_loop s driver_text calls actor actorID dryRun batchID index items
                     \<lparr>is_result = \<lparr>im_DryRun = dryRun, im_TotalRows = 0, im_Valid = 0, im_Created = 0, im_Duplicate = 0,
                                   im_Invalid = 0, im_Rows = []\<rparr>,
                      is_seen = [], is_pending = [], is_db = d\<rparr> in
               if dryRun \<and> is_pending st \<noteq> []
               then (case ExistingIdentifiers fl (map snd (is_pending st)) d of
                       Inl e \<Rightarrow> (Inl e, is_db st)
                     | Inr taken \<Rightarrow> (Inr (fold (settle taken) (is_pending st) (is_result st)), is_db st))
               else (Inr (is_result st), is_db st)))"

section \<open>Creating an account\<close>

lemma send_setup_users:
  "users (snd (send_setup s c k u batch d)) = users d" "same_library d (snd (send_setup s c k u batch d))"
proof -
  have "same_library d (snd (send_setup s c k u batch d))"
  proof (cases "NewOpaqueToken (ms_issuer s) (dc_random c k)")
    case (Inl e)
    then show ?thesis by (simp add: send_setup_def)
  next
    case (Inr tok)
    obtain token hash where tok: "tok = (token, hash)" by (cases tok)
    let ?save = "if ms_tokens s then SavePasswordReset (dc_plan c k) (user_id u) hash (dc_now c + AccountSetupTTL) d
      else (Inr (), d)"
    obtain r d1 where save: "?save = (r, d1)" by (rule prod.exhaust)
    have "same_library d (snd ?save)" using tokens_same(5) by simp
    then have d1: "same_library d d1" by (simp add: save)
    obtain q d2 where track: "QueueTracked (dc_plan c (Suc k)) (dc_now c) (dc_id c k) (user_id u) ''email''
        ''account_setup'' (setup_payload u token batch) d1 = (q, d2)" by (rule prod.exhaust)
    from QueueTracked_same [of d1 "dc_plan c (Suc k)" "dc_now c" "dc_id c k" "user_id u" "''email''"
        "''account_setup''" "setup_payload u token batch"] track
    have "same_library d1 d2" by simp
    with d1 have d2: "same_library d d2" by (rule same_library_trans)
    show ?thesis using d1 d2 by (cases r; cases q) (simp_all add: send_setup_def Inr tok save track)
  qed
  then show "same_library d (snd (send_setup s c k u batch d))" "users (snd (send_setup s c k u batch d)) = users d"
    by (simp_all add: same_library_def)
qed

lemma CreateUser_cases:
  assumes "CreateUser fl now nid p d = (r, d')"
  obtains e where "r = Inl e" and "d' = d"
  | "r = Inr (scanUser (new_user now nid p))" and "users d' = users d @ [new_user now nid p]"
    and "password_resets d' = password_resets d" and "outbox d' = outbox d"
  using assms unfolding CreateUser_def
  by (rule transact_cases)
    (auto simp: CreateUser_tx_def andthen_Inr split: sum.splits prod.splits
      elim!: recordAudit_InrE insert_user_Inr)

text \<open>Every outcome of a registration, errors included.\<close>

lemma CreateMember_cases:
  assumes "CreateMember s c actor actorID p d = (res, d')"
  obtains e where "res = Inl e" and "d' = d"
  | r hash where "r \<in> set (RolesCreatableBy actor)" and "validateNewMember p = None"
    and "role_string r = (if nm_Role p = [] then ''member'' else nm_Role p)"
    and "users d' = users d @ [new_user (dc_now c) (dc_id c 0) (create_params actorID r hash p)]"
    and "\<forall>u. res = Inr u \<longrightarrow> u = scanUser (new_user (dc_now c) (dc_id c 0) (create_params actorID r hash p))"
proof -
  show thesis
  proof (cases "validateNewMember p")
    case (Some e)
    with assms that(1) show ?thesis by (auto simp: CreateMember_def)
  next
    case None
    let ?P = "\<lambda>r. role_string r = (if nm_Role p = [] then ''member'' else nm_Role p)"
    show ?thesis
    proof (cases "find ?P (RolesCreatableBy actor)")
      case none: None
      with None assms that(1) show ?thesis by (auto simp: CreateMember_def)
    next
      case (Some r)
      from find_SomeD [OF Some] have r: "r \<in> set (RolesCreatableBy actor)" "?P r" by auto
      show ?thesis
      proof (cases "NewOpaqueToken (ms_issuer s) (dc_random c 0)")
        case (Inl e)
        with None Some assms that(1) show ?thesis by (auto simp: CreateMember_def)
      next
        case (Inr tok)
        obtain bootstrap h0 where tok: "tok = (bootstrap, h0)" by (cases tok)
        show ?thesis
        proof (cases "HashPassword (ms_passwords s) (dc_random c 1) bootstrap")
          case (Inl e)
          with None Some Inr tok assms that(1) show ?thesis by (auto simp: CreateMember_def)
        next
          case hash: (Inr hash)
          let ?cp = "create_params actorID r hash p"
          obtain ru d1 where cu: "CreateUser (dc_plan c 0) (dc_now c) (dc_id c 0) ?cp d = (ru, d1)" by (rule prod.exhaust)
          from cu show ?thesis
          proof (cases rule: CreateUser_cases)
            case (1 e)
            with None Some Inr tok hash cu assms that(1) show ?thesis by (auto simp: CreateMember_def)
          next
            case 2
            let ?u = "scanUser (new_user (dc_now c) (dc_id c 0) ?cp)"
            obtain rs d2 where ss: "send_setup s c 2 ?u (nm_InvitationBatchID p) d1 = (rs, d2)" by (rule prod.exhaust)
            then have "users d2 = users d1" using send_setup_users(1) [of s c 2 ?u "nm_InvitationBatchID p" d1] by simp
            moreover have "d' = d2" "\<forall>u. res = Inr u \<longrightarrow> u = ?u"
              using None Some Inr tok hash cu 2 ss assms by (auto simp: CreateMember_def split: sum.splits)
            ultimately show ?thesis using 2 r None that(2) by simp
          qed
        qed
      qed
    qed
  qed
qed

lemma CreateMember_inv: "lib_inv d \<Longrightarrow> lib_inv (snd (CreateMember s c actor actorID p d))"
proof -
  assume inv: "lib_inv d"
  have "lib_inv d2" if "CreateUser fl now nid cp d = (r, d1)" "send_setup s c 2 u b d1 = (rs, d2)"
    for fl now nid cp r d1 u b rs d2
  proof -
    from that(1) have "lib_inv d1" using CreateUser_inv [OF inv, of fl now nid cp] by simp
    moreover from that(2) have "same_library d1 d2" using send_setup_users(2) [of d1 s c 2 u b] by simp
    ultimately show ?thesis by (simp add: same_library_inv)
  qed
  moreover have "lib_inv d1" if "CreateUser fl now nid cp d = (r, d1)" for fl now nid cp r d1
    using that CreateUser_inv [OF inv, of fl now nid cp] by simp
  ultimately show ?thesis
    by (auto simp: CreateMember_def inv split: option.splits sum.splits prod.splits)
qed

section \<open>The account of an import\<close>

definition status_count :: "row_status \<Rightarrow> import_result \<Rightarrow> nat" where
  "status_count x r = count_where (\<lambda>row. ir_Status row = x) (im_Rows r)"

text \<open>The counters agree with the rows while n rows are pending.\<close>

definition tallied :: "import_result \<Rightarrow> bool" where
  "tallied r \<longleftrightarrow> length (im_Rows r) = im_TotalRows r \<and>
     im_Invalid r = status_count RowInvalid r \<and> im_Duplicate r = status_count RowDuplicate r \<and>
     im_Created r = status_count RowCreated r \<and>
     im_Valid r = status_count RowValid r + status_count RowCreated r"

lemma status_total:
  "length (im_Rows r) = status_count RowPending r + status_count RowValid r + status_count RowCreated r +
     status_count RowDuplicate r + status_count RowInvalid r"
proof -
  have "length rows = count_where (\<lambda>x. ir_Status x = RowPending) rows + count_where (\<lambda>x. ir_Status x = RowValid) rows +
      count_where (\<lambda>x. ir_Status x = RowCreated) rows + count_where (\<lambda>x. ir_Status x = RowDuplicate) rows +
      count_where (\<lambda>x. ir_Status x = RowInvalid) rows" for rows
  proof (induction rows)
    case (Cons x rows)
    then show ?case by (cases "ir_Status x") auto
  qed simp
  then show ?thesis by (simp add: status_count_def)
qed

definition import_ok :: "bool \<Rightarrow> db \<Rightarrow> import_state \<Rightarrow> bool" where
  "import_ok dry d st \<longleftrightarrow> tallied (is_result st) \<and>
     distinct (map fst (is_pending st)) \<and> length (is_pending st) = status_count RowPending (is_result st) \<and>
     (\<forall>p \<in> set (is_pending st). fst p < length (im_Rows (is_result st)) \<and>
        ir_Status (im_Rows (is_result st) ! fst p) = RowPending) \<and>
     status_count RowValid (is_result st) = 0 \<and>
     (dry \<longrightarrow> is_db st = d \<and> im_Created (is_result st) = 0) \<and> (\<not> dry \<longrightarrow> is_pending st = []) \<and>
     lib_inv (is_db st) \<and>
     (\<exists>new. users (is_db st) = users d @ new \<and> im_Created (is_result st) \<le> length new \<and>
        (\<forall>u \<in> set new. user_role u = RoleMember \<and> user_must_change_password u))"

lemma new_row_sel [simp]:
  "ir_Status (new_row l i x dt) = x"
  by (simp add: new_row_def)

lemmas add_defs = add_row_def one_total_def one_invalid_def one_duplicate_def one_created_def status_count_def
  tallied_def nth_append

lemma import_ok_row:
  assumes "import_ok dry d st" and "x \<in> {RowInvalid, RowDuplicate}" and "ir_Status row = x"
    and "tally = (if x = RowInvalid then one_invalid else one_duplicate)" and "is_db st' = is_db st"
    and "is_result st' = one_total (is_result st)" and "is_pending st' = is_pending st"
  shows "import_ok dry d (add_row row tally st')"
  using assms by (auto simp: import_ok_def add_defs)

lemma import_ok_db:
  assumes "import_ok False d st" and "lib_inv d'"
    and "users d' = users (is_db st) \<or> (\<exists>u. users d' = users (is_db st) @ [u] \<and> user_role u = RoleMember \<and>
      user_must_change_password u)"
  shows "import_ok False d (st\<lparr>is_db := d'\<rparr>)"
proof -
  from assms(1) obtain new where new: "users (is_db st) = users d @ new" "im_Created (is_result st) \<le> length new"
    "\<forall>u \<in> set new. user_role u = RoleMember \<and> user_must_change_password u"
    by (auto simp: import_ok_def)
  from assms(3) have "\<exists>new. users d' = users d @ new \<and> im_Created (is_result st) \<le> length new \<and>
      (\<forall>u \<in> set new. user_role u = RoleMember \<and> user_must_change_password u)"
  proof
    assume "users d' = users (is_db st)"
    with new show ?thesis by auto
  next
    assume "\<exists>u. users d' = users (is_db st) @ [u] \<and> user_role u = RoleMember \<and> user_must_change_password u"
    then obtain u where "users d' = users (is_db st) @ [u]" "user_role u = RoleMember" "user_must_change_password u"
      by blast
    with new show ?thesis by (intro exI [of _ "new @ [u]"]) auto
  qed
  with assms(1,2) show ?thesis by (auto simp: import_ok_def)
qed

lemma role_string_member [simp]: "role_string r = ''member'' \<longleftrightarrow> r = RoleMember"
  by (cases r) simp_all

lemma import_one_ok:
  assumes ok: "import_ok dry d st"
  shows "import_ok dry d (import_one s dt c actor actorID dry batchID index item st)"
proof (cases item)
  case (BadRow line msg)
  with import_ok_row [OF ok, of RowInvalid] show ?thesis by (simp add: import_one_def Let_def)
next
  case (Row line cells)
  let ?p = "row_params index batchID cells" and ?st = "st\<lparr>is_result := one_total (is_result st)\<rparr>"
  let ?key = "to_lower (nm_Identifier ?p)"
  show ?thesis
  proof (cases "validateNewMember ?p")
    case (Some e)
    with import_ok_row [OF ok, of RowInvalid] Row show ?thesis by (simp add: import_one_def Let_def)
  next
    case None
    show ?thesis
    proof (cases "map_of (is_seen st) ?key")
      case (Some first)
      with None import_ok_row [OF ok, of RowDuplicate] Row show ?thesis by (simp add: import_one_def Let_def)
    next
      case fresh: None
      show ?thesis
      proof (cases dry)
        case True
        with ok None fresh Row show ?thesis
          by (auto simp: import_one_def Let_def import_ok_def add_defs less_Suc_eq)
      next
        case real: False
        obtain res d' where cm: "CreateMember s c actor actorID ?p (is_db st) = (res, d')" by (rule prod.exhaust)
        have "lib_inv (is_db st)" using ok by (simp add: import_ok_def)
        from CreateMember_inv [OF this, of s c actor actorID ?p] cm have inv: "lib_inv d'" by simp
        have role: "nm_Role ?p = ''member''" by (simp add: row_params_def Let_def)
        from cm have us: "users d' = users (is_db st) \<or> (\<exists>u. users d' = users (is_db st) @ [u] \<and>
            user_role u = RoleMember \<and> user_must_change_password u)"
          and made: "\<forall>u. res = Inr u \<longrightarrow> users d' \<noteq> users (is_db st)"
          by (cases rule: CreateMember_cases; auto simp: role new_user_def create_params_def)+
        have ok': "import_ok False d (st\<lparr>is_db := d'\<rparr>)" using import_ok_db [OF _ inv us] ok real by simp
        show ?thesis
        proof (cases res)
          case (Inl e)
          show ?thesis
          proof (cases "errors_is e ErrConflict")
            case True
            with None fresh Row real cm Inl import_ok_row [OF ok', of RowDuplicate]
            show ?thesis by (simp add: import_one_def Let_def)
          next
            case False
            with None fresh Row real cm Inl import_ok_row [OF ok', of RowInvalid]
            show ?thesis by (simp add: import_one_def Let_def)
          qed
        next
          case (Inr u)
          with us made obtain v where v: "users d' = users (is_db st) @ [v]" "user_role v = RoleMember"
            "user_must_change_password v" by auto
          from ok obtain new where new: "users (is_db st) = users d @ new" "im_Created (is_result st) \<le> length new"
            "\<forall>u \<in> set new. user_role u = RoleMember \<and> user_must_change_password u"
            by (auto simp: import_ok_def)
          with v have "users d' = users d @ (new @ [v]) \<and> Suc (im_Created (is_result st)) \<le> length (new @ [v]) \<and>
              (\<forall>u \<in> set (new @ [v]). user_role u = RoleMember \<and> user_must_change_password u)" by simp
          then have "\<exists>new. users d' = users d @ new \<and> Suc (im_Created (is_result st)) \<le> length new \<and>
              (\<forall>u \<in> set new. user_role u = RoleMember \<and> user_must_change_password u)" by blast
          with None fresh Row real cm Inr ok inv show ?thesis
            by (auto simp: import_one_def Let_def import_ok_def add_defs)
        qed
      qed
    qed
  qed
qed

lemma import_loop_ok:
  "import_ok dry d st \<Longrightarrow> import_ok dry d (import_loop s dt calls actor actorID dry batchID index items st) \<and>
     im_TotalRows (is_result (import_loop s dt calls actor actorID dry batchID index items st)) =
     im_TotalRows (is_result st) + length items"
proof (induction items arbitrary: st)
  case (Cons x xs)
  let ?st = "import_one s dt (calls (im_TotalRows (is_result st))) actor actorID dry batchID index x st"
  have "im_TotalRows (is_result ?st) = Suc (im_TotalRows (is_result st))"
    by (auto simp: import_one_def Let_def add_row_def one_total_def one_invalid_def one_duplicate_def one_created_def
        split: csv_item.splits option.splits sum.splits prod.splits if_splits)
  with Cons.IH [OF import_one_ok [OF Cons.prems], of s dt "calls (im_TotalRows (is_result st))"] show ?case
    by simp
qed simp

lemma count_where_list_update:
  "i < length xs \<Longrightarrow>
   count_where P (xs[i := y]) + (if P (xs ! i) then 1 else 0) = count_where P xs + (if P y then 1 else 0)"
proof (induction xs arbitrary: i)
  case (Cons x xs)
  then show ?case by (cases i) auto
qed simp

lemma settle_ok:
  assumes "tallied r" and "at < length (im_Rows r)" and "ir_Status (im_Rows r ! at) = RowPending"
  shows "tallied (settle taken (at, ident) r)"
    and "Suc (status_count RowPending (settle taken (at, ident) r)) = status_count RowPending r"
    and "length (im_Rows (settle taken (at, ident) r)) = length (im_Rows r)"
    and "im_Created (settle taken (at, ident) r) = im_Created r"
    and "im_TotalRows (settle taken (at, ident) r) = im_TotalRows r"
    and "j \<noteq> at \<Longrightarrow> im_Rows (settle taken (at, ident) r) ! j = im_Rows r ! j"
proof -
  have upd: "status_count x (r\<lparr>im_Rows := (im_Rows r)[at := row]\<rparr>) + (if x = RowPending then 1 else 0) =
      status_count x r + (if ir_Status row = x then 1 else 0)" for x row
    using count_where_list_update [OF assms(2), of "\<lambda>row. ir_Status row = x" row] assms(3)
    by (auto simp: status_count_def)
  let ?row = "\<lambda>s dt. (im_Rows r ! at)\<lparr>ir_Status := s, ir_Detail := dt\<rparr>"
  note d = upd [of _ "?row RowDuplicate ''already registered''"] and v = upd [of _ "(im_Rows r ! at)\<lparr>ir_Status := RowValid\<rparr>"]
  show "tallied (settle taken (at, ident) r)"
    using assms(1) d [of RowInvalid] d [of RowDuplicate] d [of RowCreated] d [of RowValid]
      v [of RowInvalid] v [of RowDuplicate] v [of RowCreated] v [of RowValid]
    by (auto simp: settle_def tallied_def status_count_def)
  show "Suc (status_count RowPending (settle taken (at, ident) r)) = status_count RowPending r"
    using d [of RowPending] v [of RowPending] by (auto simp: settle_def status_count_def)
qed (auto simp: settle_def)

lemma settle_all:
  assumes "tallied r" and "distinct (map fst ps)"
    and "\<forall>p \<in> set ps. fst p < length (im_Rows r) \<and> ir_Status (im_Rows r ! fst p) = RowPending"
    and "length ps = status_count RowPending r"
  shows "tallied (fold (settle taken) ps r) \<and> status_count RowPending (fold (settle taken) ps r) = 0 \<and>
    im_Created (fold (settle taken) ps r) = im_Created r \<and> im_TotalRows (fold (settle taken) ps r) = im_TotalRows r"
  using assms
proof (induction ps arbitrary: r)
  case (Cons p ps)
  obtain at ident where p: "p = (at, ident)" by (cases p)
  have at: "at < length (im_Rows r)" "ir_Status (im_Rows r ! at) = RowPending" using Cons.prems(3) p by auto
  note s = settle_ok [OF Cons.prems(1) at]
  have "\<forall>q \<in> set ps. fst q < length (im_Rows (settle taken p r)) \<and>
      ir_Status (im_Rows (settle taken p r) ! fst q) = RowPending"
  proof
    fix q assume q: "q \<in> set ps"
    then have "fst q \<noteq> at" using Cons.prems(2) p by auto
    with q s(3,6) Cons.prems(3) p show "fst q < length (im_Rows (settle taken p r)) \<and>
        ir_Status (im_Rows (settle taken p r) ! fst q) = RowPending" by simp
  qed
  moreover have "length ps = status_count RowPending (settle taken p r)"
    using s(2) [of taken ident] Cons.prems(4) p by simp
  ultimately show ?case
    using Cons.IH [of "settle taken p r"] Cons.prems(2) s(1,4,5) p by simp
qed simp

section \<open>Properties\<close>

text \<open>C28: who can be made. A registration, whatever fails in it, adds at most one account, and only one whose
  role the actor may create: a librarian makes members, an administrator any role, a member nothing.
  The account is active, has its id and identifier as asked, must choose a password before anything
  else, and the library's invariant is kept.\<close>

theorem registration_is_contained:
  assumes "lib_inv d"
  shows "lib_inv (snd (CreateMember s c actor actorID p d)) \<and>
    (users (snd (CreateMember s c actor actorID p d)) = users d \<or>
     (\<exists>u. users (snd (CreateMember s c actor actorID p d)) = users d @ [u] \<and>
        user_role u \<in> set (RolesCreatableBy actor) \<and> user_must_change_password u \<and> user_status u = UserActive \<and>
        user_id u = dc_id c 0 \<and> user_identifier u = trim_space (nm_Identifier p) \<and>
        (actor = RoleLibrarian \<longrightarrow> user_role u = RoleMember) \<and> actor \<noteq> RoleMember))"
proof -
  obtain res d' where cm: "CreateMember s c actor actorID p d = (res, d')" by (rule prod.exhaust)
  from cm have "users d' = users d \<or> (\<exists>u. users d' = users d @ [u] \<and>
        user_role u \<in> set (RolesCreatableBy actor) \<and> user_must_change_password u \<and> user_status u = UserActive \<and>
        user_id u = dc_id c 0 \<and> user_identifier u = trim_space (nm_Identifier p) \<and>
        (actor = RoleLibrarian \<longrightarrow> user_role u = RoleMember) \<and> actor \<noteq> RoleMember)"
    by (cases rule: CreateMember_cases)
      (auto simp: new_user_def create_params_def RolesCreatableBy_def split: role.splits)
  with CreateMember_inv [OF assms, of s c actor actorID p] cm show ?thesis by simp
qed

text \<open>An import accounts for every row. A finished import lists every record of the file with a verdict,
  and its counters are the numbers of rows with each verdict; a dry run leaves the database as it is
  and creates nothing; a real run adds only members, at least as many as it reports created, each
  bound to choose a password, and keeps the library's invariant, whatever fails on the way.\<close>

theorem import_accounts_for_rows:
  assumes "lib_inv d" and "ImportCSV s dt calls fl actor actorID batchID header items dry d = (Inr r, d')"
  shows "im_TotalRows r = length items \<and> length (im_Rows r) = length items \<and>
    im_TotalRows r = im_Valid r + im_Duplicate r + im_Invalid r \<and>
    im_Duplicate r = status_count RowDuplicate r \<and> im_Invalid r = status_count RowInvalid r \<and>
    im_Created r = status_count RowCreated r \<and> im_Valid r = status_count RowValid r + status_count RowCreated r \<and>
    (dry \<longrightarrow> d' = d \<and> im_Created r = 0) \<and> lib_inv d' \<and>
    (\<exists>new. users d' = users d @ new \<and> im_Created r \<le> length new \<and>
      (\<forall>u \<in> set new. user_role u = RoleMember \<and> user_must_change_password u))"
proof -
  obtain h index where h: "header = Inr h" and idx: "columnIndex h = Inr index"
    using assms(2) by (auto simp: ImportCSV_def split: sum.splits)
  let ?init = "\<lparr>is_result = \<lparr>im_DryRun = dry, im_TotalRows = 0, im_Valid = 0, im_Created = 0, im_Duplicate = 0,
      im_Invalid = 0, im_Rows = []\<rparr>, is_seen = [], is_pending = [], is_db = d\<rparr>"
  define st where "st = import_loop s dt calls actor actorID dry batchID index items ?init"
  have "import_ok dry d ?init" using assms(1) by (simp add: import_ok_def tallied_def status_count_def)
  from import_loop_ok [OF this, of s dt calls actor actorID batchID index items]
  have ok: "import_ok dry d st" and tot: "im_TotalRows (is_result st) = length items" by (simp_all add: st_def)
  have "ImportCSV s dt calls fl actor actorID batchID header items dry d =
      (if dry \<and> is_pending st \<noteq> []
       then (case ExistingIdentifiers fl (map snd (is_pending st)) d of
               Inl e \<Rightarrow> (Inl e, is_db st)
             | Inr taken \<Rightarrow> (Inr (fold (settle taken) (is_pending st) (is_result st)), is_db st))
       else (Inr (is_result st), is_db st))"
    unfolding ImportCSV_def h st_def by (simp only: sum.case idx Let_def)
  with assms(2) have d': "d' = is_db st" and r: "r = is_result st \<and> (dry \<longrightarrow> is_pending st = []) \<or>
      (\<exists>taken. r = fold (settle taken) (is_pending st) (is_result st))"
    by (auto split: sum.splits if_splits)
  have fin: "tallied r \<and> status_count RowPending r = 0 \<and> im_Created r = im_Created (is_result st) \<and>
      im_TotalRows r = im_TotalRows (is_result st)"
    using r
  proof
    assume "r = is_result st \<and> (dry \<longrightarrow> is_pending st = [])"
    with ok show ?thesis by (auto simp: import_ok_def)
  next
    assume "\<exists>taken. r = fold (settle taken) (is_pending st) (is_result st)"
    with ok settle_all [of "is_result st" "is_pending st"] show ?thesis by (auto simp: import_ok_def)
  qed
  then have "length (im_Rows r) = im_TotalRows r" "im_Duplicate r = status_count RowDuplicate r"
    "im_Invalid r = status_count RowInvalid r" "im_Created r = status_count RowCreated r"
    "im_Valid r = status_count RowValid r + status_count RowCreated r"
    by (simp_all add: tallied_def)
  with status_total [of r] fin tot ok d' show ?thesis by (simp add: import_ok_def)
qed

section \<open>Samples\<close>

definition sample_members :: member_service where
  "sample_members = \<lparr>ms_issuer = sample_issuer, ms_passwords = sample_lib, ms_tokens = True, ms_notifier = True\<rparr>"

definition sample_desk :: desk_call where
  "sample_desk = \<lparr>dc_now = 9, dc_plan = (\<lambda>_. no_faults), dc_random = (\<lambda>k. Some (decimal k)), dc_id = (\<lambda>k. 900 + k)\<rparr>"

definition sample_header :: "string list" where
  "sample_header = [''student_id'', ''name'', ''email'']"

text \<open>A new identifier with the address of an existing member.\<close>

definition sample_roll :: "csv_item list" where
  "sample_roll = [Row 2 [''X1'', ''Ada'', ''ADM/1@oauife.edu.ng''], BadRow 3 ''wrong quote'']"

definition sample_import :: "bool \<Rightarrow> (error + import_result) \<times> db" where
  "sample_import dry = ImportCSV sample_members (\<lambda>e. ''driver'') (\<lambda>_. sample_desk) no_faults RoleLibrarian 1 77
     (Inr sample_header) sample_roll dry sample_db"

lemma sample_index: "columnIndex sample_header = Inr [(''identifier'', 0), (''email'', 2), (''full_name'', 1)]"
  by code_simp

definition sample_params :: new_member_params where
  "sample_params =
     \<lparr>nm_Identifier = ''X1'', nm_Email = ''ADM/1@oauife.edu.ng'', nm_FullName = ''Ada'', nm_FirstName = [],
      nm_LastName = [], nm_Faculty = [], nm_Department = [], nm_Level = [], nm_Category = ''undergraduate'',
      nm_Role = ''member'', nm_IsSynthetic = False, nm_InvitationBatchID = 77\<rparr>"

lemma sample_row_params:
  "row_params [(''identifier'', 0), (''email'', 2), (''full_name'', 1)] 77 [''X1'', ''Ada'', ''ADM/1@oauife.edu.ng''] =
   sample_params"
  by code_simp

lemma sample_params_valid: "validateNewMember sample_params = None"
  by code_simp

lemma sample_conflict:
  "CreateMember sample_members sample_desk RoleLibrarian 1 sample_params sample_db = (Inl ErrConflict, sample_db)"
proof -
  have "trim_space ''ADM/1@oauife.edu.ng'' = ''ADM/1@oauife.edu.ng''" "trim_space ''X1'' = ''X1''" by code_simp+
  moreover have "to_lower (user_email (sample_user 4 ''ADM/1'' RoleAdmin None)) = to_lower (to_lower ''ADM/1@oauife.edu.ng'')"
    by (simp add: sample_user_def)
  ultimately show ?thesis
    using sample_params_valid
    by (simp add: CreateMember_def RolesCreatableBy_def sample_params_def sample_members_def sample_issuer_def
        sample_desk_def NewOpaqueToken_def Let_def HashPassword_def CreateUser_def CreateUser_tx_def transact_def
        insert_user_def new_user_def create_params_def parse_category_def user_ids_def del: to_lower_idem)
qed

text \<open>The preview calls the row valid, because it asks about identifiers only; the import then refuses it.\<close>

lemma preview_misses_email:
  "map_sum id (\<lambda>r. (im_Valid r, im_Duplicate r, im_Invalid r)) (fst (sample_import True)) = Inr (1, 0, 1)"
  "map_sum id (\<lambda>r. (im_Valid r, im_Duplicate r, im_Invalid r)) (fst (sample_import False)) = Inr (0, 1, 1)"
proof -
  show "map_sum id (\<lambda>r. (im_Valid r, im_Duplicate r, im_Invalid r)) (fst (sample_import True)) = Inr (1, 0, 1)"
    by code_simp
  show "map_sum id (\<lambda>r. (im_Valid r, im_Duplicate r, im_Invalid r)) (fst (sample_import False)) = Inr (0, 1, 1)"
    using sample_params_valid sample_conflict
    by (simp add: sample_import_def sample_roll_def ImportCSV_def sample_index Let_def import_one_def sample_row_params
        add_row_def one_total_def one_invalid_def one_duplicate_def del: One_nat_def)
qed

theorem registration_is_contained_witness:
  "lib_inv (snd (CreateMember sample_members sample_desk RoleLibrarian 1 sample_params sample_db))"
  using registration_is_contained [OF sample_inv, of sample_members sample_desk RoleLibrarian 1 sample_params] by simp

theorem import_accounts_for_rows_witness:
  "\<exists>r. fst (sample_import True) = Inr r \<and> im_TotalRows r = 2 \<and> im_Created r = 0"
proof -
  obtain r d' where r: "sample_import True = (Inr r, d')"
    using preview_misses_email(1) by (cases "sample_import True"; cases "fst (sample_import True)") auto
  from import_accounts_for_rows [OF sample_inv r [unfolded sample_import_def]]
  have "im_TotalRows r = 2 \<and> im_Created r = 0" by (simp add: sample_roll_def)
  with r show ?thesis by simp
qed

end
