(* ===== verification/Http.thy ===== *)
theory Http
  imports Members
begin

text \<open>
  The HTTP layer (transport/http): the replies for errors, the middleware, and the route table with
  the guard of each route. A handler maps a request and its context, on the state of the program, to a
  reply or a panic. Header names are in canonical form, paths are clean (the server redirects others),
  and the text of a new request id is an input.
\<close>

section \<open>Replies\<close>

text \<open>
  A reply carries either the code and message of an error, or the data of a success with the numbers of
  its page (page, per page, total).
\<close>

record 'b reply =
  rp_Status :: nat
  rp_Code :: string
  rp_Message :: string
  rp_Data :: "'b option"
  rp_Meta :: "(int \<times> int \<times> nat) option"
  rp_Header :: "(string \<times> string) list"

definition bare :: "nat \<Rightarrow> (string \<times> string) list \<Rightarrow> 'b reply" where
  "bare status hs =
     \<lparr>rp_Status = status, rp_Code = [], rp_Message = [], rp_Data = None, rp_Meta = None, rp_Header = hs\<rparr>"

definition json_header :: "(string \<times> string) list" where
  "json_header = [(''Content-Type'', ''application/json; charset=utf-8'')]"

definition JSON :: "nat \<Rightarrow> 'b \<Rightarrow> (int \<times> int \<times> nat) option \<Rightarrow> 'b reply" where
  "JSON status data meta = (bare status json_header)\<lparr>rp_Data := Some data, rp_Meta := meta\<rparr>"

definition Error :: "nat \<Rightarrow> string \<Rightarrow> string \<Rightarrow> 'b reply" where
  "Error status code message = (bare status json_header)\<lparr>rp_Code := code, rp_Message := message\<rparr>"

lemma reply_sel [simp]:
  "rp_Status (bare n h) = n" "rp_Code (bare n h) = []" "rp_Data (bare n h) = None"
  "rp_Status (JSON n x m) = n" "rp_Data (JSON n x m) = Some x" "rp_Meta (JSON n x m) = m" "rp_Code (JSON n x m) = []"
  "rp_Status (Error n c t) = n" "rp_Data (Error n c t) = None" "rp_Code (Error n c t) = c" "rp_Message (Error n c t) = t"
  by (simp_all add: bare_def JSON_def Error_def)

definition errorMap :: "(error \<times> nat \<times> string \<times> string) list" where
  "errorMap =
   [(ErrInvalidBookMetadata, 400, ''VALIDATION_FAILED'',
       ''Check the supplied title, ISBN, publication year, call number and metadata values.''),
    (ErrInvalidSearch, 400, ''VALIDATION_FAILED'', ''Check the search fields, values and pagination bounds.''),
    (ErrSavedSearchLimit, 409, ''SAVED_SEARCH_LIMIT_REACHED'',
       ''You can save up to 20 searches. Remove one before saving another.''),
    (ErrInvalidCredentials, 401, ''INVALID_CREDENTIALS'', ''Incorrect login details.''),
    (ErrUnauthenticated, 401, ''UNAUTHENTICATED'', ''Please sign in to continue.''),
    (ErrTokenInvalid, 401, ''TOKEN_INVALID'',
       ''That link or session has expired. Please request a new one.''),
    (ErrForbidden, 403, ''FORBIDDEN'', ''You do not have permission to do that.''),
    (ErrMemberNotActive, 403, ''MEMBER_NOT_ACTIVE'',
       ''This membership is not active. Please speak to the library desk.''),
    (ErrMustChangePassword, 403, ''MUST_CHANGE_PASSWORD'',
       ''You must change your password before continuing.''),
    (ErrMemberSuspended, 403, ''MEMBER_SUSPENDED'',
       ''This membership is suspended. Please speak to the library desk.''),
    (ErrRateLimited, 429, ''RATE_LIMITED'', ''Too many attempts. Please wait a minute and try again.''),
    (ErrNotFound, 404, ''NOT_FOUND'', ''We could not find that.''),
    (ErrCopyNotFound, 404, ''COPY_NOT_FOUND'', ''We could not find that copy.''),
    (ErrDuplicateISBN, 409, ''DUPLICATE_ISBN'',
       ''The library already holds this title. Add a copy to it rather than cataloguing it again.''),
    (ErrDuplicateAccession, 409, ''DUPLICATE_ACCESSION'',
       ''That accession number already belongs to another copy.''),
    (ErrConflict, 409, ''CONFLICT'', ''That conflicts with a record we already hold.''),
    (ErrCopyNotAvailable, 409, ''COPY_NOT_AVAILABLE'', ''That copy is already on loan.''),
    (ErrReservedForOther, 409, ''RESERVED_FOR_ANOTHER_MEMBER'', ''That copy is reserved for another member.''),
    (ErrCopyNotBorrowable, 422, ''COPY_NOT_BORROWABLE'',
       ''That copy does not circulate and must be used in the library.''),
    (ErrLoanAlreadyClosed, 409, ''LOAN_ALREADY_CLOSED'', ''That loan has already been returned.''),
    (ErrLastCopyRetained, 409, ''LAST_COPY_RETAINED'',
       ''This is the last copy on the shelf and is kept in the library for reference. It can be '' @
       ''consulted here, but not borrowed.''),
    (ErrAlreadyReserved, 409, ''ALREADY_RESERVED'', ''You already have a reservation for this title.''),
    (ErrCopiesAvailable, 409, ''COPIES_AVAILABLE'',
       ''Copies are on the shelf, so no reservation is needed.''),
    (ErrLoanLimitReached, 409, ''LOAN_LIMIT_REACHED'',
       ''This member has reached the borrowing limit for their category.''),
    (ErrInvalidMemberCategory, 400, ''INVALID_MEMBER_CATEGORY'',
       ''category must be undergraduate, postgraduate or staff.''),
    (ErrNoCategory, 422, ''NO_CATEGORY'',
       ''Choose a borrowing category for this member: undergraduate, postgraduate or staff.''),
    (ErrPasswordTooWeak, 422, ''PASSWORD_TOO_WEAK'', ''That password does not meet the minimum requirements.''),
    (ErrInvalidCallNumber, 422, ''INVALID_CALL_NUMBER'',
       ''That is not a valid Library of Congress call number.''),
    (ErrNotReservable, 422, ''NOT_RESERVABLE'', ''That title cannot be reserved.''),
    (ErrInvalidTransition, 422, ''INVALID_STATUS_CHANGE'',
       ''That copy cannot move to that status from its current one.''),
    (ErrCopyOnLoan, 409, ''COPY_ON_LOAN'', ''That copy is currently on loan and cannot be changed.'')]"

definition internal_error :: "'b reply" where
  "internal_error = Error 500 ''INTERNAL'' ''Something went wrong on our side. Please try again.''"

definition FromError :: "error \<Rightarrow> 'b reply" where
  "FromError e =
     (case find (\<lambda>(target, _). errors_is e target) errorMap of
        Some (_, status, code, message) \<Rightarrow> Error status code message
      | None \<Rightarrow> internal_error)"

definition ValidationError :: "string \<Rightarrow> 'b reply" where
  "ValidationError message = Error 400 ''VALIDATION_FAILED'' message"

section \<open>Requests and handlers\<close>

text \<open>
  The path value is what the wildcard of the chosen route stands for. An upload is a form that could
  not be read, one without the file, or the header and the records of its spreadsheet.
\<close>

datatype upload = BadForm | NoFile | Upload "string + string list" "csv_item list"

record request =
  rq_Method :: string
  rq_Path :: string
  rq_PathValue :: string
  rq_RawQuery :: string
  rq_Body :: string
  rq_Upload :: upload
  rq_Header :: "(string \<times> string) list"
  rq_RemoteAddr :: string

definition header_of :: "request \<Rightarrow> string \<Rightarrow> string" where
  "header_of r name = (case map_of (rq_Header r) name of None \<Rightarrow> [] | Some v \<Rightarrow> v)"

lemma header_of_path_value [simp]: "header_of (r\<lparr>rq_PathValue := v\<rparr>) = header_of r"
  by (simp add: header_of_def fun_eq_iff)

text \<open>What the middleware puts in the context.\<close>

record req_context =
  cx_UserID :: "uuid option"
  cx_Role :: string
  cx_RequestID :: string

definition background :: req_context where
  "background = \<lparr>cx_UserID = None, cx_Role = [], cx_RequestID = []\<rparr>"

text \<open>A handler replies, or panics.\<close>

type_synonym ('b, 's) handler = "request \<Rightarrow> req_context \<Rightarrow> 's \<Rightarrow> 'b reply option \<times> 's"

definition refuse :: "error \<Rightarrow> 's \<Rightarrow> 'b reply option \<times> 's" where
  "refuse e s = (Some (FromError e), s)"

section \<open>Middleware\<close>

definition isPasswordChangeRoute :: "request \<Rightarrow> bool" where
  "isPasswordChangeRoute r \<longleftrightarrow>
     List.member [''/api/v1/auth/change-password'', ''/api/v1/auth/logout'']
       (to_lower (trim_right (CHR ''/'') (rq_Path r)))"

lemma isPasswordChangeRoute_path_value [simp]:
  "isPasswordChangeRoute (r\<lparr>rq_PathValue := v\<rparr>) = isPasswordChangeRoute r"
  by (simp add: isPasswordChangeRoute_def)

type_synonym 's validator = "uuid \<Rightarrow> time \<Rightarrow> string \<Rightarrow> 's \<Rightarrow> error + bool"

definition Authenticate :: "token_issuer \<Rightarrow> time \<Rightarrow> 's validator option \<Rightarrow> ('b, 's) handler \<Rightarrow> ('b, 's) handler" where
  "Authenticate issuer now valid next r cx s =
     (case cut_prefix (header_of r ''Authorization'') ''Bearer '' of
        None \<Rightarrow> refuse ErrUnauthenticated s
      | Some token \<Rightarrow>
          if token = [] then refuse ErrUnauthenticated s
          else (case ParseAccessToken issuer now token of
            None \<Rightarrow> refuse ErrTokenInvalid s
          | Some claims \<Rightarrow>
              if (case valid of None \<Rightarrow> False
                  | Some v \<Rightarrow> v (cl_UserID claims) (cl_IssuedAt claims) (cl_Role claims) s \<noteq> Inr True)
              then refuse ErrTokenInvalid s
              else if cl_Pending claims \<and> \<not> isPasswordChangeRoute r then refuse ErrMustChangePassword s
              else next r (cx\<lparr>cx_UserID := Some (cl_UserID claims), cx_Role := cl_Role claims\<rparr>) s))"

definition RequireLibrarian :: "('b, 's) handler \<Rightarrow> ('b, 's) handler" where
  "RequireLibrarian next r cx s =
     (if (case parse_role (cx_Role cx) of None \<Rightarrow> True | Some x \<Rightarrow> \<not> CanManageLibrary x)
      then refuse ErrForbidden s else next r cx s)"

definition RequireMember :: "('b, 's) handler \<Rightarrow> ('b, 's) handler" where
  "RequireMember next r cx s = (if cx_Role cx \<noteq> ''member'' then refuse ErrForbidden s else next r cx s)"

definition RequireAdmin :: "('b, 's) handler \<Rightarrow> ('b, 's) handler" where
  "RequireAdmin next r cx s = (if cx_Role cx \<noteq> ''admin'' then refuse ErrForbidden s else next r cx s)"

text \<open>net.SplitHostPort and the first part of a list, the two ways to an address.\<close>

definition clientIP :: "(string \<Rightarrow> string option) \<Rightarrow> request \<Rightarrow> bool \<Rightarrow> string" where
  "clientIP split_host r trustProxyHeaders =
     (let direct = (case split_host (rq_RemoteAddr r) of None \<Rightarrow> rq_RemoteAddr r | Some h \<Rightarrow> h);
          cf = header_of r ''Cf-Connecting-Ip''; forwarded = header_of r ''X-Forwarded-For'' in
      if trustProxyHeaders \<and> cf \<noteq> [] then cf
      else if trustProxyHeaders \<and> forwarded \<noteq> []
      then trim_space (takeWhile (\<lambda>c. c \<noteq> CHR '','') forwarded)
      else direct)"

text \<open>The limiters of a throttle are part of the state: the shared one and its fallback.\<close>

definition RateLimit ::
  "(string \<Rightarrow> int \<Rightarrow> duration \<Rightarrow> time \<Rightarrow> 'l \<Rightarrow> (string + bool) \<times> 'l) \<Rightarrow> policy \<Rightarrow> (string \<Rightarrow> string option) \<Rightarrow> bool \<Rightarrow>
   time \<Rightarrow> ('b, 'l \<times> memory \<times> 's) handler \<Rightarrow> ('b, 'l \<times> memory \<times> 's) handler" where
  "RateLimit lim p split_host trustProxyHeaders now next r cx st =
     (case st of (l, m, s) \<Rightarrow>
        let key = ''rl:ip:'' @ clientIP split_host r trustProxyHeaders in
        case (case lim key (pol_Limit p) (pol_Window p) now l of
                (Inr ok, l) \<Rightarrow> (ok, l, m)
              | (Inl e, l) \<Rightarrow> (case Memory_Allow key (pol_Limit p) (pol_Window p) now m of (ok, m) \<Rightarrow> (ok, l, m))) of
          (ok, l, m) \<Rightarrow>
            if \<not> ok
            then (Some ((Error 429 ''RATE_LIMITED'' ''Too many requests from this network. Please wait a minute.'')
                    \<lparr>rp_Header := [(''Retry-After'', ''60''), (''Content-Type'', ''application/json; charset=utf-8'')]\<rparr>),
                  l, m, s)
            else next r cx (l, m, s))"

definition add_headers :: "(string \<times> string) list \<Rightarrow> 'b reply option \<times> 's \<Rightarrow> 'b reply option \<times> 's" where
  "add_headers hs res = (case res of (rp, s) \<Rightarrow> (map_option (\<lambda>x. x\<lparr>rp_Header := hs @ rp_Header x\<rparr>) rp, s))"

definition WithRequestID :: "string \<Rightarrow> ('b, 's) handler \<Rightarrow> ('b, 's) handler" where
  "WithRequestID fresh next r cx s =
     (let given = header_of r ''X-Request-Id''; i = (if given = [] then fresh else given)
      in add_headers [(''X-Request-ID'', i)] (next r (cx\<lparr>cx_RequestID := i\<rparr>) s))"

text \<open>
  The headers the chain had set before a panic stay on the reply of Recover; the model keeps the reply
  itself, whose status, code and message are those of an internal error.
\<close>

definition Recover :: "('b, 's) handler \<Rightarrow> ('b, 's) handler" where
  "Recover next r cx s = (case next r cx s of (None, s) \<Rightarrow> (Some internal_error, s) | res \<Rightarrow> res)"

definition cors_headers :: "string list \<Rightarrow> string \<Rightarrow> (string \<times> string) list" where
  "cors_headers origins origin =
     (if origin \<noteq> [] \<and> List.member (map trim_space origins) origin
      then [(''Access-Control-Allow-Origin'', origin), (''Access-Control-Allow-Credentials'', ''true''),
            (''Access-Control-Allow-Methods'', ''GET, POST, PATCH, DELETE, OPTIONS''),
            (''Access-Control-Allow-Headers'', ''Authorization, Content-Type, X-Request-ID''),
            (''Access-Control-Max-Age'', ''86400''), (''Vary'', ''Origin'')]
      else [])"

definition CORS :: "string list \<Rightarrow> ('b, 's) handler \<Rightarrow> ('b, 's) handler" where
  "CORS origins next r cx s =
     (let hs = cors_headers origins (header_of r ''Origin'') in
      if rq_Method r = ''OPTIONS''
      then (Some (bare 204 hs), s)
      else add_headers hs (next r cx s))"

definition SecurityHeaders :: "('b, 's) handler \<Rightarrow> ('b, 's) handler" where
  "SecurityHeaders next r cx s =
     add_headers [(''X-Content-Type-Options'', ''nosniff''), (''X-Frame-Options'', ''DENY''),
        (''Referrer-Policy'', ''no-referrer''),
        (''Strict-Transport-Security'', ''max-age=31536000; includeSubDomains'')] (next r cx s)"

section \<open>The route table\<close>

text \<open>Who may call a route, as the router composes the middleware around its handler.\<close>

datatype guard = Public | Throttled | SignedIn | MemberOnly | Staff | AdminOnly

record route =
  rt_Method :: string
  rt_Pattern :: "string list"
  rt_Guard :: guard
  rt_Endpoint :: string

definition route_of :: "string \<Rightarrow> string list \<Rightarrow> guard \<Rightarrow> string \<Rightarrow> route" where
  "route_of method pattern g endpoint =
     \<lparr>rt_Method = method, rt_Pattern = pattern, rt_Guard = g, rt_Endpoint = endpoint\<rparr>"

text \<open>A wildcard of a pattern is the empty segment here; no clean path has one.\<close>

definition wild :: string where
  "wild = []"

definition api :: "string list \<Rightarrow> string list" where
  "api ss = ''api'' # ''v1'' # ss"

definition routes :: "bool \<Rightarrow> route list" where
  "routes webhook =
   [route_of ''GET'' [''healthz''] Public ''Health'',
    route_of ''GET'' [] Public ''Root'',
    route_of ''GET'' [''docs''] Public ''Docs'',
    route_of ''GET'' [''openapi.yaml''] Public ''Spec'',
    route_of ''GET'' (api [''books'']) Public ''Catalogue.Search'',
    route_of ''GET'' (api [''books'', wild]) Public ''Catalogue.Get'',
    route_of ''GET'' (api [''books'', ''new-arrivals'']) Public ''Catalogue.NewArrivals'',
    route_of ''GET'' (api [''books'', wild, ''related'']) Public ''Catalogue.Related'',
    route_of ''GET'' (api [''catalogue'', ''facets'']) Public ''Catalogue.Facets'',
    route_of ''POST'' (api [''auth'', ''login'']) Throttled ''Auth.Login'',
    route_of ''POST'' (api [''auth'', ''refresh'']) Throttled ''Auth.Refresh'',
    route_of ''POST'' (api [''auth'', ''forgot-password'']) Throttled ''Auth.ForgotPassword'',
    route_of ''POST'' (api [''auth'', ''reset-password'']) Throttled ''Auth.ResetPassword''] @
   (if webhook then [route_of ''POST'' (api [''webhooks'', ''resend'']) Public ''ResendWebhook''] else []) @
   [route_of ''POST'' (api [''auth'', ''logout'']) SignedIn ''Auth.Logout'',
    route_of ''POST'' (api [''auth'', ''change-password'']) SignedIn ''Auth.ChangePassword'',
    route_of ''GET'' (api [''me'', ''loans'']) SignedIn ''Circulation.MyLoans'',
    route_of ''POST'' (api [''me'', ''loans'']) MemberOnly ''Circulation.SelfCheckout'',
    route_of ''GET'' (api [''me'', ''history'']) SignedIn ''Circulation.MyHistory'',
    route_of ''GET'' (api [''me'', ''reservations'']) SignedIn ''Reservations.List'',
    route_of ''POST'' (api [''reservations'']) SignedIn ''Reservations.Create'',
    route_of ''DELETE'' (api [''reservations'', wild]) SignedIn ''Reservations.Cancel'',
    route_of ''GET'' (api [''me'', ''bookmarks'']) SignedIn ''Bookmarks.List'',
    route_of ''POST'' (api [''bookmarks'']) SignedIn ''Bookmarks.Create'',
    route_of ''DELETE'' (api [''bookmarks'', wild]) SignedIn ''Bookmarks.Delete'',
    route_of ''GET'' (api [''me'', ''saved-searches'']) MemberOnly ''SavedSearches.List'',
    route_of ''POST'' (api [''me'', ''saved-searches'']) MemberOnly ''SavedSearches.Create'',
    route_of ''DELETE'' (api [''me'', ''saved-searches'', wild]) MemberOnly ''SavedSearches.Delete'',
    route_of ''POST'' (api [''me'', ''devices'']) SignedIn ''Devices.Register'',
    route_of ''DELETE'' (api [''me'', ''devices'']) SignedIn ''Devices.Unregister'',
    route_of ''GET'' (api [''books'', ''lookup'']) Staff ''Lookup.Lookup'',
    route_of ''POST'' (api [''books'']) Staff ''Catalogue.Create'',
    route_of ''PATCH'' (api [''books'', wild]) Staff ''Catalogue.UpdateBook'',
    route_of ''POST'' (api [''books'', wild, ''archive'']) Staff ''Catalogue.Archive'',
    route_of ''POST'' (api [''books'', wild, ''copies'']) Staff ''Catalogue.AddCopy'',
    route_of ''PATCH'' (api [''copies'', wild]) Staff ''Catalogue.UpdateCopy'',
    route_of ''GET'' (api [''copies'', ''lookup'']) Staff ''Catalogue.CopyAtDesk'',
    route_of ''POST'' (api [''loans'']) Staff ''Circulation.Borrow'',
    route_of ''POST'' (api [''loans'', wild, ''return'']) Staff ''Circulation.Return'',
    route_of ''GET'' (api [''loans'']) Staff ''Circulation.List'',
    route_of ''GET'' (api [''members'']) Staff ''Members.List'',
    route_of ''POST'' (api [''members'']) Staff ''Members.Create'',
    route_of ''POST'' (api [''members'', ''import'']) Staff ''Members.ImportCSV'',
    route_of ''GET'' (api [''members'', wild]) Staff ''Members.Get'',
    route_of ''PATCH'' (api [''members'', wild, ''status'']) Staff ''Members.SetStatus'',
    route_of ''PATCH'' (api [''members'', wild, ''role'']) AdminOnly ''Members.SetRole'',
    route_of ''GET'' (api [''admin'', ''dashboard'']) Staff ''Admin.Dashboard'',
    route_of ''GET'' (api [''admin'', ''audit'']) AdminOnly ''Admin.Audit'',
    route_of ''GET'' (api [''admin'', ''invitations'']) AdminOnly ''Admin.InvitationDeliveries'',
    route_of ''POST'' (api [''admin'', ''members'', wild, ''invitation'']) AdminOnly ''Admin.ResendInvitation'']"

text \<open>The server's choice: patterns of the method (GET serves HEAD too) that match, a literal before a wildcard.\<close>

fun segments_match :: "string list \<Rightarrow> string list \<Rightarrow> bool" where
  "segments_match [] [] = True"
| "segments_match (p # ps) (s # ss) = ((p = s \<or> (p = wild \<and> s \<noteq> [])) \<and> segments_match ps ss)"
| "segments_match _ _ = False"

definition method_match :: "string \<Rightarrow> string \<Rightarrow> bool" where
  "method_match pattern m \<longleftrightarrow> pattern = m \<or> (pattern = ''GET'' \<and> m = ''HEAD'')"

definition path_segments :: "string \<Rightarrow> string list" where
  "path_segments path = (if path = ''/'' then [] else split_on (CHR ''/'') (drop 1 path))"

text \<open>What the wildcard of a route stands for; no route has two.\<close>

definition path_value :: "route \<Rightarrow> request \<Rightarrow> string" where
  "path_value x r =
     (case find (\<lambda>(p, v). p = wild) (zip (rt_Pattern x) (path_segments (rq_Path r))) of
        None \<Rightarrow> [] | Some (p, v) \<Rightarrow> v)"

definition wildcards :: "route \<Rightarrow> nat" where
  "wildcards x = length (filter (\<lambda>s. s = wild) (rt_Pattern x))"

definition select_route :: "route list \<Rightarrow> request \<Rightarrow> nat + route" where
  "select_route table r =
     (let on_path = filter (\<lambda>x. segments_match (rt_Pattern x) (path_segments (rq_Path r))) table;
          ok = filter (\<lambda>x. method_match (rt_Method x) (rq_Method r)) on_path in
      case first_by wildcards (\<lambda>x. True) ok of
        Some x \<Rightarrow> Inr x
      | None \<Rightarrow> Inl (if on_path = [] then 404 else 405))"

section \<open>The router\<close>

record ('b, 's) options =
  op_Issuer :: token_issuer
  op_CORSOrigins :: "string list"
  op_SessionValid :: "'s validator option"
  op_Throttle :: "('b, 's) handler \<Rightarrow> ('b, 's) handler"

definition guarded :: "('b, 's) options \<Rightarrow> time \<Rightarrow> guard \<Rightarrow> ('b, 's) handler \<Rightarrow> ('b, 's) handler" where
  "guarded opts now g h =
     (let authenticate = Authenticate (op_Issuer opts) now (op_SessionValid opts) in
      case g of
        Public \<Rightarrow> h
      | Throttled \<Rightarrow> op_Throttle opts h
      | SignedIn \<Rightarrow> authenticate h
      | MemberOnly \<Rightarrow> authenticate (RequireMember h)
      | Staff \<Rightarrow> authenticate (RequireLibrarian h)
      | AdminOnly \<Rightarrow> authenticate (RequireAdmin h))"

definition mux :: "('b, 's) options \<Rightarrow> time \<Rightarrow> bool \<Rightarrow> (string \<Rightarrow> ('b, 's) handler) \<Rightarrow> ('b, 's) handler" where
  "mux opts now webhook endpoint r cx s =
     (case select_route (routes webhook) r of
        Inl status \<Rightarrow> (Some (bare status []), s)
      | Inr x \<Rightarrow> guarded opts now (rt_Guard x) (endpoint (rt_Endpoint x)) (r\<lparr>rq_PathValue := path_value x r\<rparr>) cx s)"

definition NewRouter :: "('b, 's) options \<Rightarrow> time \<Rightarrow> bool \<Rightarrow> string \<Rightarrow> (string \<Rightarrow> ('b, 's) handler) \<Rightarrow> ('b, 's) handler" where
  "NewRouter opts now webhook fresh endpoint =
     Recover (WithRequestID fresh (CORS (op_CORSOrigins opts) (SecurityHeaders (mux opts now webhook endpoint))))"

section \<open>Every business error has its own reply\<close>

lemma errors_is_refl: "errors_is e e"
  by (cases e) simp_all

text \<open>An error of the domain, as opposed to one of the driver, a plain text or a wrapping.\<close>

fun business :: "error \<Rightarrow> bool" where
  "business (ErrDriver p) = False"
| "business (ErrText s) = False"
| "business (ErrWrap s e) = False"
| "business e = True"

lemma errors_is_business: "business e \<Longrightarrow> errors_is e t \<longleftrightarrow> e = t"
  by (cases e) simp_all

text \<open>The statuses of the map, without the texts.\<close>

lemma errorMap_status:
  "map (\<lambda>(e, status, _). (e, status)) errorMap =
   [(ErrInvalidBookMetadata, 400), (ErrInvalidSearch, 400), (ErrSavedSearchLimit, 409),
    (ErrInvalidCredentials, 401), (ErrUnauthenticated, 401), (ErrTokenInvalid, 401), (ErrForbidden, 403),
    (ErrMemberNotActive, 403), (ErrMustChangePassword, 403), (ErrMemberSuspended, 403), (ErrRateLimited, 429),
    (ErrNotFound, 404), (ErrCopyNotFound, 404), (ErrDuplicateISBN, 409), (ErrDuplicateAccession, 409),
    (ErrConflict, 409), (ErrCopyNotAvailable, 409), (ErrReservedForOther, 409), (ErrCopyNotBorrowable, 422),
    (ErrLoanAlreadyClosed, 409), (ErrLastCopyRetained, 409), (ErrAlreadyReserved, 409), (ErrCopiesAvailable, 409),
    (ErrLoanLimitReached, 409), (ErrInvalidMemberCategory, 400), (ErrNoCategory, 422), (ErrPasswordTooWeak, 422),
    (ErrInvalidCallNumber, 422), (ErrNotReservable, 422), (ErrInvalidTransition, 422), (ErrCopyOnLoan, 409)]"
  unfolding errorMap_def by (simp only: list.map prod.case)

fun root_cause :: "error \<Rightarrow> error" where
  "root_cause (ErrWrap s e) = root_cause e"
| "root_cause e = e"

lemma errors_is_root: "business t \<Longrightarrow> errors_is e t \<longleftrightarrow> root_cause e = t"
  by (induction e rule: root_cause.induct) auto

lemma root_not_wrap: "root_cause e \<noteq> ErrWrap s x"
  by (induction e rule: root_cause.induct) simp_all

lemma errorMap_keys: "map fst errorMap = map fst (map (\<lambda>(e, status, _). (e, status)) errorMap)"
  by (simp add: comp_def case_prod_beta)

lemma business_in_map: "business e \<Longrightarrow> e \<in> set (map fst errorMap)"
  unfolding errorMap_keys errorMap_status by (cases e) simp_all

lemma map_client: "(t, status, code, msg) \<in> set errorMap \<Longrightarrow> business t \<and> 400 \<le> status \<and> status < 500"
proof -
  assume "(t, status, code, msg) \<in> set errorMap"
  then have "(t, status) \<in> set (map (\<lambda>(e, status, _). (e, status)) errorMap)" by force
  then show ?thesis unfolding errorMap_status by auto
qed

lemma FromError_business:
  assumes "business (root_cause e)"
  shows "\<exists>status. (root_cause e, status) \<in> set (map (\<lambda>(e, status, _). (e, status)) errorMap) \<and>
    rp_Status (FromError e) = status \<and> 400 \<le> status \<and> status < 500"
proof -
  let ?P = "\<lambda>(target, _). errors_is e target"
  from business_in_map [OF assms] obtain x where "x \<in> set errorMap" "fst x = root_cause e" by auto
  moreover have "errors_is e (root_cause e)" using errors_is_root [OF assms] by simp
  ultimately have "?P x" "x \<in> set errorMap" by (simp_all add: case_prod_unfold)
  then have "find ?P errorMap \<noteq> None" unfolding find_None_iff by blast
  then obtain t status code msg where f: "find ?P errorMap = Some (t, status, code, msg)" by (cases "find ?P errorMap") auto
  from find_SomeD [OF f] have t: "(t, status, code, msg) \<in> set errorMap" "errors_is e t" by auto
  with map_client have "business t" "400 \<le> status" "status < 500" by blast+
  moreover from this t(2) have "root_cause e = t" by (simp add: errors_is_root)
  moreover have "(t, status) \<in> set (map (\<lambda>(e, status, _). (e, status)) errorMap)" using t(1) by force
  ultimately show ?thesis using f by (simp add: FromError_def Error_def)
qed

lemma FromError_other: "\<not> business (root_cause e) \<Longrightarrow> FromError e = internal_error"
proof -
  assume "\<not> business (root_cause e)"
  then have "\<not> errors_is e t" if "(t, rest) \<in> set errorMap" for t rest
    using that map_client errors_is_root by (cases rest) metis
  then have "find (\<lambda>(target, _). errors_is e target) errorMap = None" by (auto simp: find_None)
  then show ?thesis by (simp add: FromError_def)
qed

section \<open>Who gets through\<close>

lemma cut_prefix_Some: "cut_prefix s p = Some rest \<Longrightarrow> s = p @ rest"
  unfolding cut_prefix_def has_prefix_def by (metis append_take_drop_id option.distinct(1) option.inject)

lemma Authenticate_cases:
  obtains e where "e \<in> {ErrUnauthenticated, ErrTokenInvalid, ErrMustChangePassword}"
    and "Authenticate issuer now valid next r cx s = refuse e s"
  | token claims where "header_of r ''Authorization'' = ''Bearer '' @ token"
    and "ParseAccessToken issuer now token = Some claims"
    and "\<forall>v. valid = Some v \<longrightarrow> v (cl_UserID claims) (cl_IssuedAt claims) (cl_Role claims) s = Inr True"
    and "cl_Pending claims \<longrightarrow> isPasswordChangeRoute r"
    and "Authenticate issuer now valid next r cx s =
      next r (cx\<lparr>cx_UserID := Some (cl_UserID claims), cx_Role := cl_Role claims\<rparr>) s"
proof (cases "cut_prefix (header_of r ''Authorization'') ''Bearer ''")
  case None
  show thesis by (rule that(1) [of ErrUnauthenticated]) (simp_all add: Authenticate_def None)
next
  case (Some token)
  then have h: "header_of r ''Authorization'' = ''Bearer '' @ token"
    by (rule cut_prefix_Some)
  show thesis
  proof (cases "token = []")
    case True
    show thesis by (rule that(1) [of ErrUnauthenticated]) (simp_all add: Authenticate_def Some True)
  next
    case ne: False
    show thesis
    proof (cases "ParseAccessToken issuer now token")
      case None
      note b = \<open>cut_prefix _ _ = Some token\<close>
      show thesis by (rule that(1) [of ErrTokenInvalid]) (simp_all add: Authenticate_def None b ne)
    next
      case (Some claims)
      let ?bad = "case valid of None \<Rightarrow> False
        | Some v \<Rightarrow> v (cl_UserID claims) (cl_IssuedAt claims) (cl_Role claims) s \<noteq> Inr True"
      note c = \<open>cut_prefix _ _ = Some token\<close>
      consider ?bad | "\<not> ?bad" "cl_Pending claims \<and> \<not> isPasswordChangeRoute r"
        | "\<not> ?bad" "\<not> (cl_Pending claims \<and> \<not> isPasswordChangeRoute r)" by blast
      then show thesis
      proof cases
        case 1
        then show thesis
          by (intro that(1) [of ErrTokenInvalid]) (simp_all add: Authenticate_def c ne Some split: option.splits)
      next
        case 2
        then show thesis
          by (intro that(1) [of ErrMustChangePassword]) (simp_all add: Authenticate_def c ne Some split: option.splits)
      next
        case 3
        then have "\<forall>v. valid = Some v \<longrightarrow> v (cl_UserID claims) (cl_IssuedAt claims) (cl_Role claims) s = Inr True"
          by auto
        with 3 show thesis
          by (intro that(2) [OF h Some]) (auto simp: Authenticate_def c ne Some split: option.splits)
      qed
    qed
  qed
qed

lemma SessionValid_True:
  "SessionValid fl i t tokenRole d = Inr True \<Longrightarrow>
   \<exists>u \<in> set (users d). user_id u = i \<and> role_string (user_role u) = tokenRole \<and> tokens_invalid_before u \<le> t"
  by (auto simp: SessionValid_def split: option.splits dest!: find_rowD)

lemma role_string_admin: "role_string r = ''admin'' \<longleftrightarrow> r = RoleAdmin"
  and role_string_member': "role_string r = ''member'' \<longleftrightarrow> r = RoleMember"
  by (cases r; simp)+

text \<open>The role check of a guard on the role of a stored account.\<close>

definition role_allowed :: "guard \<Rightarrow> role \<Rightarrow> bool" where
  "role_allowed g r = (case g of MemberOnly \<Rightarrow> r = RoleMember | Staff \<Rightarrow> CanManageLibrary r
     | AdminOnly \<Rightarrow> r = RoleAdmin | _ \<Rightarrow> True)"

definition require :: "guard \<Rightarrow> ('b, 's) handler \<Rightarrow> ('b, 's) handler" where
  "require g h = (case g of MemberOnly \<Rightarrow> RequireMember h | Staff \<Rightarrow> RequireLibrarian h
     | AdminOnly \<Rightarrow> RequireAdmin h | _ \<Rightarrow> h)"

lemma require_role:
  "cx_Role cx = role_string x \<Longrightarrow>
   require g h r cx s = (if role_allowed g x then h r cx s else refuse ErrForbidden s)"
  by (cases g) (auto simp: require_def role_allowed_def RequireMember_def RequireLibrarian_def RequireAdmin_def
      role_string_admin role_string_member')

lemma guarded_require:
  "g \<noteq> Public \<Longrightarrow> g \<noteq> Throttled \<Longrightarrow>
   guarded opts now g h = Authenticate (op_Issuer opts) now (op_SessionValid opts) (require g h)"
  by (cases g) (simp_all add: guarded_def require_def Let_def)

section \<open>Properties\<close>



lemma select_route_Inr: "select_route table r = Inr x \<Longrightarrow> x \<in> set table"
  by (auto simp: select_route_def Let_def split: option.splits if_splits dest!: first_by_Some)

text \<open>The endpoints of the public, of the staff and of the administrator.\<close>

definition open_endpoints :: "string list" where
  "open_endpoints = [''Health'', ''Root'', ''Docs'', ''Spec'', ''Catalogue.Search'', ''Catalogue.Get'',
     ''Catalogue.NewArrivals'', ''Catalogue.Related'', ''Catalogue.Facets'', ''Auth.Login'', ''Auth.Refresh'',
     ''Auth.ForgotPassword'', ''Auth.ResetPassword'', ''ResendWebhook'']"

definition staff_endpoints :: "string list" where
  "staff_endpoints = [''Lookup.Lookup'', ''Catalogue.Create'', ''Catalogue.UpdateBook'', ''Catalogue.Archive'',
     ''Catalogue.AddCopy'', ''Catalogue.UpdateCopy'', ''Catalogue.CopyAtDesk'', ''Circulation.Borrow'',
     ''Circulation.Return'', ''Circulation.List'', ''Members.List'', ''Members.Create'', ''Members.ImportCSV'',
     ''Members.Get'', ''Members.SetStatus'', ''Members.SetRole'', ''Admin.Dashboard'', ''Admin.Audit'',
     ''Admin.InvitationDeliveries'', ''Admin.ResendInvitation'']"

definition admin_endpoints :: "string list" where
  "admin_endpoints = [''Members.SetRole'', ''Admin.Audit'', ''Admin.InvitationDeliveries'', ''Admin.ResendInvitation'']"

lemma guards_by_endpoint:
  "list_all (\<lambda>x. (rt_Endpoint x \<in> set open_endpoints) = (rt_Guard x = Public \<or> rt_Guard x = Throttled)) (routes webhook)"
  "list_all (\<lambda>x. (rt_Endpoint x \<in> set staff_endpoints) = (rt_Guard x = Staff \<or> rt_Guard x = AdminOnly)) (routes webhook)"
  "list_all (\<lambda>x. (rt_Endpoint x \<in> set admin_endpoints) = (rt_Guard x = AdminOnly)) (routes webhook)"
  by (simp_all add: routes_def route_of_def open_endpoints_def staff_endpoints_def admin_endpoints_def)

lemma guard_of_endpoint:
  assumes "x \<in> set (routes webhook)"
  shows "rt_Endpoint x \<in> set open_endpoints \<longleftrightarrow> rt_Guard x = Public \<or> rt_Guard x = Throttled"
    and "rt_Endpoint x \<in> set staff_endpoints \<longleftrightarrow> rt_Guard x = Staff \<or> rt_Guard x = AdminOnly"
    and "rt_Endpoint x \<in> set admin_endpoints \<longleftrightarrow> rt_Guard x = AdminOnly"
  using guards_by_endpoint [of webhook] assms by (simp_all add: list_all_iff)

lemma guarded_cases:
  assumes "g \<noteq> Public" and "g \<noteq> Throttled" and "op_SessionValid opts = Some (\<lambda>i t x s. SessionValid fl i t x (view s))"
  obtains e where "e \<in> {ErrUnauthenticated, ErrTokenInvalid, ErrMustChangePassword, ErrForbidden}"
    and "guarded opts now g h r cx d = refuse e d"
  | token claims u where "header_of r ''Authorization'' = ''Bearer '' @ token"
    and "ParseAccessToken (op_Issuer opts) now token = Some claims" and "now < cl_ExpiresAt claims"
    and "u \<in> set (users (view d))" and "user_id u = cl_UserID claims" and "role_string (user_role u) = cl_Role claims"
    and "tokens_invalid_before u \<le> cl_IssuedAt claims" and "cl_Pending claims \<Longrightarrow> isPasswordChangeRoute r"
    and "role_allowed g (user_role u)"
    and "guarded opts now g h r cx d = h r (cx\<lparr>cx_UserID := Some (user_id u), cx_Role := role_string (user_role u)\<rparr>) d"
proof (cases rule: Authenticate_cases [of "op_Issuer opts" now "op_SessionValid opts" "require g h" r cx d])
  case (1 e)
  show thesis by (rule that(1) [of e]) (use 1 in \<open>auto simp: guarded_require [OF assms(1,2)]\<close>)
next
  case (2 token claims)
  from 2(3) assms(3) obtain u where u: "u \<in> set (users (view d))" "user_id u = cl_UserID claims"
    "role_string (user_role u) = cl_Role claims" "tokens_invalid_before u \<le> cl_IssuedAt claims"
    using SessionValid_True by blast
  let ?cx = "cx\<lparr>cx_UserID := Some (user_id u), cx_Role := role_string (user_role u)\<rparr>"
  have call: "guarded opts now g h r cx d = require g h r ?cx d"
    using 2(5) u by (simp add: guarded_require [OF assms(1,2)])
  have exp: "now < cl_ExpiresAt claims" using 2(2) by (auto simp: ParseAccessToken_def split: option.splits if_splits)
  have "cx_Role ?cx = role_string (user_role u)" by simp
  note role = require_role [OF this, of g h r d]
  show thesis
  proof (cases "role_allowed g (user_role u)")
    case True
    with 2(4) show thesis by (intro that(2) [OF 2(1,2) exp u]) (simp_all add: call role)
  next
    case False
    show thesis by (rule that(1) [of ErrForbidden]) (simp_all add: call role False)
  qed
qed


definition sample_options :: "(unit, db) options" where
  "sample_options = \<lparr>op_Issuer = sample_issuer\<lparr>ti_decode := (\<lambda>s. if s = ''abc''
       then Some \<lparr>jwt_alg = ''HS256'', jwt_signed = True, jwt_claims = \<lparr>cl_UserID = 1, cl_Role = ''librarian'',
         cl_Pending = False, cl_IssuedAt = 5, cl_ExpiresAt = 90, cl_Issuer = ''holibrary''\<rparr>\<rparr> else None)\<rparr>,
     op_CORSOrigins = [], op_SessionValid = Some (\<lambda>i t x s. SessionValid no_faults i t x (id s)), op_Throttle = (\<lambda>h. h)\<rparr>"

definition http_request :: "string \<Rightarrow> request" where
  "http_request path = \<lparr>rq_Method = ''GET'', rq_Path = path, rq_PathValue = [], rq_RawQuery = [], rq_Body = [],
     rq_Upload = BadForm, rq_Header = [(''Authorization'', ''Bearer abc'')], rq_RemoteAddr = ''10.0.0.1:80''\<rparr>"

text \<open>Endpoints that say their name.\<close>

definition named_reply :: "string \<Rightarrow> unit reply" where
  "named_reply name = (bare 200 [])\<lparr>rp_Code := name\<rparr>"

definition named_endpoint :: "string \<Rightarrow> (unit, db) handler" where
  "named_endpoint name r cx s = (Some (named_reply name), s)"

lemma refuse_status: "e \<in> {ErrUnauthenticated, ErrTokenInvalid, ErrMustChangePassword, ErrForbidden} \<Longrightarrow>
  refuse e s \<noteq> (Some (named_reply n), s')"
proof
  assume "e \<in> {ErrUnauthenticated, ErrTokenInvalid, ErrMustChangePassword, ErrForbidden}"
    and r: "refuse e s = (Some (named_reply n), s')"
  then have "business (root_cause e)" by auto
  from FromError_business [OF this] have "400 \<le> rp_Status (FromError e :: unit reply)" by auto
  with r show False by (simp add: refuse_def named_reply_def)
qed

lemma sample_list_loans:
  "mux sample_options 9 False named_endpoint (http_request ''/api/v1/loans'') background sample_db =
   (Some (named_reply ''Circulation.List''), sample_db)"
proof -
  have "select_route (routes False) (http_request ''/api/v1/loans'') =
    Inr (route_of ''GET'' (api [''loans'']) Staff ''Circulation.List'')"
    by code_simp
  moreover have "tokens_invalid_before (sample_user 1 ''LIB/1'' RoleLibrarian None) = 0" by (simp add: sample_user_def)
  moreover have "(case parse_role ''librarian'' of None \<Rightarrow> True | Some x \<Rightarrow> \<not> CanManageLibrary x) = False" by code_simp
  ultimately show ?thesis
    by (simp add: mux_def route_of_def guarded_def Let_def Authenticate_def sample_options_def http_request_def
        header_of_def cut_prefix_def has_prefix_def ParseAccessToken_def SessionValid_def find_user_row_def
        RequireLibrarian_def named_endpoint_def del: One_nat_def)
qed


end
