(* ===== verification/Requests.thy ===== *)
theory Requests
  imports Http "HOL-Library.Word"
begin

text \<open>
  Reading a request (handler/common.go and what the handlers use of net/url and encoding/json): the
  query string, the window of a page in machine integers, and the fields of a JSON body. The syntax of
  JSON is not under this model: a parameter gives the first value of a text with what follows it. The
  meaning of the value for a Go struct is: which fields are known and under which spellings, what null
  and a repeated field do, and which values do not fit.
\<close>

section \<open>The query string\<close>

definition hex_value :: "char \<Rightarrow> nat option" where
  "hex_value c =
     (if CHR ''0'' \<le> c \<and> c \<le> CHR ''9'' then Some (of_char c - of_char (CHR ''0''))
      else if CHR ''a'' \<le> c \<and> c \<le> CHR ''f'' then Some (of_char c - of_char (CHR ''a'') + 10)
      else if CHR ''A'' \<le> c \<and> c \<le> CHR ''F'' then Some (of_char c - of_char (CHR ''A'') + 10)
      else None)"

fun QueryUnescape :: "string \<Rightarrow> string option" where
  "QueryUnescape [] = Some []"
| "QueryUnescape (c # s) =
     (if c = CHR ''%'' then
        (case s of
           a # b # r \<Rightarrow>
             (case (hex_value a, hex_value b) of
                (Some x, Some y) \<Rightarrow> map_option (\<lambda>t. char_of (16 * x + y) # t) (QueryUnescape r)
              | _ \<Rightarrow> None)
         | _ \<Rightarrow> None)
      else map_option (\<lambda>t. (if c = CHR ''+'' then CHR '' '' else c) # t) (QueryUnescape s))"

definition cut_at :: "char \<Rightarrow> string \<Rightarrow> string \<times> string" where
  "cut_at sep s = (takeWhile (\<lambda>c. c \<noteq> sep) s, drop 1 (dropWhile (\<lambda>c. c \<noteq> sep) s))"

text \<open>One pair of the query: None for a malformed one; an empty stretch between two separators is no pair.\<close>

definition query_pair :: "string \<Rightarrow> (string \<times> string) option" where
  "query_pair p =
     (if CHR '';'' \<in> set p then None
      else case cut_at (CHR ''='') p of
        (k, v) \<Rightarrow> (case (QueryUnescape k, QueryUnescape v) of
          (Some k, Some v) \<Rightarrow> Some (k, v) | _ \<Rightarrow> None))"

definition query_stretches :: "string \<Rightarrow> string list" where
  "query_stretches raw = filter (\<lambda>p. p \<noteq> []) (split_on (CHR ''&'') raw)"

definition query_pairs :: "string \<Rightarrow> (string \<times> string) list" where
  "query_pairs raw = List.map_filter query_pair (query_stretches raw)"

fun add_value :: "string \<times> string \<Rightarrow> (string \<times> string list) list \<Rightarrow> (string \<times> string list) list" where
  "add_value (k, v) [] = [(k, [v])]"
| "add_value (k, v) ((k', vs) # q) = (if k = k' then (k', vs @ [v]) # q else (k', vs) # add_value (k, v) q)"

definition grouped :: "(string \<times> string) list \<Rightarrow> (string \<times> string list) list" where
  "grouped ps = fold add_value ps []"

text \<open>URL.Query drops malformed pairs; a discovery query with one is refused.\<close>

definition query_get :: "request \<Rightarrow> string \<Rightarrow> string" where
  "query_get r k = (case map_of (query_pairs (rq_RawQuery r)) k of None \<Rightarrow> [] | Some v \<Rightarrow> v)"

definition boolParam :: "request \<Rightarrow> string \<Rightarrow> bool" where
  "boolParam r name = (query_get r name = ''true'' \<or> query_get r name = ''1'')"

definition catalogueQueryValues :: "request \<Rightarrow> error + (string \<times> string list) list" where
  "catalogueQueryValues r =
     (if list_ex (\<lambda>p. query_pair p = None) (query_stretches (rq_RawQuery r)) then Inl ErrInvalidSearch
      else Inr (grouped (query_pairs (rq_RawQuery r))))"

section \<open>The window of a page\<close>

text \<open>An int of the server has 64 bits.\<close>

definition int64 :: "int \<Rightarrow> int" where
  "int64 n = sint (word_of_int n :: 64 word)"

definition atoiOr :: "string \<Rightarrow> int \<Rightarrow> int" where
  "atoiOr s def = (case atoi s of None \<Rightarrow> def | Some n \<Rightarrow> n)"

definition pagination :: "request \<Rightarrow> int \<times> int \<times> int" where
  "pagination r =
     (let page = atoiOr (query_get r ''page'') 1;
          page = (if page < 1 then 1 else page);
          limit = atoiOr (query_get r ''per_page'') 20;
          limit = (if limit < 1 \<or> 100 < limit then 20 else limit)
      in (limit, int64 (int64 (page - 1) * limit), page))"

section \<open>JSON bodies\<close>

text \<open>
  The text of a string literal comes with whether its bytes were valid UTF-8; a number is its literal.
\<close>

datatype json = Null | Bool bool | Num string | Str bool string | Arr "json list" | Obj "(string \<times> json) list"

datatype json_error =
    Unreadable string | UnknownField string | Mismatch string json
  | NotObject | Duplicate string | NotUTF8 string | NullField string | NullIn string | Trailing string | NoField

datatype field_kind = FText | FFlag | FTextPtr | FNumberPtr | FTexts | FRaw | FStruct

type_synonym struct = "(string \<times> field_kind) list"

type_synonym fields = "string \<Rightarrow> json option"

text \<open>
  Case folding of a key against a field name in ASCII: beside the letters, the Kelvin sign is a k and
  the long s an s.
\<close>

function fold_key :: "string \<Rightarrow> string" where
  "fold_key s =
     (if s = [] then []
      else if has_prefix s [CHR 0xE2, CHR 0x84, CHR 0xAA] then CHR ''k'' # fold_key (drop 3 s)
      else if has_prefix s [CHR 0xC5, CHR 0xBF] then CHR ''s'' # fold_key (drop 2 s)
      else lower_byte (hd s) # fold_key (drop 1 s))"
  by pat_completeness auto

termination by (relation "measure length") auto

declare fold_key.simps [simp del]

definition field_for :: "struct \<Rightarrow> string \<Rightarrow> (string \<times> field_kind) option" where
  "field_for st k =
     (case find (\<lambda>(n, _). n = k) st of
        Some f \<Rightarrow> Some f | None \<Rightarrow> find (\<lambda>(n, _). n = fold_key k) st)"

fun is_text_or_null :: "json \<Rightarrow> bool" where
  "is_text_or_null (Str _ _) = True"
| "is_text_or_null Null = True"
| "is_text_or_null _ = False"

text \<open>The new content of a field, or None where the value does not fit.\<close>

fun assign :: "field_kind \<Rightarrow> json \<Rightarrow> json option \<Rightarrow> json option option" where
  "assign FText Null old = Some old"
| "assign FText (Str u s) old = Some (Some (Str u s))"
| "assign FFlag Null old = Some old"
| "assign FFlag (Bool b) old = Some (Some (Bool b))"
| "assign FTextPtr Null old = Some None"
| "assign FTextPtr (Str u s) old = Some (Some (Str u s))"
| "assign FNumberPtr Null old = Some None"
| "assign FNumberPtr (Num n) old = (if atoi n = None then None else Some (Some (Num n)))"
| "assign FTexts Null old = Some None"
| "assign FTexts (Arr vs) old = (if list_all is_text_or_null vs then Some (Some (Arr vs)) else None)"
| "assign FRaw Null old = Some None"
| "assign FRaw (Obj kvs) old = Some (Some (Obj ((case old of Some (Obj o') \<Rightarrow> o' | _ \<Rightarrow> []) @ kvs)))"
| "assign FStruct Null old = Some old"
| "assign FStruct (Obj kvs) old = Some (Some (Obj ((case old of Some (Obj o') \<Rightarrow> o' | _ \<Rightarrow> []) @ kvs)))"
| "assign _ _ _ = None"

text \<open>The first complaint is the one reported; the rest of the object is still read.\<close>

definition first_error :: "json_error option \<Rightarrow> json_error \<Rightarrow> json_error option" where
  "first_error err e = (case err of None \<Rightarrow> Some e | Some e' \<Rightarrow> Some e')"

fun decode_fields :: "struct \<Rightarrow> (string \<times> json) list \<Rightarrow> json_error option \<times> fields \<Rightarrow> json_error option \<times> fields" where
  "decode_fields st [] acc = acc"
| "decode_fields st ((k, v) # kvs) (err, fs) =
     decode_fields st kvs
       (case field_for st k of
          None \<Rightarrow> (first_error err (UnknownField k), fs)
        | Some (n, kind) \<Rightarrow> (case assign kind v (fs n) of
            None \<Rightarrow> (first_error err (Mismatch n v), fs)
          | Some new \<Rightarrow> (err, fs(n := new))))"

definition decode_struct :: "struct \<Rightarrow> json \<Rightarrow> json_error + fields" where
  "decode_struct st v =
     (case v of
        Obj kvs \<Rightarrow> (case decode_fields st kvs (None, \<lambda>_. None) of (None, fs) \<Rightarrow> Inr fs | (Some e, _) \<Rightarrow> Inl e)
      | Null \<Rightarrow> Inr (\<lambda>_. None)
      | _ \<Rightarrow> Inl (Mismatch [] v))"

definition maxBodyBytes :: nat where
  "maxBodyBytes = 2 ^ 20"

text \<open>A body over the limit is cut; a value that ends before the cut is still read.\<close>

definition decode :: "(string \<Rightarrow> string + json \<times> string) \<Rightarrow> struct \<Rightarrow> request \<Rightarrow> json_error + fields" where
  "decode parse st r =
     (case parse (take maxBodyBytes (rq_Body r)) of
        Inl e \<Rightarrow> Inl (Unreadable e) | Inr (v, _) \<Rightarrow> decode_struct st v)"

text \<open>The zero value of a field that was not set. A string field holds valid UTF-8 only.\<close>

definition text_field :: "(string \<Rightarrow> string) \<Rightarrow> fields \<Rightarrow> string \<Rightarrow> string" where
  "text_field repair fs n = (case fs n of Some (Str u s) \<Rightarrow> if u then s else repair s | _ \<Rightarrow> [])"

definition flag_field :: "fields \<Rightarrow> string \<Rightarrow> bool" where
  "flag_field fs n = (fs n = Some (Bool True))"

definition text_ptr :: "(string \<Rightarrow> string) \<Rightarrow> fields \<Rightarrow> string \<Rightarrow> string option" where
  "text_ptr repair fs n = (case fs n of Some (Str u s) \<Rightarrow> Some (if u then s else repair s) | _ \<Rightarrow> None)"

definition number_ptr :: "fields \<Rightarrow> string \<Rightarrow> int option" where
  "number_ptr fs n = (case fs n of Some (Num s) \<Rightarrow> atoi s | _ \<Rightarrow> None)"

definition text_of :: "(string \<Rightarrow> string) \<Rightarrow> json \<Rightarrow> string" where
  "text_of repair v = (case v of Str u s \<Rightarrow> if u then s else repair s | _ \<Rightarrow> [])"

definition texts_ptr :: "(string \<Rightarrow> string) \<Rightarrow> fields \<Rightarrow> string \<Rightarrow> string list option" where
  "texts_ptr repair fs n = (case fs n of Some (Arr vs) \<Rightarrow> Some (map (text_of repair) vs) | _ \<Rightarrow> None)"

text \<open>The members of a raw object, the last of each name; a raw value read as the payload of a search.\<close>

definition raw_jval :: "(string \<Rightarrow> string) \<Rightarrow> json \<Rightarrow> jval" where
  "raw_jval repair v =
     (case v of
        Null \<Rightarrow> JNull
      | Bool b \<Rightarrow> JBool b
      | Num s \<Rightarrow> (case atoi s of None \<Rightarrow> JOther s | Some n \<Rightarrow> JInt n)
      | Str u s \<Rightarrow> JStr (if u then s else repair s)
      | _ \<Rightarrow> JOther [])"

fun last_members :: "(string \<times> json) list \<Rightarrow> (string \<times> json) list" where
  "last_members [] = []"
| "last_members ((k, v) # kvs) =
     (if k \<in> set (map fst kvs) then last_members kvs else (k, v) # last_members kvs)"

definition raw_field :: "(string \<Rightarrow> string) \<Rightarrow> fields \<Rightarrow> string \<Rightarrow> payload option" where
  "raw_field repair fs n =
     (case fs n of Some (Obj kvs) \<Rightarrow> Some (map (\<lambda>(k, v). (k, raw_jval repair v)) (last_members kvs)) | _ \<Rightarrow> None)"

section \<open>The patch of a book\<close>

text \<open>Read member by member: exact names, each once, never null, and nothing after the object.\<close>

definition patch_struct :: struct where
  "patch_struct =
     [(''title'', FTextPtr), (''subtitle'', FTextPtr), (''authors'', FTexts), (''subjects'', FTexts),
      (''isbn13'', FTextPtr), (''isbn10'', FTextPtr), (''publisher'', FTextPtr), (''published_year'', FNumberPtr),
      (''place_of_publication'', FTextPtr), (''call_number'', FTextPtr), (''edition'', FTextPtr),
      (''language'', FTextPtr), (''description'', FTextPtr), (''faculty'', FTextPtr), (''department'', FTextPtr)]"

fun json_utf8 :: "json \<Rightarrow> bool" where
  "json_utf8 (Str u s) = u"
| "json_utf8 (Arr vs) = list_all json_utf8 vs"
| "json_utf8 (Obj kvs) = list_all (\<lambda>(k, v). json_utf8 v) kvs"
| "json_utf8 _ = True"

definition has_null :: "json \<Rightarrow> bool" where
  "has_null v = (case v of Arr vs \<Rightarrow> Null \<in> set vs | _ \<Rightarrow> False)"

fun patch_fields :: "(string \<times> json) list \<Rightarrow> fields \<Rightarrow> json_error + fields" where
  "patch_fields [] fs = Inr fs"
| "patch_fields ((k, v) # kvs) fs =
     (case map_of patch_struct k of
        None \<Rightarrow> Inl (UnknownField k)
      | Some kind \<Rightarrow>
          if fs k \<noteq> None then Inl (Duplicate k)
          else if \<not> json_utf8 v then Inl (NotUTF8 k)
          else if v = Null then Inl (NullField k)
          else if kind = FTexts \<and> has_null v then Inl (NullIn k)
          else (case assign kind v None of
            Some (Some new) \<Rightarrow> patch_fields kvs (fs(k := Some new))
          | _ \<Rightarrow> Inl (Mismatch k v)))"

definition json_space :: "char \<Rightarrow> bool" where
  "json_space c \<longleftrightarrow> c = CHR '' '' \<or> c = CHR 0x09 \<or> c = CHR 0x0A \<or> c = CHR 0x0D"

definition decodeBookPatch :: "(string \<Rightarrow> string + json \<times> string) \<Rightarrow> string \<Rightarrow> json_error + fields" where
  "decodeBookPatch parse body =
     (case parse (take maxBodyBytes body) of
        Inl e \<Rightarrow> Inl (Unreadable e)
      | Inr (Obj kvs, rest) \<Rightarrow>
          (case patch_fields kvs (\<lambda>_. None) of
             Inl e \<Rightarrow> Inl e
           | Inr fs \<Rightarrow>
               if maxBodyBytes < length body \<or> \<not> list_all json_space rest then Inl (Trailing rest)
               else if kvs = [] then Inl NoField
               else Inr fs)
      | Inr (v, rest) \<Rightarrow> Inl NotObject)"

section \<open>Bounds of a window\<close>

lemma int64_bounds: "- (2 ^ 63) \<le> int64 n" "int64 n < 2 ^ 63"
  using sint_ge [of "word_of_int n :: 64 word"] sint_lt [of "word_of_int n :: 64 word"] by (simp_all add: int64_def)

lemma int64_id: "- (2 ^ 63) \<le> n \<Longrightarrow> n < 2 ^ 63 \<Longrightarrow> int64 n = n"
  by (simp add: int64_def sint_sbintrunc' signed_take_bit_int_eq_self)

lemma atoi_bounds: "atoi s = Some n \<Longrightarrow> - (2 ^ 63) \<le> n \<and> n < 2 ^ 63"
  by (auto simp: atoi_def Let_def split: if_splits)

lemma pagination_cases:
  obtains limit page where "pagination r = (limit, int64 (int64 (page - 1) * limit), page)"
    and "1 \<le> limit" "limit \<le> 100" "1 \<le> page" "page < 2 ^ 63"
proof -
  define p where "p = atoiOr (query_get r ''page'') 1"
  define l where "l = atoiOr (query_get r ''per_page'') 20"
  have "p < 2 ^ 63" by (auto simp: p_def atoiOr_def dest: atoi_bounds split: option.splits)
  then show thesis
    by (intro that [of "if l < 1 \<or> 100 < l then 20 else l" "if p < 1 then 1 else p"])
      (auto simp: pagination_def p_def l_def Let_def)
qed

text \<open>C38: a page of a listing is a bounded window. Whatever the query string says, a page holds between one
  and a hundred rows, pages are counted from one, and the offset is the rows of the pages before as
  long as that number fits a machine integer; past that it wraps around, and may be negative.\<close>

theorem pagination_window:
  "case pagination r of (limit, offset, page) \<Rightarrow>
     1 \<le> limit \<and> limit \<le> 100 \<and> 1 \<le> page \<and> page < 2 ^ 63 \<and>
     - (2 ^ 63) \<le> offset \<and> offset < 2 ^ 63 \<and>
     ((page - 1) * limit < 2 ^ 63 \<longrightarrow> offset = (page - 1) * limit)"
proof -
  obtain limit page where p: "pagination r = (limit, int64 (int64 (page - 1) * limit), page)"
    and b: "1 \<le> limit" "limit \<le> 100" "1 \<le> page" "page < 2 ^ 63"
    by (rule pagination_cases)
  have "int64 (page - 1) = page - 1" using b by (intro int64_id) auto
  moreover have "0 \<le> (page - 1) * limit" using b by simp
  then have "(page - 1) * limit < 2 ^ 63 \<Longrightarrow> int64 ((page - 1) * limit) = (page - 1) * limit"
    by (intro int64_id) linarith+
  ultimately show ?thesis using p b int64_bounds [of "(page - 1) * limit"] by simp
qed

definition page_request :: "string \<Rightarrow> request" where
  "page_request q = (http_request ''/api/v1/loans'')\<lparr>rq_RawQuery := q\<rparr>"

theorem pagination_window_witness:
  "pagination (page_request ''page=3&per_page=50'') = (50, 100, 3)"
proof -
  have "query_pairs ''page=3&per_page=50'' = [(''page'', ''3''), (''per_page'', ''50'')]" by code_simp
  moreover have "atoi ''3'' = Some 3" "atoi ''50'' = Some 50" by code_simp+
  ultimately have "case pagination (page_request ''page=3&per_page=50'') of (l, x, p) \<Rightarrow> l = 50 \<and> p = 3"
    by (simp add: pagination_def page_request_def query_get_def atoiOr_def Let_def)
  with pagination_window [of "page_request ''page=3&per_page=50''"] show ?thesis by auto
qed

text \<open>A page number that is a machine integer, and an offset that is not a count of rows.\<close>

lemma huge_page_wraps:
  "pagination (page_request ''page=9223372036854775807'') = (20, - 40, 9223372036854775807)"
proof -
  have "query_pairs ''page=9223372036854775807'' = [(''page'', ''9223372036854775807'')]" by code_simp
  moreover have "atoi ''9223372036854775807'' = Some 9223372036854775807" by code_simp
  moreover have "atoi [] = None" by code_simp
  moreover have "int64 9223372036854775806 = 9223372036854775806" by (simp add: int64_id)
  moreover have "int64 (9223372036854775806 * 20) = - 40" by (simp add: int64_def)
  ultimately show ?thesis by (simp add: pagination_def page_request_def query_get_def atoiOr_def Let_def)
qed

section \<open>Decoded fields have their types\<close>

fun typed :: "field_kind \<Rightarrow> json \<Rightarrow> bool" where
  "typed FText (Str u s) = True"
| "typed FFlag (Bool b) = True"
| "typed FTextPtr (Str u s) = True"
| "typed FNumberPtr (Num n) = (atoi n \<noteq> None)"
| "typed FTexts (Arr vs) = list_all is_text_or_null vs"
| "typed FRaw (Obj kvs) = True"
| "typed FStruct (Obj kvs) = True"
| "typed _ _ = False"

definition well_typed :: "struct \<Rightarrow> fields \<Rightarrow> bool" where
  "well_typed st fs \<longleftrightarrow> (\<forall>n v. fs n = Some v \<longrightarrow> (\<exists>kind. (n, kind) \<in> set st \<and> typed kind v))"

lemma assign_typed: "assign kind v old = Some (Some new) \<Longrightarrow> typed kind new \<or> old = Some new"
  by (cases "(kind, v, old)" rule: assign.cases) (auto split: if_splits)

lemma field_for_Some: "field_for st k = Some (n, kind) \<Longrightarrow> (n, kind) \<in> set st \<and> (n = k \<or> n = fold_key k)"
  by (auto simp: field_for_def find_Some_iff split: option.splits) (metis nth_mem)+

lemma decode_fields_err: "fst (decode_fields st kvs (Some e, fs)) = Some e"
proof (induction kvs arbitrary: fs)
  case (Cons x kvs)
  then show ?case by (cases x) (auto simp: first_error_def split: option.splits prod.splits)
qed simp

lemma decode_fields_ok:
  "decode_fields st kvs (None, fs) = (None, fs') \<Longrightarrow> well_typed st fs \<Longrightarrow>
   well_typed st fs' \<and> (\<forall>(k, v) \<in> set kvs. field_for st k \<noteq> None) \<and>
   (\<forall>n. fs' n \<noteq> fs n \<longrightarrow> (\<exists>(k, v) \<in> set kvs. n = k \<or> n = fold_key k))"
proof (induction kvs arbitrary: fs)
  case (Cons x kvs)
  obtain k v where x: "x = (k, v)" by (cases x)
  obtain n kind where f: "field_for st k = Some (n, kind)"
    using Cons.prems(1) decode_fields_err [of st kvs "UnknownField k" fs]
    by (cases "field_for st k") (auto simp: x first_error_def)
  obtain new where a: "assign kind v (fs n) = Some new"
    using Cons.prems(1) f decode_fields_err [of st kvs "Mismatch n v" fs]
    by (cases "assign kind v (fs n)") (auto simp: x first_error_def)
  from Cons.prems(1) f a have rest: "decode_fields st kvs (None, fs(n := new)) = (None, fs')" by (simp add: x)
  have "well_typed st (fs(n := new))"
    using Cons.prems(2) field_for_Some [OF f] assign_typed [of kind v "fs n"] a
    by (auto simp: well_typed_def)
  from Cons.IH [OF rest this] f field_for_Some [OF f] show ?case by (auto simp: x split: if_splits)
qed simp

lemma patch_fields_ok:
  "patch_fields kvs fs = Inr fs' \<Longrightarrow> well_typed patch_struct fs \<Longrightarrow>
   well_typed patch_struct fs' \<and> distinct (map fst kvs) \<and> (\<forall>k \<in> set (map fst kvs). fs k = None) \<and>
   (\<forall>n. fs' n = (case map_of kvs n of None \<Rightarrow> fs n | Some v \<Rightarrow> Some v)) \<and>
   (\<forall>(k, v) \<in> set kvs. v \<noteq> Null)"
proof (induction kvs arbitrary: fs)
  case (Cons x kvs)
  obtain k v where x: "x = (k, v)" by (cases x)
  from Cons.prems(1) obtain kind new where m: "map_of patch_struct k = Some kind" and new: "fs k = None" "v \<noteq> Null"
    and a: "assign kind v None = Some (Some new)" and rest: "patch_fields kvs (fs(k := Some new)) = Inr fs'"
    by (auto simp: x split: option.splits if_splits)
  from a have v: "new = v" and t: "typed kind v"
    by (cases "(kind, v, None :: json option)" rule: assign.cases; auto split: if_splits)+
  have "well_typed patch_struct (fs(k := Some new))"
    using Cons.prems(2) map_of_SomeD [OF m] t v by (auto simp: well_typed_def)
  note ok = Cons.IH [OF rest this]
  then have wt: "well_typed patch_struct fs'" and d: "distinct (map fst kvs)"
    and un: "\<forall>k' \<in> set (map fst kvs). (fs(k := Some new)) k' = None"
    and val: "\<forall>n. fs' n = (case map_of kvs n of None \<Rightarrow> (fs(k := Some new)) n | Some v \<Rightarrow> Some v)"
    and nn: "\<forall>(k, v) \<in> set kvs. v \<noteq> Null" by blast+
  from un have k: "k \<notin> set (map fst kvs)" by (auto split: if_splits)
  then have "map_of kvs k = None" by (simp add: map_of_eq_None_iff)
  then have all: "\<forall>n. fs' n = (case map_of (x # kvs) n of None \<Rightarrow> fs n | Some v \<Rightarrow> Some v)"
    using val v by (auto simp: x split: option.split)
  have "\<forall>k' \<in> set (map fst (x # kvs)). fs k' = None" using un new k by (auto simp: x split: if_splits)
  then show ?case using d k nn new by (intro conjI wt all) (simp_all add: x)
qed simp

text \<open>C39: a body that is accepted is what its endpoint expects. The ordinary decoder takes no member it has
  no field for, and every field it sets has its declared type and was named in the body; the decoder of
  a book's patch also takes each member under its exact name only, once, and never null, so that its
  fields are exactly the members of the object.\<close>

theorem decoded_bodies_are_typed:
  "(\<forall>fs. decode parse st r = Inr fs \<longrightarrow>
      well_typed st fs \<and>
      (\<forall>kvs rest. parse (take maxBodyBytes (rq_Body r)) = Inr (Obj kvs, rest) \<longrightarrow>
         (\<forall>(k, v) \<in> set kvs. field_for st k \<noteq> None) \<and>
         (\<forall>n. fs n \<noteq> None \<longrightarrow> (\<exists>(k, v) \<in> set kvs. n = k \<or> n = fold_key k)))) \<and>
   (\<forall>fs. decodeBookPatch parse body = Inr fs \<longrightarrow>
      well_typed patch_struct fs \<and> (\<exists>kvs rest. parse (take maxBodyBytes body) = Inr (Obj kvs, rest) \<and>
        kvs \<noteq> [] \<and> distinct (map fst kvs) \<and> fs = map_of kvs \<and> (\<forall>(k, v) \<in> set kvs. v \<noteq> Null)))"
proof (intro conjI allI impI)
  fix fs assume d: "decode parse st r = Inr fs"
  have empty: "well_typed st (\<lambda>_. None)" by (simp add: well_typed_def)
  from d obtain v rest where p: "parse (take maxBodyBytes (rq_Body r)) = Inr (v, rest)" and s: "decode_struct st v = Inr fs"
    by (auto simp: decode_def split: sum.splits)
  show "well_typed st fs"
    using s empty decode_fields_ok [of st _ "\<lambda>_. None" fs]
    by (auto simp: decode_struct_def split: json.splits prod.splits option.splits)
  fix kvs rest' assume "parse (take maxBodyBytes (rq_Body r)) = Inr (Obj kvs, rest')"
  with p s have "decode_fields st kvs (None, \<lambda>_. None) = (None, fs)"
    by (auto simp: decode_struct_def split: prod.splits option.splits)
  from decode_fields_ok [OF this empty]
  show "\<forall>(k, v) \<in> set kvs. field_for st k \<noteq> None"
    and "\<And>n. fs n \<noteq> None \<Longrightarrow> \<exists>(k, v) \<in> set kvs. n = k \<or> n = fold_key k" by auto
next
  fix fs assume "decodeBookPatch parse body = Inr fs"
  then obtain kvs rest where p: "parse (take maxBodyBytes body) = Inr (Obj kvs, rest)" "kvs \<noteq> []"
    and f: "patch_fields kvs (\<lambda>_. None) = Inr fs"
    by (auto simp: decodeBookPatch_def split: sum.splits prod.splits json.splits if_splits)
  have "well_typed patch_struct (\<lambda>_. None)" by (simp add: well_typed_def)
  note ok = patch_fields_ok [OF f this]
  then have "fs = map_of kvs" by (auto simp: fun_eq_iff split: option.splits)
  with ok p show "well_typed patch_struct fs"
    and "\<exists>kvs rest. parse (take maxBodyBytes body) = Inr (Obj kvs, rest) \<and>
        kvs \<noteq> [] \<and> distinct (map fst kvs) \<and> fs = map_of kvs \<and> (\<forall>(k, v) \<in> set kvs. v \<noteq> Null)" by auto
qed

theorem decoded_bodies_are_typed_witness:
  "decode (\<lambda>_. Inr (Obj [(''Copy_ID'', Str True ''7''), (''copy_id'', Null)], [])) [(''copy_id'', FText)] (http_request ''/'') =
     Inr ((\<lambda>_. None)(''copy_id'' := Some (Str True ''7''))) \<and>
   well_typed [(''copy_id'', FText)] ((\<lambda>_. None)(''copy_id'' := Some (Str True ''7'')))"
proof -
  let ?parse = "\<lambda>_ :: string. Inr (Obj [(''Copy_ID'', Str True ''7''), (''copy_id'', Null)], []) :: string + json \<times> string"
  have "fold_key ''Copy_ID'' = ''copy_id''" by code_simp
  then have "decode ?parse [(''copy_id'', FText)] (http_request ''/'') = Inr ((\<lambda>_. None)(''copy_id'' := Some (Str True ''7'')))"
    by (simp add: decode_def decode_struct_def field_for_def)
  with decoded_bodies_are_typed [of ?parse "[(''copy_id'', FText)]" "http_request ''/''" "[]"] show ?thesis by simp
qed

end
