(* ===== verification/Notify.thy ===== *)
theory Notify
  imports Outbox Catalogue_Query
begin

text \<open>
  The text of messages and the outcome of a delivery (package notify): the templates of e-mails and
  pushes, HTML escaping, the addresses that can never receive mail, the classification of a
  provider's answers, and the signature check of its webhook. Base64, HMAC, the formats of times and
  ids and the time zone of the library belong to the standard library and are parameters.
\<close>

section \<open>Text\<close>

definition nl :: string where
  "nl = [CHR 0x0A]"

text \<open>How ids and instants are written, and how a text is read as an instant.\<close>

record formats =
  fmt_uuid :: "uuid \<Rightarrow> string"
  fmt_rfc3339 :: "time \<Rightarrow> string"
  fmt_parse :: "string \<Rightarrow> time option"
  fmt_lagos :: "time \<Rightarrow> string"

definition text_value :: "formats \<Rightarrow> jval \<Rightarrow> string option" where
  "text_value f v =
     (case v of JStr s \<Rightarrow> Some s | JUuid u \<Rightarrow> Some (fmt_uuid f u) | JTime t \<Rightarrow> Some (fmt_rfc3339 f t)
      | _ \<Rightarrow> None)"

definition valueOr :: "formats \<Rightarrow> payload \<Rightarrow> string \<Rightarrow> string \<Rightarrow> string" where
  "valueOr f payload key fallback =
     (case map_of payload key of
        None \<Rightarrow> fallback
      | Some v \<Rightarrow> (case text_value f v of None \<Rightarrow> fallback | Some s \<Rightarrow> if s = [] then fallback else s))"

definition lagos :: "formats \<Rightarrow> payload \<Rightarrow> string \<Rightarrow> string" where
  "lagos f payload key =
     (let raw = valueOr f payload key [] in
      if raw = [] then ''the date on your account''
      else case fmt_parse f raw of None \<Rightarrow> raw | Some t \<Rightarrow> fmt_lagos f t)"

text \<open>The five characters that mean something to HTML.\<close>

definition escape_char :: "char \<Rightarrow> string" where
  "escape_char c =
     (if c = CHR ''&'' then ''&amp;''
      else if c = CHR ''<'' then ''&lt;''
      else if c = CHR ''>'' then ''&gt;''
      else if c = CHR 0x22 then ''&quot;''
      else if c = CHR 0x27 then ''&#39;''
      else [c])"

definition htmlEscape :: "string \<Rightarrow> string" where
  "htmlEscape s = concat (map escape_char s)"

text \<open>url.QueryEscape: letters, digits and four marks stand for themselves, a blank is a plus.\<close>

definition hex_digit :: "nat \<Rightarrow> char" where
  "hex_digit n = (if n < 10 then char_of (48 + n) else char_of (55 + n))"

definition query_unreserved :: "char \<Rightarrow> bool" where
  "query_unreserved c \<longleftrightarrow> is_upper_byte c \<or> is_lower_byte c \<or> is_digit_byte c \<or>
     List.member [CHR ''-'', CHR ''_'', CHR ''.'', CHR ''~''] c"

definition query_escape_char :: "char \<Rightarrow> string" where
  "query_escape_char c =
     (if query_unreserved c then [c]
      else if c = CHR '' '' then ''+''
      else [CHR ''%'', hex_digit (of_char c div 16), hex_digit (of_char c mod 16)])"

definition QueryEscape :: "string \<Rightarrow> string" where
  "QueryEscape s = concat (map query_escape_char s)"

section \<open>Markup\<close>

definition button :: "string \<Rightarrow> string \<Rightarrow> string" where
  "button href label =
     ''<p style=\"margin:24px 0\"><a href=\"'' @ htmlEscape href @ ''\"'' @ nl @
     ''     style=\"display:inline-block;background:#14532d;color:#ffffff;'' @ nl @
     ''     text-decoration:none;padding:12px 22px;border-radius:6px;'' @ nl @
     ''     font-weight:600;font-size:15px\">'' @ htmlEscape label @ ''</a></p>''"

text \<open>A part that begins with a tag is inserted as it is, any other is escaped.\<close>

definition html_part :: "string \<Rightarrow> string" where
  "html_part p = (if has_prefix p ''<'' then p else ''<p>'' @ htmlEscape p @ ''</p>'')"

definition html_head :: string where
  "html_head =
     ''<!doctype html><html><body style=\"margin:0;padding:0;background:#f4f6f5\">'' @ nl @
     ''<div style=\"max-width:520px;margin:0 auto;padding:28px 20px;'' @ nl @
     ''     font-family:-apple-system,BlinkMacSystemFont,'' @ [CHR 0x27] @ ''Segoe UI'' @
     [CHR 0x27] @ '',Roboto,sans-serif;'' @ nl @
     ''     font-size:15px;line-height:1.55;color:#1c2620\">'' @ nl @
     ''  <div style=\"background:#14532d;color:#ffffff;padding:18px '' @
     ''22px;border-radius:8px 8px 0 0\">'' @ nl @
     ''    <div style=\"font-weight:600;font-size:17px\">Hezekiah Oluwasanmi '' @
     ''Library</div>'' @ nl @
     ''    <div style=\"font-size:13px;color:#b9dcc6\">Obafemi Awolowo University</div>'' @ nl @
     ''  </div>'' @ nl @
     ''  <div style=\"background:#ffffff;padding:24px 22px;border-radius:0 0 8px 8px;'' @ nl @
     ''       border:1px solid #e2e8e4;border-top:none\">'' @ nl @ ''    ''"

definition html_tail :: string where
  "html_tail =
     nl @ ''  </div>'' @ nl @ ''  <div style=\"color:#7c8a81;font-size:12px;padding:14px 4px\">'' @
     nl @ ''    This message was sent by the library management system. Please do not reply '' @
     ''to it.'' @ nl @ ''  </div>'' @ nl @ ''</div></body></html>''"

definition emailHTML :: "string list \<Rightarrow> string" where
  "emailHTML parts = html_head @ concat (map html_part parts) @ html_tail"

section \<open>Templates\<close>

record out_message =
  om_To :: string
  om_Name :: string
  om_Template :: string
  om_Payload :: payload

record rendered =
  rd_Subject :: string
  rd_Body :: string
  rd_HTML :: string

definition render_account_setup :: "string \<Rightarrow> string \<Rightarrow> rendered" where
  "render_account_setup name link =
     \<lparr>rd_Subject = ''Set your Hezekiah Oluwasanmi Library password'',
      rd_Body = ''Dear '' @ name @ '','' @ nl @ nl @
                ''Your library account is ready. Use this link to choose your password:'' @ nl @
                nl @ ''    '' @ link @ nl @ nl @
                ''This link is single-use and expires in 7 days. If it expires, please contact '' @
                ''the library.'' @ nl @ nl @ ''Hezekiah Oluwasanmi Library'',
      rd_HTML = emailHTML
        [''Dear '' @ name @ '','',
         ''<p>Your library account is ready. Use the link below to choose your '' @
           ''password.</p>'',
         button link ''Set your password'',
         ''<p style=\"color:#5f6b62;font-size:13px\">This link is single-use and expires in '' @
           ''7 days. If it expires, please contact the library.</p>'']\<rparr>"

definition render_welcome :: "string \<Rightarrow> string \<Rightarrow> rendered" where
  "render_welcome name frontend =
     \<lparr>rd_Subject = ''Your Hezekiah Oluwasanmi Library account'',
      rd_Body = ''Dear '' @ name @ '','' @ nl @ nl @
                ''Your library account is ready. Sign in with your matriculation number or your '' @
                ''university email. Please contact the library to receive a password setup link.'' @
                nl @ nl @ frontend @ nl @ nl @ ''Hezekiah Oluwasanmi Library'',
      rd_HTML = emailHTML
        [''Dear '' @ name @ '','',
         ''<p>Your library account is ready. Please contact the library to receive a '' @
           ''password setup link.</p>'',
         button frontend ''Sign in'',
         ''<p style=\"color:#5f6b62;font-size:13px\">New accounts use a single-use password '' @
           ''setup link rather than a password sent by email.</p>'']\<rparr>"

definition render_password_reset :: "string \<Rightarrow> string \<Rightarrow> string \<Rightarrow> rendered" where
  "render_password_reset name link token =
     \<lparr>rd_Subject = ''Reset your library password'',
      rd_Body = ''Dear '' @ name @ '','' @ nl @ nl @ ''Open this link to set a new password:'' @
                nl @ nl @ ''    '' @ link @ nl @ nl @
                ''The link can be used once and expires in 30 minutes.'' @ nl @ nl @
                ''If the link does not work, you can enter this code on the reset page instead:'' @
                nl @ nl @ ''    '' @ token @ nl @ nl @
                ''If you did not ask for this, ignore this message and your password will not '' @
                ''change.'' @ nl @ nl @ ''Hezekiah Oluwasanmi Library'',
      rd_HTML = emailHTML
        [''Dear '' @ name @ '','',
         ''<p>Use the button below to set a new password. It can be used once and expires '' @
           ''in 30 minutes.</p>'',
         button link ''Set a new password'',
         ''<p style=\"color:#5f6b62;font-size:13px\">If the button does not work, paste this '' @
           ''code on the reset page:</p><p '' @
           ''style=\"font-family:ui-monospace,SFMono-Regular,Menlo,monospace;font-size:13px;ba'' @
           ''ckground:#f2f5f3;padding:12px 14px;border-radius:6px;word-break:break-all\">'' @
           htmlEscape token @
           ''</p><p style=\"color:#5f6b62;font-size:13px\">If you did not ask for this, ignore '' @
           ''this message and your password will not change.</p>'']\<rparr>"

definition render_loan_receipt :: "string \<Rightarrow> string \<Rightarrow> string \<Rightarrow> rendered" where
  "render_loan_receipt name title until =
     \<lparr>rd_Subject = ''Book borrowed: '' @ title,
      rd_Body = ''Dear '' @ name @ '','' @ nl @ nl @ ''You borrowed '' @ title @ ''.'' @ nl @ nl @
                ''Please return it by '' @ until @ ''.'' @ nl @ nl @
                ''Hezekiah Oluwasanmi Library'',
      rd_HTML = []\<rparr>"

definition render_loan_due_soon :: "string \<Rightarrow> string \<Rightarrow> string \<Rightarrow> string \<Rightarrow> rendered" where
  "render_loan_due_soon frontend name title until =
     \<lparr>rd_Subject = ''Due soon: '' @ title,
      rd_Body = ''Dear '' @ name @ '','' @ nl @ nl @ title @ '' is due back on '' @ until @ ''.'' @
                nl @ nl @ ''Please return it to the Loans desk by then.'' @ nl @ nl @
                ''Hezekiah Oluwasanmi Library'',
      rd_HTML = emailHTML
        [''Dear '' @ name @ '','',
         ''<p><strong>'' @ htmlEscape title @ ''</strong> is due back on <strong>'' @
           htmlEscape until @ ''</strong>.</p>'',
         ''<p>Please return it to the Loans desk by then.</p>'',
         button (frontend @ ''/my-loans'') ''See your loans'']\<rparr>"

definition render_loan_overdue :: "string \<Rightarrow> string \<Rightarrow> string \<Rightarrow> string \<Rightarrow> rendered" where
  "render_loan_overdue frontend name title until =
     \<lparr>rd_Subject = ''Overdue: '' @ title,
      rd_Body = ''Dear '' @ name @ '','' @ nl @ nl @ title @ '' was due back on '' @ until @
                '' and has not been returned.'' @ nl @ nl @
                ''Please bring it to the Loans desk. Other readers are waiting for it.'' @ nl @ nl @
                ''Hezekiah Oluwasanmi Library'',
      rd_HTML = emailHTML
        [''Dear '' @ name @ '','',
         ''<p><strong>'' @ htmlEscape title @ ''</strong> was due back on <strong>'' @
           htmlEscape until @ ''</strong> and has not been returned.</p>'',
         ''<p>Please bring it to the Loans desk. Other readers are waiting for it.</p>'',
         button (frontend @ ''/my-loans'') ''See your loans'']\<rparr>"

definition render_reservation_ready :: "string \<Rightarrow> string \<Rightarrow> string \<Rightarrow> string \<Rightarrow> rendered" where
  "render_reservation_ready frontend name title expires =
     \<lparr>rd_Subject = ''Ready to collect: '' @ title,
      rd_Body = ''Dear '' @ name @ '','' @ nl @ nl @ ''A copy of '' @ title @
                '' is being held for you at the Loans desk.'' @ nl @ nl @
                ''Please collect it by '' @ expires @
                ''. After that it passes to the next reader waiting.'' @ nl @ nl @
                ''Hezekiah Oluwasanmi Library'',
      rd_HTML = emailHTML
        [''Dear '' @ name @ '','',
         ''<p>A copy of <strong>'' @ htmlEscape title @
           ''</strong> is being held for you at the Loans desk.</p>'',
         ''<p>Please collect it by <strong>'' @ htmlEscape expires @
           ''</strong>. After that it passes to the next reader waiting.</p>'',
         button (frontend @ ''/my-reservations'') ''See your reservations'']\<rparr>"

definition render_default :: "string \<Rightarrow> rendered" where
  "render_default name =
     \<lparr>rd_Subject = ''A message from Hezekiah Oluwasanmi Library'',
      rd_Body = ''Dear '' @ name @ '','' @ nl @ nl @ ''Please check your library account.'' @ nl,
      rd_HTML = []\<rparr>"

definition reset_link :: "string \<Rightarrow> string \<Rightarrow> string" where
  "reset_link frontend token = frontend @ ''/reset-password?token='' @ QueryEscape token"

definition Render :: "formats \<Rightarrow> string \<Rightarrow> out_message \<Rightarrow> rendered" where
  "Render f frontend m =
     (let payload = om_Payload m; name = valueOr f payload ''full_name'' (om_Name m);
          title = valueOr f payload ''title'' ''your book''; token = valueOr f payload ''token'' [];
          link = reset_link frontend token; t = om_Template m in
      if t = ''account_setup'' then render_account_setup name link
      else if t = ''welcome'' then render_welcome name frontend
      else if t = ''password_reset'' then render_password_reset name link token
      else if t = ''loan_receipt'' then render_loan_receipt name title (lagos f payload ''due_at'')
      else if t = ''loan_due_soon'' then render_loan_due_soon frontend name title (lagos f payload ''due_at'')
      else if t = ''loan_overdue'' then render_loan_overdue frontend name title (lagos f payload ''due_at'')
      else if t = ''reservation_ready''
      then render_reservation_ready frontend name title (lagos f payload ''expires_at'')
      else render_default name)"

definition SetFrontendURL :: "string \<Rightarrow> string \<Rightarrow> string" where
  "SetFrontendURL u current = (if u = [] then current else trim_right (CHR ''/'') u)"

text \<open>The one line of a push.\<close>

definition firstLine :: "string \<Rightarrow> string" where
  "firstLine body =
     (case find (\<lambda>line. line \<noteq> [] \<and> \<not> has_prefix line ''Dear '') (map trim_space (split_on (CHR 0x0A) body)) of
        None \<Rightarrow> ''You have a message from the library.'' | Some line \<Rightarrow> line)"

section \<open>Addresses\<close>

definition reservedTLDs :: "string list" where
  "reservedTLDs = [''.invalid'', ''.test'', ''.example'', ''.localhost'']"

definition reservedDomains :: "string list" where
  "reservedDomains = [''example.com'', ''example.net'', ''example.org'']"

definition reserved_domain :: "string \<Rightarrow> bool" where
  "reserved_domain d \<longleftrightarrow>
     list_ex (\<lambda>tld. d = drop 1 tld \<or> has_suffix d tld) reservedTLDs \<or>
     list_ex (\<lambda>r. d = r \<or> has_suffix d (CHR ''.'' # r)) reservedDomains"

definition IsDeliverable :: "string \<Rightarrow> bool" where
  "IsDeliverable address =
     (let addr = to_lower (trim_space address) in
      case last_index addr (CHR ''@'') of
        None \<Rightarrow> False
      | Some at \<Rightarrow>
          if at < 1 \<or> at = length addr - 1 then False else \<not> reserved_domain (drop (at + 1) addr))"

section \<open>What a provider answered\<close>

text \<open>The error of a sender: is it one that no retry can fix, and its text.\<close>

datatype send_error = SendError (permanent: bool) (reason: string)

definition isPermanent :: "int \<Rightarrow> bool" where
  "isPermanent status \<longleftrightarrow> 400 \<le> status \<and> status < 500 \<and> status \<noteq> 408 \<and> status \<noteq> 429"

definition describe :: "string \<Rightarrow> int \<Rightarrow> string \<Rightarrow> send_error" where
  "describe provider status body =
     (let b = trim_space body; b = (if 300 < length b then take 300 b @ ''...'' else b);
          text = provider @ '' returned '' @ decimal_int status @ '': '' @ b
      in if isPermanent status then SendError True (''permanent delivery failure: '' @ text)
         else SendError False text)"

text \<open>An HTTP exchange: no answer, or a status with a body and what decoding it found.\<close>

datatype http_answer = NoAnswer string | Answer int string "string option"

definition ResendResult :: "http_answer \<Rightarrow> send_error + string" where
  "ResendResult a =
     (case a of
        NoAnswer e \<Rightarrow> Inl (SendError False (''calling Resend: '' @ e))
      | Answer status body i \<Rightarrow>
          if 300 \<le> status then Inl (describe ''Resend'' status (take 2048 body))
          else case i of
            None \<Rightarrow> Inl (SendError False ''Resend response did not include a message id'')
          | Some i \<Rightarrow>
              if i = [] then Inl (SendError False ''Resend response did not include a message id'') else Inr i)"

definition FCMResult :: "http_answer \<Rightarrow> send_error + unit" where
  "FCMResult a =
     (case a of
        NoAnswer e \<Rightarrow> Inl (SendError False (''calling FCM: '' @ e))
      | Answer status body i \<Rightarrow>
          if 300 \<le> status then
            (let p = take 2048 body in
             if contains p ''UNREGISTERED'' \<or> contains p ''INVALID_ARGUMENT''
             then Inl (SendError True (''permanent delivery failure: FCM rejected the device token: '' @ trim_space p))
             else Inl (describe ''FCM'' status p))
          else Inr ())"

section \<open>The webhook's signature\<close>

definition absDuration :: "duration \<Rightarrow> duration" where
  "absDuration d = (if d < 0 then - d else d)"

text \<open>strings.Fields: the stretches between white space.\<close>

fun fields_from :: "string \<Rightarrow> string \<Rightarrow> string list" where
  "fields_from cur [] = (if cur = [] then [] else [rev cur])"
| "fields_from cur (c # s) =
     (if is_space_byte c then (if cur = [] then fields_from [] s else rev cur # fields_from [] s)
      else fields_from (c # cur) s)"

definition Fields :: "string \<Rightarrow> string list" where
  "Fields s = fields_from [] s"

text \<open>A signature of version one is a version and a value around the first comma.\<close>

definition is_signature :: "string \<Rightarrow> string \<Rightarrow> bool" where
  "is_signature expected value \<longleftrightarrow> has_prefix value ''v1,'' \<and> drop 3 value = expected"

record svix_headers =
  svix_id :: string
  svix_timestamp :: string
  svix_signature :: string

definition VerifyResendWebhook ::
  "(string \<Rightarrow> string option) \<Rightarrow> (string \<Rightarrow> string) \<Rightarrow> (string \<Rightarrow> string \<Rightarrow> string) \<Rightarrow>
   string \<Rightarrow> svix_headers \<Rightarrow> string \<Rightarrow> time \<Rightarrow> string option" where
  "VerifyResendWebhook base64_decode base64_encode hmac_sha256 secret headers body now =
     (if secret = [] then Some ''webhook secret is not configured''
      else if svix_id headers = [] \<or> svix_timestamp headers = [] \<or> svix_signature headers = []
      then Some ''missing webhook signature headers''
      else case atoi (svix_timestamp headers) of
        None \<Rightarrow> Some ''stale webhook timestamp''
      | Some seconds \<Rightarrow>
          if 5 * minute < absDuration (now - seconds * second) then Some ''stale webhook timestamp''
          else let s = (case cut_prefix secret ''whsec_'' of None \<Rightarrow> secret | Some r \<Rightarrow> r) in
            case base64_decode s of
              None \<Rightarrow> Some ''invalid webhook secret''
            | Some key \<Rightarrow>
                let signed = svix_id headers @ ''.'' @ svix_timestamp headers @ ''.'' @ body;
                    expected = base64_encode (hmac_sha256 key signed)
                in if list_ex (is_signature expected) (Fields (svix_signature headers)) then None
                   else Some ''invalid webhook signature'')"

section \<open>Escaping\<close>

definition is_markup :: "char \<Rightarrow> bool" where
  "is_markup c \<longleftrightarrow> c = CHR ''<'' \<or> c = CHR ''>'' \<or> c = CHR 0x22 \<or> c = CHR 0x27"

definition markup :: "string \<Rightarrow> string" where
  "markup s = filter is_markup s"

lemma markup_append [simp]: "markup (s @ t) = markup s @ markup t"
  by (simp add: markup_def)

lemma markup_concat: "markup (concat ss) = concat (map markup ss)"
  by (induction ss) (simp_all add: markup_def)

lemma escape_char_inert: "c' \<in> set (escape_char c) \<Longrightarrow> \<not> is_markup c'"
  by (auto simp: escape_char_def is_markup_def split: if_splits)

lemma markup_escape [simp]: "markup (htmlEscape s) = []"
  by (auto simp: markup_def htmlEscape_def filter_empty_conv dest: escape_char_inert)

lemma escape_char_prefix_free: "escape_char c @ x = escape_char d @ y \<Longrightarrow> c = d \<and> x = y"
  by (auto simp: escape_char_def split: if_splits)

lemma htmlEscape_inj: "htmlEscape s = htmlEscape t \<Longrightarrow> s = t"
proof (induction s arbitrary: t)
  case Nil
  then show ?case by (cases t) (auto simp: htmlEscape_def escape_char_def split: if_splits)
next
  case (Cons c s)
  then obtain d t' where t: "t = d # t'"
    by (cases t) (auto simp: htmlEscape_def escape_char_def split: if_splits)
  with Cons.prems escape_char_prefix_free [of c "htmlEscape s" d "htmlEscape t'"] Cons.IH [of t']
  show ?case by (simp add: htmlEscape_def)
qed

lemma html_part_tag: "html_part (CHR ''<'' # s) = CHR ''<'' # s"
  by (simp add: html_part_def has_prefix_def)

lemma html_part_text: "c \<noteq> CHR ''<'' \<Longrightarrow> html_part (c # s) = ''<p>'' @ htmlEscape (c # s) @ ''</p>''"
  by (simp add: html_part_def has_prefix_def)

lemma markup_html_text [simp]: "markup (html_part (CHR ''D'' # s)) = markup (html_part ''D'')"
  by (simp add: html_part_text markup_append del: append.simps)

lemma markup_Cons: "markup (c # s) = (if is_markup c then c # markup s else markup s)"
  by (simp add: markup_def)

lemma markup_Nil [simp]: "markup [] = []"
  by (simp add: markup_def)

lemma html_part_tag_append: "html_part ((CHR ''<'' # s) @ t) = (CHR ''<'' # s) @ t"
  by (simp add: html_part_def has_prefix_def)

lemma markup_part_text_append:
  "c \<noteq> CHR ''<'' \<Longrightarrow> markup (html_part ((c # s) @ t)) = markup ''<p>'' @ markup ''</p>''"
  by (simp add: html_part_def has_prefix_def del: append.simps append_Cons)

lemmas markup_parts = emailHTML_def button_def html_part_tag_append markup_part_text_append

section \<open>Properties\<close>

text \<open>C21: nothing in a message can change the markup of an e-mail. The angle brackets and quotes of the
  HTML are decided by the template alone: two messages of one template render to the same sequence
  of markup characters, whatever the names, titles, dates, tokens and site addresses they carry.\<close>

theorem markup_is_fixed:
  assumes "om_Template m = om_Template m'"
  shows "markup (rd_HTML (Render f frontend m)) = markup (rd_HTML (Render f' frontend' m'))"
  using assms
  by (simp add: Render_def Let_def markup_parts render_account_setup_def render_welcome_def
      render_password_reset_def render_loan_receipt_def render_loan_due_soon_def render_loan_overdue_def
      render_reservation_ready_def render_default_def del: append.simps append_Cons)

definition sample_formats :: formats where
  "sample_formats = \<lparr>fmt_uuid = decimal, fmt_rfc3339 = (\<lambda>t. decimal_int t),
     fmt_parse = (\<lambda>s. None), fmt_lagos = (\<lambda>t. decimal_int t)\<rparr>"

theorem markup_is_fixed_witness:
  "\<exists>f m m'. om_Name m = ''<script>'' \<and> om_Name m' = ''Ada'' \<and>
     markup (rd_HTML (Render f ''https://a'' m)) = markup (rd_HTML (Render f ''https://b'' m'))"
proof -
  let ?m = "\<lambda>name. \<lparr>om_To = ''a@b.ng'', om_Name = name, om_Template = ''welcome'', om_Payload = []\<rparr>"
  have "markup (rd_HTML (Render sample_formats ''https://a'' (?m ''<script>''))) =
      markup (rd_HTML (Render sample_formats ''https://b'' (?m ''Ada'')))"
    by (rule markup_is_fixed) simp
  then show ?thesis by (intro exI [of _ sample_formats] exI [of _ "?m ''<script>''"] exI [of _ "?m ''Ada''"]) simp
qed

end
