(* ===== verification/Open_Library.thy ===== *)
theory Open_Library
  imports Requests Notify
begin

text \<open>
  The external catalogue (internal/books): which address may be asked, how a question is put and how a
  redirect is followed, and what of the reply becomes a suggestion for the librarian's form. The URL
  parser and the answers of the other side are parameters: an answer to an address is a failure to reach
  it, a redirect to another address, or a status with the decoded reply, where it could be decoded.
\<close>

section \<open>The address\<close>

record url =
  u_Scheme :: string
  u_Host :: string
  u_Hostname :: string

definition allowedCatalogueHosts :: "string list" where
  "allowedCatalogueHosts = [''openlibrary.org'', ''www.openlibrary.org'', ''localhost'', ''127.0.0.1'']"

datatype url_error = BadURL string | BadScheme string | HostNotAllowed string | NotSecure

definition safeBaseURL :: "(string \<Rightarrow> string + url) \<Rightarrow> string \<Rightarrow> url_error + string" where
  "safeBaseURL parse raw =
     (if raw = [] then Inr ''https://openlibrary.org''
      else case parse raw of
        Inl e \<Rightarrow> Inl (BadURL e)
      | Inr u \<Rightarrow>
          if u_Scheme u \<noteq> ''https'' \<and> u_Scheme u \<noteq> ''http'' then Inl (BadScheme (u_Scheme u))
          else if u_Hostname u \<notin> set allowedCatalogueHosts then Inl (HostNotAllowed (u_Hostname u))
          else if u_Scheme u = ''http'' \<and> u_Hostname u \<noteq> ''localhost'' \<and> u_Hostname u \<noteq> ''127.0.0.1''
          then Inl NotSecure
          else Inr (trim_right (CHR ''/'') (u_Scheme u @ ''://'' @ u_Host u)))"

section \<open>Asking\<close>

record doc =
  d_Title :: string
  d_Subtitle :: string
  d_AuthorName :: "string list"
  d_ISBN :: "string list"
  d_Publisher :: "string list"
  d_FirstPublishYear :: int
  d_Subject :: "string list"

datatype answer = Unreachable string | Moved string | Answered nat "string + doc list"

text \<open>A redirect is followed only to an allowed host, and not after three requests.\<close>

definition CheckRedirect :: "(string \<Rightarrow> string) \<Rightarrow> string \<Rightarrow> nat \<Rightarrow> string option" where
  "CheckRedirect hostname target via =
     (if hostname target \<notin> set allowedCatalogueHosts then Some (''refusing a redirect to '' @ hostname target)
      else if 3 \<le> via then Some ''too many redirects''
      else None)"

text \<open>The requests made, with the one that ended the exchange last, and what it ended with.\<close>

function client_do ::
  "(string \<Rightarrow> string) \<Rightarrow> (string \<Rightarrow> answer) \<Rightarrow> nat \<Rightarrow> string \<Rightarrow> string list \<times> (string + nat \<times> (string + doc list))" where
  "client_do hostname ask via address =
     (case ask address of
        Unreachable e \<Rightarrow> ([address], Inl e)
      | Answered status reply \<Rightarrow> ([address], Inr (status, reply))
      | Moved target \<Rightarrow>
          if CheckRedirect hostname target (Suc via) \<noteq> None
          then ([address], Inl (the (CheckRedirect hostname target (Suc via))))
          else (case client_do hostname ask (Suc via) target of (seen, r) \<Rightarrow> (address # seen, r)))"
  by pat_completeness auto

termination by (relation "measure (\<lambda>(_, _, via, _). 3 - via)") (auto simp: CheckRedirect_def split: if_splits)

declare client_do.simps [simp del]

section \<open>The reply\<close>

record metadata =
  md_Title :: string
  md_Subtitle :: string
  md_Authors :: "string list"
  md_ISBN13 :: string
  md_ISBN10 :: string
  md_Publisher :: string
  md_PublishedYear :: "int option"
  md_Subjects :: "string list"
  md_Source :: string

fun pick :: "string list \<Rightarrow> string \<times> string \<Rightarrow> string \<times> string" where
  "pick [] (isbn13, isbn10) = (isbn13, isbn10)"
| "pick (raw # rest) (isbn13, isbn10) =
     (let s = normaliseISBN raw;
          isbn13 = (if length s = 13 \<and> isbn13 = [] then s else isbn13);
          isbn10 = (if length s = 10 \<and> isbn10 = [] then s else isbn10)
      in if isbn13 \<noteq> [] \<and> isbn10 \<noteq> [] then (isbn13, isbn10) else pick rest (isbn13, isbn10))"

definition pickISBNs :: "string list \<Rightarrow> string \<times> string" where
  "pickISBNs all = pick all ([], [])"

fun trim_from :: "string list \<Rightarrow> nat \<Rightarrow> nat \<Rightarrow> string list" where
  "trim_from [] found most = []"
| "trim_from (s # ss) found most =
     (if trim_space s = [] then trim_from ss found most
      else trim_space s # (if Suc found = most then [] else trim_from ss (Suc found) most))"

definition trimAll :: "string list \<Rightarrow> nat \<Rightarrow> string list" where
  "trimAll ss most = trim_from ss 0 most"

definition metadata_of_doc :: "doc \<Rightarrow> metadata" where
  "metadata_of_doc d =
     \<lparr>md_Title = trim_space (d_Title d), md_Subtitle = trim_space (d_Subtitle d),
      md_Authors = trimAll (d_AuthorName d) 3,
      md_ISBN13 = fst (pickISBNs (d_ISBN d)), md_ISBN10 = snd (pickISBNs (d_ISBN d)),
      md_Publisher = (case d_Publisher d of [] \<Rightarrow> [] | p # _ \<Rightarrow> trim_space p),
      md_PublishedYear = (if 0 < d_FirstPublishYear d then Some (d_FirstPublishYear d) else None),
      md_Subjects = trimAll (d_Subject d) 4, md_Source = ''openlibrary.org''\<rparr>"

definition wanted_fields :: string where
  "wanted_fields = ''title,subtitle,author_name,isbn,publisher,first_publish_year,subject''"

text \<open>url.Values.Encode puts the keys in order.\<close>

definition encode_pair :: "string \<times> string \<Rightarrow> string" where
  "encode_pair p = QueryEscape (fst p) @ ''='' @ QueryEscape (snd p)"

fun encode_pairs :: "(string \<times> string) list \<Rightarrow> string" where
  "encode_pairs [] = []"
| "encode_pairs [p] = encode_pair p"
| "encode_pairs (p # q # ps) = encode_pair p @ ''&'' @ encode_pairs (q # ps)"

definition search_query :: "string \<Rightarrow> int \<Rightarrow> string" where
  "search_query query limit =
     encode_pairs [(''fields'', wanted_fields), (''limit'', decimal_int limit), (''q'', query)]"

definition SearchExternal ::
  "(string \<Rightarrow> string) \<Rightarrow> (string \<Rightarrow> answer) \<Rightarrow> string \<Rightarrow> string \<Rightarrow> int \<Rightarrow> string + metadata list" where
  "SearchExternal hostname ask base query limit =
     (let limit = (if limit \<le> 0 \<or> 50 < limit then 10 else limit) in
      case client_do hostname ask 0 (base @ ''/search.json?'' @ search_query query limit) of
        (_, Inl e) \<Rightarrow> Inl (''reaching the external catalogue: '' @ e)
      | (_, Inr (status, reply)) \<Rightarrow>
          if status \<noteq> 200 then Inl (''the external catalogue returned '' @ decimal status)
          else (case reply of
            Inl e \<Rightarrow> Inl (''reading the external catalogue's reply: '' @ e)
          | Inr docs \<Rightarrow>
              Inr (map metadata_of_doc (filter (\<lambda>d. trim_space (d_Title d) \<noteq> []) (take (nat limit) docs)))))"

datatype lookup_error = NoExternalRecord | LookupFailed string

definition ByISBN ::
  "(string \<Rightarrow> string) \<Rightarrow> (string \<Rightarrow> answer) \<Rightarrow> string \<Rightarrow> string \<Rightarrow> lookup_error + metadata" where
  "ByISBN hostname ask base isbn =
     (let isbn = normaliseISBN isbn in
      if isbn = [] then Inl (LookupFailed ''an ISBN is required'')
      else case SearchExternal hostname ask base (''isbn:'' @ isbn) 1 of
        Inl e \<Rightarrow> Inl (LookupFailed e)
      | Inr [] \<Rightarrow> Inl NoExternalRecord
      | Inr (m # _) \<Rightarrow> Inr m)"

section \<open>The client stays where it may\<close>

lemma client_do_bounds:
  assumes "client_do hostname ask via address = (seen, r)" and "via \<le> 3"
  shows "seen \<noteq> [] \<and> hd seen = address \<and> length seen \<le> Suc (2 - via) \<and>
    (\<forall>a \<in> set (tl seen). hostname a \<in> set allowedCatalogueHosts)"
  using assms
proof (induction hostname ask via address arbitrary: seen r rule: client_do.induct)
  case (1 hostname ask via address)
  show ?case
  proof (cases "ask address")
    case (Moved target)
    show ?thesis
    proof (cases "CheckRedirect hostname target (Suc via)")
      case None
      obtain seen' where rec: "client_do hostname ask (Suc via) target = (seen', r)" and seen: "seen = address # seen'"
        using "1.prems"(1) Moved None by (subst (asm) client_do.simps) (auto split: prod.splits)
      have "via < 2" and host: "hostname target \<in> set allowedCatalogueHosts"
        using None by (auto simp: CheckRedirect_def split: if_splits)
      have "CheckRedirect hostname target (Suc via) \<noteq> None \<Longrightarrow> False" using None by simp
      note ih = "1.IH" [OF Moved _ rec]
      have "seen' \<noteq> [] \<and> hd seen' = target \<and> length seen' \<le> Suc (2 - Suc via) \<and>
        (\<forall>a \<in> set (tl seen'). hostname a \<in> set allowedCatalogueHosts)"
        using None \<open>via < 2\<close> by (intro ih) auto
      with seen host \<open>via < 2\<close> show ?thesis by (cases seen') auto
    next
      case (Some e)
      with "1.prems" Moved show ?thesis by (subst (asm) client_do.simps) auto
    qed
  qed (use "1.prems" in \<open>subst (asm) client_do.simps, auto\<close>)+
qed

text \<open>C40: asking the external catalogue cannot be turned against other hosts. An address is accepted only for
  an allowed host, and without encryption only for a local one; whatever the other side answers, the
  exchange ends after at most three requests, the first to the address of the catalogue and each
  further one to an allowed host.\<close>

theorem lookups_stay_on_allowed_hosts:
  "(case safeBaseURL parse raw of
      Inr base \<Rightarrow> base = ''https://openlibrary.org'' \<or>
        (\<exists>u. parse raw = Inr u \<and> base = trim_right (CHR ''/'') (u_Scheme u @ ''://'' @ u_Host u) \<and>
           (u_Scheme u, u_Hostname u) \<in> set (List.product [''https''] allowedCatalogueHosts @
             List.product [''http''] [''localhost'', ''127.0.0.1'']))
    | Inl _ \<Rightarrow> raw \<noteq> []) \<and>
   (case client_do hostname ask 0 address of (seen, r) \<Rightarrow>
      seen \<noteq> [] \<and> hd seen = address \<and> length seen \<le> 3 \<and>
      filter (\<lambda>a. hostname a \<notin> set allowedCatalogueHosts) (tl seen) = [])"
proof (intro conjI)
  show "case client_do hostname ask 0 address of (seen, r) \<Rightarrow>
      seen \<noteq> [] \<and> hd seen = address \<and> length seen \<le> 3 \<and>
      filter (\<lambda>a. hostname a \<notin> set allowedCatalogueHosts) (tl seen) = []"
    using client_do_bounds [of hostname ask 0 address] by (auto simp: filter_empty_conv split: prod.split)
qed (auto simp: safeBaseURL_def allowedCatalogueHosts_def split: sum.splits if_splits)

section \<open>The question arrives as it was asked\<close>

lemma hex_digits: "list_all (\<lambda>n. hex_value (hex_digit n) = Some n \<and> hex_digit n \<notin> {CHR ''&'', CHR ''='', CHR '';''}) [0..<16]"
  by code_simp

lemma hex_value_digit: "n < 16 \<Longrightarrow> hex_value (hex_digit n) = Some n"
  and hex_digit_plain: "n < 16 \<Longrightarrow> hex_digit n \<notin> {CHR ''&'', CHR ''='', CHR '';''}"
  using hex_digits by (simp_all add: list_all_iff)

lemma char_nibbles: "of_char c div 16 < (16 :: nat)" "of_char c mod 16 < (16 :: nat)"
  using nat_of_char_less_256 [of c] by (simp_all add: less_mult_imp_div_less)

lemma unescape_char: "QueryUnescape (query_escape_char c @ t) = map_option (\<lambda>s. c # s) (QueryUnescape t)"
proof -
  have "char_of (43 :: nat) = CHR ''+''" "char_of (37 :: nat) = CHR ''%''" by code_simp+
  moreover note hex_value_digit [OF char_nibbles(1) [of c]] hex_value_digit [OF char_nibbles(2) [of c]]
  ultimately show ?thesis
    by (auto simp: query_escape_char_def query_unreserved_def is_upper_byte_def is_lower_byte_def is_digit_byte_def)
qed

lemma unescape_escape: "QueryUnescape (QueryEscape s) = Some s"
  by (induction s) (simp_all add: QueryEscape_def unescape_char del: QueryUnescape.simps(2))

lemma escape_no_separator: "c \<in> {CHR ''&'', CHR ''='', CHR '';''} \<Longrightarrow> c \<notin> set (QueryEscape s)"
proof -
  have "c \<notin> set (query_escape_char x)" if "c \<in> {CHR ''&'', CHR ''='', CHR '';''}" for x c
    using that hex_digit_plain [OF char_nibbles(1) [of x]] hex_digit_plain [OF char_nibbles(2) [of x]]
    by (auto simp: query_escape_char_def query_unreserved_def is_upper_byte_def is_lower_byte_def is_digit_byte_def)
  then show "c \<in> {CHR ''&'', CHR ''='', CHR '';''} \<Longrightarrow> c \<notin> set (QueryEscape s)"
    by (auto simp: QueryEscape_def)
qed

lemma split_on_none: "c \<notin> set a \<Longrightarrow> split_on c a = [a]"
  by (induction a) auto

lemma split_on_sep: "c \<notin> set a \<Longrightarrow> split_on c (a @ c # b) = a # split_on c b"
  by (induction a) auto

lemma cut_at_sep: "c \<notin> set a \<Longrightarrow> cut_at c (a @ c # b) = (a, b)"
  by (auto simp: cut_at_def takeWhile_append dropWhile_append)

lemma query_pair_encode: "query_pair (encode_pair p) = Some p"
proof -
  have "CHR '';'' \<notin> set (encode_pair p)" by (simp add: encode_pair_def escape_no_separator)
  moreover have "cut_at (CHR ''='') (encode_pair p) = (QueryEscape (fst p), QueryEscape (snd p))"
    using cut_at_sep [OF escape_no_separator, of "CHR ''=''" "fst p" "QueryEscape (snd p)"] by (simp add: encode_pair_def)
  ultimately show ?thesis by (simp add: query_pair_def unescape_escape)
qed

lemma split_encode: "ps \<noteq> [] \<Longrightarrow> split_on (CHR ''&'') (encode_pairs ps) = map encode_pair ps"
proof (induction ps rule: encode_pairs.induct)
  case (2 p)
  then show ?case by (simp add: encode_pair_def split_on_none escape_no_separator)
next
  case (3 p q ps)
  have "CHR ''&'' \<notin> set (encode_pair p)" by (simp add: encode_pair_def escape_no_separator)
  from split_on_sep [OF this, of "encode_pairs (q # ps)"] 3 show ?case by simp
qed simp

lemma pairs_encode: "ps \<noteq> [] \<Longrightarrow> query_pairs (encode_pairs ps) = ps"
proof -
  assume ne: "ps \<noteq> []"
  have "filter (\<lambda>p. p \<noteq> []) (map encode_pair ps) = map encode_pair ps"
    by (simp add: filter_id_conv encode_pair_def)
  then have "query_stretches (encode_pairs ps) = map encode_pair ps" by (simp add: query_stretches_def split_encode [OF ne])
  then show ?thesis by (simp add: query_pairs_def List.map_filter_def query_pair_encode comp_def filter_map)
qed

text \<open>What is put into a link comes out of it. Whatever the librarian typed, the catalogue is asked exactly
  that, under its own limit, with no parameter slipped in; and the link of an invitation or a password
  reset carries exactly the token it was made for.\<close>

theorem queries_carry_their_values:
  "query_pairs (search_query query limit) =
     [(''fields'', wanted_fields), (''limit'', decimal_int limit), (''q'', query)] \<and>
   (\<exists>link. reset_link frontend token = frontend @ ''/reset-password?'' @ link \<and>
      query_pairs link = [(''token'', token)])"
proof
  show "query_pairs (search_query query limit) =
     [(''fields'', wanted_fields), (''limit'', decimal_int limit), (''q'', query)]"
    unfolding search_query_def by (rule pairs_encode) simp
  have "QueryEscape ''token'' = ''token''" by (simp add: QueryEscape_def query_escape_char_def query_unreserved_def is_lower_byte_def)
  then have "reset_link frontend token = frontend @ ''/reset-password?'' @ encode_pairs [(''token'', token)]"
    by (simp add: reset_link_def encode_pair_def)
  then show "\<exists>link. reset_link frontend token = frontend @ ''/reset-password?'' @ link \<and>
      query_pairs link = [(''token'', token)]"
    using pairs_encode [of "[(''token'', token)]"] by (intro exI [of _ "encode_pairs [(''token'', token)]"]) simp
qed

section \<open>The size of a suggestion\<close>

lemma trim_from_bound: "found < most \<Longrightarrow> length (trim_from ss found most) \<le> most - found"
proof (induction ss found most rule: trim_from.induct)
  case (2 s ss found most)
  then show ?case by (cases "Suc found = most") auto
qed simp

lemma trim_from_usable: "s \<in> set (trim_from ss found most) \<Longrightarrow> s \<noteq> []"
  by (induction ss found most rule: trim_from.induct) (auto split: if_splits)

lemma pick_lengths:
  "(x = [] \<or> length x = 13) \<Longrightarrow> (y = [] \<or> length y = 10) \<Longrightarrow> pick all (x, y) = (x', y') \<Longrightarrow>
   (x' = [] \<or> length x' = 13) \<and> (y' = [] \<or> length y' = 10)"
proof (induction all arbitrary: x y)
  case (Cons raw rest)
  define a where "a = (if length (normaliseISBN raw) = 13 \<and> x = [] then normaliseISBN raw else x)"
  define b where "b = (if length (normaliseISBN raw) = 10 \<and> y = [] then normaliseISBN raw else y)"
  have ab: "a = [] \<or> length a = 13" "b = [] \<or> length b = 10" using Cons.prems by (simp_all add: a_def b_def)
  have "(if a \<noteq> [] \<and> b \<noteq> [] then (a, b) else pick rest (a, b)) = (x', y')"
    using Cons.prems(3) by (simp only: pick.simps Let_def a_def b_def)
  with ab Cons.IH [OF ab] show ?case by (auto split: if_splits)
qed simp

text \<open>A suggestion is bounded and usable. Whatever the external catalogue answers, a lookup gives no more
  records than were asked for, each with a title, at most three authors and four subjects, none of them
  blank, and identifiers of thirteen and ten characters or none; only a reply with status 200 is read.\<close>

theorem suggestions_are_bounded:
  assumes "SearchExternal hostname ask base query limit = Inr found"
  shows "length found \<le> nat (if limit \<le> 0 \<or> 50 < limit then 10 else limit) \<and>
    (\<forall>m \<in> set found. md_Title m \<noteq> [] \<and> length (md_Authors m) \<le> 3 \<and> length (md_Subjects m) \<le> 4 \<and>
       [] \<notin> set (md_Authors m @ md_Subjects m) \<and>
       (md_ISBN13 m = [] \<or> length (md_ISBN13 m) = 13) \<and> (md_ISBN10 m = [] \<or> length (md_ISBN10 m) = 10)) \<and>
    (\<exists>seen reply. client_do hostname ask 0 (base @ ''/search.json?'' @
       search_query query (if limit \<le> 0 \<or> 50 < limit then 10 else limit)) = (seen, Inr (200, reply)))"
proof -
  define n where "n = (if limit \<le> 0 \<or> 50 < limit then 10 else limit)"
  obtain seen docs where c: "client_do hostname ask 0 (base @ ''/search.json?'' @ search_query query n) = (seen, Inr (200, Inr docs))"
    and f: "found = map metadata_of_doc (filter (\<lambda>d. trim_space (d_Title d) \<noteq> []) (take (nat n) docs))"
    using assms by (auto simp: SearchExternal_def n_def [symmetric] Let_def split: prod.splits sum.splits if_splits)
  have len: "length found \<le> nat n"
    unfolding f by (simp add: order_trans [OF length_filter_le])
  have "md_Title m \<noteq> [] \<and> length (md_Authors m) \<le> 3 \<and> length (md_Subjects m) \<le> 4 \<and>
       [] \<notin> set (md_Authors m @ md_Subjects m) \<and>
       (md_ISBN13 m = [] \<or> length (md_ISBN13 m) = 13) \<and> (md_ISBN10 m = [] \<or> length (md_ISBN10 m) = 10)"
    if m: "m \<in> set found" for m
  proof -
    from m f obtain d where d: "trim_space (d_Title d) \<noteq> []" "m = metadata_of_doc d" by auto
    have "length (trimAll ss k) \<le> k" if "0 < k" for ss k using trim_from_bound [OF that] by (simp add: trimAll_def)
    moreover have "[] \<notin> set (trimAll ss k)" for ss k using trim_from_usable by (auto simp: trimAll_def)
    moreover obtain x y where "pickISBNs (d_ISBN d) = (x, y)" by (cases "pickISBNs (d_ISBN d)")
    moreover from this have "(x = [] \<or> length x = 13) \<and> (y = [] \<or> length y = 10)"
      using pick_lengths [of "[]" "[]" "d_ISBN d" x y] by (simp add: pickISBNs_def)
    ultimately show ?thesis using d by (simp add: metadata_of_doc_def)
  qed
  with len c show ?thesis by (auto simp: n_def [symmetric])
qed

definition sample_doc :: doc where
  "sample_doc = \<lparr>d_Title = ''Go '', d_Subtitle = [], d_AuthorName = [''A'', '' '', ''B'', ''C'', ''D''],
     d_ISBN = [''0-13-110362-8'', ''9780131103627''], d_Publisher = [], d_FirstPublishYear = 1978, d_Subject = []\<rparr>"

definition sample_answer :: "string \<Rightarrow> answer" where
  "sample_answer address = (if address = ''next'' then Answered 200 (Inr [sample_doc, sample_doc]) else Moved ''next'')"

theorem suggestions_are_bounded_witness:
  "\<exists>m. SearchExternal (\<lambda>a. ''localhost'') sample_answer ''http://localhost'' ''go'' 1 = Inr [m] \<and>
     md_Title m = ''Go'' \<and> length (md_Authors m) \<le> 3"
proof -
  let ?m = "metadata_of_doc sample_doc"
  have "client_do (\<lambda>a. ''localhost'') sample_answer 0 (''http://localhost'' @ ''/search.json?'' @ search_query ''go'' 1) =
    ([''http://localhost'' @ ''/search.json?'' @ search_query ''go'' 1, ''next''], Inr (200, Inr [sample_doc, sample_doc]))"
    by (subst client_do.simps, subst client_do.simps)
      (simp add: sample_answer_def CheckRedirect_def allowedCatalogueHosts_def)
  moreover have t: "trim_space (d_Title sample_doc) = ''Go''" unfolding sample_doc_def by code_simp
  ultimately have s: "SearchExternal (\<lambda>a. ''localhost'') sample_answer ''http://localhost'' ''go'' 1 = Inr [?m]"
    by (simp add: SearchExternal_def Let_def)
  from suggestions_are_bounded [OF this] s t show ?thesis by (auto simp: metadata_of_doc_def)
qed

end
