(* ===== verification/Reservations.thy ===== *)
theory Reservations
  imports Circulation
begin

text \<open>
  The queue for a title (reservation_repo.go): joining it, leaving it, promoting its head when a
  copy comes back, releasing holds nobody collected, and the listing with positions computed at
  read time.
\<close>

section \<open>Joining the queue\<close>

definition reservable_of_book :: "uuid \<Rightarrow> db \<Rightarrow> nat" where
  "reservable_of_book b d = count_where (\<lambda>c. copy_book c = b \<and> IsReservable (copy_policy c) \<and>
     copy_status c \<noteq> CopyWithdrawn) (copies d)"

definition queue_counts :: "uuid \<Rightarrow> db \<Rightarrow> nat \<times> nat \<times> nat" where
  "queue_counts b d = (reservable_of_book b d, stock_of_book b d, available_of_book b d)"

text \<open>The place of a reservation: one more than the pending ones of the title made before it.\<close>

definition queue_position :: "db \<Rightarrow> 'a reservation_core_scheme \<Rightarrow> nat" where
  "queue_position d r = count_where (\<lambda>q. res_book q = res_book r \<and> res_status q = ResPending \<and>
     res_created_at q < res_created_at r) (reservations d) + 1"

definition new_reservation :: "time \<Rightarrow> uuid \<Rightarrow> uuid \<Rightarrow> uuid \<Rightarrow> reservation_row" where
  "new_reservation now nid b u =
     \<lparr>res_id = nid, res_book = b, res_user = u, res_status = ResPending, res_created_at = now,
      res_expires_at = None, res_notified_at = None\<rparr>"

definition reservation_view :: "int \<Rightarrow> string \<Rightarrow> reservation_row \<Rightarrow> reservation" where
  "reservation_view pos title r =
     \<lparr>res_id = res_id r, res_book = res_book r, res_user = res_user r, res_status = res_status r,
      res_created_at = res_created_at r, res_expires_at = res_expires_at r,
      res_queue_pos = pos, res_book_title = title\<rparr>"

definition insert_reservation ::
  "time \<Rightarrow> uuid \<Rightarrow> uuid \<Rightarrow> uuid \<Rightarrow> db \<Rightarrow> pg_error + reservation \<times> db" where
  "insert_reservation now nid b u d =
     (if nid \<in> res_id ` set (reservations d) then Inl (UniqueViolation ''reservations_pkey'')
      else if \<exists>r \<in> set (reservations d). open_reservation r \<and> res_book r = b \<and> res_user r = u
      then Inl (UniqueViolation ''one_open_reservation_per_user_book'')
      else if find_book_row b d = None then Inl (ForeignKeyViolation ''reservations_book_id_fkey'')
      else if find_user_row u d = None then Inl (ForeignKeyViolation ''reservations_user_id_fkey'')
      else let r = new_reservation now nid b u in
        Inr (reservation_view (int (queue_position d r)) '''' r,
             d\<lparr>reservations := reservations d @ [r]\<rparr>))"

definition Create_tx :: "faults \<Rightarrow> time \<Rightarrow> uuid \<Rightarrow> uuid \<Rightarrow> uuid \<Rightarrow> db \<Rightarrow> error + reservation \<times> db" where
  "Create_tx fl now nid b u d =
     andthen (sql fl 0 (Inr ((), d))) (\<lambda>_ d.
     andthen (sql fl 1 (Inr (queue_counts b d, d))) (\<lambda>(reservable, stock, available) d.
     fail_if (reservable = 0) ErrNotReservable (
     fail_if (0 < BorrowableCount (int stock) (int available)) ErrCopiesAvailable (
     case exec fl 2 (insert_reservation now nid b u d) of
       Inl e \<Rightarrow> Inl (if isUniqueViolation e ''one_open_reservation_per_user_book''
                     then ErrAlreadyReserved else translate e)
     | Inr (r, d) \<Rightarrow> commit fl 3 r d))))"

definition Create :: "faults \<Rightarrow> time \<Rightarrow> uuid \<Rightarrow> uuid \<Rightarrow> uuid \<Rightarrow> db \<Rightarrow> (error + reservation) \<times> db" where
  "Create fl now nid b u = transact (Create_tx fl now nid b u)"

section \<open>The member's list\<close>

definition ListForUser :: "faults \<Rightarrow> uuid \<Rightarrow> db \<Rightarrow> error + reservation list" where
  "ListForUser fl u d = sql fl 0 (Inr
     (List.map_filter (\<lambda>r. map_option
          (\<lambda>b. reservation_view (int (queue_position d r)) (book_title b) r) (find_book_row (res_book r) d))
       (sort_key queue_key (filter (\<lambda>r. res_user r = u \<and> open_reservation r) (reservations d)))))"

section \<open>Leaving the queue\<close>

definition set_reservation :: "uuid \<Rightarrow> reservation_status \<Rightarrow> reservation_row list \<Rightarrow> reservation_row list" where
  "set_reservation i s = update_where (\<lambda>r. res_id r = i) (\<lambda>r. r\<lparr>res_status := s\<rparr>)"

definition Cancel_tx :: "faults \<Rightarrow> uuid \<Rightarrow> uuid \<Rightarrow> db \<Rightarrow> error + (bool \<times> uuid) \<times> db" where
  "Cancel_tx fl i u d =
     andthen (sql fl 0 (Inr ((), d))) (\<lambda>_ d.
     andthen (sql fl 1 (case find_reservation_row i d of
                None \<Rightarrow> Inl NoRows
              | Some r \<Rightarrow> Inr ((res_status r, res_user r, res_book r), d))) (\<lambda>(priorStatus, ownerID, bookID) d.
     fail_if (ownerID \<noteq> u) ErrNotFound (
     fail_if (priorStatus \<noteq> ResPending \<and> priorStatus \<noteq> ResReady) ErrNotFound (
     andthen (sql fl 2 (Inr ((), d\<lparr>reservations := set_reservation i ResCancelled (reservations d)\<rparr>))) (\<lambda>_ d.
     commit fl 3 (priorStatus = ResReady, bookID) d)))))"

definition Cancel :: "faults \<Rightarrow> uuid \<Rightarrow> uuid \<Rightarrow> db \<Rightarrow> (error + bool \<times> uuid) \<times> db" where
  "Cancel fl i u = transact (Cancel_tx fl i u)"

section \<open>Promotion and expiry\<close>

definition next_waiting :: "uuid \<Rightarrow> db \<Rightarrow> reservation_row option" where
  "next_waiting b d = first_by queue_key (\<lambda>r. res_book r = b \<and> res_status r = ResPending) (reservations d)"

definition promoted :: "time \<Rightarrow> duration \<Rightarrow> reservation_row \<Rightarrow> reservation_row" where
  "promoted now hold r =
     r\<lparr>res_status := ResReady, res_notified_at := Some now, res_expires_at := Some (now + hold)\<rparr>"

definition PromoteNext ::
  "faults \<Rightarrow> time \<Rightarrow> uuid \<Rightarrow> duration \<Rightarrow> db \<Rightarrow> (error + reservation) \<times> db" where
  "PromoteNext fl now b hold = transact (\<lambda>d. sql fl 0
     (case next_waiting b d of
        None \<Rightarrow> Inl NoRows
      | Some r \<Rightarrow> Inr (reservation_view 0 '''' (promoted now hold r),
          d\<lparr>reservations := update_where (\<lambda>x. res_id x = res_id r) (promoted now hold) (reservations d)\<rparr>)))"

definition uncollected :: "time \<Rightarrow> reservation_row \<Rightarrow> bool" where
  "uncollected now r \<longleftrightarrow> res_status r = ResReady \<and>
     (case res_expires_at r of None \<Rightarrow> False | Some t \<Rightarrow> t < now)"

definition ExpireStale :: "faults \<Rightarrow> time \<Rightarrow> db \<Rightarrow> (error + nat) \<times> db" where
  "ExpireStale fl now = transact (\<lambda>d. sql fl 0
     (Inr (count_where (uncollected now) (reservations d),
           d\<lparr>reservations := update_where (uncollected now) (\<lambda>r. r\<lparr>res_status := ResExpired\<rparr>)
               (reservations d)\<rparr>)))"

definition BookIDForCopy :: "faults \<Rightarrow> uuid \<Rightarrow> db \<Rightarrow> error + uuid" where
  "BookIDForCopy fl c d =
     sql fl 0 (case book_of_copy c d of None \<Rightarrow> Inl NoRows | Some b \<Rightarrow> Inr b)"

section \<open>The invariant\<close>

lemma lib_inv_reservations:
  assumes "lib_inv d" and "map res_id rs = map res_id (reservations d)"
    and "res_book ` set rs \<subseteq> res_book ` set (reservations d)"
    and "res_user ` set rs \<subseteq> res_user ` set (reservations d)"
    and "distinct (map (\<lambda>r. (res_book r, res_user r)) (filter open_reservation rs))"
  shows "lib_inv (d\<lparr>reservations := rs\<rparr>)"
proof
  show "keys_ok (d\<lparr>reservations := rs\<rparr>)" using assms(1,2) by (simp add: lib_inv_def keys_ok_def)
  show "users_ok (d\<lparr>reservations := rs\<rparr>)" using assms(1) by (simp add: lib_inv_def users_ok_def)
  have r: "refs_ok d" using assms(1) by blast
  then have "res_book ` set rs \<subseteq> book_ids d" "res_user ` set rs \<subseteq> user_ids d"
    using assms(3,4) by (simp_all only: refs_ok_def subset_trans)
  with r show "refs_ok (d\<lparr>reservations := rs\<rparr>)" by (simp add: refs_ok_def id_sets)
  show "custody_ok (d\<lparr>reservations := rs\<rparr>)"
    using assms(1) by (simp add: lib_inv_def custody_ok_def open_loans_of_copy_def)
  show "queue_ok (d\<lparr>reservations := rs\<rparr>)" using assms(5) by (simp add: queue_ok_def)
qed

text \<open>An update that opens no reservation and keeps the keys keeps the index of open ones.\<close>

lemma queue_update_where:
  assumes "distinct (map (\<lambda>r. (res_book r, res_user r)) (filter open_reservation rs))"
    and "\<And>r. P r \<Longrightarrow> open_reservation (f r) \<Longrightarrow> open_reservation r"
    and "\<And>r. res_book (f r) = res_book r \<and> res_user (f r) = res_user r"
  shows "distinct (map (\<lambda>r. (res_book r, res_user r)) (filter open_reservation (update_where P f rs)))"
  using assms(1)
proof (induction rs)
  case (Cons r rs)
  have "(\<lambda>r. (res_book r, res_user r)) ` set (filter open_reservation (update_where P f rs))
      \<subseteq> (\<lambda>r. (res_book r, res_user r)) ` set (filter open_reservation rs)"
    using assms(2,3) by (auto simp: set_update_where image_iff)
  with Cons assms(2,3) show ?case by (auto split: if_splits)
qed simp

lemma lib_inv_update_reservations:
  assumes "lib_inv d" and "\<And>r. P r \<Longrightarrow> open_reservation (f r) \<Longrightarrow> open_reservation r"
    and "\<And>r. res_book (f r) = res_book r \<and> res_user (f r) = res_user r \<and> res_id (f r) = res_id r"
  shows "lib_inv (d\<lparr>reservations := update_where P f (reservations d)\<rparr>)"
proof (rule lib_inv_reservations [OF assms(1)])
  have "distinct (map (\<lambda>r. (res_book r, res_user r)) (filter open_reservation (reservations d)))"
    using assms(1) by (auto simp: lib_inv_def queue_ok_def)
  then show "distinct (map (\<lambda>r. (res_book r, res_user r))
      (filter open_reservation (update_where P f (reservations d))))"
    using assms(2,3) by (intro queue_update_where) auto
qed (use assms(3) in \<open>auto simp: map_update_where set_update_where image_iff\<close>)

lemma Create_tx_Inr:
  assumes "Create_tx fl now nid b u d = Inr (v, d')"
  obtains "nid \<notin> res_id ` set (reservations d)" and "0 < reservable_of_book b d"
    and "BorrowableCount (int (stock_of_book b d)) (int (available_of_book b d)) \<le> 0"
    and "\<forall>r \<in> set (reservations d). open_reservation r \<longrightarrow> \<not> (res_book r = b \<and> res_user r = u)"
    and "b \<in> book_ids d" and "u \<in> user_ids d"
    and "v = reservation_view (int (queue_position d (new_reservation now nid b u))) '''' (new_reservation now nid b u)"
    and "d' = d\<lparr>reservations := reservations d @ [new_reservation now nid b u]\<rparr>"
  using assms
  by (auto simp: Create_tx_def andthen_Inr queue_counts_def insert_reservation_def Let_def
      find_user_row_None find_book_row_None split: sum.splits prod.splits if_splits)

lemma Create_inv: "lib_inv d \<Longrightarrow> lib_inv (snd (Create fl now nid b u d))"
  unfolding Create_def
proof (rule transact_inv)
  fix v d' assume inv: "lib_inv d" and "Create_tx fl now nid b u d = Inr (v, d')"
  then show "lib_inv d'"
    by (elim Create_tx_Inr)
      (auto simp: lib_inv_def lib_inv_parts new_reservation_def open_reservation_def)
qed

lemma Cancel_inv: "lib_inv d \<Longrightarrow> lib_inv (snd (Cancel fl i u d))"
  unfolding Cancel_def
  by (rule transact_inv)
    (auto simp: Cancel_tx_def andthen_Inr set_reservation_def open_reservation_def
      intro!: lib_inv_update_reservations split: option.splits prod.splits)

lemma PromoteNext_inv: "lib_inv d \<Longrightarrow> lib_inv (snd (PromoteNext fl now b hold d))"
  unfolding PromoteNext_def
proof (rule transact_inv)
  fix v d' assume inv: "lib_inv d"
    and "sql fl 0 (case next_waiting b d of None \<Rightarrow> Inl NoRows
      | Some r \<Rightarrow> Inr (reservation_view 0 '''' (promoted now hold r),
          d\<lparr>reservations := update_where (\<lambda>x. res_id x = res_id r) (promoted now hold) (reservations d)\<rparr>)) =
      Inr (v, d')"
  then obtain r where r: "next_waiting b d = Some r"
    and d': "d' = d\<lparr>reservations := update_where (\<lambda>x. res_id x = res_id r) (promoted now hold) (reservations d)\<rparr>"
    by (auto split: option.splits)
  from r have rs: "r \<in> set (reservations d)" "res_status r = ResPending"
    by (auto simp: next_waiting_def dest: first_by_Some)
  have "update_where (\<lambda>x. res_id x = res_id r) (promoted now hold) (reservations d) =
      update_where (\<lambda>x. res_id x = res_id r \<and> open_reservation x) (promoted now hold) (reservations d)"
    using inv rs by (auto simp: update_where_def lib_inv_def keys_ok_def open_reservation_def dest: distinct_key)
  moreover have "lib_inv (d\<lparr>reservations := update_where (\<lambda>x. res_id x = res_id r \<and> open_reservation x)
      (promoted now hold) (reservations d)\<rparr>)"
    by (rule lib_inv_update_reservations [OF inv]) (auto simp: promoted_def)
  ultimately show "lib_inv d'" unfolding d' by simp
qed

lemma ExpireStale_inv: "lib_inv d \<Longrightarrow> lib_inv (snd (ExpireStale fl now d))"
  unfolding ExpireStale_def
  by (rule transact_inv)
    (auto simp: uncollected_def open_reservation_def intro!: lib_inv_update_reservations)

section \<open>What promotion does\<close>

lemma PromoteNext_Inr:
  assumes "PromoteNext fl now b hold d = (Inr v, d')"
  obtains r where "next_waiting b d = Some r" and "v = reservation_view 0 '''' (promoted now hold r)"
    and "d' = d\<lparr>reservations := update_where (\<lambda>x. res_id x = res_id r) (promoted now hold) (reservations d)\<rparr>"
  using assms by (auto simp: PromoteNext_def transact_def split: option.splits sum.splits)

lemma next_waiting_Some:
  "next_waiting b d = Some r \<Longrightarrow> r \<in> set (reservations d) \<and> res_book r = b \<and> res_status r = ResPending"
  by (auto simp: next_waiting_def dest: first_by_Some)

lemma next_waiting_le:
  "next_waiting b d = Some r \<Longrightarrow> x \<in> set (reservations d) \<Longrightarrow> res_book x = b \<Longrightarrow>
   res_status x = ResPending \<Longrightarrow> queue_key r \<le> queue_key x"
  unfolding next_waiting_def by (erule first_by_le [where k = queue_key]) auto

lemma queue_ok_unique:
  assumes "queue_ok d" and "r \<in> set (reservations d)" and "r' \<in> set (reservations d)"
    and "open_reservation r" and "open_reservation r'"
    and "res_book r = res_book r'" and "res_user r = res_user r'"
  shows "r = r'"
  using distinct_key [of "\<lambda>r. (res_book r, res_user r)" "filter open_reservation (reservations d)" r r'] assms
  by (auto simp: queue_ok_def)

lemma promoted_sel [simp]:
  "res_id (promoted now hold r) = res_id r" "res_book (promoted now hold r) = res_book r"
  "res_user (promoted now hold r) = res_user r" "res_status (promoted now hold r) = ResReady"
  "queue_key (promoted now hold r) = queue_key r" "open_reservation (promoted now hold r)"
  by (simp_all add: promoted_def queue_key_def open_reservation_def)

section \<open>Properties\<close>

text \<open>Whichever statement fails, joining, leaving, promoting and expiring keep the library's
  invariant; in particular no member ever holds two open places in the queue for one title.\<close>

theorem reservations_keep_invariant:
  assumes "lib_inv d"
  shows "lib_inv (snd (Create fl now nid b u d)) \<and> lib_inv (snd (Cancel fl i u d)) \<and>
    lib_inv (snd (PromoteNext fl now b hold d)) \<and> lib_inv (snd (ExpireStale fl now d))"
  using assms by (simp add: Create_inv Cancel_inv PromoteNext_inv ExpireStale_inv)

theorem reservations_keep_invariant_witness:
  "lib_inv (snd (Create no_faults 5 900 10 2 sample_db))"
  using reservations_keep_invariant [OF sample_inv, where fl = no_faults and now = 5 and nid = 900
    and b = 10 and u = 2] by blast

text \<open>C10: joining the queue is decided by the shelf and the queue alone. With no statement failing it
  is refused, changing nothing, when no copy of the title is reservable, when a copy could be
  borrowed now by the retention rule, or when the member already waits; otherwise the member is
  appended as pending, without an expiry, and is told one more than the number of pending
  reservations of the title made before.\<close>

theorem reservation_create_decides:
  assumes "nid \<notin> res_id ` set (reservations d)" and "b \<in> book_ids d" and "u \<in> user_ids d"
  shows "Create no_faults now nid b u d =
    (if reservable_of_book b d = 0 then (Inl ErrNotReservable, d)
     else if 0 < BorrowableCount (int (stock_of_book b d)) (int (available_of_book b d))
     then (Inl ErrCopiesAvailable, d)
     else if \<exists>r \<in> set (reservations d). open_reservation r \<and> res_book r = b \<and> res_user r = u
     then (Inl ErrAlreadyReserved, d)
     else (Inr (reservation_view
            (int (count_where (\<lambda>q. res_book q = b \<and> res_status q = ResPending \<and> res_created_at q < now)
              (reservations d) + 1)) '''' (new_reservation now nid b u)),
           d\<lparr>reservations := reservations d @ [new_reservation now nid b u]\<rparr>))"
proof -
  obtain bk us where "find_book_row b d = Some bk" "find_user_row u d = Some us"
    using assms(2,3) by (metis find_book_row_None find_user_row_None option.exhaust)
  with assms(1) show ?thesis
    by (auto simp: Create_def transact_def Create_tx_def queue_counts_def insert_reservation_def Let_def
        queue_position_def new_reservation_def fail_if_def)
qed

theorem reservation_create_decides_witness:
  "Create no_faults 300 900 20 4 sample_db =
    (Inr (reservation_view 2 '''' (new_reservation 300 900 20 4)),
     sample_db\<lparr>reservations := reservations sample_db @ [new_reservation 300 900 20 4]\<rparr>)"
  using reservation_create_decides [of 900 sample_db 20 4 300]
  by (simp add: id_sets reservable_of_book_def IsReservable_def stock_of_book_def available_of_book_def
      circulating_def BorrowableCount_def open_reservation_def)

text \<open>C11: promotion is first come, first served. It makes ready exactly one reservation, the pending
  one of the title with the least creation time and id, gives it the hold from now, and leaves
  every other reservation as it was; it reports not found exactly when nobody is waiting.\<close>

theorem promotion_is_fifo:
  assumes "lib_inv d" and "PromoteNext no_faults now b hold d = (res, d')"
  shows "case res of
      Inl e \<Rightarrow> e = ErrNotFound \<and> d' = d \<and>
        (\<forall>r \<in> set (reservations d). res_book r = b \<longrightarrow> res_status r \<noteq> ResPending)
    | Inr v \<Rightarrow> \<exists>r \<in> set (reservations d). res_status r = ResPending \<and> res_book r = b \<and>
        res_id v = res_id r \<and> res_expires_at v = Some (now + hold) \<and>
        (\<forall>x \<in> set (reservations d). res_book x = b \<and> res_status x = ResPending \<longrightarrow>
           queue_key r \<le> queue_key x) \<and>
        find_reservation_row (res_id r) d' = Some (promoted now hold r) \<and>
        filter (\<lambda>x. res_id x \<noteq> res_id r) (reservations d') =
          filter (\<lambda>x. res_id x \<noteq> res_id r) (reservations d)"
proof (cases "next_waiting b d")
  case None
  then have "\<forall>r \<in> set (reservations d). res_book r = b \<longrightarrow> res_status r \<noteq> ResPending"
    by (auto simp: next_waiting_def first_by_None)
  with None assms(2) show ?thesis by (auto simp: PromoteNext_def transact_def)
next
  case (Some r)
  then have r: "r \<in> set (reservations d)" "res_book r = b" "res_status r = ResPending"
    by (auto dest: next_waiting_Some)
  from Some assms(2) have res: "res = Inr (reservation_view 0 '''' (promoted now hold r))"
    and d': "d' = d\<lparr>reservations := update_where (\<lambda>x. res_id x = res_id r) (promoted now hold) (reservations d)\<rparr>"
    by (auto simp: PromoteNext_def transact_def)
  have "find (\<lambda>x. res_id x = res_id r) (update_where (\<lambda>x. res_id x = res_id r) (promoted now hold) (reservations d))
      = map_option (\<lambda>x. if res_id x = res_id r then promoted now hold x else x)
          (find (\<lambda>x. res_id x = res_id r) (reservations d))"
    by (rule find_update_where) simp
  moreover have "find (\<lambda>x. res_id x = res_id r) (reservations d) = Some r"
    using assms(1) r(1) by (auto simp: lib_inv_def keys_ok_def find_key)
  ultimately have "find_reservation_row (res_id r) d' = Some (promoted now hold r)"
    by (simp add: find_reservation_row_def d')
  moreover have "filter (\<lambda>x. res_id x \<noteq> res_id r) (update_where (\<lambda>x. res_id x = res_id r) (promoted now hold) xs)
      = filter (\<lambda>x. res_id x \<noteq> res_id r) xs" for xs
    by (induction xs) auto
  ultimately show ?thesis
    using r next_waiting_le [OF Some]
    by (auto simp: res d' reservation_view_def promoted_def intro!: bexI [of _ r])
qed

theorem promotion_is_fifo_witness:
  "\<exists>v d'. PromoteNext no_faults 5 20 (2 * day) sample_db = (Inr v, d') \<and> res_id v = 200"
proof -
  obtain v d' where p: "PromoteNext no_faults 5 20 (2 * day) sample_db = (Inr v, d')"
    by (simp add: PromoteNext_def transact_def next_waiting_def first_by_def)
  with promotion_is_fifo [OF sample_inv p] show ?thesis by auto
qed

text \<open>C12: a walk-up reader can be stranded. Whenever somebody else heads the queue of a title of
  which a copy could be borrowed, a member with no reservation for it is refused the loan because
  the copy is reserved for another, and refused a place in the queue because copies are
  available: neither operation will serve them.\<close>

theorem walk_up_is_stranded:
  assumes "lib_inv d" and "find_copy_row c d = Some row" and "copy_policy row = PolicyCirculating"
    and "0 < BorrowableCount (int (stock_of_book (copy_book row) d)) (int (available_of_book (copy_book row) d))"
    and "head_reservation c d = Some r" and "res_user r \<noteq> u" and "bp_copy p = c" and "bp_user p = u"
  shows "fst (borrow no_faults now nid p self d) = Inl ErrReservedForOther \<and>
    fst (Create no_faults now nid' (copy_book row) u d) = Inl ErrCopiesAvailable"
proof -
  have "fst (borrow no_faults now nid p self d) = Inl ErrReservedForOther"
    using assms(5-8) by (simp add: borrow_def transact_def borrow_tx_def select_head_def)
  moreover have "0 < available_of_book (copy_book row) d"
    using assms(4) by (auto simp: BorrowableCount_def split: if_splits)
  then obtain x where "x \<in> set (copies d)" "copy_book x = copy_book row" "circulating x"
    "copy_status x = CopyAvailable"
    by (auto simp: available_of_book_def count_where_pos)
  then have "0 < reservable_of_book (copy_book row) d"
    by (auto simp: reservable_of_book_def count_where_pos circulating_def IsReservable_def)
  ultimately show ?thesis
    using assms(4) by (auto simp: Create_def transact_def Create_tx_def queue_counts_def fail_if_def)
qed

text \<open>The state after the sample's out copy of the second title came back: one copy, one waiting.\<close>

definition sample_back :: db where
  "sample_back = sample_db\<lparr>
     copies := [sample_copy 11 10 ''A11'' CopyAvailable, sample_copy 12 10 ''A12'' CopyAvailable,
                sample_copy 13 10 ''A13'' CopyOnLoan, sample_copy 21 20 ''A21'' CopyAvailable],
     loans := [sample_loan 100 13 3]\<rparr>"

lemma sample_back_inv: "lib_inv sample_back"
proof
  show "users_ok sample_back" using sample_users_ok by (simp add: users_ok_def sample_back_def)
qed (simp_all add: sample_back_def keys_ok_def refs_ok_def id_sets custody_ok_def
      open_loans_of_copy_def open_loan_def queue_ok_def open_reservation_def)

theorem walk_up_is_stranded_witness:
  "fst (borrow no_faults 0 500 (sample_request\<lparr>bp_copy := 21, bp_user := 3\<rparr>) False sample_back) =
     Inl ErrReservedForOther \<and>
   fst (Create no_faults 0 501 20 3 sample_back) = Inl ErrCopiesAvailable"
proof -
  have "find_copy_row 21 sample_back = Some (sample_copy 21 20 ''A21'' CopyAvailable)"
    "head_reservation 21 sample_back = Some (sample_reservation 200 20 2 ResPending)"
    by (simp_all add: sample_back_def find_copy_row_def head_reservation_def first_by_def
        waits_for_def book_of_copy_def open_reservation_def)
  moreover have "0 < BorrowableCount (int (stock_of_book 20 sample_back)) (int (available_of_book 20 sample_back))"
    by (simp add: sample_back_def stock_of_book_def available_of_book_def circulating_def BorrowableCount_def)
  ultimately show ?thesis
    using walk_up_is_stranded [OF sample_back_inv, of 21 "sample_copy 21 20 ''A21'' CopyAvailable"
        "sample_reservation 200 20 2 ResPending" 3 "sample_request\<lparr>bp_copy := 21, bp_user := 3\<rparr>"]
    by simp
qed

text \<open>Only the owner of an open reservation can cancel it. Every other request (an unknown id,
  somebody else's reservation, a closed one) gets the same not-found answer and changes nothing;
  the owner's closes that row only and reports whether a copy was being held.\<close>

theorem cancel_is_the_owners:
  shows "Cancel no_faults i u d =
    (case find_reservation_row i d of
       None \<Rightarrow> (Inl ErrNotFound, d)
     | Some r \<Rightarrow>
         if res_user r = u \<and> open_reservation r
         then (Inr (res_status r = ResReady, res_book r),
               d\<lparr>reservations := set_reservation i ResCancelled (reservations d)\<rparr>)
         else (Inl ErrNotFound, d))"
  by (auto simp: Cancel_def transact_def Cancel_tx_def open_reservation_def fail_if_def
      split: option.splits)

text \<open>The head of the queue of a copy belongs to one member only.\<close>

lemma head_refuses:
  assumes inv: "lib_inv d" and bk: "book_of_copy c d = Some b"
    and A: "A \<in> set (reservations d)" "open_reservation A" "res_book A = b"
    and B: "B \<in> set (reservations d)" "open_reservation B" "res_book B = b"
    and less: "queue_key A < queue_key B" and p: "bp_copy p = c" "bp_user p = res_user B"
  shows "borrow no_faults now nid p self d = (Inl ErrReservedForOther, d)"
proof -
  obtain h where h: "head_reservation c d = Some h"
    using A bk by (metis (mono_tags, lifting) first_by_None head_reservation_def option.exhaust waits_for_def)
  then have hs: "h \<in> set (reservations d)" "res_book h = b" "open_reservation h"
    using bk by (auto simp: head_reservation_def waits_for_def dest: first_by_Some)
  have "queue_key h \<le> queue_key A"
    using h A bk unfolding head_reservation_def by (auto intro: first_by_le simp: waits_for_def)
  with less have "h \<noteq> B" by auto
  then have "res_user h \<noteq> res_user B"
    using queue_ok_unique [of d h B] hs B inv by auto
  with h p show ?thesis by (simp add: borrow_def transact_def borrow_tx_def select_head_def)
qed

text \<open>A reader told to come and collect can be turned away. When two copies of a title come back and
  the two members at the front are promoted in turn, so that both have been notified and hold a
  deadline, the second is refused every copy of the title as reserved for another until the first
  has collected or let the hold lapse.\<close>

theorem ready_member_refused:
  assumes "lib_inv d" and "book_of_copy c d = Some b" and "bp_copy p = c"
    and "PromoteNext no_faults t1 b hold d = (Inr A, d1)"
    and "PromoteNext no_faults t2 b hold d1 = (Inr B, d2)" and "bp_user p = res_user B"
  shows "res_status B = ResReady \<and> borrow no_faults now nid p self d2 = (Inl ErrReservedForOther, d2)"
proof -
  from assms(4) obtain a where a: "next_waiting b d = Some a"
    and d1: "d1 = d\<lparr>reservations := update_where (\<lambda>x. res_id x = res_id a) (promoted t1 hold) (reservations d)\<rparr>"
    by (rule PromoteNext_Inr)
  from assms(5) obtain r where r: "next_waiting b d1 = Some r" and B: "B = reservation_view 0 '''' (promoted t2 hold r)"
    and d2: "d2 = d1\<lparr>reservations := update_where (\<lambda>x. res_id x = res_id r) (promoted t2 hold) (reservations d1)\<rparr>"
    by (rule PromoteNext_Inr)
  have inv2: "lib_inv d2"
    using PromoteNext_inv [OF PromoteNext_inv [OF assms(1)], of no_faults t2 b hold no_faults t1 b hold]
      assms(4,5) by simp
  note as = next_waiting_Some [OF a] and rs = next_waiting_Some [OF r]
  have rd: "r \<in> set (reservations d)" "res_id r \<noteq> res_id a"
    using rs by (auto simp: d1 set_update_where split: if_splits)
  have "queue_key a \<le> queue_key r" using next_waiting_le [OF a rd(1)] rs by blast
  with rd(2) have less: "queue_key a < queue_key r" by (auto simp: queue_key_def less_le)
  have pa: "promoted t1 hold a \<in> set (reservations d2)"
    using as rd(2) by (auto simp: d1 d2 set_update_where image_iff)
  have pr: "promoted t2 hold r \<in> set (reservations d2)"
    using rs by (auto simp: d2 set_update_where)
  have bk: "book_of_copy c d2 = Some b" using assms(2) by (simp add: d1 d2 book_of_copy_def find_copy_row_def)
  have "bp_user p = res_user (promoted t2 hold r)" using assms(6) by (simp add: B reservation_view_def)
  with head_refuses [OF inv2 bk pa _ _ pr] as rs less assms(3) show ?thesis
    by (simp add: B reservation_view_def)
qed

definition sample_two_waiting :: db where
  "sample_two_waiting = sample_db\<lparr>reservations :=
     [sample_reservation 200 20 2 ResPending, sample_reservation 201 20 4 ResPending]\<rparr>"

lemma sample_two_waiting_inv: "lib_inv sample_two_waiting"
proof
  show "users_ok sample_two_waiting"
    using sample_users_ok by (simp add: users_ok_def sample_two_waiting_def)
qed (simp_all add: sample_two_waiting_def keys_ok_def refs_ok_def id_sets custody_ok_def
      open_loans_of_copy_def open_loan_def queue_ok_def open_reservation_def)

theorem ready_member_refused_witness:
  "\<exists>A B d1 d2. PromoteNext no_faults 5 20 day sample_two_waiting = (Inr A, d1) \<and>
     PromoteNext no_faults 6 20 day d1 = (Inr B, d2) \<and>
     borrow no_faults 7 500 (sample_request\<lparr>bp_copy := 21, bp_user := res_user B\<rparr>) True d2 =
       (Inl ErrReservedForOther, d2)"
proof -
  obtain A d1 B d2 where p: "PromoteNext no_faults 5 20 day sample_two_waiting = (Inr A, d1)"
    "PromoteNext no_faults 6 20 day d1 = (Inr B, d2)"
    by (simp add: PromoteNext_def transact_def next_waiting_def first_by_def sample_two_waiting_def
        queue_key_def promoted_def)
  have "book_of_copy 21 sample_two_waiting = Some 20"
    by (simp add: sample_two_waiting_def book_of_copy_def find_copy_row_def)
  from ready_member_refused [OF sample_two_waiting_inv this _ p,
      of "sample_request\<lparr>bp_copy := 21, bp_user := res_user B\<rparr>" 7 500 True] p
  show ?thesis by auto
qed

end
