(* ===== verification/Desk.thy ===== *)
theory Desk
  imports Reservations Users
begin

text \<open>
  The services of the circulation desk and of the queue (circulation_service.go,
  reservation_service.go). A service sees persistence through an interface, so each operation takes
  the store's operations it calls as arguments; the laws the services rely on are the assumptions of
  two locales, discharged at the end for the database repositories.
\<close>

section \<open>Calls that keep what they did\<close>

text \<open>
  Between two calls of a service nothing is rolled back: a failure of the second leaves the changes of
  the first.
\<close>

definition then_do :: "('e + 'a) \<times> 's \<Rightarrow> ('a \<Rightarrow> 's \<Rightarrow> ('e + 'b) \<times> 's) \<Rightarrow> ('e + 'b) \<times> 's" where
  "then_do m f = (case m of (Inl e, s) \<Rightarrow> (Inl e, s) | (Inr x, s) \<Rightarrow> f x s)"

lemma then_do_simps [simp]:
  "then_do (Inl e, s) f = (Inl e, s)"
  "then_do (Inr x, s) f = f x s"
  by (simp_all add: then_do_def)

lemma then_do_inv:
  "I (snd m) \<Longrightarrow> (\<And>x s. I s \<Longrightarrow> I (snd (f x s))) \<Longrightarrow> I (snd (then_do m f))"
  by (auto simp: then_do_def split: sum.splits prod.splits)

lemma then_do_Inr: "then_do m f = (Inr y, s') \<longleftrightarrow> (\<exists>x s. m = (Inr x, s) \<and> f x s = (Inr y, s'))"
  by (auto simp: then_do_def split: sum.splits prod.splits)

text \<open>The error of a call that is dropped.\<close>

definition best_effort :: "('e + 'a) \<times> 's \<Rightarrow> 's" where
  "best_effort m = snd m"

section \<open>Lending\<close>

definition due_metadata :: "loan \<Rightarrow> payload" where
  "due_metadata l =
     [(''loan_id'', JUuid (loan_id l)), (''title'', JStr (loan_book_title l)),
      (''due_at'', rfc3339 (loan_due_at l))]"

definition loan_request :: "uuid \<Rightarrow> uuid \<Rightarrow> uuid \<Rightarrow> time \<Rightarrow> loan_terms \<Rightarrow> borrow_params" where
  "loan_request copyID memberID issuedBy borrowedAt terms =
     \<lparr>bp_copy = copyID, bp_user = memberID, bp_issued_by = issuedBy, bp_borrowed_at = borrowedAt,
      bp_due_at = borrowedAt + LoanPeriod terms, bp_max_loans = MaxConcurrentLoans terms\<rparr>"

type_synonym 's notify = "uuid \<Rightarrow> string \<Rightarrow> string \<Rightarrow> payload \<Rightarrow> 's \<Rightarrow> (error + unit) \<times> 's"

definition BorrowService ::
  "(uuid \<Rightarrow> 's \<Rightarrow> error + user) \<Rightarrow> (borrow_params \<Rightarrow> 's \<Rightarrow> (error + loan) \<times> 's) \<Rightarrow> 's notify \<Rightarrow>
   time \<Rightarrow> uuid \<Rightarrow> uuid \<Rightarrow> uuid \<Rightarrow> 's \<Rightarrow> (error + loan) \<times> 's" where
  "BorrowService find_member store_borrow notify now copyID memberID librarianID s =
     (case find_member memberID s of
        Inl e \<Rightarrow> (Inl e, s)
      | Inr member \<Rightarrow>
          if \<not> CanBorrow member then (Inl ErrMemberNotActive, s)
          else case user_category member of
            None \<Rightarrow> (Inl ErrNoCategory, s)
          | Some c \<Rightarrow> (case TermsFor (category_string c) of
              None \<Rightarrow> (Inl ErrNoCategory, s)
            | Some terms \<Rightarrow>
                then_do (store_borrow (loan_request copyID memberID librarianID now terms) s) (\<lambda>l s.
                (Inr l, best_effort (notify memberID ''email'' ''loan_receipt'' (due_metadata l) s)))))"

definition SelfCheckoutService ::
  "(uuid \<Rightarrow> 's \<Rightarrow> error + user) \<Rightarrow> (borrow_params \<Rightarrow> 's \<Rightarrow> (error + loan) \<times> 's) option \<Rightarrow> 's notify \<Rightarrow>
   time \<Rightarrow> uuid \<Rightarrow> uuid \<Rightarrow> 's \<Rightarrow> (error + loan) \<times> 's" where
  "SelfCheckoutService find_member store_checkout notify now copyID memberID s =
     (case find_member memberID s of
        Inl e \<Rightarrow> (Inl e, s)
      | Inr member \<Rightarrow>
          if user_role member \<noteq> RoleMember then (Inl ErrForbidden, s)
          else if user_status member = UserSuspended then (Inl ErrMemberSuspended, s)
          else if \<not> CanBorrow member then (Inl ErrMemberNotActive, s)
          else case user_category member of
            None \<Rightarrow> (Inl ErrNoCategory, s)
          | Some c \<Rightarrow> (case TermsFor (category_string c) of
              None \<Rightarrow> (Inl ErrNoCategory, s)
            | Some terms \<Rightarrow> (case store_checkout of
                None \<Rightarrow> (Inl (ErrText ''self-checkout store is not configured''), s)
              | Some checkout \<Rightarrow>
                  then_do (checkout (loan_request copyID memberID memberID now terms) s) (\<lambda>l s.
                  (Inr l, best_effort (notify memberID ''email'' ''loan_receipt'' (due_metadata l) s))))))"

section \<open>Returning\<close>

definition ReturnService ::
  "(uuid \<Rightarrow> uuid \<Rightarrow> 's \<Rightarrow> (error + loan) \<times> 's) \<Rightarrow> (uuid \<Rightarrow> 's \<Rightarrow> (error + bool) \<times> 's) option \<Rightarrow>
   uuid \<Rightarrow> uuid \<Rightarrow> 's \<Rightarrow> (error + loan) \<times> 's" where
  "ReturnService store_return hook loanID librarianID s =
     then_do (store_return loanID librarianID s) (\<lambda>l s.
       (Inr l, case hook of None \<Rightarrow> s | Some h \<Rightarrow> best_effort (h (loan_copy l) s)))"

definition MyLoans :: "(uuid \<Rightarrow> bool \<Rightarrow> 's \<Rightarrow> error + loan list) \<Rightarrow> uuid \<Rightarrow> 's \<Rightarrow> error + loan list" where
  "MyLoans loans_for u s = loans_for u True s"

definition MyHistory :: "(uuid \<Rightarrow> bool \<Rightarrow> 's \<Rightarrow> error + loan list) \<Rightarrow> uuid \<Rightarrow> 's \<Rightarrow> error + loan list" where
  "MyHistory loans_for u s = loans_for u False s"

section \<open>Reminders\<close>

text \<open>
  One pass over the open loans; the notifier is handed the number of the loan in the pass, so that
  each message has its own id and its own faults. A cancelled context is counted as queued.
\<close>

definition ErrCanceled :: error where
  "ErrCanceled = ErrText ''context canceled''"

fun remind ::
  "(nat \<Rightarrow> 's notify) \<Rightarrow> time \<Rightarrow> duration \<Rightarrow> nat \<Rightarrow> loan list \<Rightarrow> int \<Rightarrow> 's \<Rightarrow> (error option \<times> int) \<times> 's" where
  "remind notify now window k [] queued s = ((None, queued), s)"
| "remind notify now window k (l # ls) queued s =
     (if IsReturned l then remind notify now window (Suc k) ls queued s
      else if IsOverdueAt l now \<or> loan_due_at l - now \<le> window then
        (case (if IsOverdueAt l now
               then notify k (loan_user l) ''email'' ''loan_overdue''
                      (due_metadata l @ [(''days_overdue'', JInt (DaysOverdueAt l now))]) s
               else notify k (loan_user l) ''email'' ''loan_due_soon'' (due_metadata l) s) of
           (Inl e, s) \<Rightarrow>
             if \<not> errors_is e ErrCanceled then ((Some e, queued), s)
             else remind notify now window (Suc k) ls (queued + 1) s
         | (Inr _, s) \<Rightarrow> remind notify now window (Suc k) ls (queued + 1) s)
      else remind notify now window (Suc k) ls queued s)"

definition NotifyDueSoon ::
  "(bool \<Rightarrow> bool \<Rightarrow> int \<Rightarrow> int \<Rightarrow> bool \<Rightarrow> 's \<Rightarrow> error + loan list \<times> nat) \<Rightarrow> (nat \<Rightarrow> 's notify) \<Rightarrow>
   time \<Rightarrow> duration \<Rightarrow> 's \<Rightarrow> (error option \<times> int) \<times> 's" where
  "NotifyDueSoon list_loans notify now window s =
     (case list_loans False True 500 0 False s of
        Inl e \<Rightarrow> ((Some e, 0), s)
      | Inr (ls, _) \<Rightarrow> remind notify now window 0 ls 0 s)"

section \<open>The queue\<close>

definition HoldPeriod :: duration where
  "HoldPeriod = 3 * 24 * hour"

definition Reserve ::
  "(uuid \<Rightarrow> uuid \<Rightarrow> duration \<Rightarrow> 's \<Rightarrow> (error + reservation) \<times> 's) \<Rightarrow> uuid \<Rightarrow> uuid \<Rightarrow> 's \<Rightarrow>
   (error + reservation) \<times> 's" where
  "Reserve store_create bookID memberID s = store_create bookID memberID HoldPeriod s"

definition ready_payload :: "reservation \<Rightarrow> payload" where
  "ready_payload r =
     [(''reservation_id'', JUuid (res_id r)), (''book_id'', JUuid (res_book r))] @
     (case res_expires_at r of None \<Rightarrow> [] | Some t \<Rightarrow> [(''expires_at'', rfc3339 t)])"

definition tell_ready :: "'s notify \<Rightarrow> reservation \<Rightarrow> 's \<Rightarrow> 's" where
  "tell_ready notify r s =
     best_effort (notify (res_user r) ''email'' ''reservation_ready'' (ready_payload r)
       (best_effort (notify (res_user r) ''push'' ''reservation_ready'' (ready_payload r) s)))"

definition promoteAndNotify ::
  "(uuid \<Rightarrow> duration \<Rightarrow> 's \<Rightarrow> (error + reservation) \<times> 's) \<Rightarrow> 's notify \<Rightarrow> uuid \<Rightarrow> 's \<Rightarrow> 's" where
  "promoteAndNotify promote notify bookID s =
     (case promote bookID HoldPeriod s of
        (Inl e, s) \<Rightarrow> s
      | (Inr r, s) \<Rightarrow> tell_ready notify r s)"

definition CancelService ::
  "(uuid \<Rightarrow> uuid \<Rightarrow> 's \<Rightarrow> (error + bool \<times> uuid) \<times> 's) \<Rightarrow>
   (uuid \<Rightarrow> duration \<Rightarrow> 's \<Rightarrow> (error + reservation) \<times> 's) \<Rightarrow> 's notify \<Rightarrow>
   uuid \<Rightarrow> uuid \<Rightarrow> 's \<Rightarrow> (error + unit) \<times> 's" where
  "CancelService store_cancel promote notify i memberID s =
     then_do (store_cancel i memberID s) (\<lambda>(wasReady, bookID) s.
       (Inr (), if wasReady \<and> bookID \<noteq> uuid_nil then promoteAndNotify promote notify bookID s else s))"

definition OnCopyReturned ::
  "(uuid \<Rightarrow> 's \<Rightarrow> error + uuid) \<Rightarrow> (uuid \<Rightarrow> duration \<Rightarrow> 's \<Rightarrow> (error + reservation) \<times> 's) \<Rightarrow>
   's notify \<Rightarrow> uuid \<Rightarrow> 's \<Rightarrow> (error + bool) \<times> 's" where
  "OnCopyReturned book_for_copy promote notify copyID s =
     (case book_for_copy copyID s of
        Inl e \<Rightarrow> (Inl e, s)
      | Inr bookID \<Rightarrow>
          (case promote bookID HoldPeriod s of
             (Inl e, s) \<Rightarrow> if errors_is e ErrNotFound then (Inr False, s) else (Inl e, s)
           | (Inr r, s) \<Rightarrow> (Inr True, tell_ready notify r s)))"

definition ExpireStaleService :: "('s \<Rightarrow> (error + nat) \<times> 's) \<Rightarrow> 's \<Rightarrow> (error + nat) \<times> 's" where
  "ExpireStaleService expire s = expire s"

section \<open>The interfaces\<close>

text \<open>The notifier: a queued message touches nothing the desk relies on.\<close>

locale notifier =
  fixes notify :: "uuid \<Rightarrow> string \<Rightarrow> string \<Rightarrow> payload \<Rightarrow> 's \<Rightarrow> (error + unit) \<times> 's"
    and view :: "'s \<Rightarrow> 'v"
  assumes notify_view: "view (snd (notify u channel template payload s)) = view s"
begin

lemma tell_ready_view: "view (tell_ready notify r s) = view s"
  by (simp add: tell_ready_def best_effort_def notify_view)

end

text \<open>
  The circulation store: it keeps its invariant, a refused loan changes nothing, and a granted one is
  the loan that was asked for, within the limit that was asked for.
\<close>

locale circulation_store = notifier notify view
  for notify :: "uuid \<Rightarrow> string \<Rightarrow> string \<Rightarrow> payload \<Rightarrow> 's \<Rightarrow> (error + unit) \<times> 's" and view :: "'s \<Rightarrow> 'v" +
  fixes lend :: "borrow_params \<Rightarrow> 's \<Rightarrow> (error + loan) \<times> 's"
    and find_member :: "uuid \<Rightarrow> 's \<Rightarrow> error + user"
    and good :: "'v \<Rightarrow> bool"
    and held :: "uuid \<Rightarrow> 'v \<Rightarrow> nat"
  assumes lend_good: "good (view s) \<Longrightarrow> good (view (snd (lend p s)))"
    and lend_refused: "lend p s = (Inl e, s') \<Longrightarrow> s' = s"
    and lend_granted: "good (view s) \<Longrightarrow> lend p s = (Inr l, s') \<Longrightarrow>
      loan_user l = bp_user p \<and> loan_copy l = bp_copy p \<and> loan_borrowed_at l = bp_borrowed_at p \<and>
      loan_due_at l = bp_due_at p \<and> loan_issued_by l = bp_issued_by p \<and>
      int (held (bp_user p) (view s')) \<le> bp_max_loans p"
begin

lemma borrow_service_refused:
  "BorrowService find_member lend notify now c m staff s = (Inl e, s') \<Longrightarrow> s' = s"
  by (auto simp: BorrowService_def then_do_def dest: lend_refused
      split: sum.splits prod.splits option.splits if_splits)

lemma checkout_service_refused:
  "SelfCheckoutService find_member (Some lend) notify now c m s = (Inl e, s') \<Longrightarrow> s' = s"
  by (auto simp: SelfCheckoutService_def then_do_def dest: lend_refused
      split: sum.splits prod.splits option.splits if_splits)

text \<open>Both services end in one call of the store, made with the terms of the member's category.\<close>

lemma borrow_service_granted:
  assumes "BorrowService find_member lend notify now c m staff s = (Inr l, s')"
  obtains u k s1 where "find_member m s = Inr u" and "CanBorrow u" and "user_category u = Some k"
    and "lend (loan_request c m staff now (loanTermsByCategory k)) s = (Inr l, s1)" and "view s' = view s1"
  using assms
  by (auto simp: BorrowService_def then_do_Inr best_effort_def notify_view
      split: sum.splits option.splits if_splits)

lemma checkout_service_granted:
  assumes "SelfCheckoutService find_member (Some lend) notify now c m s = (Inr l, s')"
  obtains u k s1 where "find_member m s = Inr u" and "CanBorrow u" and "user_role u = RoleMember"
    and "user_category u = Some k"
    and "lend (loan_request c m m now (loanTermsByCategory k)) s = (Inr l, s1)" and "view s' = view s1"
  using assms
  by (auto simp: SelfCheckoutService_def then_do_Inr best_effort_def notify_view
      split: sum.splits option.splits if_splits)

lemma lend_on_terms:
  assumes "good (view s)" and "lend (loan_request c m staff now (loanTermsByCategory k)) s = (Inr l, s1)"
  shows "good (view s1) \<and> loan_user l = m \<and> loan_copy l = c \<and> loan_issued_by l = staff \<and>
    loan_due_at l = loan_borrowed_at l + LoanPeriod (loanTermsByCategory k) \<and>
    int (held m (view s1)) \<le> MaxConcurrentLoans (loanTermsByCategory k)"
  using lend_granted [OF assms] lend_good [OF assms(1)] assms(2)
  by (metis (no_types, lifting) borrow_params.select_convs loan_request_def snd_conv)

lemma borrow_service_terms:
  assumes "good (view s)" and "BorrowService find_member lend notify now c m staff s = (Inr l, s')"
  shows "good (view s') \<and> (\<exists>u k. find_member m s = Inr u \<and> CanBorrow u \<and> user_category u = Some k \<and>
    loan_user l = m \<and> loan_copy l = c \<and> loan_issued_by l = staff \<and>
    loan_due_at l = loan_borrowed_at l + LoanPeriod (loanTermsByCategory k) \<and>
    int (held m (view s')) \<le> MaxConcurrentLoans (loanTermsByCategory k))"
  using assms(2) by (rule borrow_service_granted) (use lend_on_terms [OF assms(1)] in fastforce)

lemma checkout_service_terms:
  assumes "good (view s)" and "SelfCheckoutService find_member (Some lend) notify now c m s = (Inr l, s')"
  shows "good (view s') \<and> (\<exists>u k. find_member m s = Inr u \<and> CanBorrow u \<and> user_role u = RoleMember \<and> user_category u = Some k \<and>
    loan_user l = m \<and> loan_copy l = c \<and> loan_issued_by l = m \<and>
    loan_due_at l = loan_borrowed_at l + LoanPeriod (loanTermsByCategory k) \<and>
    int (held m (view s')) \<le> MaxConcurrentLoans (loanTermsByCategory k))"
  using assms(2) by (rule checkout_service_granted) (use lend_on_terms [OF assms(1)] in fastforce)

lemma borrow_service_good:
  assumes "good (view s)"
  shows "good (view (snd (BorrowService find_member lend notify now c m staff s)))"
proof (cases "BorrowService find_member lend notify now c m staff s")
  case (Pair r s')
  with assms show ?thesis
    by (cases r) (auto dest: borrow_service_refused borrow_service_terms)
qed

lemma checkout_service_good:
  assumes "good (view s)"
  shows "good (view (snd (SelfCheckoutService find_member (Some lend) notify now c m s)))"
proof (cases "SelfCheckoutService find_member (Some lend) notify now c m s")
  case (Pair r s')
  with assms show ?thesis
    by (cases r) (auto dest: checkout_service_refused checkout_service_terms)
qed

end

text \<open>
  The queue store and the lookups of the hook. A promotion moves nothing but the queue, which is the
  part of the state the view of the lending desk leaves out.
\<close>

locale queue_store = notifier notify view
  for notify :: "uuid \<Rightarrow> string \<Rightarrow> string \<Rightarrow> payload \<Rightarrow> 's \<Rightarrow> (error + unit) \<times> 's" and view :: "'s \<Rightarrow> 'v" +
  fixes promote :: "uuid \<Rightarrow> duration \<Rightarrow> 's \<Rightarrow> (error + reservation) \<times> 's"
    and book_for_copy :: "uuid \<Rightarrow> 's \<Rightarrow> error + uuid"
    and good :: "'v \<Rightarrow> bool"
    and desk :: "'v \<Rightarrow> 'k"
  assumes promote_good: "good (view s) \<Longrightarrow> good (view (snd (promote b hold s)))"
    and promote_desk: "desk (view (snd (promote b hold s))) = desk (view s)"
begin

lemma promoteAndNotify_view: "view (promoteAndNotify promote notify b s) = view (snd (promote b HoldPeriod s))"
  by (auto simp: promoteAndNotify_def tell_ready_view split: sum.splits prod.splits)

lemma hook_view:
  "view (snd (OnCopyReturned book_for_copy promote notify c s)) =
     (case book_for_copy c s of Inl e \<Rightarrow> view s | Inr b \<Rightarrow> view (snd (promote b HoldPeriod s)))"
  by (auto simp: OnCopyReturned_def tell_ready_view split: sum.splits prod.splits)

text \<open>A return stands whatever becomes of the hook.\<close>

lemma return_service:
  assumes "\<And>s. good (view s) \<Longrightarrow> good (view (snd (store_return i staff s)))" and "good (view s)"
    and "ReturnService store_return (Some (OnCopyReturned book_for_copy promote notify)) i staff s = (r, s')"
  shows "r = fst (store_return i staff s) \<and> good (view s') \<and>
    desk (view s') = desk (view (snd (store_return i staff s)))"
proof -
  obtain q s1 where ret: "store_return i staff s = (q, s1)" by fastforce
  with assms(1) [OF assms(2)] have "good (view s1)" by simp
  with assms(3) ret show ?thesis
    by (cases q) (auto simp: ReturnService_def best_effort_def hook_view promote_good promote_desk
        split: sum.splits)
qed

lemma cancel_service_good:
  assumes "good (view (snd (store_cancel i m s)))"
  shows "good (view (snd (CancelService store_cancel promote notify i m s)))"
  using assms by (auto simp: CancelService_def then_do_def promoteAndNotify_view promote_good
      split: sum.splits prod.splits)

end

section \<open>The database behind the interfaces\<close>

text \<open>The tables of circulation, and without the queue.\<close>

definition library_of :: "db \<Rightarrow> user_row list \<times> book_row list \<times> copy list \<times> loan_row list \<times> reservation_row list" where
  "library_of d = (users d, books d, copies d, loans d, reservations d)"

definition library_good :: "user_row list \<times> book_row list \<times> copy list \<times> loan_row list \<times> reservation_row list \<Rightarrow> bool" where
  "library_good v = (case v of (us, bs, cs, ls, rs) \<Rightarrow>
     lib_inv (empty_db\<lparr>users := us, books := bs, copies := cs, loans := ls, reservations := rs\<rparr>))"

definition desk_of ::
  "user_row list \<times> book_row list \<times> copy list \<times> loan_row list \<times> reservation_row list \<Rightarrow>
   user_row list \<times> book_row list \<times> copy list \<times> loan_row list" where
  "desk_of v = (case v of (us, bs, cs, ls, rs) \<Rightarrow> (us, bs, cs, ls))"

definition held_of ::
  "uuid \<Rightarrow> user_row list \<times> book_row list \<times> copy list \<times> loan_row list \<times> reservation_row list \<Rightarrow> nat" where
  "held_of u v = (case v of (us, bs, cs, ls, rs) \<Rightarrow> count_where (\<lambda>l. loan_user l = u \<and> open_loan l) ls)"

lemma library_good [simp]: "library_good (library_of d) = lib_inv d"
  by (simp add: library_good_def library_of_def) (rule lib_inv_cong; simp)

lemma held_of [simp]: "held_of u (library_of d) = open_loans_of_user u d"
  by (simp add: held_of_def library_of_def open_loans_of_user_def)

lemma desk_of [simp]: "desk_of (library_of d) = (users d, books d, copies d, loans d)"
  by (simp add: desk_of_def library_of_def)

lemma library_of_same: "library_of d' = library_of d \<longleftrightarrow> same_library d d'"
  by (auto simp: library_of_def same_library_def)

lemma borrow_granted:
  assumes "lib_inv d" and "borrow fl now nid p self d = (Inr l, d')"
  shows "loan_user l = bp_user p \<and> loan_copy l = bp_copy p \<and> loan_borrowed_at l = bp_borrowed_at p \<and>
    loan_due_at l = bp_due_at p \<and> loan_issued_by l = bp_issued_by p \<and>
    int (open_loans_of_user (bp_user p) d') \<le> bp_max_loans p"
proof -
  have tx: "borrow_tx fl now nid p self d = Inr (l, d')"
    using assms(2) by (auto simp: borrow_def dest: transact_InrD)
  then obtain rid where "borrow_claimed fl now nid p self rid d = Inr (l, d')"
    by (rule borrow_tx_Inr)
  then show ?thesis
    by (rule borrow_claimed_Inr) (auto elim!: insert_loan_Inr simp: open_loans_of_user_lent)
qed

lemma borrow_refused: "borrow fl now nid p self d = (Inl e, d') \<Longrightarrow> d' = d"
  by (auto simp: borrow_def dest: transact_InlD)

interpretation desk_store:
  circulation_store "Queue fq now nid" library_of "Borrow fb now' nid'" "FindByID fu" library_good held_of
  for fq now nid fb now' nid' fu
  by unfold_locales
    (auto simp: library_of_same Queue_same Borrow_def borrow_inv borrow_granted dest: borrow_refused)

interpretation self_store:
  circulation_store "Queue fq now nid" library_of "SelfCheckout fb now' nid'" "FindByID fu" library_good held_of
  for fq now nid fb now' nid' fu
  by unfold_locales
    (auto simp: library_of_same Queue_same SelfCheckout_def borrow_inv borrow_granted dest: borrow_refused)

lemma PromoteNext_frame:
  "desk_of (library_of (snd (PromoteNext fl now b hold d))) = desk_of (library_of d)"
  by (auto simp: PromoteNext_def transact_def split: sum.splits option.splits)

interpretation waiting_store:
  queue_store "Queue fq now nid" library_of "\<lambda>b hold. PromoteNext fp now' b hold" "BookIDForCopy fc"
    library_good desk_of
  for fq now nid fp now' fc
  by unfold_locales (auto simp: PromoteNext_inv PromoteNext_frame simp del: desk_of)

section \<open>Reminders of a pass\<close>

definition reminder_for :: "time \<Rightarrow> duration \<Rightarrow> loan \<Rightarrow> (string \<times> payload) option" where
  "reminder_for now window l =
     (if IsReturned l then None
      else if IsOverdueAt l now
      then Some (''loan_overdue'', due_metadata l @ [(''days_overdue'', JInt (DaysOverdueAt l now))])
      else if loan_due_at l - now \<le> window then Some (''loan_due_soon'', due_metadata l) else None)"

fun reminders :: "time \<Rightarrow> (nat \<Rightarrow> uuid) \<Rightarrow> duration \<Rightarrow> nat \<Rightarrow> loan list \<Rightarrow> outbox_row list" where
  "reminders now mid window k [] = []"
| "reminders now mid window k (l # ls) =
     (case reminder_for now window l of
        None \<Rightarrow> []
      | Some (template, payload) \<Rightarrow> [new_message now (mid k) (loan_user l) ''email'' template payload]) @
     reminders now mid window (Suc k) ls"

lemma length_reminders:
  "length (reminders now mid window k ls) = length (filter (\<lambda>l. reminder_for now window l \<noteq> None) ls)"
  by (induction ls arbitrary: k) (auto split: option.splits)

lemma Queue_ok:
  "mid \<notin> ob_id ` set (outbox d) \<Longrightarrow> u \<in> user_ids d \<Longrightarrow> template \<noteq> ''account_setup'' \<Longrightarrow>
   Queue no_faults now mid u ch template pl d =
     (Inr (), d\<lparr>outbox := outbox d @ [new_message now mid u ch template pl]\<rparr>)"
  by (auto simp: Queue_def QueueTracked_def QueueTracked_tx_def transact_def insert_message_def find_user_row_None)

lemma remind_all:
  assumes "inj mid" and "\<And>j. k \<le> j \<Longrightarrow> mid j \<notin> ob_id ` set (outbox d)"
    and "\<And>l. l \<in> set ls \<Longrightarrow> loan_user l \<in> user_ids d"
  shows "remind (\<lambda>j. Queue no_faults now (mid j)) now window k ls q d =
    ((None, q + int (length (reminders now mid window k ls))),
     d\<lparr>outbox := outbox d @ reminders now mid window k ls\<rparr>)"
  using assms(2,3)
proof (induction ls arbitrary: k q d)
  case Nil
  then show ?case by simp
next
  case (Cons l ls)
  have ids: "mid k \<notin> ob_id ` set (outbox d)" "loan_user l \<in> user_ids d" using Cons.prems by auto
  let ?d = "\<lambda>m. d\<lparr>outbox := outbox d @ [m]\<rparr>"
  have rec: "remind (\<lambda>j. Queue no_faults now (mid j)) now window (Suc k) ls q' (?d m) =
    ((None, q' + int (length (reminders now mid window (Suc k) ls))),
     (?d m)\<lparr>outbox := outbox (?d m) @ reminders now mid window (Suc k) ls\<rparr>)"
    if "ob_id m = mid k" for m q'
  proof (rule Cons.IH)
    show "mid j \<notin> ob_id ` set (outbox (?d m))" if "Suc k \<le> j" for j
      using that \<open>ob_id m = mid k\<close> assms(1) Cons.prems(1) [of j] by (auto dest: injD)
  qed (use Cons.prems in \<open>auto simp: user_ids_def\<close>)
  have skip: "remind (\<lambda>j. Queue no_faults now (mid j)) now window (Suc k) ls q d =
    ((None, q + int (length (reminders now mid window (Suc k) ls))),
     d\<lparr>outbox := outbox d @ reminders now mid window (Suc k) ls\<rparr>)"
    by (rule Cons.IH) (use Cons.prems in auto)
  show ?case
    by (auto simp: reminder_for_def Queue_ok [OF ids] rec skip new_message_def algebra_simps simp del: no_faults_simp)
qed

lemma open_page_users:
  assumes "lib_inv d" and "ListLoans no_faults now ov op lim off sy d = Inr (ls, n)" and "l \<in> set ls"
  shows "loan_user l \<in> user_ids d"
proof -
  define rows where "rows = sort_key (\<lambda>l. (loan_due_at l, loan_id l))
    (filter (loan_matches d now ov op sy) (List.map_filter (loan_view d) (loans d)))"
  from assms(2) have "ls = page_of (nat lim) (nat off) rows"
    by (simp add: ListLoans_def rows_def [symmetric] Let_def split: if_splits)
  with assms(3) have "l \<in> set rows" using set_page_of by fastforce
  then have "l \<in> set (List.map_filter (loan_view d) (loans d))" by (simp add: rows_def)
  then obtain row where "row \<in> set (loans d)" and "loan_view d row = Some l"
    by (auto simp: map_filter_def)
  then have "row \<in> set (loans d)" and "loan_user l = loan_user row"
    by (auto simp: loan_view_def split: option.splits)
  with assms(1) show ?thesis by (auto simp: lib_inv_def refs_ok_def)
qed

section \<open>Properties\<close>

text \<open>C15: a loan recorded at the desk is on the terms of the member's category and nobody else's. In
  a sound library, whatever statements fail, a refused loan leaves the database as it was; a granted
  one is for an active member with a category, names the copy, the member and the issuing librarian,
  falls due exactly one loan period of the category after it was borrowed, and leaves the member with
  no more open loans than the category allows. The library stays sound, also when the receipt cannot
  be queued.\<close>

theorem desk_loan_on_terms:
  assumes "lib_inv d"
    and "BorrowService (FindByID fu) (Borrow fb now nid) (Queue fq now mid) now c m staff d = (r, d')"
  shows "lib_inv d' \<and>
    (case r of
       Inl e \<Rightarrow> d' = d
     | Inr l \<Rightarrow> \<exists>u k. FindByID fu m d = Inr u \<and> user_status u = UserActive \<and> user_category u = Some k \<and>
         loan_user l = m \<and> loan_copy l = c \<and> loan_issued_by l = staff \<and>
         loan_due_at l = loan_borrowed_at l + LoanPeriod (loanTermsByCategory k) \<and>
         int (open_loans_of_user m d') \<le> MaxConcurrentLoans (loanTermsByCategory k))"
  using assms(1) assms(2) desk_store.borrow_service_good [of d fu fb now nid fq now mid now c m staff]
    desk_store.borrow_service_refused [of fu fb now nid fq now mid now c m staff d]
    desk_store.borrow_service_terms [of d fu fb now nid fq now mid now c m staff]
  by (cases r) (auto simp: CanBorrow_def)

lemma sample_member: "FindByID no_faults 2 sample_db = Inr (scanUser (sample_user 2 ''CSC/2020/001'' RoleMember (Some CategoryUndergraduate)))"
  by (simp add: FindByID_def find_user_row_def)

lemma sample_member_can: "CanBorrow (scanUser (sample_user i s r c))" "user_category (scanUser (sample_user i s r c)) = c"
  "user_role (scanUser (sample_user i s r c)) = r" "user_status (scanUser (sample_user i s r c)) = UserActive"
  by (simp_all add: CanBorrow_def scanUser_def)

theorem desk_loan_on_terms_witness:
  "\<exists>l d'. BorrowService (FindByID no_faults) (Borrow no_faults 0 500) (Queue no_faults 0 900) 0 11 2 1 sample_db =
       (Inr l, d') \<and> loan_user l = 2 \<and> lib_inv d'"
proof -
  have req: "loan_request 11 2 (Suc 0) 0 (loanTermsByCategory CategoryUndergraduate) = sample_request"
    by (simp add: loan_request_def sample_request_def loanTermsByCategory_def)
  obtain l d1 where "Borrow no_faults 0 500 sample_request sample_db = (Inr l, d1)"
    using sample_borrow by (auto simp: Borrow_def)
  then obtain d' where "BorrowService (FindByID no_faults) (Borrow no_faults 0 500) (Queue no_faults 0 900) 0 11 2 1
      sample_db = (Inr l, d')"
    by (simp add: BorrowService_def sample_member sample_member_can req del: category_string.simps)
  with desk_loan_on_terms [OF sample_inv this] show ?thesis by auto
qed

text \<open>Self-checkout is for the member who asks. Whatever statements fail, a checkout that succeeds
  was made by an active account with the role of a member and is issued by and to that same account,
  on its category's terms; staff, suspended and inactive accounts are refused with an error of their
  own and nothing changes.\<close>

theorem self_checkout_is_the_members:
  assumes "lib_inv d"
    and "SelfCheckoutService (FindByID fu) (Some (SelfCheckout fb now nid)) (Queue fq now mid) now c m d = (r, d')"
  shows "lib_inv d' \<and>
    (case r of
       Inl e \<Rightarrow> d' = d
     | Inr l \<Rightarrow> \<exists>u k. FindByID fu m d = Inr u \<and> user_role u = RoleMember \<and> user_status u = UserActive \<and>
         user_category u = Some k \<and> loan_user l = m \<and> loan_issued_by l = m \<and> loan_copy l = c \<and>
         loan_due_at l = loan_borrowed_at l + LoanPeriod (loanTermsByCategory k) \<and>
         int (open_loans_of_user m d') \<le> MaxConcurrentLoans (loanTermsByCategory k)) \<and>
    (\<forall>u. FindByID fu m d = Inr u \<longrightarrow>
       (user_role u \<noteq> RoleMember \<longrightarrow> r = Inl ErrForbidden) \<and>
       (user_role u = RoleMember \<and> user_status u = UserSuspended \<longrightarrow> r = Inl ErrMemberSuspended) \<and>
       (user_role u = RoleMember \<and> user_status u = UserInactive \<longrightarrow> r = Inl ErrMemberNotActive))"
proof -
  have "lib_inv d' \<and> (case r of Inl e \<Rightarrow> d' = d
     | Inr l \<Rightarrow> \<exists>u k. FindByID fu m d = Inr u \<and> user_role u = RoleMember \<and> user_status u = UserActive \<and>
         user_category u = Some k \<and> loan_user l = m \<and> loan_issued_by l = m \<and> loan_copy l = c \<and>
         loan_due_at l = loan_borrowed_at l + LoanPeriod (loanTermsByCategory k) \<and>
         int (open_loans_of_user m d') \<le> MaxConcurrentLoans (loanTermsByCategory k))"
    using assms(1) assms(2) self_store.checkout_service_good [of d fu fb now nid fq now mid now c m]
      self_store.checkout_service_refused [of fu fb now nid fq now mid now c m d]
      self_store.checkout_service_terms [of d fu fb now nid fq now mid now c m]
    by (cases r) (auto simp: CanBorrow_def)
  with assms(2) show ?thesis by (auto simp: SelfCheckoutService_def CanBorrow_def)
qed

theorem self_checkout_is_the_members_witness:
  "\<exists>l d'. SelfCheckoutService (FindByID no_faults) (Some (SelfCheckout no_faults 0 500)) (Queue no_faults 0 900) 0 11 2
       sample_db = (Inr l, d') \<and> loan_user l = 2 \<and> loan_issued_by l = 2"
proof -
  have req: "loan_request 11 2 2 0 (loanTermsByCategory CategoryUndergraduate) = sample_request\<lparr>bp_issued_by := 2\<rparr>"
    by (simp add: loan_request_def sample_request_def loanTermsByCategory_def)
  have "\<exists>l d'. borrow no_faults 0 500 (sample_request\<lparr>bp_issued_by := 2\<rparr>) True sample_db = (Inr l, d')"
    by (simp add: borrow_def transact_def borrow_tx_def sample_request_def
      select_head_def head_reservation_def first_by_def waits_for_def book_of_copy_def find_copy_row_def
      borrow_claimed_def claim_copy_def claimable_def shelf_counts_def stock_of_book_def
      available_of_book_def circulating_def CountActiveLoans_def open_loans_of_user_def open_loan_def
      insert_loan_def open_loans_of_copy_def find_user_row_def find_book_row_def recordAudit_def)
  then obtain l d1 where "SelfCheckout no_faults 0 500 (sample_request\<lparr>bp_issued_by := 2\<rparr>) sample_db = (Inr l, d1)"
    by (auto simp: SelfCheckout_def)
  then obtain d' where "SelfCheckoutService (FindByID no_faults) (Some (SelfCheckout no_faults 0 500))
      (Queue no_faults 0 900) 0 11 2 sample_db = (Inr l, d')"
    by (simp add: SelfCheckoutService_def sample_member sample_member_can req del: category_string.simps)
  with self_checkout_is_the_members [OF sample_inv this] show ?thesis by auto
qed

lemma find_promoted:
  assumes "lib_inv d" and "next_waiting b d = Some w"
  shows "find_reservation_row (res_id w) (snd (PromoteNext no_faults now b hold d)) = Some (promoted now hold w)"
proof -
  have "w \<in> set (reservations d)" using next_waiting_Some [OF assms(2)] by simp
  then have "find (\<lambda>x. res_id x = res_id w) (reservations d) = Some w"
    using assms(1) by (auto simp: lib_inv_def keys_ok_def find_key)
  then show ?thesis
    by (simp add: PromoteNext_def transact_def assms(2) find_reservation_row_def find_update_where)
qed

lemma Return_keeps_queue:
  assumes "Return fl now i staff d = (Inr l, d1)"
  shows "reservations d1 = reservations d \<and> (\<forall>c. book_of_copy c d1 = book_of_copy c d)"
proof -
  from assms have "Return_tx fl now i staff d = Inr (l, d1)" by (auto simp: Return_def dest: transact_InrD)
  then obtain row a where d1: "d1 = returned now staff row a d" by (rule Return_tx_Inr)
  have "map_option copy_book (find (\<lambda>c. copy_id c = j) (shelve_upd i cs)) =
      map_option copy_book (find (\<lambda>c. copy_id c = j) cs)" for i j cs
    by (simp add: shelve_upd_def find_update_where option.map_comp comp_def if_distrib cong: if_cong)
  then show ?thesis by (simp add: d1 returned_def book_of_copy_def find_copy_row_def)
qed

text \<open>C16: a returned copy starts the queue, and nothing the queue does undoes a return. Whatever
  statements of the hook and of the notifier fail, the service answers exactly what the store's
  return answers, the accounts, books, copies and loans are those the store's return left, and the
  library is sound; when the hook's own statements do not fail and somebody waits for the title, the
  member waiting longest is moved to ready, with the three days' hold.\<close>

theorem return_serves_the_queue:
  assumes "lib_inv d"
    and "ReturnService (Return fr now) (Some (OnCopyReturned (BookIDForCopy fc)
           (\<lambda>b hold. PromoteNext fp now b hold) (Queue fq now mid))) i staff d = (r, d')"
  shows "r = fst (Return fr now i staff d) \<and> lib_inv d' \<and>
    (let d1 = snd (Return fr now i staff d) in
     users d' = users d1 \<and> books d' = books d1 \<and> copies d' = copies d1 \<and> loans d' = loans d1) \<and>
    (\<forall>l b w. r = Inr l \<and> fc = no_faults \<and> fp = no_faults \<and> book_of_copy (loan_copy l) d = Some b \<and>
       next_waiting b d = Some w \<longrightarrow>
       find_reservation_row (res_id w) d' = Some (promoted now (3 * day) w))"
proof -
  let ?hook = "OnCopyReturned (BookIDForCopy fc) (\<lambda>b hold. PromoteNext fp now b hold) (Queue fq now mid)"
  have frame: "r = fst (Return fr now i staff d)" "lib_inv d'"
    "desk_of (library_of d') = desk_of (library_of (snd (Return fr now i staff d)))"
    using waiting_store.return_service [OF _ _ assms(2)] assms(1) by (simp_all add: Return_inv del: desk_of)
  have "find_reservation_row (res_id w) d' = Some (promoted now (3 * day) w)"
    if r: "r = Inr l" and no: "fc = no_faults" "fp = no_faults"
      and b: "book_of_copy (loan_copy l) d = Some b" and w: "next_waiting b d = Some w" for l b w
  proof -
    obtain d1 where ret: "Return fr now i staff d = (Inr l, d1)"
      using frame(1) r by (cases "Return fr now i staff d") simp
    have inv1: "lib_inv d1" using Return_inv [OF assms(1), of fr now i staff] ret by simp
    note q = Return_keeps_queue [OF ret]
    have w1: "next_waiting b d1 = Some w" and b1: "BookIDForCopy fc (loan_copy l) d1 = Inr b"
      using w b q by (simp_all add: next_waiting_def BookIDForCopy_def no)
    have "d' = snd (?hook (loan_copy l) d1)"
      using assms(2) ret by (simp add: ReturnService_def best_effort_def)
    then have "library_of d' = library_of (snd (PromoteNext fp now b HoldPeriod d1))"
      using waiting_store.hook_view [of fc fp now fq now mid "loan_copy l" d1] by (simp add: b1)
    then have "reservations d' = reservations (snd (PromoteNext no_faults now b HoldPeriod d1))"
      by (simp add: library_of_def no)
    then show ?thesis
      using find_promoted [OF inv1 w1, of now HoldPeriod]
      by (simp add: find_reservation_row_def HoldPeriod_def day_def)
  qed
  with frame show ?thesis by (auto simp: Let_def)
qed

theorem return_serves_the_queue_witness:
  "\<exists>l d'. ReturnService (Return no_faults 7) (Some (OnCopyReturned (BookIDForCopy no_faults)
       (\<lambda>b hold. PromoteNext no_faults 7 b hold) (Queue no_faults 7 900))) 101 1 sample_db = (Inr l, d') \<and>
     find_reservation_row 200 d' = Some (promoted 7 (3 * day) (sample_reservation 200 20 2 ResPending))"
proof -
  let ?m = "ReturnService (Return no_faults 7) (Some (OnCopyReturned (BookIDForCopy no_faults)
       (\<lambda>b hold. PromoteNext no_faults 7 b hold) (Queue no_faults 7 900))) 101 1 sample_db"
  obtain r d' where m: "?m = (r, d')" by fastforce
  note eff = return_serves_the_queue [OF sample_inv m]
  have ret: "\<exists>l. fst (Return no_faults 7 101 1 sample_db) = Inr l \<and> loan_copy l = 21"
    by (simp add: Return_def transact_def Return_tx_def close_loan_def shelve_copy_def open_loan_def
        find_user_row_def recordAudit_def scanned_loan_def Let_def)
  then obtain l where l: "r = Inr l" "loan_copy l = 21" using eff by auto
  have "book_of_copy 21 sample_db = Some 20" by (simp add: book_of_copy_def find_copy_row_def)
  moreover have "next_waiting 20 sample_db = Some (sample_reservation 200 20 2 ResPending)"
    by (simp add: next_waiting_def first_by_def)
  ultimately show ?thesis using eff l m by (intro exI [of _ l] exI [of _ d']) simp
qed

text \<open>C17: what a pass of reminders queues. With no statement failing, in a sound library and with
  unused message ids, a pass looks at the first five hundred open loans by due date, queues exactly one
  e-mail for each that is overdue or falls due within the window, addressed to its borrower, and
  reports their number. What the outbox already holds plays no part, so the next pass queues the same
  reminders again, and a loan beyond the first five hundred is not looked at.\<close>

theorem reminder_pass:
  assumes "lib_inv d" and "inj mid" and "\<And>k. mid k \<notin> ob_id ` set (outbox d)"
    and "ListLoans no_faults now False True 500 0 False d = Inr (page, n)"
  shows "NotifyDueSoon (\<lambda>ov op lim off sy. ListLoans no_faults now ov op lim off sy)
      (\<lambda>k. Queue no_faults now (mid k)) now window d =
    ((None, int (length (filter (\<lambda>l. loan_returned_at l = None \<and>
        (loan_due_at l < now \<or> loan_due_at l - now \<le> window)) page))),
     d\<lparr>outbox := outbox d @ reminders now mid window 0 page\<rparr>) \<and>
    length (reminders now mid window 0 page) =
      length (filter (\<lambda>l. loan_returned_at l = None \<and>
        (loan_due_at l < now \<or> loan_due_at l - now \<le> window)) page)"
proof -
  have same: "(reminder_for now window l \<noteq> None) = (loan_returned_at l = None \<and>
        (loan_due_at l < now \<or> loan_due_at l - now \<le> window))" for l
    by (simp add: reminder_for_def IsReturned_def IsOverdueAt_def)
  have len: "length (reminders now mid window 0 page) = length (filter (\<lambda>l. loan_returned_at l = None \<and>
        (loan_due_at l < now \<or> loan_due_at l - now \<le> window)) page)"
    by (simp only: length_reminders same)
  show ?thesis
    using remind_all [OF assms(2), of 0 d page now window 0] assms(3) open_page_users [OF assms(1,4)]
    by (simp add: NotifyDueSoon_def assms(4) len del: no_faults_simp)
qed

theorem reminder_pass_witness:
  "\<exists>page n. ListLoans no_faults (20 * day) False True 500 0 False sample_db = Inr (page, n) \<and>
    fst (NotifyDueSoon (\<lambda>ov op lim off sy. ListLoans no_faults (20 * day) ov op lim off sy)
      (\<lambda>k. Queue no_faults (20 * day) (900 + k)) (20 * day) (2 * day) sample_db) = (None, 2)"
proof -
  obtain page n where p: "ListLoans no_faults (20 * day) False True 500 0 False sample_db = Inr (page, n)"
    by (simp add: ListLoans_def Let_def)
  have "map loan_due_at page = [14 * day, 14 * day] \<and> map loan_returned_at page = [None, None]"
    using p by (auto simp: ListLoans_def Let_def page_of_def map_filter_def loan_view_def loan_matches_def
        find_rows IsReturned_def)
  then have "length (filter (\<lambda>l. loan_returned_at l = None \<and>
        (loan_due_at l < 20 * day \<or> loan_due_at l - 20 * day \<le> 2 * day)) page) = 2"
    by (auto simp: map_eq_Cons_conv)
  moreover have "inj ((+) (900 :: nat))" by simp
  ultimately show ?thesis
    using reminder_pass [OF sample_inv, of "(+) 900" "20 * day" page n "2 * day"] p by simp
qed

end
