(* ===== verification/Member_Lists.thy ===== *)
theory Member_Lists
  imports Catalogue_Query
begin

text \<open>
  What a member keeps: bookmarked titles (bookmark_repo.go, bookmark_service.go) and stored queries
  (saved_search_repo.go, saved_search_service.go).
\<close>

section \<open>Bookmarks\<close>

definition bookmark_of :: "uuid \<Rightarrow> uuid \<Rightarrow> bookmark \<Rightarrow> bool" where
  "bookmark_of u b m \<longleftrightarrow> bm_user m = u \<and> bm_book m = b"

text \<open>A second bookmark of a title returns the first one's row.\<close>

definition AddBookmark :: "faults \<Rightarrow> time \<Rightarrow> uuid \<Rightarrow> uuid \<Rightarrow> uuid \<Rightarrow> db \<Rightarrow> (error + bookmark) \<times> db" where
  "AddBookmark fl now nid u b = transact (\<lambda>d. sql fl 0
     (case find (bookmark_of u b) (bookmarks d) of
        Some m \<Rightarrow> Inr (m, d)
      | None \<Rightarrow>
          if nid \<in> bm_id ` set (bookmarks d) then Inl (UniqueViolation ''bookmarks_pkey'')
          else if find_user_row u d = None then Inl (ForeignKeyViolation ''bookmarks_user_id_fkey'')
          else if find_book_row b d = None then Inl (ForeignKeyViolation ''bookmarks_book_id_fkey'')
          else let m = \<lparr>bm_id = nid, bm_user = u, bm_book = b, bm_created_at = now\<rparr>
               in Inr (m, d\<lparr>bookmarks := bookmarks d @ [m]\<rparr>)))"

definition RemoveBookmark :: "faults \<Rightarrow> uuid \<Rightarrow> uuid \<Rightarrow> db \<Rightarrow> (error + unit) \<times> db" where
  "RemoveBookmark fl u b = transact (\<lambda>d. sql fl 0
     (Inr ((), d\<lparr>bookmarks := filter (\<lambda>m. \<not> bookmark_of u b m) (bookmarks d)\<rparr>)))"

definition BookmarkExists :: "faults \<Rightarrow> uuid \<Rightarrow> uuid \<Rightarrow> db \<Rightarrow> error + bool" where
  "BookmarkExists fl u b d = sql fl 0 (Inr (list_ex (bookmark_of u b) (bookmarks d)))"

text \<open>Two statements outside a transaction: the count, then the page with the titles joined.\<close>

definition ListBookmarks ::
  "collation \<Rightarrow> faults \<Rightarrow> uuid \<Rightarrow> int \<Rightarrow> int \<Rightarrow> db \<Rightarrow> error + (book \<times> time) list \<times> nat" where
  "ListBookmarks collate fl u limit offset d =
     (case sql fl 0 (Inr (count_where (\<lambda>m. bm_user m = u) (bookmarks d))) of
        Inl e \<Rightarrow> Inl e
      | Inr n \<Rightarrow>
          sql fl 1
            (if limit < 0 \<or> offset < 0 then Inl (DriverFailure ''negative limit or offset'')
             else Inr (page_of (nat limit) (nat offset)
               (List.map_filter (\<lambda>m. map_option (\<lambda>b. (scanBook collate d b, bm_created_at m))
                   (find_book_row (bm_book m) d))
                 (sort_key (\<lambda>m. (- bm_created_at m, bm_id m))
                   (filter (\<lambda>m. bm_user m = u) (bookmarks d)))), n)))"

text \<open>The service passes each call on.\<close>

definition SaveBookmark ::
  "(uuid \<Rightarrow> uuid \<Rightarrow> 's \<Rightarrow> (error + bookmark) \<times> 's) \<Rightarrow> uuid \<Rightarrow> uuid \<Rightarrow> 's \<Rightarrow> (error + bookmark) \<times> 's" where
  "SaveBookmark add u b s = add u b s"

definition UnsaveBookmark ::
  "(uuid \<Rightarrow> uuid \<Rightarrow> 's \<Rightarrow> (error + unit) \<times> 's) \<Rightarrow> uuid \<Rightarrow> uuid \<Rightarrow> 's \<Rightarrow> (error + unit) \<times> 's" where
  "UnsaveBookmark remove u b s = remove u b s"

definition IsSaved :: "(uuid \<Rightarrow> uuid \<Rightarrow> 's \<Rightarrow> error + bool) \<Rightarrow> uuid \<Rightarrow> uuid \<Rightarrow> 's \<Rightarrow> error + bool" where
  "IsSaved exists u b s = exists u b s"

section \<open>Stored queries\<close>

definition SavedSearchLimit :: nat where
  "SavedSearchLimit = 20"

definition CreateSearch_tx ::
  "faults \<Rightarrow> time \<Rightarrow> uuid \<Rightarrow> uuid \<Rightarrow> string \<Rightarrow> payload \<Rightarrow> nat \<Rightarrow> db \<Rightarrow> error + saved_search_row \<times> db" where
  "CreateSearch_tx fl now nid u name query limit d =
     andthen (sql fl 0 (Inr ((), d))) (\<lambda>_ d.
     andthen (sql fl 1 (case find_user_row u d of None \<Rightarrow> Inl NoRows | Some x \<Rightarrow> Inr (user_id x, d))) (\<lambda>_ d.
     andthen (sql fl 2 (Inr (count_where (\<lambda>s. ss_user s = u) (saved_searches d), d))) (\<lambda>n d.
     fail_if (limit \<le> n) ErrSavedSearchLimit (
     andthen (sql fl 3
        (if nid \<in> ss_id ` set (saved_searches d) then Inl (UniqueViolation ''saved_searches_pkey'')
         else let s = \<lparr>ss_id = nid, ss_user = u, ss_name = name, ss_query = query, ss_created_at = now\<rparr>
              in Inr (s, d\<lparr>saved_searches := saved_searches d @ [s]\<rparr>))) (\<lambda>s d.
     andthen (sql fl 4 (recordAudit u ''SAVED_SEARCH_CREATED'' ''saved_search'' (ss_id s) [] now d)) (\<lambda>_ d.
     commit fl 5 s d))))))"

definition CreateSearch ::
  "faults \<Rightarrow> time \<Rightarrow> uuid \<Rightarrow> uuid \<Rightarrow> string \<Rightarrow> payload \<Rightarrow> nat \<Rightarrow> db \<Rightarrow> (error + saved_search_row) \<times> db" where
  "CreateSearch fl now nid u name query limit = transact (CreateSearch_tx fl now nid u name query limit)"

definition ListSearches :: "faults \<Rightarrow> uuid \<Rightarrow> db \<Rightarrow> error + saved_search_row list" where
  "ListSearches fl u d = sql fl 0 (Inr (sort_key (\<lambda>s. (- ss_created_at s, ss_id s))
     (filter (\<lambda>s. ss_user s = u) (saved_searches d))))"

definition DeleteSearch_tx :: "faults \<Rightarrow> time \<Rightarrow> uuid \<Rightarrow> uuid \<Rightarrow> db \<Rightarrow> error + unit \<times> db" where
  "DeleteSearch_tx fl now i u d =
     andthen (sql fl 0 (Inr ((), d))) (\<lambda>_ d.
     andthen (sql fl 1 (Inr (count_where (\<lambda>s. ss_id s = i \<and> ss_user s = u) (saved_searches d),
        d\<lparr>saved_searches := filter (\<lambda>s. \<not> (ss_id s = i \<and> ss_user s = u)) (saved_searches d)\<rparr>))) (\<lambda>n d.
     fail_if (n = 0) ErrNotFound (
     andthen (sql fl 2 (recordAudit u ''SAVED_SEARCH_DELETED'' ''saved_search'' i [] now d)) (\<lambda>_ d.
     commit fl 3 () d))))"

definition DeleteSearch :: "faults \<Rightarrow> time \<Rightarrow> uuid \<Rightarrow> uuid \<Rightarrow> db \<Rightarrow> (error + unit) \<times> db" where
  "DeleteSearch fl now i u = transact (DeleteSearch_tx fl now i u)"

definition CreateSearchService ::
  "(uuid \<Rightarrow> string \<Rightarrow> payload \<Rightarrow> nat \<Rightarrow> 's \<Rightarrow> (error + saved_search_row) \<times> 's) \<Rightarrow>
   uuid \<Rightarrow> string \<Rightarrow> payload option \<Rightarrow> 's \<Rightarrow> (error + saved_search_row) \<times> 's" where
  "CreateSearchService create u name query s =
     (if u = uuid_nil then (Inl ErrUnauthenticated, s)
      else if \<not> utf8_valid name \<or> list_ex is_control (runes name) then (Inl ErrInvalidSearch, s)
      else let n = trim_space name in
        case query of
          None \<Rightarrow> (Inl ErrInvalidSearch, s)
        | Some q \<Rightarrow>
            if n = '''' \<or> 100 < rune_count n then (Inl ErrInvalidSearch, s)
            else case ValidateSavedQuery (Some q) of
              Some e \<Rightarrow> (Inl e, s)
            | None \<Rightarrow> create u n q SavedSearchLimit s)"

definition ListSearchesService ::
  "(uuid \<Rightarrow> 's \<Rightarrow> error + saved_search_row list) \<Rightarrow> uuid \<Rightarrow> 's \<Rightarrow> error + saved_search_row list" where
  "ListSearchesService list u s = (if u = uuid_nil then Inl ErrUnauthenticated else list u s)"

definition DeleteSearchService ::
  "(uuid \<Rightarrow> uuid \<Rightarrow> 's \<Rightarrow> (error + unit) \<times> 's) \<Rightarrow> uuid \<Rightarrow> uuid \<Rightarrow> 's \<Rightarrow> (error + unit) \<times> 's" where
  "DeleteSearchService delete i u s =
     (if u = uuid_nil then (Inl ErrUnauthenticated, s)
      else if i = uuid_nil then (Inl ErrNotFound, s) else delete i u s)"

section \<open>Properties\<close>

definition searches_bounded :: "db \<Rightarrow> bool" where
  "searches_bounded d \<longleftrightarrow> (\<forall>u. count_where (\<lambda>s. ss_user s = u) (saved_searches d) \<le> SavedSearchLimit)"

lemma CreateSearch_Inr:
  assumes "CreateSearch fl now nid u name q limit d = (Inr s, d')"
  shows "count_where (\<lambda>s. ss_user s = u) (saved_searches d) < limit \<and> ss_user s = u \<and> ss_name s = name \<and>
    saved_searches d' = saved_searches d @ [s]"
  using transact_InrD [OF assms [unfolded CreateSearch_def]]
  by (auto simp: CreateSearch_tx_def andthen_Inr Let_def not_le elim!: recordAudit_InrE split: if_splits option.splits)

lemma DeleteSearch_Inr:
  assumes "DeleteSearch fl now i u d = (Inr x, d')"
  shows "saved_searches d' = filter (\<lambda>s. \<not> (ss_id s = i \<and> ss_user s = u)) (saved_searches d) \<and>
    (\<exists>s \<in> set (saved_searches d). ss_id s = i \<and> ss_user s = u)"
  using transact_InrD [OF assms [unfolded DeleteSearch_def]]
  by (auto simp: DeleteSearch_tx_def andthen_Inr count_where_pos elim!: recordAudit_InrE)

lemma CreateSearchService_cases:
  assumes "CreateSearchService (CreateSearch fl now nid) u name query d = (r, d')"
  obtains e where "r = Inl e" and "d' = d"
  | q where "query = Some q" and "ValidateSavedQuery query = None" and "trim_space name \<noteq> ''''"
      and "CreateSearch fl now nid u (trim_space name) q SavedSearchLimit d = (r, d')"
  using assms by (auto simp: CreateSearchService_def Let_def split: if_splits option.splits)

lemma count_filter_le: "count_where P (filter Q xs) \<le> count_where P xs"
  by (induction xs) auto

text \<open>A member never has more than twenty stored queries. Whatever statements fail, creating and
  deleting stored queries keeps the bound for every member; creating one stores exactly one query,
  of the asking member, under the trimmed name and only if the query is one the public search would
  accept; at the bound it is refused and nothing changes; and a query is deleted only by its owner.\<close>

theorem saved_searches_are_bounded:
  assumes "searches_bounded d"
  shows "searches_bounded (snd (CreateSearchService (CreateSearch fl now nid) u name query d)) \<and>
    searches_bounded (snd (DeleteSearchService (DeleteSearch fl now) i u d)) \<and>
    (\<forall>s d'. CreateSearchService (CreateSearch fl now nid) u name query d = (Inr s, d') \<longrightarrow>
       saved_searches d' = saved_searches d @ [s] \<and> ss_user s = u \<and> ss_name s = trim_space name \<and>
       ValidateSavedQuery query = None \<and>
       count_where (\<lambda>s. ss_user s = u) (saved_searches d) < SavedSearchLimit) \<and>
    (\<forall>x d'. DeleteSearchService (DeleteSearch fl now) i u d = (Inr x, d') \<longrightarrow>
       filter (\<lambda>s. ss_user s \<noteq> u) (saved_searches d') = filter (\<lambda>s. ss_user s \<noteq> u) (saved_searches d))"
proof (intro conjI allI impI)
  show "searches_bounded (snd (CreateSearchService (CreateSearch fl now nid) u name query d))"
  proof (cases "CreateSearchService (CreateSearch fl now nid) u name query d")
    case (Pair r d')
    then show ?thesis
    proof (rule CreateSearchService_cases)
      fix q assume c: "CreateSearch fl now nid u (trim_space name) q SavedSearchLimit d = (r, d')"
      show ?thesis
      proof (cases r)
        case (Inl e)
        with c have "d' = d" by (auto simp: CreateSearch_def dest: transact_InlD)
        with Pair assms show ?thesis by simp
      next
        case (Inr s)
        with CreateSearch_Inr [of fl now nid u "trim_space name" q SavedSearchLimit d s d'] c Pair assms
        show ?thesis by (auto simp: searches_bounded_def Suc_le_eq)
      qed
    qed (use Pair assms in simp)
  qed
  show "searches_bounded (snd (DeleteSearchService (DeleteSearch fl now) i u d))"
  proof (cases "DeleteSearch fl now i u d")
    case (Pair r d')
    show ?thesis
    proof (cases r)
      case (Inl e)
      with Pair have "d' = d" by (auto simp: DeleteSearch_def dest: transact_InlD)
      with Pair assms show ?thesis by (simp add: DeleteSearchService_def)
    next
      case (Inr x)
      with DeleteSearch_Inr [of fl now i u d x d'] Pair assms show ?thesis
        by (auto simp: DeleteSearchService_def searches_bounded_def intro: order_trans [OF count_filter_le])
    qed
  qed
next
  fix s d' assume "CreateSearchService (CreateSearch fl now nid) u name query d = (Inr s, d')"
  then obtain q where "ValidateSavedQuery query = None"
    "CreateSearch fl now nid u (trim_space name) q SavedSearchLimit d = (Inr s, d')"
    by (rule CreateSearchService_cases) auto
  then show "saved_searches d' = saved_searches d @ [s]" "ss_user s = u" "ss_name s = trim_space name"
      "ValidateSavedQuery query = None" "count_where (\<lambda>s. ss_user s = u) (saved_searches d) < SavedSearchLimit"
    by (auto dest: CreateSearch_Inr)
next
  fix x d' assume "DeleteSearchService (DeleteSearch fl now) i u d = (Inr x, d')"
  then have "DeleteSearch fl now i u d = (Inr x, d')" by (auto simp: DeleteSearchService_def split: if_splits)
  then have "saved_searches d' = filter (\<lambda>s. \<not> (ss_id s = i \<and> ss_user s = u)) (saved_searches d)"
    by (auto dest: DeleteSearch_Inr)
  then show "filter (\<lambda>s. ss_user s \<noteq> u) (saved_searches d') = filter (\<lambda>s. ss_user s \<noteq> u) (saved_searches d)"
    by (auto intro: filter_cong)
qed

theorem saved_searches_are_bounded_witness:
  "searches_bounded (snd (CreateSearchService (CreateSearch no_faults 5 900) 2 '' mine ''
     (Some [(''page'', JInt 2)]) sample_db))"
proof -
  have "searches_bounded sample_db" by (simp add: searches_bounded_def)
  from saved_searches_are_bounded [OF this, where fl = no_faults and now = 5 and nid = 900 and u = 2
      and name = "'' mine ''" and query = "Some [(''page'', JInt 2)]"]
  show ?thesis by blast
qed

text \<open>Bookmarks behave as a set of titles per member. With no statement failing, for a known member
  and title: after saving, the title is saved; saving it again returns the same bookmark and changes
  nothing; after removing it, it is not; removing what is not saved is no error; and nobody else's
  bookmarks change. A title that does not exist is refused as a conflict, not as not found.\<close>

theorem bookmarks_are_sets:
  assumes "u \<in> user_ids d" and "b \<in> book_ids d" and "nid \<notin> bm_id ` set (bookmarks d)"
  shows "\<exists>m d1. AddBookmark no_faults now nid u b d = (Inr m, d1) \<and> bm_user m = u \<and> bm_book m = b \<and>
    BookmarkExists no_faults u b d1 = Inr True \<and>
    AddBookmark no_faults later nid' u b d1 = (Inr m, d1) \<and>
    filter (\<lambda>m. bm_user m \<noteq> u) (bookmarks d1) = filter (\<lambda>m. bm_user m \<noteq> u) (bookmarks d) \<and>
    (\<exists>d2. RemoveBookmark no_faults u b d1 = (Inr (), d2) \<and> BookmarkExists no_faults u b d2 = Inr False \<and>
       RemoveBookmark no_faults u b d2 = (Inr (), d2) \<and>
       filter (\<lambda>m. bm_user m \<noteq> u) (bookmarks d2) = filter (\<lambda>m. bm_user m \<noteq> u) (bookmarks d)) \<and>
    (b' \<notin> book_ids d \<and> find (bookmark_of u b') (bookmarks d) = None \<longrightarrow>
       AddBookmark no_faults now nid u b' d = (Inl ErrConflict, d))"
proof -
  obtain x y where rows: "find_user_row u d = Some x" "find_book_row b d = Some y"
    using assms(1,2) find_user_row_None [of u d] find_book_row_None [of b d] by fastforce
  let ?new = "\<lparr>bm_id = nid, bm_user = u, bm_book = b, bm_created_at = now\<rparr>"
  have find_snoc: "find P (xs @ [x]) = (case find P xs of Some y \<Rightarrow> Some y | None \<Rightarrow> if P x then Some x else None)"
    for P and xs :: "bookmark list" and x by (induction xs) auto
  obtain m d1 where add: "AddBookmark no_faults now nid u b d = (Inr m, d1)" and m: "bm_user m = u" "bm_book m = b"
    and found: "find (bookmark_of u b) (bookmarks d1) = Some m"
    and others: "filter (\<lambda>m. bm_user m \<noteq> u) (bookmarks d1) = filter (\<lambda>m. bm_user m \<noteq> u) (bookmarks d)"
  proof (cases "find (bookmark_of u b) (bookmarks d)")
    case None
    show thesis
      by (rule that [of ?new "d\<lparr>bookmarks := bookmarks d @ [?new]\<rparr>"])
        (use None rows assms(3) in \<open>simp_all add: AddBookmark_def transact_def find_snoc bookmark_of_def [of u b ?new] Let_def\<close>)
  next
    case (Some m)
    then have "bm_user m = u" "bm_book m = b" using find_SomeD [OF Some] by (auto simp: bookmark_of_def)
    with Some show thesis by (intro that [of m d]) (simp_all add: AddBookmark_def transact_def)
  qed
  have "BookmarkExists no_faults u b d1 = Inr True"
    using find_SomeD [OF found] by (auto simp: BookmarkExists_def list_ex_iff)
  moreover have "AddBookmark no_faults later nid' u b d1 = (Inr m, d1)"
    by (simp add: AddBookmark_def transact_def found)
  moreover have "\<exists>d2. RemoveBookmark no_faults u b d1 = (Inr (), d2) \<and> BookmarkExists no_faults u b d2 = Inr False \<and>
       RemoveBookmark no_faults u b d2 = (Inr (), d2) \<and>
       filter (\<lambda>m. bm_user m \<noteq> u) (bookmarks d2) = filter (\<lambda>m. bm_user m \<noteq> u) (bookmarks d)"
  proof -
    have "filter (\<lambda>m. bm_user m \<noteq> u) (filter (\<lambda>m. \<not> bookmark_of u b m) ms) = filter (\<lambda>m. bm_user m \<noteq> u) ms" for ms
      by (induction ms) (auto simp: bookmark_of_def)
    with others show ?thesis
      by (auto simp: RemoveBookmark_def transact_def BookmarkExists_def list_ex_iff simp del: filter_filter)
  qed
  moreover have "AddBookmark no_faults now nid u b' d = (Inl ErrConflict, d)"
    if "b' \<notin> book_ids d" "find (bookmark_of u b') (bookmarks d) = None"
    using that rows assms(3) find_book_row_None [of b' d] by (auto simp: AddBookmark_def transact_def)
  ultimately show ?thesis using add m others
    by (intro exI [of _ m] exI [of _ d1]) simp
qed

theorem bookmarks_are_sets_witness:
  "\<exists>m d1. AddBookmark no_faults 5 900 2 10 sample_db = (Inr m, d1) \<and>
     AddBookmark no_faults 6 901 2 10 d1 = (Inr m, d1) \<and>
     AddBookmark no_faults 5 900 2 99 sample_db = (Inl ErrConflict, sample_db)"
proof -
  have "2 \<in> user_ids sample_db" "10 \<in> book_ids sample_db" "900 \<notin> bm_id ` set (bookmarks sample_db)"
    "99 \<notin> book_ids sample_db" by (simp_all add: id_sets)
  with bookmarks_are_sets [of 2 sample_db 10 900 5 6 901 99] show ?thesis by auto
qed

end
