(* ===== verification/Member_Handlers.thy ===== *)
theory Member_Handlers
  imports Requests Open_Library Desk Member_Lists Members
begin

text \<open>
  The endpoints of the desk and of a member (transport/http/handler): what of the request each reads,
  whose name it acts in, which service it calls with which statements, and what it replies. A success
  carries one of the shapes of data below. Who acts is always the account the middleware has put in
  the context. A site holds what stands outside the program: the JSON and UUID readers, the collation
  and text search of the database, the other services; a call holds the clock, the faults, the random
  draws and the new ids one request meets.
\<close>

section \<open>The data of a reply\<close>

record loan_response =
  lr_Loan :: loan
  lr_Status :: string
  lr_IsOverdue :: bool
  lr_DaysOverdue :: int

record user_response =
  ur_ID :: uuid
  ur_Identifier :: string
  ur_Email :: string
  ur_FullName :: string
  ur_Role :: string
  ur_Category :: "string option"
  ur_Status :: user_status
  ur_MustChangePassword :: bool
  ur_IsSynthetic :: bool

record reservation_response =
  rr_ID :: uuid
  rr_BookID :: uuid
  rr_BookTitle :: string
  rr_Status :: reservation_status
  rr_QueuePosition :: int
  rr_CreatedAt :: time
  rr_ExpiresAt :: "time option"

datatype body =
    BStatus string
  | BRole string
  | BLoan loan_response
  | BLoans "loan_response list"
  | BReservation reservation_response
  | BReservations "reservation_response list"
  | BBookmarks "(book_view \<times> time) list"
  | BSearch saved_search_row
  | BSearches "saved_search_row list"
  | BSession session
  | BRotated string string int
  | BMember user_response
  | BMembers "user_response list"
  | BRecord user_response "loan_response list"
  | BImport import_result
  | BBook book_view
  | BBooks "book_view list"
  | BBookCopies book_view "copy list"
  | BExisting string book_view
  | BFacets "(string \<times> (string \<times> nat) list) list"
  | BCopy copy
  | BAtDesk copy string string "loan_response option"
  | BDashboard stats "(invitation_status \<times> nat) list"
  | BAudit "(string \<times> audit_row) list"
  | BInvitations "invitation_row list"
  | BSuggestions "metadata list" "string option"

definition toLoanResponse :: "loan \<Rightarrow> time \<Rightarrow> loan_response" where
  "toLoanResponse l now =
     \<lparr>lr_Loan = l,
      lr_Status = (if IsReturned l then ''returned'' else if IsOverdueAt l now then ''overdue'' else ''borrowed''),
      lr_IsOverdue = IsOverdueAt l now, lr_DaysOverdue = DaysOverdueAt l now\<rparr>"

definition toLoanResponses :: "loan list \<Rightarrow> time \<Rightarrow> loan_response list" where
  "toLoanResponses ls now = map (\<lambda>l. toLoanResponse l now) ls"

definition toUserResponse :: "user \<Rightarrow> user_response" where
  "toUserResponse u =
     \<lparr>ur_ID = user_id u, ur_Identifier = user_identifier u, ur_Email = user_email u, ur_FullName = user_full_name u,
      ur_Role = role_string (user_role u), ur_Category = map_option category_string (user_category u),
      ur_Status = user_status u, ur_MustChangePassword = user_must_change_password u,
      ur_IsSynthetic = user_is_synthetic u\<rparr>"

text \<open>The format of a timestamp drops the fraction of a second.\<close>

definition timeFormat :: "time \<Rightarrow> time" where
  "timeFormat t = t div second * second"

definition toReservationResponse :: "reservation \<Rightarrow> reservation_response" where
  "toReservationResponse r =
     \<lparr>rr_ID = res_id r, rr_BookID = res_book r, rr_BookTitle = res_book_title r, rr_Status = res_status r,
      rr_QueuePosition = res_queue_pos r, rr_CreatedAt = timeFormat (res_created_at r),
      rr_ExpiresAt = map_option timeFormat (res_expires_at r)\<rparr>"

definition toSavedSearchResponse :: "saved_search_row \<Rightarrow> saved_search_row" where
  "toSavedSearchResponse s = s\<lparr>ss_created_at := timeFormat (ss_created_at s)\<rparr>"

section \<open>What stands outside\<close>

record site =
  si_json :: "string \<Rightarrow> string + json \<times> string"
  si_repair :: "string \<Rightarrow> string"
  si_complain :: "json_error \<Rightarrow> string"
  si_uuid :: "string \<Rightarrow> uuid option"
  si_driver_text :: "pg_error \<Rightarrow> string"
  si_collate :: collation
  si_text :: text_search
  si_year :: "time \<Rightarrow> int"
  si_members :: member_service
  si_audit_id :: "nat \<Rightarrow> nat"
  si_hostname :: "string \<Rightarrow> string"
  si_ask :: "string \<Rightarrow> answer"
  si_catalogue :: string
  si_webhook_secret :: string
  si_base64_decode :: "string \<Rightarrow> string option"
  si_base64_encode :: "string \<Rightarrow> string"
  si_hmac :: "string \<Rightarrow> string \<Rightarrow> string"
  si_rfc3339 :: "string \<Rightarrow> time option"
  si_ping :: "error option"

text \<open>The outbox as a notifier: the k-th transaction of the call.\<close>

definition outbox_notify :: "desk_call \<Rightarrow> nat \<Rightarrow> db notify" where
  "outbox_notify c k = Queue (dc_plan c k) (dc_now c) (dc_id c k)"

section \<open>Steps of a handler\<close>

definition unread :: "site \<Rightarrow> json_error \<Rightarrow> 's \<Rightarrow> 'b reply option \<times> 's" where
  "unread si e s = (Some (ValidationError (''The request body could not be read: '' @ si_complain si e)), s)"

definition invalid :: "string \<Rightarrow> 's \<Rightarrow> 'b reply option \<times> 's" where
  "invalid message s = (Some (ValidationError message), s)"

text \<open>The end of a handler: the error's reply, or the success.\<close>

definition respond :: "('a \<Rightarrow> 'b reply) \<Rightarrow> (error + 'a) \<times> 's \<Rightarrow> 'b reply option \<times> 's" where
  "respond ok res = (case res of (Inl e, s) \<Rightarrow> refuse e s | (Inr x, s) \<Rightarrow> (Some (ok x), s))"

definition with_user :: "req_context \<Rightarrow> (uuid \<Rightarrow> 's \<Rightarrow> 'b reply option \<times> 's) \<Rightarrow> 's \<Rightarrow> 'b reply option \<times> 's" where
  "with_user cx f s = (case cx_UserID cx of None \<Rightarrow> refuse ErrUnauthenticated s | Some u \<Rightarrow> f u s)"

text \<open>Without the guard of the middleware there is no account; the zero id stands for it.\<close>

definition actor_of :: "req_context \<Rightarrow> uuid" where
  "actor_of cx = (case cx_UserID cx of None \<Rightarrow> uuid_nil | Some u \<Rightarrow> u)"

definition with_body ::
  "site \<Rightarrow> struct \<Rightarrow> request \<Rightarrow> (fields \<Rightarrow> 's \<Rightarrow> 'b reply option \<times> 's) \<Rightarrow> 's \<Rightarrow> 'b reply option \<times> 's" where
  "with_body si st r f s = (case decode (si_json si) st r of Inl e \<Rightarrow> unread si e s | Inr fs \<Rightarrow> f fs s)"

definition with_uuid :: "site \<Rightarrow> string \<Rightarrow> string \<Rightarrow> (uuid \<Rightarrow> 's \<Rightarrow> 'b reply option \<times> 's) \<Rightarrow> 's \<Rightarrow> 'b reply option \<times> 's" where
  "with_uuid si text complaint f s = (case si_uuid si text of None \<Rightarrow> invalid complaint s | Some i \<Rightarrow> f i s)"

definition pathUUID :: "site \<Rightarrow> request \<Rightarrow> (uuid \<Rightarrow> 's \<Rightarrow> 'b reply option \<times> 's) \<Rightarrow> 's \<Rightarrow> 'b reply option \<times> 's" where
  "pathUUID si r = with_uuid si (rq_PathValue r) ''The id in the URL is not a valid identifier.''"

lemmas handler_steps = unread_def invalid_def respond_def with_user_def with_body_def with_uuid_def pathUUID_def refuse_def

definition status_reply :: "nat \<Rightarrow> string \<Rightarrow> 'a \<Rightarrow> body reply" where
  "status_reply code text _ = JSON code (BStatus text) None"

definition page_reply :: "('a list \<Rightarrow> body) \<Rightarrow> int \<Rightarrow> int \<Rightarrow> 'a list \<times> nat \<Rightarrow> body reply" where
  "page_reply f page limit res = JSON 200 (f (fst res)) (Some (page, limit, snd res))"

section \<open>Circulation\<close>

definition desk_borrow :: "desk_call \<Rightarrow> uuid \<Rightarrow> uuid \<Rightarrow> uuid \<Rightarrow> db \<Rightarrow> (error + loan) \<times> db" where
  "desk_borrow c = BorrowService (FindByID (dc_plan c 0)) (Borrow (dc_plan c 1) (dc_now c) (dc_id c 1))
     (outbox_notify c 2) (dc_now c)"

definition self_borrow :: "desk_call \<Rightarrow> uuid \<Rightarrow> uuid \<Rightarrow> db \<Rightarrow> (error + loan) \<times> db" where
  "self_borrow c = SelfCheckoutService (FindByID (dc_plan c 0)) (Some (SelfCheckout (dc_plan c 1) (dc_now c) (dc_id c 1)))
     (outbox_notify c 2) (dc_now c)"

definition return_hook :: "desk_call \<Rightarrow> uuid \<Rightarrow> db \<Rightarrow> (error + bool) \<times> db" where
  "return_hook c = OnCopyReturned (BookIDForCopy (dc_plan c 1)) (PromoteNext (dc_plan c 2) (dc_now c)) (outbox_notify c 3)"

definition desk_return :: "desk_call \<Rightarrow> uuid \<Rightarrow> uuid \<Rightarrow> db \<Rightarrow> (error + loan) \<times> db" where
  "desk_return c = ReturnService (Return (dc_plan c 0) (dc_now c)) (Some (return_hook c))"

definition loan_reply :: "nat \<Rightarrow> time \<Rightarrow> loan \<Rightarrow> body reply" where
  "loan_reply code now l = JSON code (BLoan (toLoanResponse l now)) None"

definition SelfCheckoutHandler :: "site \<Rightarrow> desk_call \<Rightarrow> (body, db) handler" where
  "SelfCheckoutHandler si c r cx =
     with_user cx (\<lambda>memberID.
     with_body si [(''copy_id'', FText)] r (\<lambda>fs.
     with_uuid si (text_field (si_repair si) fs ''copy_id'') ''copy_id must be a valid identifier.'' (\<lambda>copyID d.
     respond (loan_reply 201 (dc_now c)) (self_borrow c copyID memberID d))))"

definition BorrowHandler :: "site \<Rightarrow> desk_call \<Rightarrow> (body, db) handler" where
  "BorrowHandler si c r cx =
     with_user cx (\<lambda>librarianID.
     with_body si [(''copy_id'', FText), (''member_id'', FText)] r (\<lambda>fs.
     with_uuid si (text_field (si_repair si) fs ''copy_id'') ''copy_id must be a valid identifier.'' (\<lambda>copyID.
     with_uuid si (text_field (si_repair si) fs ''member_id'') ''member_id must be a valid identifier.'' (\<lambda>memberID d.
     respond (loan_reply 201 (dc_now c)) (desk_borrow c copyID memberID librarianID d)))))"

definition ReturnHandler :: "site \<Rightarrow> desk_call \<Rightarrow> (body, db) handler" where
  "ReturnHandler si c r cx =
     with_user cx (\<lambda>librarianID.
     pathUUID si r (\<lambda>loanID d.
     respond (loan_reply 200 (dc_now c)) (desk_return c loanID librarianID d)))"

definition ListLoansHandler :: "site \<Rightarrow> desk_call \<Rightarrow> (body, db) handler" where
  "ListLoansHandler si c r cx d =
     (case pagination r of (limit, offset, page) \<Rightarrow>
        let overdueOnly = boolParam r ''overdue''; openOnly = overdueOnly \<or> boolParam r ''open'' in
        respond (page_reply (\<lambda>ls. BLoans (toLoanResponses ls (dc_now c))) page limit)
          (ListLoans (dc_plan c 0) (dc_now c) overdueOnly openOnly limit offset (boolParam r ''synthetic'') d, d))"

definition loans_reply :: "time \<Rightarrow> loan list \<Rightarrow> body reply" where
  "loans_reply now ls = JSON 200 (BLoans (toLoanResponses ls now)) None"

definition MyLoansHandler :: "site \<Rightarrow> desk_call \<Rightarrow> (body, db) handler" where
  "MyLoansHandler si c r cx =
     with_user cx (\<lambda>memberID d. respond (loans_reply (dc_now c)) (MyLoans (LoansForUser (dc_plan c 0)) memberID d, d))"

definition MyHistoryHandler :: "site \<Rightarrow> desk_call \<Rightarrow> (body, db) handler" where
  "MyHistoryHandler si c r cx =
     with_user cx (\<lambda>memberID d. respond (loans_reply (dc_now c)) (MyHistory (LoansForUser (dc_plan c 0)) memberID d, d))"

section \<open>Reservations\<close>

definition reserve :: "desk_call \<Rightarrow> uuid \<Rightarrow> uuid \<Rightarrow> db \<Rightarrow> (error + reservation) \<times> db" where
  "reserve c = Reserve (\<lambda>b u hold. Create (dc_plan c 0) (dc_now c) (dc_id c 0) b u)"

definition cancel :: "desk_call \<Rightarrow> uuid \<Rightarrow> uuid \<Rightarrow> db \<Rightarrow> (error + unit) \<times> db" where
  "cancel c = CancelService (Cancel (dc_plan c 0)) (PromoteNext (dc_plan c 1) (dc_now c)) (outbox_notify c 2)"

definition CreateReservationHandler :: "site \<Rightarrow> desk_call \<Rightarrow> (body, db) handler" where
  "CreateReservationHandler si c r cx =
     with_user cx (\<lambda>memberID.
     with_body si [(''book_id'', FText)] r (\<lambda>fs.
     with_uuid si (text_field (si_repair si) fs ''book_id'') ''book_id must be a valid identifier.'' (\<lambda>bookID d.
     respond (\<lambda>x. JSON 201 (BReservation (toReservationResponse x)) None) (reserve c bookID memberID d))))"

definition ListReservationsHandler :: "site \<Rightarrow> desk_call \<Rightarrow> (body, db) handler" where
  "ListReservationsHandler si c r cx =
     with_user cx (\<lambda>memberID d.
     respond (\<lambda>xs. JSON 200 (BReservations (map toReservationResponse xs)) None)
       (ListForUser (dc_plan c 0) memberID d, d))"

definition CancelReservationHandler :: "site \<Rightarrow> desk_call \<Rightarrow> (body, db) handler" where
  "CancelReservationHandler si c r cx =
     with_user cx (\<lambda>memberID.
     pathUUID si r (\<lambda>i d. respond (status_reply 200 ''cancelled'') (cancel c i memberID d)))"

section \<open>Bookmarks, saved searches, devices\<close>

definition no_content :: "'a \<Rightarrow> body reply" where
  "no_content _ = bare 204 []"

definition CreateBookmarkHandler :: "site \<Rightarrow> desk_call \<Rightarrow> (body, db) handler" where
  "CreateBookmarkHandler si c r cx =
     with_user cx (\<lambda>memberID.
     with_body si [(''book_id'', FText)] r (\<lambda>fs.
     with_uuid si (text_field (si_repair si) fs ''book_id'') ''book_id must be a valid identifier.'' (\<lambda>bookID d.
     respond no_content (SaveBookmark (AddBookmark (dc_plan c 0) (dc_now c) (dc_id c 0)) memberID bookID d))))"

definition DeleteBookmarkHandler :: "site \<Rightarrow> desk_call \<Rightarrow> (body, db) handler" where
  "DeleteBookmarkHandler si c r cx =
     with_user cx (\<lambda>memberID.
     with_uuid si (rq_PathValue r) ''The book identifier is not valid.'' (\<lambda>bookID d.
     respond no_content (UnsaveBookmark (RemoveBookmark (dc_plan c 0)) memberID bookID d)))"

definition ListBookmarksHandler :: "site \<Rightarrow> desk_call \<Rightarrow> (body, db) handler" where
  "ListBookmarksHandler si c r cx =
     with_user cx (\<lambda>memberID d.
     case pagination r of (limit, offset, page) \<Rightarrow>
       respond (page_reply (\<lambda>xs. BBookmarks (map (\<lambda>(b, t). (NewBookView b, timeFormat t)) xs)) page limit)
         (ListBookmarks (si_collate si) (dc_plan c 0) memberID limit offset d, d))"

definition CreateSearchHandler :: "site \<Rightarrow> desk_call \<Rightarrow> (body, db) handler" where
  "CreateSearchHandler si c r cx =
     with_user cx (\<lambda>memberID.
     with_body si [(''name'', FText), (''query'', FRaw)] r (\<lambda>fs d.
     respond (\<lambda>x. JSON 201 (BSearch (toSavedSearchResponse x)) None)
       (CreateSearchService (CreateSearch (dc_plan c 0) (dc_now c) (dc_id c 0)) memberID
          (text_field (si_repair si) fs ''name'') (raw_field (si_repair si) fs ''query'') d)))"

definition ListSearchesHandler :: "site \<Rightarrow> desk_call \<Rightarrow> (body, db) handler" where
  "ListSearchesHandler si c r cx =
     with_user cx (\<lambda>memberID d.
     respond (\<lambda>xs. JSON 200 (BSearches (map toSavedSearchResponse xs)) None)
       (ListSearchesService (ListSearches (dc_plan c 0)) memberID d, d))"

definition DeleteSearchHandler :: "site \<Rightarrow> desk_call \<Rightarrow> (body, db) handler" where
  "DeleteSearchHandler si c r cx =
     with_user cx (\<lambda>memberID.
     pathUUID si r (\<lambda>i d.
     respond (status_reply 200 ''deleted'')
       (DeleteSearchService (DeleteSearch (dc_plan c 0) (dc_now c)) i memberID d)))"

definition device_struct :: struct where
  "device_struct = [(''token'', FText), (''platform'', FText)]"

definition RegisterDeviceHandler :: "site \<Rightarrow> desk_call \<Rightarrow> (body, db) handler" where
  "RegisterDeviceHandler si c r cx =
     with_user cx (\<lambda>userID.
     with_body si device_struct r (\<lambda>fs d.
     let token = text_field (si_repair si) fs ''token''; platform = text_field (si_repair si) fs ''platform'' in
     if token = [] then invalid ''token is required.'' d
     else respond (status_reply 200 ''registered'')
       (RegisterDevice (dc_plan c 0) (dc_now c) userID token (if platform = [] then ''web'' else platform) d)))"

definition UnregisterDeviceHandler :: "site \<Rightarrow> desk_call \<Rightarrow> (body, db) handler" where
  "UnregisterDeviceHandler si c r cx =
     with_user cx (\<lambda>userID.
     with_body si device_struct r (\<lambda>fs d.
     respond (status_reply 200 ''unregistered'')
       (RevokeOwnDeviceToken (dc_plan c 0) (dc_now c) userID (text_field (si_repair si) fs ''token'') d)))"

end
