(* ===== verification/Staff_Handlers.thy ===== *)
theory Staff_Handlers
  imports Member_Handlers Catalogue_Query
begin

text \<open>
  The endpoints of the public catalogue, of the staff and of the accounts (transport/http/handler), and
  the audit trail they read (audit_repo.go). The handlers of the accounts run on the world of the
  authentication service, all others on the database.
\<close>

section \<open>The catalogue\<close>

definition bookViews :: "book list \<Rightarrow> book_view list" where
  "bookViews bs = map NewBookView bs"

definition SearchHandler :: "site \<Rightarrow> desk_call \<Rightarrow> (body, db) handler" where
  "SearchHandler si c r cx d =
     (case catalogueQueryValues r of
        Inl e \<Rightarrow> refuse e d
      | Inr q \<Rightarrow> (case ParseCatalogueQuery q of
          Inl e \<Rightarrow> refuse e d
        | Inr (p, page) \<Rightarrow>
            respond (page_reply (\<lambda>bs. BBooks (bookViews bs)) page (sp_Limit p))
              (SearchService (Search (si_text si) (si_collate si) (dc_plan c 0)) p d, d)))"

definition GetHandler :: "site \<Rightarrow> desk_call \<Rightarrow> (body, db) handler" where
  "GetHandler si c r cx =
     pathUUID si r (\<lambda>i d.
     respond (\<lambda>(b, cs). JSON 200 (BBookCopies b cs) None)
       (GetBook (FindBook (si_collate si) (dc_plan c 0) 0) (ListCopies (si_collate si) (dc_plan c 1)) i d, d))"

definition NewArrivalsHandler :: "site \<Rightarrow> desk_call \<Rightarrow> (body, db) handler" where
  "NewArrivalsHandler si c r cx d =
     (case catalogueQueryValues r of
        Inl e \<Rightarrow> refuse e d
      | Inr q \<Rightarrow>
          if \<not> set (map fst q) \<subseteq> {''page'', ''per_page''} then refuse ErrInvalidSearch d
          else (case ParseCatalogueQuery q of
            Inl e \<Rightarrow> refuse e d
          | Inr (p, page) \<Rightarrow>
              respond (page_reply (\<lambda>bs. BBooks (bookViews bs)) page (sp_Limit p))
                (NewArrivalsService (Some (NewArrivals (si_collate si) (dc_plan c 0))) (sp_Limit p) (sp_Offset p) d, d)))"

definition RelatedHandler :: "site \<Rightarrow> desk_call \<Rightarrow> (body, db) handler" where
  "RelatedHandler si c r cx =
     pathUUID si r (\<lambda>i d.
     case catalogueQueryValues r of
       Inl e \<Rightarrow> refuse e d
     | Inr q \<Rightarrow>
         if \<not> set (map fst q) \<subseteq> {''per_page''} then refuse ErrInvalidSearch d
         else (case ParseCatalogueQuery (if q = [] then [(''per_page'', [''6''])] else q) of
           Inl e \<Rightarrow> refuse e d
         | Inr (p, _) \<Rightarrow>
             respond (\<lambda>bs. JSON 200 (BBooks (bookViews bs)) None)
               (RelatedService (Some (\<lambda>i n. Related (si_collate si) (dc_plan c 0) i (nat n))) i (sp_Limit p) d, d)))"

definition FacetsHandler :: "site \<Rightarrow> desk_call \<Rightarrow> (body, db) handler" where
  "FacetsHandler si c r cx d =
     (case catalogueQueryValues r of
        Inl e \<Rightarrow> refuse e d
      | Inr q \<Rightarrow>
          if q \<noteq> [] then refuse ErrInvalidSearch d
          else respond (\<lambda>fs. JSON 200 (BFacets fs) None)
            (FacetsService (Some (Facets (si_collate si) (dc_plan c 0))) d, d))"

definition book_struct :: struct where
  "book_struct =
     [(''edition'', FText), (''language'', FText), (''faculty'', FText), (''department'', FText), (''title'', FText),
      (''subtitle'', FText), (''isbn13'', FText), (''isbn10'', FText), (''publisher'', FText),
      (''place_of_publication'', FText), (''published_year'', FNumberPtr), (''call_number'', FText),
      (''description'', FText), (''authors'', FTexts), (''subjects'', FTexts)]"

definition create_book_of :: "(string \<Rightarrow> string) \<Rightarrow> uuid \<Rightarrow> fields \<Rightarrow> create_book_params" where
  "create_book_of repair staffID fs =
     (let t = text_field repair fs in
      \<lparr>cb_Edition = t ''edition'', cb_Language = t ''language'', cb_Faculty = t ''faculty'',
       cb_Department = t ''department'', cb_Title = t ''title'', cb_Subtitle = t ''subtitle'',
       cb_ISBN13 = t ''isbn13'', cb_ISBN10 = t ''isbn10'', cb_Publisher = t ''publisher'',
       cb_Place = t ''place_of_publication'', cb_PublishedYear = number_ptr fs ''published_year'',
       cb_CallNumber = t ''call_number'', cb_Description = t ''description'',
       cb_Authors = or_old (texts_ptr repair fs ''authors'') [], cb_Subjects = or_old (texts_ptr repair fs ''subjects'') [],
       cb_StaffID = staffID\<rparr>)"

definition held_message :: string where
  "held_message = ''The library already holds this title. Add a copy to it rather than cataloguing it again.''"

definition CreateBookHandler :: "site \<Rightarrow> desk_call \<Rightarrow> (body, db) handler" where
  "CreateBookHandler si c r cx =
     with_body si book_struct r (\<lambda>fs d.
     case CreateBookService (si_collate si) (dc_plan c 0) (si_year si (dc_now c)) (dc_now c) (dc_id c 0)
            (create_book_of (si_repair si) (actor_of cx) fs) d of
       (Inr b, d) \<Rightarrow> (Some (JSON 201 (BBook (NewBookView b)) None), d)
     | (Inl e, d) \<Rightarrow>
         if errors_is e ErrDuplicateISBN then
           (case FindByISBN (FindBookByISBN (si_collate si) (dc_plan c 1)) (text_field (si_repair si) fs ''isbn13'') d of
              Inr existing \<Rightarrow> (Some (JSON 409 (BExisting held_message (NewBookView existing)) None), d)
            | Inl _ \<Rightarrow> refuse e d)
         else refuse e d)"

definition patch_of :: "(string \<Rightarrow> string) \<Rightarrow> uuid \<Rightarrow> fields \<Rightarrow> update_book_params" where
  "patch_of repair staffID fs =
     (let t = text_ptr repair fs in
      \<lparr>ub_Title = t ''title'', ub_Subtitle = t ''subtitle'', ub_ISBN13 = t ''isbn13'', ub_ISBN10 = t ''isbn10'',
       ub_Publisher = t ''publisher'', ub_Place = t ''place_of_publication'', ub_CallNumber = t ''call_number'',
       ub_Edition = t ''edition'', ub_Language = t ''language'', ub_Description = t ''description'',
       ub_Faculty = t ''faculty'', ub_Department = t ''department'',
       ub_PublishedYear = number_ptr fs ''published_year'', ub_Authors = texts_ptr repair fs ''authors'',
       ub_Subjects = texts_ptr repair fs ''subjects'', ub_StaffID = staffID\<rparr>)"

definition UpdateBookHandler :: "site \<Rightarrow> desk_call \<Rightarrow> (body, db) handler" where
  "UpdateBookHandler si c r cx =
     pathUUID si r (\<lambda>i d.
     case decodeBookPatch (si_json si) (rq_Body r) of
       Inl e \<Rightarrow> unread si e d
     | Inr fs \<Rightarrow>
         (case UpdateBookService (si_collate si) (dc_plan c 0) (si_year si (dc_now c)) (dc_now c) i
                 (patch_of (si_repair si) (actor_of cx) fs) d of
            (Inr b, d) \<Rightarrow> (Some (JSON 200 (BBook (NewBookView b)) None), d)
          | (Inl e, d) \<Rightarrow>
              if errors_is e ErrDuplicateISBN
              then invalid ''Another catalogue title already uses that ISBN.'' d
              else refuse e d))"

definition ArchiveHandler :: "site \<Rightarrow> desk_call \<Rightarrow> (body, db) handler" where
  "ArchiveHandler si c r cx =
     pathUUID si r (\<lambda>i d.
     respond (status_reply 200 ''archived'') (ArchiveService (ArchiveBook (dc_plan c 0) (dc_now c)) i (actor_of cx) d))"

definition AddCopyHandler :: "site \<Rightarrow> desk_call \<Rightarrow> (body, db) handler" where
  "AddCopyHandler si c r cx =
     pathUUID si r (\<lambda>bookID.
     with_body si [(''accession_number'', FText), (''loan_policy'', FText)] r (\<lambda>fs d.
     let policy = text_field (si_repair si) fs ''loan_policy'' in
     if policy \<noteq> [] \<and> parse_policy policy = None
     then invalid ''loan_policy must be circulating, reference_only, on_display or restricted.'' d
     else respond (\<lambda>x. JSON 201 (BCopy x) None)
       (AddCopyService (AddCopy (dc_plan c 0) (dc_now c) (dc_id c 0)) bookID
          (text_field (si_repair si) fs ''accession_number'') (parse_policy policy) (actor_of cx) d)))"

text \<open>An enumeration in a request: absent, or one of its values, or refused.\<close>

definition with_enum ::
  "('t \<Rightarrow> 'x option) \<Rightarrow> 't option \<Rightarrow> string \<Rightarrow> ('x option \<Rightarrow> 's \<Rightarrow> 'b reply option \<times> 's) \<Rightarrow> 's \<Rightarrow> 'b reply option \<times> 's" where
  "with_enum parse text complaint f s =
     (case text of
        None \<Rightarrow> f None s
      | Some t \<Rightarrow> (case parse t of None \<Rightarrow> invalid complaint s | Some x \<Rightarrow> f (Some x) s))"

definition edit_copy_service ::
  "desk_call \<Rightarrow> uuid \<Rightarrow> loan_policy option \<Rightarrow> copy_status option \<Rightarrow> uuid \<Rightarrow> db \<Rightarrow> (error + unit) \<times> db" where
  "edit_copy_service c =
     UpdateCopyService (FindCopy (dc_plan c 0)) (SetCopyStatusClosingLoan (dc_plan c 1) (dc_now c))
       (UpdateCopyRow (dc_plan c 2) (dc_now c)) (\<lambda>d. d)"

definition UpdateCopyHandler :: "site \<Rightarrow> desk_call \<Rightarrow> (body, db) handler" where
  "UpdateCopyHandler si c r cx =
     pathUUID si r (\<lambda>i.
     with_body si [(''loan_policy'', FTextPtr), (''status'', FTextPtr)] r (\<lambda>fs.
     with_enum parse_policy (text_ptr (si_repair si) fs ''loan_policy'') ''That is not a valid loan policy.'' (\<lambda>policy.
     with_enum parse_copy_status (text_ptr (si_repair si) fs ''status'') ''That is not a valid copy status.'' (\<lambda>status d.
     respond (status_reply 200 ''updated'') (edit_copy_service c i policy status (actor_of cx) d)))))"

definition CopyAtDeskHandler :: "site \<Rightarrow> desk_call \<Rightarrow> (body, db) handler" where
  "CopyAtDeskHandler si c r cx d =
     (let accession = query_get r ''accession'' in
      if accession = [] then invalid ''Give the accession number printed on the copy.'' d
      else case CopyAtDesk (FindCopyByAccession (dc_plan c 0)) accession d of
        Inl e \<Rightarrow>
          if errors_is e ErrNotFound
          then (Some (Error 404 ''NOT_FOUND'' (''No copy carries the accession number '' @ accession @ ''.'')), d)
          else refuse e d
      | Inr found \<Rightarrow>
          (Some (JSON 200 (BAtDesk (cad_copy found) (cad_book_title found) (cad_call_number found)
             (map_option (\<lambda>l. toLoanResponse l (dc_now c)) (cad_loan found))) None), d))"

definition unavailable :: "body reply" where
  "unavailable = Error 502 ''CATALOGUE_UNAVAILABLE''
     ''The external catalogue could not be reached. You can still enter the book by hand.''"

definition no_record_note :: string where
  "no_record_note = ''No external record. Enter the details by hand; many Africana and OAU Publications titles are not in public catalogues.''"

definition LookupHandler :: "site \<Rightarrow> desk_call \<Rightarrow> (body, db) handler" where
  "LookupHandler si c r cx d =
     (let isbn = query_get r ''isbn''; q = query_get r ''q'' in
      if isbn \<noteq> [] then
        (case ByISBN (si_hostname si) (si_ask si) (si_catalogue si) isbn of
           Inr m \<Rightarrow> (Some (JSON 200 (BSuggestions [m] None) None), d)
         | Inl NoExternalRecord \<Rightarrow> (Some (JSON 200 (BSuggestions [] (Some no_record_note)) None), d)
         | Inl (LookupFailed e) \<Rightarrow> (Some unavailable, d))
      else if q = [] then invalid ''Supply either an isbn or a q parameter.'' d
      else case SearchExternal (si_hostname si) (si_ask si) (si_catalogue si) q 10 of
        Inl e \<Rightarrow> (Some unavailable, d)
      | Inr ms \<Rightarrow> (Some (JSON 200 (BSuggestions ms None) None), d))"

section \<open>Members\<close>

definition isKnownDomainError :: "error \<Rightarrow> bool" where
  "isKnownDomainError e =
     list_ex (errors_is e) [ErrForbidden, ErrConflict, ErrNotFound, ErrUnauthenticated, ErrPasswordTooWeak, ErrNoCategory]"

definition member_struct :: struct where
  "member_struct =
     [(''identifier'', FText), (''email'', FText), (''full_name'', FText), (''first_name'', FText), (''last_name'', FText),
      (''faculty'', FText), (''department'', FText), (''level'', FText), (''role'', FText), (''category'', FText),
      (''is_synthetic'', FFlag)]"

definition new_member_of :: "(string \<Rightarrow> string) \<Rightarrow> fields \<Rightarrow> new_member_params" where
  "new_member_of repair fs =
     (let t = text_field repair fs in
      \<lparr>nm_Identifier = t ''identifier'', nm_Email = t ''email'', nm_FullName = t ''full_name'',
       nm_FirstName = t ''first_name'', nm_LastName = t ''last_name'', nm_Faculty = t ''faculty'',
       nm_Department = t ''department'', nm_Level = t ''level'', nm_Category = t ''category'', nm_Role = t ''role'',
       nm_IsSynthetic = flag_field fs ''is_synthetic'', nm_InvitationBatchID = uuid_nil\<rparr>)"

text \<open>The role of the context is a text; one that is no role can create nobody.\<close>

definition create_as ::
  "member_service \<Rightarrow> desk_call \<Rightarrow> string \<Rightarrow> uuid \<Rightarrow> new_member_params \<Rightarrow> db \<Rightarrow> (error + user) \<times> db" where
  "create_as s c actor actorID p d =
     (case parse_role actor of
        Some a \<Rightarrow> CreateMember s c a actorID p d
      | None \<Rightarrow> (Inl (case validateNewMember p of Some e \<Rightarrow> e | None \<Rightarrow> ErrForbidden), d))"

definition CreateMemberHandler :: "site \<Rightarrow> desk_call \<Rightarrow> (body, db) handler" where
  "CreateMemberHandler si c r cx =
     with_body si member_struct r (\<lambda>fs d.
     case create_as (si_members si) c (cx_Role cx) (actor_of cx) (new_member_of (si_repair si) fs) d of
       (Inr u, d) \<Rightarrow> (Some (JSON 201 (BMember (toUserResponse u)) None), d)
     | (Inl e, d) \<Rightarrow>
         if isKnownDomainError e then refuse e d
         else invalid (error_message (si_driver_text si) e) d)"

text \<open>The calls of the rows of an import: each meets its own faults, draws and ids.\<close>

definition ImportHandler :: "site \<Rightarrow> desk_call \<Rightarrow> (nat \<Rightarrow> desk_call) \<Rightarrow> (body, db) handler" where
  "ImportHandler si c calls r cx d =
     (case rq_Upload r of
        BadForm \<Rightarrow> invalid ''The upload could not be read. Maximum size is 8 MB.'' d
      | NoFile \<Rightarrow> invalid ''Attach a CSV file in the 'file' field.'' d
      | Upload header items \<Rightarrow>
          (case ImportCSV (si_members si) (si_driver_text si) calls (dc_plan c 0)
                  (case parse_role (cx_Role cx) of Some a \<Rightarrow> a | None \<Rightarrow> RoleMember) (actor_of cx) (dc_id c 0)
                  header items (boolParam r ''dry_run'') d of
             (Inl e, d) \<Rightarrow> invalid (error_message (si_driver_text si) e) d
           | (Inr res, d) \<Rightarrow> (Some (JSON 200 (BImport res) None), d)))"

definition ListMembersHandler :: "site \<Rightarrow> desk_call \<Rightarrow> (body, db) handler" where
  "ListMembersHandler si c r cx d =
     (case pagination r of (limit, offset, page) \<Rightarrow>
        respond (page_reply (\<lambda>us. BMembers (map toUserResponse us)) page limit)
          (ListMembers c (query_get r ''q'') limit offset d, d))"

definition MemberHistory :: "(uuid \<Rightarrow> bool \<Rightarrow> 's \<Rightarrow> error + loan list) \<Rightarrow> uuid \<Rightarrow> 's \<Rightarrow> error + loan list" where
  "MemberHistory loans_for u s = loans_for u False s"

definition GetMemberHandler :: "site \<Rightarrow> desk_call \<Rightarrow> (body, db) handler" where
  "GetMemberHandler si c r cx =
     pathUUID si r (\<lambda>i d.
     case GetMember c i d of
       Inl e \<Rightarrow> refuse e d
     | Inr u \<Rightarrow>
         respond (\<lambda>ls. JSON 200 (BRecord (toUserResponse u) (toLoanResponses ls (dc_now c))) None)
           (MemberHistory (LoansForUser (dc_plan c 1)) i d, d))"

definition SetStatusHandler :: "site \<Rightarrow> desk_call \<Rightarrow> (body, db) handler" where
  "SetStatusHandler si c r cx =
     pathUUID si r (\<lambda>i.
     with_body si [(''status'', FText)] r (\<lambda>fs d.
     case parse_user_status (text_field (si_repair si) fs ''status'') of
       None \<Rightarrow> invalid ''status must be active, suspended or inactive.'' d
     | Some st \<Rightarrow> respond (status_reply 200 (user_status_string st)) (SetStatus c i st (actor_of cx) d)))"

definition SetRoleHandler :: "site \<Rightarrow> desk_call \<Rightarrow> (body, db) handler" where
  "SetRoleHandler si c r cx =
     pathUUID si r (\<lambda>i.
     with_body si [(''role'', FText), (''category'', FTextPtr)] r (\<lambda>fs d.
     let role = text_field (si_repair si) fs ''role'' in
     if parse_role role = None then invalid ''role must be member, librarian or admin.'' d
     else respond (\<lambda>_. JSON 200 (BRole role) None)
       (SetRole c i role (text_ptr (si_repair si) fs ''category'') (actor_of cx) d)))"

section \<open>Administration\<close>

definition DashboardHandler :: "site \<Rightarrow> desk_call \<Rightarrow> (body, db) handler" where
  "DashboardHandler si c r cx d =
     (case Stats (dc_plan c 0) (dc_now c) d of
        Inl e \<Rightarrow> refuse e d
      | Inr st \<Rightarrow> respond (\<lambda>inv. JSON 200 (BDashboard st inv) None) (Summary (dc_plan c 1) d, d))"

text \<open>The newest entry first, then by the row's id, whose order for the k-th row is given.\<close>

definition AuditList ::
  "(nat \<Rightarrow> nat) \<Rightarrow> faults \<Rightarrow> int \<Rightarrow> int \<Rightarrow> db \<Rightarrow> error + (string \<times> audit_row) list \<times> nat" where
  "AuditList row_id fl limit offset d = sql fl 0
     (if limit < 0 \<or> offset < 0 then Inl (DriverFailure ''negative limit or offset'')
      else let rows = map snd (sort_key (\<lambda>(k, a). (- au_created_at a, row_id k)) (enumerate 0 (audit_log d)));
               page = page_of (nat limit) (nat offset) rows;
               name = (\<lambda>a. case Option.bind (au_actor a) (\<lambda>u. find_user_row u d) of
                         None \<Rightarrow> ''(deleted)'' | Some u \<Rightarrow> user_full_name u)
           in Inr (map (\<lambda>a. (name a, a)) page, page_total rows page))"

definition AuditHandler :: "site \<Rightarrow> desk_call \<Rightarrow> (body, db) handler" where
  "AuditHandler si c r cx d =
     (case pagination r of (limit, offset, page) \<Rightarrow>
        respond (page_reply BAudit page limit) (AuditList (si_audit_id si) (dc_plan c 0) limit offset d, d))"

definition invitation_statuses :: "(string \<times> invitation_status) list" where
  "invitation_statuses =
     [(''queued'', InvQueued), (''sent'', InvSent), (''delivered'', InvDelivered), (''opened'', InvOpened),
      (''bounced'', InvBounced), (''complained'', InvComplained), (''failed'', InvFailed), (''superseded'', InvSuperseded)]"

text \<open>A status that no row can have selects none.\<close>

definition deliveries ::
  "faults \<Rightarrow> string \<Rightarrow> uuid option \<Rightarrow> int \<Rightarrow> int \<Rightarrow> db \<Rightarrow> error + invitation_row list \<times> nat" where
  "deliveries fl status batch limit offset d =
     (if status = [] then InvitationList fl None batch limit offset d
      else case map_of invitation_statuses status of
        Some st \<Rightarrow> InvitationList fl (Some st) batch limit offset d
      | None \<Rightarrow> InvitationList fl None batch limit offset (d\<lparr>invitations := []\<rparr>))"

definition InvitationDeliveriesHandler :: "site \<Rightarrow> desk_call \<Rightarrow> (body, db) handler" where
  "InvitationDeliveriesHandler si c r cx d =
     (case pagination r of (limit, offset, page) \<Rightarrow>
        let status = trim_space (query_get r ''status''); raw = trim_space (query_get r ''batch_id'') in
        if raw \<noteq> [] \<and> si_uuid si raw = None then invalid ''batch_id must be a UUID'' d
        else respond (page_reply BInvitations page limit)
          (deliveries (dc_plan c 0) status (if raw = [] then None else si_uuid si raw) limit offset d, d))"

definition ResendInvitationHandler :: "site \<Rightarrow> desk_call \<Rightarrow> (body, db) handler" where
  "ResendInvitationHandler si c r cx =
     pathUUID si r (\<lambda>i d. respond (status_reply 202 ''invitation queued'') (ResendInvitation (si_members si) c i d))"

definition Health :: "site \<Rightarrow> ('b, 's) handler" where
  "Health si r cx s =
     (case si_ping si of
        Some e \<Rightarrow> (Some (Error 503 ''DATABASE_UNREACHABLE'' ''The database is not reachable.''), s)
      | None \<Rightarrow> (Some (bare 200 json_header), s))"

section \<open>The webhook of the mail provider\<close>

definition event_struct :: struct where
  "event_struct = [(''type'', FText), (''created_at'', FText), (''data'', FStruct)]"

definition event_data_struct :: struct where
  "event_data_struct = [(''email_id'', FText), (''reason'', FText), (''failure_reason'', FText)]"

text \<open>Here unknown members are ignored, and nothing may follow the value.\<close>

definition known_members :: "struct \<Rightarrow> json \<Rightarrow> json" where
  "known_members st v = (case v of Obj kvs \<Rightarrow> Obj (filter (\<lambda>(k, _). field_for st k \<noteq> None) kvs) | _ \<Rightarrow> v)"

definition unmarshal :: "(string \<Rightarrow> string + json \<times> string) \<Rightarrow> string \<Rightarrow> (fields \<times> fields) option" where
  "unmarshal parse body =
     (case parse body of
        Inr (v, rest) \<Rightarrow>
          if \<not> list_all json_space rest then None
          else (case decode_struct event_struct (known_members event_struct v) of
            Inl _ \<Rightarrow> None
          | Inr fs \<Rightarrow> (case fs ''data'' of
              None \<Rightarrow> Some (fs, \<lambda>_. None)
            | Some w \<Rightarrow> (case decode_struct event_data_struct (known_members event_data_struct w) of
                Inl _ \<Rightarrow> None | Inr ds \<Rightarrow> Some (fs, ds))))
      | Inl _ \<Rightarrow> None)"

definition ResendWebhookHandler :: "site \<Rightarrow> desk_call \<Rightarrow> (body, db) handler" where
  "ResendWebhookHandler si c r cx d =
     (let body = take (2 ^ 20) (rq_Body r);
          hs = \<lparr>svix_id = header_of r ''Svix-Id'', svix_timestamp = header_of r ''Svix-Timestamp'',
                svix_signature = header_of r ''Svix-Signature''\<rparr>
      in if length body = 2 ^ 20 then (Some (bare 400 []), d)
         else if VerifyResendWebhook (si_base64_decode si) (si_base64_encode si) (si_hmac si) (si_webhook_secret si)
                   hs body (dc_now c) \<noteq> None
         then (Some (bare 401 []), d)
         else (case unmarshal (si_json si) body of
             None \<Rightarrow> (Some (bare 400 []), d)
           | Some (fs, ds) \<Rightarrow>
               let t = text_field (si_repair si) in
               if t ds ''email_id'' = [] then (Some (bare 400 []), d)
               else let occurredAt = (case si_rfc3339 si (t fs ''created_at'') of None \<Rightarrow> dc_now c | Some at \<Rightarrow> at);
                        reason = (if t ds ''reason'' = [] then t ds ''failure_reason'' else t ds ''reason'') in
                 (case ApplyEvent (dc_plan c 0) (t ds ''email_id'') (t fs ''type'') occurredAt reason d of
                    (Inl e, d) \<Rightarrow> (Some (bare 500 []), d)
                  | (Inr _, d) \<Rightarrow> (Some (bare 204 []), d))))"

section \<open>Accounts\<close>

definition auth_call :: "desk_call \<Rightarrow> call" where
  "auth_call c = \<lparr>at_now = dc_now c, at_plan = dc_plan c, at_random = dc_random c, at_id = dc_id c 0\<rparr>"

definition LoginHandler :: "site \<Rightarrow> 'l auth_service \<Rightarrow> desk_call \<Rightarrow> (body, 'l auth_world) handler" where
  "LoginHandler si s c r cx =
     with_body si [(''login'', FText), (''password'', FText)] r (\<lambda>fs w.
     let login = text_field (si_repair si) fs ''login''; password = text_field (si_repair si) fs ''password'' in
     if login = [] \<or> password = [] then invalid ''Both login and password are required.'' w
     else respond (\<lambda>x. JSON 200 (BSession x) None) (Login s (auth_call c) login password w))"

definition refresh_struct :: struct where
  "refresh_struct = [(''refresh_token'', FText)]"

definition RefreshHandler :: "site \<Rightarrow> 'l auth_service \<Rightarrow> desk_call \<Rightarrow> (body, 'l auth_world) handler" where
  "RefreshHandler si s c r cx =
     with_body si refresh_struct r (\<lambda>fs w.
     respond (\<lambda>x. JSON 200 (BRotated (se_AccessToken x) (se_RefreshToken x) (se_ExpiresIn x)) None)
       (Refresh s (auth_call c) (text_field (si_repair si) fs ''refresh_token'') w))"

definition LogoutHandler :: "site \<Rightarrow> 'l auth_service \<Rightarrow> desk_call \<Rightarrow> (body, 'l auth_world) handler" where
  "LogoutHandler si s c r cx =
     with_body si refresh_struct r (\<lambda>fs w.
     respond (status_reply 200 ''signed out'')
       (Logout s (auth_call c) (text_field (si_repair si) fs ''refresh_token'') w))"

definition ChangePasswordHandler :: "site \<Rightarrow> 'l auth_service \<Rightarrow> desk_call \<Rightarrow> (body, 'l auth_world) handler" where
  "ChangePasswordHandler si s c r cx =
     with_user cx (\<lambda>userID.
     with_body si [(''current_password'', FText), (''new_password'', FText)] r (\<lambda>fs w.
     respond (status_reply 200 ''password changed'')
       (ChangePassword s (auth_call c) userID (text_field (si_repair si) fs ''current_password'')
          (text_field (si_repair si) fs ''new_password'') w)))"

definition ForgotPasswordHandler :: "site \<Rightarrow> 'l auth_service \<Rightarrow> desk_call \<Rightarrow> (body, 'l auth_world) handler" where
  "ForgotPasswordHandler si s c r cx =
     with_body si [(''email'', FText)] r (\<lambda>fs w.
     respond (status_reply 202 ''If that address belongs to a member, a reset link is on its way.'')
       (RequestPasswordReset s (auth_call c) (text_field (si_repair si) fs ''email'') w))"

definition ResetPasswordHandler :: "site \<Rightarrow> 'l auth_service \<Rightarrow> desk_call \<Rightarrow> (body, 'l auth_world) handler" where
  "ResetPasswordHandler si s c r cx =
     with_body si [(''token'', FText), (''new_password'', FText)] r (\<lambda>fs w.
     respond (status_reply 200 ''password reset'')
       (ResetPassword s (auth_call c) (text_field (si_repair si) fs ''token'')
          (text_field (si_repair si) fs ''new_password'') w))"

end
