(* ===== verification/Service_Frames.thy ===== *)
theory Service_Frames
  imports Staff_Handlers
begin

text \<open>
  What a request can do to the database. A change is a preorder on states; the handlers are built from
  steps that keep within any change their services keep within. The changes that matter are: nothing
  changes; the invariant of the library is kept; the records in the keeping of the staff stay as they are.
\<close>

definition within :: "('s \<Rightarrow> 's \<Rightarrow> bool) \<Rightarrow> ('s \<Rightarrow> 'a \<times> 's) \<Rightarrow> bool" where
  "within R f \<longleftrightarrow> (\<forall>s. R s (snd (f s)))"

lemma withinI: "(\<And>s. R s (snd (f s))) \<Longrightarrow> within R f"
  by (simp add: within_def)

lemma withinD: "within R f \<Longrightarrow> R s (snd (f s))"
  by (simp add: within_def)

lemma within_option:
  "within R (f None) \<Longrightarrow> (\<And>x. within R (f (Some x))) \<Longrightarrow> within R (f x)"
  by (cases x) simp_all

locale change =
  fixes R :: "'s \<Rightarrow> 's \<Rightarrow> bool"
  assumes refl: "R s s"
    and trans: "R s s' \<Longrightarrow> R s' s'' \<Longrightarrow> R s s''"
begin

lemma pure: "within R (\<lambda>s. (x s, s))"
  by (simp add: within_def refl)

lemma answers: "within R (refuse e)" "within R (invalid m)" "within R (unread si err)"
  by (simp_all add: within_def refuse_def invalid_def unread_def refl)

lemma respond_within: "within R f \<Longrightarrow> within R (\<lambda>s. respond ok (f s))"
  by (auto simp: within_def respond_def refuse_def split: prod.splits sum.splits) (metis snd_conv)+

lemma user_within: "(\<And>u. within R (f u)) \<Longrightarrow> within R (with_user cx f)"
  by (auto simp: within_def with_user_def refuse_def refl split: option.splits)

lemma body_within: "(\<And>fs. within R (f fs)) \<Longrightarrow> within R (with_body si st r f)"
  by (auto simp: within_def with_body_def unread_def refl split: sum.splits)

lemma uuid_within: "(\<And>i. within R (f i)) \<Longrightarrow> within R (with_uuid si t m f)"
  by (auto simp: within_def with_uuid_def invalid_def refl split: option.splits)

lemma path_within: "(\<And>i. within R (f i)) \<Longrightarrow> within R (pathUUID si r f)"
  unfolding pathUUID_def by (rule uuid_within)

lemma enum_within: "(\<And>x. within R (f x)) \<Longrightarrow> within R (with_enum p t m f)"
  by (auto simp: within_def with_enum_def invalid_def refl split: option.splits)

lemma if_within: "within R f \<Longrightarrow> within R g \<Longrightarrow> within R (\<lambda>s. if P s then f s else g s)"
  by (simp add: within_def)

lemma sum_within:
  "(\<And>e. within R (f e)) \<Longrightarrow> (\<And>x. within R (g x)) \<Longrightarrow>
   within R (\<lambda>s. case t s of Inl e \<Rightarrow> f e s | Inr x \<Rightarrow> g x s)"
  by (simp add: within_def split: sum.splits)

lemma option_within:
  "within R f \<Longrightarrow> (\<And>x. within R (g x)) \<Longrightarrow> within R (\<lambda>s. case t s of None \<Rightarrow> f s | Some x \<Rightarrow> g x s)"
  by (simp add: within_def split: option.splits)

lemma prod_within: "(\<And>a b. within R (f a b)) \<Longrightarrow> within R (\<lambda>s. case t s of (a, b) \<Rightarrow> f a b s)"
  by (simp add: within_def split: prod.splits)

lemma bind_within:
  "within R m \<Longrightarrow> (\<And>x. within R (f x)) \<Longrightarrow> within R (\<lambda>s. case m s of (x, s') \<Rightarrow> f x s')"
  by (auto simp: within_def split: prod.splits) (metis snd_conv trans)

lemma then_do_within: "within R m \<Longrightarrow> (\<And>x. within R (f x)) \<Longrightarrow> within R (\<lambda>s. then_do (m s) f)"
  by (auto simp: within_def then_do_def split: prod.splits sum.splits) (metis snd_conv trans)+

lemma effort_within:
  "within R m \<Longrightarrow> (\<And>s. R s0 s \<Longrightarrow> R s0 (best_effort (m s)))"
  using trans withinD unfolding best_effort_def by metis

lemma transact_within: "(\<And>s x s'. body s = Inr (x, s') \<Longrightarrow> R s s') \<Longrightarrow> within R (transact body)"
  by (auto simp: within_def transact_def refl split: sum.splits)

lemmas step_within = pure answers respond_within user_within body_within uuid_within path_within enum_within

end

interpretation nothing: change "(=)"
  by unfold_locales simp_all

text \<open>The soundness of the library and of every title in it, which rests on the tables of circulation.\<close>

definition keeps_sound :: "db \<Rightarrow> db \<Rightarrow> bool" where
  "keeps_sound d d' \<longleftrightarrow> (books_inv d \<longrightarrow> books_inv d')"

interpretation sound: change keeps_sound
  by unfold_locales (simp_all add: keeps_sound_def)

definition keeps_titles :: "db \<Rightarrow> db \<Rightarrow> bool" where
  "keeps_titles d d' \<longleftrightarrow> books d' = books d"

interpretation titles: change keeps_titles
  by unfold_locales (simp_all add: keeps_titles_def)

lemma sound_within:
  assumes "\<And>d. lib_inv d \<Longrightarrow> lib_inv (snd (f d))" and "within keeps_titles f"
  shows "within keeps_sound f"
  using assms by (simp add: within_def keeps_sound_def keeps_titles_def books_inv_def catalogue_ok_def)

text \<open>
  What is in the keeping of the staff: the titles, each copy but for its status, and each account but
  for its password.
\<close>

definition records_of :: "db \<Rightarrow> book_row list \<times> (uuid \<times> uuid \<times> string \<times> loan_policy) list \<times>
    (uuid \<times> string \<times> string \<times> role \<times> member_category option \<times> user_status) list" where
  "records_of d = (books d, map (\<lambda>c. (copy_id c, copy_book c, copy_accession c, copy_policy c)) (copies d),
     map (\<lambda>u. (user_id u, user_identifier u, user_email u, user_role u, user_category u, user_status u)) (users d))"

definition keeps_records :: "db \<Rightarrow> db \<Rightarrow> bool" where
  "keeps_records d d' \<longleftrightarrow> records_of d' = records_of d"

interpretation records: change keeps_records
  by unfold_locales (simp_all add: keeps_records_def)

lemma records_titles: "within keeps_records f \<Longrightarrow> within keeps_titles f"
  by (simp add: within_def keeps_records_def keeps_titles_def records_of_def)


section \<open>The stores\<close>

lemma same_keeps:
  assumes "same_library d d'"
  shows "keeps_sound d d'" and "keeps_records d d'"
proof -
  have "books d' = books d" using assms by (simp add: same_library_def)
  with same_library_inv [OF assms] show "keeps_sound d d'"
    by (simp add: keeps_sound_def books_inv_def catalogue_ok_def)
  show "keeps_records d d'" using assms by (simp add: keeps_records_def records_of_def same_library_def)
qed

lemma recordAudit_same: "recordAudit a act ty e md now d = Inr (x, d') \<Longrightarrow> same_library d d'"
  by (auto simp: recordAudit_def split: if_splits option.splits)

lemma lists_same:
  "same_library d (snd (AddBookmark fl now nid u b d))"
  "same_library d (snd (RemoveBookmark fl u b d))"
  "same_library d (snd (CreateSearch fl now nid u name query limit d))"
  "same_library d (snd (DeleteSearch fl now i u d))"
proof -
  show "same_library d (snd (AddBookmark fl now nid u b d))"
    unfolding AddBookmark_def by (rule same_library_transact) (auto simp: Let_def split: if_splits option.splits)
  show "same_library d (snd (RemoveBookmark fl u b d))"
    unfolding RemoveBookmark_def by (rule same_library_transact) auto
  show "same_library d (snd (CreateSearch fl now nid u name query limit d))"
    unfolding CreateSearch_def CreateSearch_tx_def
    by (rule same_library_transact)
      (auto simp: Let_def andthen_Inr dest!: recordAudit_same split: if_splits option.splits intro: same_library_trans [rotated])
  show "same_library d (snd (DeleteSearch fl now i u d))"
    unfolding DeleteSearch_def DeleteSearch_tx_def
    by (rule same_library_transact)
      (auto simp: Let_def andthen_Inr dest!: recordAudit_same split: if_splits intro: same_library_trans [rotated])
qed

lemma reservations_records:
  "within keeps_records (Create fl now nid b u)" "within keeps_records (Cancel fl i u)"
  "within keeps_records (PromoteNext fl now b hold)"
proof -
  show "within keeps_records (Create fl now nid b u)"
    unfolding Create_def
    by (rule records.transact_within)
      (auto simp: Create_tx_def andthen_Inr insert_reservation_def keeps_records_def records_of_def Let_def
        split: if_splits sum.splits prod.splits)
  show "within keeps_records (Cancel fl i u)"
    unfolding Cancel_def
    by (rule records.transact_within)
      (auto simp: Cancel_tx_def andthen_Inr keeps_records_def records_of_def split: option.splits prod.splits)
  show "within keeps_records (PromoteNext fl now b hold)"
    unfolding PromoteNext_def
    by (rule records.transact_within) (auto simp: keeps_records_def records_of_def split: option.splits)
qed


lemma reservations_sound:
  "within keeps_sound (Create fl now nid b u)" "within keeps_sound (Cancel fl i u)"
  "within keeps_sound (PromoteNext fl now b hold)"
  by (auto intro: sound_within Create_inv Cancel_inv PromoteNext_inv records_titles reservations_records)

lemma ExpireStale_records: "within keeps_records (ExpireStale fl now)"
  unfolding ExpireStale_def
  by (rule records.transact_within) (auto simp: keeps_records_def records_of_def)

lemma ExpireStale_sound: "within keeps_sound (ExpireStale fl now)"
  by (intro sound_within ExpireStale_inv records_titles ExpireStale_records)

lemma copies_claimed:
  "map (\<lambda>c. (copy_id c, copy_book c, copy_accession c, copy_policy c)) (claim_upd i cs) =
   map (\<lambda>c. (copy_id c, copy_book c, copy_accession c, copy_policy c)) cs"
  by (simp add: claim_upd_def map_update_where)

lemma borrow_records: "within keeps_records (borrow fl now nid p self)"
  unfolding borrow_def
proof (rule records.transact_within)
  fix d l d' assume "borrow_tx fl now nid p self d = Inr (l, d')"
  then obtain rid where "borrow_claimed fl now nid p self rid d = Inr (l, d')" by (rule borrow_tx_Inr)
  then obtain a where "d' = lent p rid l a d" by (rule borrow_claimed_Inr)
  then show "keeps_records d d'" by (simp add: keeps_records_def records_of_def lent_def copies_claimed)
qed

lemma UpdatePassword_records: "within keeps_records (UpdatePassword fl now i hash)"
  unfolding UpdatePassword_def
  by (rule records.transact_within)
    (auto simp: andthen_Inr keeps_records_def records_of_def update_user_def map_update_where split: if_splits)

lemma UpdatePassword_sound: "within keeps_sound (UpdatePassword fl now i hash)"
  by (intro sound_within UpdatePassword_inv records_titles UpdatePassword_records)


section \<open>The services\<close>

text \<open>A service keeps within what the stores it calls keep within.\<close>

context change
begin

lemmas flow_within = pure then_do_within bind_within sum_within option_within prod_within if_within

lemma ignored_within: "within R m \<Longrightarrow> within R (\<lambda>s. (x s, best_effort (m s)))"
  by (simp add: within_def best_effort_def)

lemma borrow_service_within:
  "(\<And>p. within R (lend p)) \<Longrightarrow> (\<And>u ch t pl. within R (notify u ch t pl)) \<Longrightarrow>
   within R (BorrowService find_member lend notify now c m staff)"
  unfolding BorrowService_def [abs_def] by (intro flow_within ignored_within)

lemma checkout_service_within:
  "(\<And>terms. within R (lend (loan_request c m m now terms))) \<Longrightarrow> (\<And>u ch t pl. within R (notify u ch t pl)) \<Longrightarrow>
   within R (SelfCheckoutService find_member (Some lend) notify now c m)"
  unfolding SelfCheckoutService_def [abs_def] option.case by (intro flow_within ignored_within)

lemma tell_ready_within: "(\<And>u ch t pl. within R (notify u ch t pl)) \<Longrightarrow> R s (tell_ready notify r s)"
  unfolding tell_ready_def by (intro effort_within) (auto intro: refl)

lemma hook_within:
  assumes "\<And>b h. within R (promote b h)" and "\<And>u ch t pl. within R (notify u ch t pl)"
  shows "within R (OnCopyReturned book_for promote notify c)"
proof -
  have "within R (\<lambda>s. (Inr True, tell_ready notify r s))" for r
    using tell_ready_within [OF assms(2)] by (simp add: within_def)
  then show ?thesis unfolding OnCopyReturned_def [abs_def] by (intro flow_within assms)
qed

lemma return_service_within:
  assumes "within R (store_return i staff)" and "\<And>c. within R (hook c)"
  shows "within R (ReturnService store_return (Some hook) i staff)"
  unfolding ReturnService_def [abs_def] option.case by (intro flow_within ignored_within assms)

lemma promoted_within:
  assumes "\<And>b h. within R (promote b h)" and "\<And>u ch t pl. within R (notify u ch t pl)"
  shows "R s (promoteAndNotify promote notify b s)"
proof -
  obtain q s1 where p: "promote b HoldPeriod s = (q, s1)" by fastforce
  with withinD [OF assms(1), of s b HoldPeriod] have "R s s1" by simp
  moreover have "R s1 (tell_ready notify r s1)" for r by (rule tell_ready_within [OF assms(2)])
  ultimately show ?thesis using p trans by (cases q) (auto simp: promoteAndNotify_def)
qed

lemma cancel_service_within:
  assumes "within R (store_cancel i m)" and "\<And>b h. within R (promote b h)" and "\<And>u ch t pl. within R (notify u ch t pl)"
  shows "within R (CancelService store_cancel promote notify i m)"
  unfolding CancelService_def [abs_def]
  using promoted_within [of promote notify, OF assms(2,3)]
  by (intro then_do_within assms(1)) (auto simp: within_def refl)

lemma remind_within:
  assumes "\<And>k u ch t pl. within R (notify k u ch t pl)"
  shows "within R (remind notify now window k ls q)"
proof (induction ls arbitrary: k q)
  case (Cons l ls)
  show ?case unfolding remind.simps(2) [abs_def] by (intro flow_within assms Cons.IH)
qed (simp add: within_def refl)

lemma reminders_within:
  assumes "\<And>k u ch t pl. within R (notify k u ch t pl)"
  shows "within R (NotifyDueSoon list_loans notify now window)"
  unfolding NotifyDueSoon_def [abs_def] by (intro flow_within remind_within assms)

end


section \<open>What an account may do\<close>

text \<open>The world of the authentication service, by its database.\<close>

definition stored :: "(db \<Rightarrow> db \<Rightarrow> bool) \<Rightarrow> 'l auth_world \<Rightarrow> 'l auth_world \<Rightarrow> bool" where
  "stored R w w' \<longleftrightarrow> R (aw_db w) (aw_db w')"

locale db_change = change R for R :: "db \<Rightarrow> db \<Rightarrow> bool"

text \<open>
  The changes that leave room for every account: those the statements behind the endpoints of a member
  and of the public keep within.
\<close>

locale account_change = db_change R for R :: "db \<Rightarrow> db \<Rightarrow> bool" +
  assumes minor: "same_library d d' \<Longrightarrow> R d d'"
    and lend: "within R (borrow fl now nid p self)"
    and join: "within R (Create fl now nid b u)"
    and leave: "within R (Cancel fl i u)"
    and promote: "within R (PromoteNext fl now b hold)"
    and password: "within R (UpdatePassword fl now i hash)"
begin

lemma notify_within: "within R (outbox_notify c k u ch t pl)"
  unfolding outbox_notify_def by (intro withinI minor Queue_same)

lemma self_borrow_within: "within R (self_borrow c b m)"
  unfolding self_borrow_def SelfCheckout_def by (intro checkout_service_within lend notify_within)

lemma desk_borrow_within: "within R (desk_borrow c b m staff)"
  unfolding desk_borrow_def Borrow_def by (intro borrow_service_within lend notify_within)

lemma reserve_within: "within R (reserve c b m)"
  unfolding reserve_def Reserve_def [abs_def] by (rule join)

lemma cancel_within: "within R (cancel c i m)"
  unfolding cancel_def by (intro cancel_service_within leave promote notify_within)

lemma lists_within:
  "within R (SaveBookmark (AddBookmark fl now nid) m b)" "within R (UnsaveBookmark (RemoveBookmark fl) m b)"
  "within R (CreateSearchService (CreateSearch fl now nid) m name query)"
  "within R (DeleteSearchService (DeleteSearch fl now) i m)"
  "within R (RegisterDevice fl now m token platform)" "within R (RevokeOwnDeviceToken fl now m token)"
  unfolding SaveBookmark_def [abs_def] UnsaveBookmark_def [abs_def] CreateSearchService_def [abs_def]
    DeleteSearchService_def [abs_def] Let_def
  by (intro flow_within withinI minor lists_same devices_same)+

lemma member_handlers:
  "within R (SelfCheckoutHandler si c r cx)" "within R (MyLoansHandler si c r cx)"
  "within R (MyHistoryHandler si c r cx)" "within R (CreateReservationHandler si c r cx)"
  "within R (ListReservationsHandler si c r cx)" "within R (CancelReservationHandler si c r cx)"
  "within R (CreateBookmarkHandler si c r cx)" "within R (DeleteBookmarkHandler si c r cx)"
  "within R (ListBookmarksHandler si c r cx)" "within R (CreateSearchHandler si c r cx)"
  "within R (ListSearchesHandler si c r cx)" "within R (DeleteSearchHandler si c r cx)"
  "within R (RegisterDeviceHandler si c r cx)" "within R (UnregisterDeviceHandler si c r cx)"
  unfolding SelfCheckoutHandler_def [abs_def] MyLoansHandler_def [abs_def] MyHistoryHandler_def [abs_def]
    CreateReservationHandler_def [abs_def] ListReservationsHandler_def [abs_def] CancelReservationHandler_def [abs_def]
    CreateBookmarkHandler_def [abs_def] DeleteBookmarkHandler_def [abs_def] ListBookmarksHandler_def [abs_def]
    CreateSearchHandler_def [abs_def] ListSearchesHandler_def [abs_def] DeleteSearchHandler_def [abs_def]
    RegisterDeviceHandler_def [abs_def] UnregisterDeviceHandler_def [abs_def] Let_def
  by (intro step_within flow_within self_borrow_within reserve_within cancel_within lists_within)+

end


text \<open>The endpoints that only read, whatever may not change.\<close>

context db_change
begin

lemma lookup_within:
  "within R f \<Longrightarrow> (\<And>e. within R (g e)) \<Longrightarrow>
   within R (\<lambda>s. case x of NoExternalRecord \<Rightarrow> f s | LookupFailed e \<Rightarrow> g e s)"
  by (cases x) simp_all

lemma read_handlers:
  "within R (SearchHandler si c r cx)" "within R (GetHandler si c r cx)" "within R (NewArrivalsHandler si c r cx)"
  "within R (RelatedHandler si c r cx)" "within R (FacetsHandler si c r cx)" "within R (CopyAtDeskHandler si c r cx)"
  "within R (LookupHandler si c r cx)" "within R (ListLoansHandler si c r cx)" "within R (MyLoansHandler si c r cx)"
  "within R (MyHistoryHandler si c r cx)" "within R (ListReservationsHandler si c r cx)"
  "within R (ListBookmarksHandler si c r cx)" "within R (ListSearchesHandler si c r cx)"
  "within R (ListMembersHandler si c r cx)" "within R (GetMemberHandler si c r cx)" "within R (DashboardHandler si c r cx)"
  "within R (AuditHandler si c r cx)" "within R (InvitationDeliveriesHandler si c r cx)" "within R (Health si r cx)"
  unfolding SearchHandler_def [abs_def] GetHandler_def [abs_def] NewArrivalsHandler_def [abs_def]
    RelatedHandler_def [abs_def] FacetsHandler_def [abs_def] CopyAtDeskHandler_def [abs_def] LookupHandler_def [abs_def]
    ListLoansHandler_def [abs_def] MyLoansHandler_def [abs_def] MyHistoryHandler_def [abs_def]
    ListReservationsHandler_def [abs_def] ListBookmarksHandler_def [abs_def] ListSearchesHandler_def [abs_def]
    ListMembersHandler_def [abs_def] GetMemberHandler_def [abs_def] DashboardHandler_def [abs_def] AuditHandler_def [abs_def]
    InvitationDeliveriesHandler_def [abs_def] Health_def [abs_def] Let_def
  by (intro step_within flow_within lookup_within)+

end

context account_change
begin

lemma webhook_within: "within R (ResendWebhookHandler si c r cx)"
  unfolding ResendWebhookHandler_def [abs_def] Let_def
  by (intro step_within flow_within withinI minor ApplyEvent_same)

end

sublocale account_change \<subseteq> world: change "stored R"
  by unfold_locales (auto simp: stored_def refl intro: trans)


context account_change
begin

lemma stored_within: "within R f \<Longrightarrow> within (stored R) (on_store f)"
  by (auto simp: within_def stored_def on_store_def split: prod.splits) (metis snd_conv)

lemma minor_stored: "(\<And>d. same_library d (snd (f d))) \<Longrightarrow> within (stored R) (on_store f)"
  by (intro stored_within withinI minor)

lemma allow_within: "within (stored R) (allow s now scope i p)"
  by (simp add: within_def stored_def allow_db refl)

lemma session_within: "within (stored R) (issueSession s c k user)"
  unfolding issueSession_def [abs_def]
  by (intro world.flow_within minor_stored tokens_same)

lemma set_password_within: "within (stored R) (set_password s c k u next)"
  unfolding set_password_def [abs_def]
  by (intro world.flow_within minor_stored stored_within password tokens_same)

lemma auth_services:
  "within (stored R) (Login s c login pw)" "within (stored R) (Refresh s c t)" "within (stored R) (Logout s c t)"
  "within (stored R) (ChangePassword s c u current next)" "within (stored R) (RequestPasswordReset s c email)"
  "within (stored R) (ResetPassword s c t next)"
  unfolding Login_def [abs_def] Refresh_def [abs_def] Logout_def [abs_def] ChangePassword_def [abs_def]
    RequestPasswordReset_def [abs_def] ResetPassword_def [abs_def]
  by (intro world.flow_within allow_within session_within set_password_within minor_stored tokens_same Queue_same)+

lemma auth_handlers:
  "within (stored R) (LoginHandler si s c r cx)" "within (stored R) (RefreshHandler si s c r cx)"
  "within (stored R) (LogoutHandler si s c r cx)" "within (stored R) (ChangePasswordHandler si s c r cx)"
  "within (stored R) (ForgotPasswordHandler si s c r cx)" "within (stored R) (ResetPasswordHandler si s c r cx)"
  unfolding LoginHandler_def [abs_def] RefreshHandler_def [abs_def] LogoutHandler_def [abs_def]
    ChangePasswordHandler_def [abs_def] ForgotPasswordHandler_def [abs_def] ResetPasswordHandler_def [abs_def] Let_def
  by (intro world.step_within world.flow_within auth_services)+

end

interpretation sound_accounts: account_change keeps_sound
proof unfold_locales
  show "within keeps_sound (borrow fl now nid p self)" for fl now nid p self
    by (intro sound_within borrow_inv records_titles borrow_records)
qed (rule same_keeps reservations_sound UpdatePassword_sound; assumption?)+

interpretation records_accounts: account_change keeps_records
  by unfold_locales (rule same_keeps borrow_records reservations_records UpdatePassword_records; assumption?)+

interpretation nothing_read: db_change "(=)"
  by unfold_locales

section \<open>What the staff may do\<close>

context db_change
begin

lemma staff_handlers:
  assumes "\<And>p. within R (CreateBookService (si_collate si) (dc_plan c 0) (si_year si (dc_now c)) (dc_now c) (dc_id c 0) p)"
    and "\<And>i p. within R (UpdateBookService (si_collate si) (dc_plan c 0) (si_year si (dc_now c)) (dc_now c) i p)"
    and "\<And>i staff. within R (ArchiveService (ArchiveBook (dc_plan c 0) (dc_now c)) i staff)"
    and "\<And>b acc pol staff. within R (AddCopyService (AddCopy (dc_plan c 0) (dc_now c) (dc_id c 0)) b acc pol staff)"
    and "\<And>i pol st staff. within R (edit_copy_service c i pol st staff)"
    and "\<And>b m staff. within R (desk_borrow c b m staff)"
    and "\<And>i staff. within R (desk_return c i staff)"
    and "\<And>actor a p. within R (create_as (si_members si) c actor a p)"
    and "\<And>actor a h items dry. within R (ImportCSV (si_members si) (si_driver_text si) calls (dc_plan c 0) actor a (dc_id c 0) h items dry)"
    and "\<And>i st staff. within R (SetStatus c i st staff)"
    and "\<And>i role cat staff. within R (SetRole c i role cat staff)"
    and "\<And>i. within R (ResendInvitation (si_members si) c i)"
  shows "within R (CreateBookHandler si c r cx)" "within R (UpdateBookHandler si c r cx)"
    "within R (ArchiveHandler si c r cx)" "within R (AddCopyHandler si c r cx)" "within R (UpdateCopyHandler si c r cx)"
    "within R (BorrowHandler si c r cx)" "within R (ReturnHandler si c r cx)" "within R (CreateMemberHandler si c r cx)"
    "within R (ImportHandler si c calls r cx)" "within R (SetStatusHandler si c r cx)"
    "within R (SetRoleHandler si c r cx)" "within R (ResendInvitationHandler si c r cx)"
proof -
  have import: "within R (\<lambda>s. case u of BadForm \<Rightarrow> f s | NoFile \<Rightarrow> g s | Upload h items \<Rightarrow> k h items s)"
    if "within R f" "within R g" "\<And>h items. within R (k h items)" for u :: upload and f g k
    using that by (cases u) simp_all
  show "within R (CreateBookHandler si c r cx)" "within R (UpdateBookHandler si c r cx)"
    "within R (ArchiveHandler si c r cx)" "within R (AddCopyHandler si c r cx)" "within R (UpdateCopyHandler si c r cx)"
    "within R (BorrowHandler si c r cx)" "within R (ReturnHandler si c r cx)" "within R (CreateMemberHandler si c r cx)"
    "within R (ImportHandler si c calls r cx)" "within R (SetStatusHandler si c r cx)"
    "within R (SetRoleHandler si c r cx)" "within R (ResendInvitationHandler si c r cx)"
    unfolding CreateBookHandler_def [abs_def] UpdateBookHandler_def [abs_def] ArchiveHandler_def [abs_def]
      AddCopyHandler_def [abs_def] UpdateCopyHandler_def [abs_def] BorrowHandler_def [abs_def] ReturnHandler_def [abs_def]
      CreateMemberHandler_def [abs_def] ImportHandler_def [abs_def] SetStatusHandler_def [abs_def]
      SetRoleHandler_def [abs_def] ResendInvitationHandler_def [abs_def] Let_def
    by (intro step_within flow_within import assms)+
qed

end


lemma titles_steps:
  "recordAudit a act ty e md now d = Inr (x, d') \<Longrightarrow> books d' = books d"
  "insert_copy nid b acc pol d = Inr (c, d') \<Longrightarrow> books d' = books d"
  "insert_user now nid p d = Inr (u, d') \<Longrightarrow> books d' = books d"
  "close_loans_of_copy now i staff d = Inr (y, d') \<Longrightarrow> books d' = books d"
  "update_copies i f d = Inr (n, d') \<Longrightarrow> books d' = books d"
  "audit_marked st i staff now d = Inr (z, d') \<Longrightarrow> books d' = books d"
  by (auto simp: recordAudit_def insert_copy_def insert_user_def close_loans_of_copy_def update_copies_def
      audit_marked_def Let_def split: if_splits option.splits)

lemma titles_frames:
  "within keeps_titles (Return fl now i staff)" "within keeps_titles (AddCopy fl now nid b acc pol staff)"
  "within keeps_titles (SetCopyStatusClosingLoan fl now i st staff)"
  "within keeps_titles (UpdateCopyRow fl now i policy status staff)"
  "within keeps_titles (CreateUser fl now nid p)" "within keeps_titles (UpdateStatus fl now i us staff)"
  "within keeps_titles (UpdateRole fl now i ro category staff)"
proof -
  show "within keeps_titles (Return fl now i staff)"
    unfolding Return_def by (rule titles.transact_within) (auto elim!: Return_tx_Inr simp: keeps_titles_def returned_def)
  show "within keeps_titles (AddCopy fl now nid b acc pol staff)" "within keeps_titles (CreateUser fl now nid p)"
    unfolding AddCopy_def CreateUser_def
    by (rule titles.transact_within; auto simp: AddCopy_tx_def CreateUser_tx_def andthen_Inr keeps_titles_def
        dest!: titles_steps split: sum.splits)+
  show "within keeps_titles (SetCopyStatusClosingLoan fl now i st staff)"
    "within keeps_titles (UpdateCopyRow fl now i policy status staff)"
    unfolding SetCopyStatusClosingLoan_def UpdateCopyRow_def
    by (rule titles.transact_within; auto simp: SetCopyStatusClosingLoan_tx_def UpdateCopy_tx_def andthen_Inr keeps_titles_def
        dest!: titles_steps split: if_splits)+
  show "within keeps_titles (UpdateStatus fl now i us staff)"
    unfolding UpdateStatus_def
    by (rule titles.transact_within; auto simp: UpdateStatus_tx_def update_user_def andthen_Inr keeps_titles_def
        dest!: titles_steps split: if_splits)
  show "within keeps_titles (UpdateRole fl now i ro category staff)"
    unfolding UpdateRole_def
    by (rule titles.transact_within) (auto elim!: UpdateRole_tx_Inr simp: keeps_titles_def update_user_def)
qed

lemma keeps_soundI: "(books_inv s \<Longrightarrow> books_inv s') \<Longrightarrow> keeps_sound s s'"
  by (simp add: keeps_sound_def)

lemma send_setup_titles: "within keeps_titles (send_setup s c k u b)"
  by (rule withinI) (use send_setup_users(2) in \<open>simp add: keeps_titles_def same_library_def\<close>)

lemma CreateMember_titles: "within keeps_titles (CreateMember s c actor a p)"
  unfolding CreateMember_def [abs_def] by (intro titles.flow_within titles_frames send_setup_titles)

lemma CreateMember_sound: "within keeps_sound (CreateMember s c actor a p)"
  by (intro sound_within CreateMember_inv CreateMember_titles)

lemma import_one_sound: "keeps_sound (is_db st) (is_db (import_one s dt c actor a dry b index item st))"
proof -
  have "keeps_sound d d'" if "CreateMember s c actor a p d = (r, d')" for p d r d'
    using withinD [OF CreateMember_sound, of d s c actor a p] that by simp
  then show ?thesis
    by (auto simp: import_one_def add_row_def Let_def sound.refl split: csv_item.splits option.splits sum.splits prod.splits)
qed

lemma import_loop_sound: "keeps_sound (is_db st) (is_db (import_loop s dt calls actor a dry b index items st))"
proof (induction items arbitrary: st)
  case (Cons x xs)
  show ?case unfolding import_loop.simps by (rule sound.trans [OF import_one_sound Cons.IH])
qed (simp add: sound.refl)

lemma ImportCSV_sound: "within keeps_sound (ImportCSV s dt calls fl actor a b h items dry)"
proof (rule withinI)
  fix d
  show "keeps_sound d (snd (ImportCSV s dt calls fl actor a b h items dry d))"
    using import_loop_sound [where st = "\<lparr>is_result = \<lparr>im_DryRun = dry, im_TotalRows = 0, im_Valid = 0, im_Created = 0,
        im_Duplicate = 0, im_Invalid = 0, im_Rows = []\<rparr>, is_seen = [], is_pending = [], is_db = d\<rparr>"]
    by (auto simp: ImportCSV_def Let_def sound.refl split: sum.splits)
qed

lemma create_as_sound: "within keeps_sound (create_as s c actor a p)"
  unfolding create_as_def [abs_def] by (intro sound.flow_within CreateMember_sound)

lemma SetRole_sound: "within keeps_sound (SetRole c i role cat staff)"
  unfolding SetRole_def [abs_def]
  by (intro sound.flow_within sound_within UpdateRole_inv titles_frames)

lemma SetStatus_sound: "within keeps_sound (SetStatus c i st staff)"
  unfolding SetStatus_def by (intro sound_within UpdateStatus_inv titles_frames)

lemma ResendInvitation_sound: "within keeps_sound (ResendInvitation s c i)"
  unfolding ResendInvitation_def [abs_def]
  by (intro sound.flow_within withinI same_keeps tokens_same InvitationMark_same send_setup_users)

lemma UpdateCopy_titles:
  "within keeps_titles (UpdateCopyService (FindCopy f1) (SetCopyStatusClosingLoan f2 now) (UpdateCopyRow f3 now) (\<lambda>d. d) i pol st staff)"
  unfolding UpdateCopyService_def [abs_def] finish_update_def [abs_def] Let_def
  by (intro titles.flow_within titles_frames)

lemma edit_copy_sound: "within keeps_sound (edit_copy_service c i pol st staff)"
  unfolding edit_copy_service_def
  by (intro sound_within copy_table.update_service_good UpdateCopy_titles)

lemma AddCopyService_sound: "within keeps_sound (AddCopyService (AddCopy fl now nid) b acc pol staff)"
  unfolding AddCopyService_def [abs_def]
  by (intro sound.flow_within sound_within AddCopy_inv titles_frames)

lemma book_services_sound:
  "within keeps_sound (CreateBookService collate fl yr now nid p)"
  "within keeps_sound (UpdateBookService collate fl yr now i q)"
  "within keeps_sound (ArchiveService (ArchiveBook fl now) i staff)"
  unfolding CreateBookService_def [abs_def] UpdateBookService_def [abs_def] ArchiveService_def [abs_def]
  by (intro sound.flow_within withinI keeps_soundI CreateBook_inv UpdateBook_inv ArchiveBook_inv; assumption)+

lemma desk_return_sound: "within keeps_sound (desk_return c i staff)"
  unfolding desk_return_def return_hook_def
  by (intro sound.return_service_within sound.hook_within sound_accounts.promote sound_accounts.notify_within
      sound_within Return_inv titles_frames)

lemmas sound_staff_handlers = sound_accounts.staff_handlers [OF book_services_sound AddCopyService_sound
    edit_copy_sound sound_accounts.desk_borrow_within desk_return_sound create_as_sound ImportCSV_sound SetStatus_sound
    SetRole_sound ResendInvitation_sound]

end
