(* ===== verification/Worker.thy ===== *)
theory Worker
  imports Notify "HOL-Library.AList"
begin

text \<open>
  The notification worker (queue/worker.go) over the outbox. The world of a worker is the database
  and the log of the calls made to providers; a provider is a function of the number of the call and
  the message, so it may answer differently each time. An environment says what happens around one
  pass: the clock and the driver's faults at each database operation, and whether the context has
  been cancelled by then. Operations are numbered from the start of the pass.
\<close>

section \<open>The world of the worker\<close>

record log_entry =
  le_id :: uuid
  le_channel :: string
  le_message :: out_message
  le_result :: "send_error + string"

record world =
  w_db :: db
  w_ops :: nat
  w_log :: "log_entry list"

record env =
  en_plan :: "nat \<Rightarrow> faults"
  en_clock :: "nat \<Rightarrow> time"
  en_cancelled :: "nat \<Rightarrow> bool"

type_synonym sender = "nat \<Rightarrow> out_message \<Rightarrow> send_error + string"

text \<open>The two senders of the program, given what their HTTP exchanges return; a push has no message id.\<close>

definition resend_sender :: "(nat \<Rightarrow> out_message \<Rightarrow> http_answer) \<Rightarrow> sender" where
  "resend_sender http k m = ResendResult (http k m)"

definition fcm_sender :: "(nat \<Rightarrow> out_message \<Rightarrow> http_answer) \<Rightarrow> sender" where
  "fcm_sender http k m = (case FCMResult (http k m) of Inl e \<Rightarrow> Inl e | Inr _ \<Rightarrow> Inr [])"

record worker =
  wk_senders :: "(string \<times> sender) list"
  wk_batch :: nat

definition NewWorker :: "(string \<times> sender) list \<Rightarrow> worker" where
  "NewWorker senders =
     \<lparr>wk_senders = fold (\<lambda>(c, s). AList.update c s) senders [], wk_batch = 20\<rparr>"

text \<open>A database operation of the worker and a call of a provider.\<close>

definition on_db :: "env \<Rightarrow> (faults \<Rightarrow> time \<Rightarrow> db \<Rightarrow> 'a \<times> db) \<Rightarrow> world \<Rightarrow> 'a \<times> world" where
  "on_db e f w =
     (case f (en_plan e (w_ops w)) (en_clock e (w_ops w)) (w_db w) of
        (r, d) \<Rightarrow> (r, w\<lparr>w_db := d, w_ops := Suc (w_ops w)\<rparr>))"

definition call_sender :: "sender \<Rightarrow> uuid \<Rightarrow> string \<Rightarrow> out_message \<Rightarrow> world \<Rightarrow> (send_error + string) \<times> world" where
  "call_sender s i channel m w =
     (let r = s (length (w_log w)) m
      in (r, w\<lparr>w_log := w_log w @ [\<lparr>le_id = i, le_channel = channel, le_message = m, le_result = r\<rparr>]\<rparr>))"

section \<open>One message\<close>

text \<open>Most outcomes of the database calls are only logged, so the world they leave is all that counts.\<close>

definition recordFailure :: "env \<Rightarrow> pending_message \<Rightarrow> send_error \<Rightarrow> world \<Rightarrow> world" where
  "recordFailure e m cause w =
     (if permanent cause
      then snd (on_db e (\<lambda>fl now. MarkSuperseded fl now (pm_ID m) (reason cause)) w)
      else snd (on_db e (\<lambda>fl now. MarkFailed fl (pm_ID m) (reason cause)) w))"

definition supersede :: "env \<Rightarrow> pending_message \<Rightarrow> string \<Rightarrow> world \<Rightarrow> world" where
  "supersede e m why w = snd (on_db e (\<lambda>fl now. MarkSuperseded fl now (pm_ID m) why) w)"

definition mark_sent :: "env \<Rightarrow> pending_message \<Rightarrow> world \<Rightarrow> world" where
  "mark_sent e m w = snd (on_db e (\<lambda>fl now. MarkSent fl now (pm_ID m)) w)"

definition message_to :: "string \<Rightarrow> pending_message \<Rightarrow> out_message" where
  "message_to to m =
     \<lparr>om_To = to, om_Name = pm_FullName m, om_Template = pm_Template m, om_Payload = pm_Payload m\<rparr>"

fun push_all ::
  "env \<Rightarrow> sender \<Rightarrow> pending_message \<Rightarrow> string list \<Rightarrow> nat \<Rightarrow> send_error option \<Rightarrow> world \<Rightarrow>
   nat \<times> send_error option \<times> world" where
  "push_all e s m [] delivered lastErr w = (delivered, lastErr, w)"
| "push_all e s m (t # ts) delivered lastErr w =
     (case call_sender s (pm_ID m) (pm_Channel m) (message_to t m) w of
        (Inr _, w) \<Rightarrow> push_all e s m ts (Suc delivered) lastErr w
      | (Inl err, w) \<Rightarrow>
          if permanent err
          then push_all e s m ts delivered lastErr (snd (on_db e (\<lambda>fl now. RevokeDeviceToken fl now t) w))
          else push_all e s m ts delivered (Some err) w)"

definition deliverPush :: "env \<Rightarrow> sender \<Rightarrow> pending_message \<Rightarrow> world \<Rightarrow> world" where
  "deliverPush e s m w =
     (case on_db e (\<lambda>fl now d. (DeviceTokens fl (pm_UserID m) d, d)) w of
        (Inl err, w) \<Rightarrow> w
      | (Inr tokens, w) \<Rightarrow>
          if tokens = [] then supersede e m ''the member has no registered device'' w
          else case push_all e s m tokens 0 None w of
            (delivered, lastErr, w) \<Rightarrow>
              if 0 < delivered then mark_sent e m w
              else case lastErr of
                Some err \<Rightarrow> recordFailure e m err w
              | None \<Rightarrow> supersede e m ''every registered device was rejected'' w)"

definition deliver_email :: "env \<Rightarrow> sender \<Rightarrow> pending_message \<Rightarrow> world \<Rightarrow> world" where
  "deliver_email e s m w =
     (if \<not> IsDeliverable (pm_Email m) then supersede e m ''recipient address is not deliverable'' w
      else case call_sender s (pm_ID m) (pm_Channel m) (message_to (pm_Email m) m) w of
        (Inl err, w) \<Rightarrow> recordFailure e m err w
      | (Inr providerID, w) \<Rightarrow>
          mark_sent e m
            (if providerID \<noteq> []
             then snd (on_db e (\<lambda>fl now. UpdateProviderID fl now (pm_ID m) providerID) w) else w))"

definition deliver :: "worker \<Rightarrow> env \<Rightarrow> pending_message \<Rightarrow> world \<Rightarrow> world" where
  "deliver k e m w =
     (case on_db e (\<lambda>fl now d. (StillRelevant fl (pm_Template m) (pm_Payload m) d, d)) w of
        (Inl err, w) \<Rightarrow> w
      | (Inr relevant, w) \<Rightarrow>
          if \<not> relevant then supersede e m ''the situation changed before delivery'' w
          else case map_of (wk_senders k) (pm_Channel m) of
            None \<Rightarrow> w
          | Some s \<Rightarrow> if pm_Channel m = ''push'' then deliverPush e s m w else deliver_email e s m w)"

section \<open>A pass and the loop\<close>

fun drain_messages :: "worker \<Rightarrow> env \<Rightarrow> nat \<Rightarrow> pending_message list \<Rightarrow> world \<Rightarrow> nat \<times> world" where
  "drain_messages k e handled [] w = (handled, w)"
| "drain_messages k e handled (m # ms) w =
     (if en_cancelled e (w_ops w) then (handled, w)
      else drain_messages k e (Suc handled) ms (deliver k e m w))"

definition drainOnce :: "worker \<Rightarrow> env \<Rightarrow> world \<Rightarrow> (error + nat) \<times> world" where
  "drainOnce k e w =
     (case on_db e (\<lambda>fl now. Pending fl now (wk_batch k)) (w\<lparr>w_ops := 0\<rparr>) of
        (Inl err, w) \<Rightarrow> (Inl err, w)
      | (Inr messages, w) \<Rightarrow> (case drain_messages k e 0 messages w of (n, w) \<Rightarrow> (Inr n, w)))"

text \<open>Run: one pass a tick until the context ends; the list has an environment for each tick.\<close>

definition Run :: "worker \<Rightarrow> env list \<Rightarrow> world \<Rightarrow> world" where
  "Run k ticks w = (if wk_senders k = [] then w else fold (\<lambda>e w. snd (drainOnce k e w)) ticks w)"

text \<open>The part of an address that is logged.\<close>

definition domainOf :: "string \<Rightarrow> string" where
  "domainOf address = (case last_index address (CHR ''@'') of Some at \<Rightarrow> drop (at + 1) address | None \<Rightarrow> ''(none)'')"

section \<open>What a delivery does to its row\<close>

text \<open>
  The contract of a delivery, for the proofs: it leaves one mark on the row of its message and
  appends to the log calls made for that message. A row marked as failed, which alone goes back to
  the queue, has no accepted call.
\<close>

datatype mark = Keep | Sent time | Superseded time string | Failed string

fun apply_mark :: "mark \<Rightarrow> outbox_row \<Rightarrow> outbox_row" where
  "apply_mark Keep r = r"
| "apply_mark (Sent now) r = r\<lparr>ob_status := ObSent, ob_sent_at := Some now\<rparr>"
| "apply_mark (Superseded now why) r =
     r\<lparr>ob_status := ObSuperseded, ob_sent_at := Some now, ob_last_error := why\<rparr>"
| "apply_mark (Failed why) r = failed_row why r"

definition marked :: "uuid \<Rightarrow> mark \<Rightarrow> db \<Rightarrow> db \<Rightarrow> bool" where
  "marked i mk d d' \<longleftrightarrow> outbox d' = update_where (\<lambda>m. ob_id m = i) (apply_mark mk) (outbox d)"

lemma apply_mark_sel [simp]:
  "ob_id (apply_mark mk r) = ob_id r" "ob_channel (apply_mark mk r) = ob_channel r"
  "ob_user (apply_mark mk r) = ob_user r" "ob_scheduled_at (apply_mark mk r) = ob_scheduled_at r"
  by (cases mk; simp add: failed_row_def)+

lemma marked_map:
  "marked i mk d d' \<longleftrightarrow> outbox d' = map (\<lambda>r. if ob_id r = i then apply_mark mk r else r) (outbox d)"
  by (simp add: marked_def update_where_def)

lemma marked_Keep: "outbox d' = outbox d \<Longrightarrow> marked i Keep d d'"
  by (simp add: marked_map map_idI)

lemma invitation_outbox [simp]:
  "outbox (snd (InvitationMarkFailed fl k i why d)) = outbox d"
  "outbox (snd (InvitationMarkSuperseded fl k i why d)) = outbox d"
  "outbox (snd (UpdateProviderID fl now i pid d)) = outbox d"
  "outbox (snd (RevokeDeviceToken fl now t d)) = outbox d"
  by (auto simp: InvitationMarkFailed_def InvitationMarkSuperseded_def UpdateProviderID_def
      RevokeDeviceToken_def update_invitations_def transact_def split: sum.splits)

lemma MarkSuperseded_marked:
  "\<exists>mk. (mk = Keep \<or> mk = Superseded now why) \<and> marked i mk d (snd (MarkSuperseded fl now i why d))"
proof (cases "fault fl 0")
  case None
  then show ?thesis
    by (intro exI [of _ "Superseded now why"])
      (simp add: MarkSuperseded_def transact_def sql_def exec_def marked_map update_messages_def update_where_def)
next
  case (Some e)
  then show ?thesis
    by (intro exI [of _ Keep])
      (simp add: MarkSuperseded_def transact_def sql_def exec_def marked_Keep)
qed

lemma MarkFailed_marked:
  "\<exists>mk. (mk = Keep \<or> mk = Failed why) \<and> marked i mk d (snd (MarkFailed fl i why d))"
proof (cases "fault fl 0")
  case None
  then show ?thesis
    by (intro exI [of _ "Failed why"])
      (simp add: MarkFailed_def transact_def sql_def exec_def marked_map update_messages_def update_where_def)
next
  case (Some e)
  then show ?thesis
    by (intro exI [of _ Keep])
      (simp add: MarkFailed_def transact_def sql_def exec_def marked_Keep)
qed

lemma MarkSent_marked:
  "\<exists>mk. (mk = Keep \<or> mk = Sent now) \<and> marked i mk d (snd (MarkSent fl now i d))"
proof (cases "MarkSent_tx fl now i d")
  case (Inl e)
  then show ?thesis by (intro exI [of _ Keep]) (simp add: MarkSent_def transact_def marked_Keep)
next
  case (Inr p)
  obtain u d' where p: "p = (u, d')" by (cases p)
  with Inr have "outbox d' = outbox (update_messages i (\<lambda>m. m\<lparr>ob_status := ObSent, ob_sent_at := Some now\<rparr>) d)"
    by (auto simp: MarkSent_tx_def andthen_Inr update_invitations_def)
  then have "marked i (Sent now) d d'" by (simp add: marked_map update_messages_def update_where_def)
  with Inr p show ?thesis by (intro exI [of _ "Sent now"]) (simp add: MarkSent_def transact_def)
qed

lemma on_db_world:
  "w_log (snd (on_db e f w)) = w_log w"
  "w_db (snd (on_db e f w)) = snd (f (en_plan e (w_ops w)) (en_clock e (w_ops w)) (w_db w))"
  by (simp_all add: on_db_def split: prod.splits)

text \<open>A step of the delivery of a message: a mark and the calls it added.\<close>

definition step_of :: "uuid \<Rightarrow> string \<Rightarrow> mark \<Rightarrow> log_entry list \<Rightarrow> world \<Rightarrow> world \<Rightarrow> bool" where
  "step_of i ch mk new w w' \<longleftrightarrow> marked i mk (w_db w) (w_db w') \<and> w_log w' = w_log w @ new \<and>
     (\<forall>x \<in> set new. le_id x = i \<and> le_channel x = ch)"

lemma step_of_quiet: "outbox (w_db w') = outbox (w_db w) \<Longrightarrow> w_log w' = w_log w \<Longrightarrow> step_of i ch Keep [] w w'"
  by (simp add: step_of_def marked_Keep)

lemma step_of_refl [simp]: "step_of i ch Keep [] w w"
  by (rule step_of_quiet) simp_all

lemma on_db_read:
  "on_db e (\<lambda>fl now d. (g fl d, d)) w = (r, v) \<Longrightarrow> step_of i ch Keep [] w v \<and>
     r = g (en_plan e (w_ops w)) (w_db w) \<and> w_db v = w_db w \<and> w_log v = w_log w"
  by (auto simp: on_db_def intro!: step_of_quiet)

lemma step_of_then:
  "step_of i ch Keep new w w' \<Longrightarrow> step_of i ch mk new' w' w'' \<Longrightarrow> step_of i ch mk (new @ new') w w''"
  by (auto simp: step_of_def marked_def update_where_def)

lemma supersede_step:
  "\<exists>mk. (mk = Keep \<or> (\<exists>now. mk = Superseded now why)) \<and> step_of (pm_ID m) ch mk [] w (supersede e m why w)"
  using MarkSuperseded_marked [of "en_clock e (w_ops w)" why "pm_ID m" "w_db w" "en_plan e (w_ops w)"]
  by (auto simp: supersede_def step_of_def on_db_world)

lemma mark_sent_step:
  "\<exists>mk. (mk = Keep \<or> (\<exists>now. mk = Sent now)) \<and> step_of (pm_ID m) ch mk [] w (mark_sent e m w)"
  using MarkSent_marked [of "en_clock e (w_ops w)" "pm_ID m" "w_db w" "en_plan e (w_ops w)"]
  by (auto simp: mark_sent_def step_of_def on_db_world)

lemma recordFailure_step:
  "\<exists>mk. (mk = Keep \<or> (\<exists>now. mk = Superseded now (reason err)) \<or> mk = Failed (reason err)) \<and>
     step_of (pm_ID m) ch mk [] w (recordFailure e m err w)"
  using MarkSuperseded_marked [of "en_clock e (w_ops w)" "reason err" "pm_ID m" "w_db w" "en_plan e (w_ops w)"]
    MarkFailed_marked [of "reason err" "pm_ID m" "w_db w" "en_plan e (w_ops w)"]
  by (auto simp: recordFailure_def step_of_def on_db_world)

lemma call_sender_step:
  assumes "call_sender s (pm_ID m) ch x w = (r, w')"
  shows "\<exists>a. step_of (pm_ID m) ch Keep [a] w w' \<and> le_result a = r \<and> le_message a = x"
  using assms by (auto simp: call_sender_def Let_def step_of_def marked_Keep)

lemma push_all_step:
  "push_all e s m ts n l w = (n', l', w') \<Longrightarrow>
   \<exists>new. step_of (pm_ID m) (pm_Channel m) Keep new w w' \<and> n \<le> n' \<and> (n' = n \<longrightarrow> (\<forall>x \<in> set new. isl (le_result x)))"
proof (induction ts arbitrary: n l w)
  case Nil
  then show ?case by (intro exI [of _ "[]"]) simp
next
  case (Cons t ts)
  obtain r v where c: "call_sender s (pm_ID m) (pm_Channel m) (message_to t m) w = (r, v)"
    by (metis surj_pair)
  obtain a where a: "step_of (pm_ID m) (pm_Channel m) Keep [a] w v" "le_result a = r"
    using call_sender_step [OF c] by blast
  let ?v = "snd (on_db e (\<lambda>fl now. RevokeDeviceToken fl now t) v)"
  have q: "step_of (pm_ID m) (pm_Channel m) Keep [] v ?v"
    by (rule step_of_quiet) (simp_all add: on_db_world)
  have av: "step_of (pm_ID m) (pm_Channel m) Keep [a] w ?v" using step_of_then [OF a(1) q] by simp
  show ?case
  proof (cases r)
    case (Inr i)
    with Cons.prems c have "push_all e s m ts (Suc n) l v = (n', l', w')" by simp
    from Cons.IH [OF this] obtain new where n: "step_of (pm_ID m) (pm_Channel m) Keep new v w'" "Suc n \<le> n'"
      by blast
    with step_of_then [OF a(1) n(1)] show ?thesis by (intro exI [of _ "[a] @ new"]) simp
  next
    case (Inl err)
    have "\<exists>v' l. step_of (pm_ID m) (pm_Channel m) Keep [a] w v' \<and> push_all e s m ts n l v' = (n', l', w')"
      using Cons.prems c a(1) av Inl by (auto split: if_splits)
    then obtain v' l2 where v': "step_of (pm_ID m) (pm_Channel m) Keep [a] w v'"
      "push_all e s m ts n l2 v' = (n', l', w')" by blast
    from Cons.IH [OF v'(2)] obtain new where n: "step_of (pm_ID m) (pm_Channel m) Keep new v' w'" "n \<le> n'"
      "n' = n \<longrightarrow> (\<forall>x \<in> set new. isl (le_result x))" by blast
    with step_of_then [OF v'(1) n(1)] a(2) Inl show ?thesis by (intro exI [of _ "[a] @ new"]) simp
  qed
qed

text \<open>The contract of one delivery.\<close>

definition outcome :: "pending_message \<Rightarrow> mark \<Rightarrow> log_entry list \<Rightarrow> world \<Rightarrow> world \<Rightarrow> bool" where
  "outcome m mk new w w' \<longleftrightarrow> step_of (pm_ID m) (pm_Channel m) mk new w w' \<and>
     ((\<exists>why. mk = Failed why) \<longrightarrow> (\<forall>x \<in> set new. isl (le_result x))) \<and>
     (pm_Channel m \<noteq> ''push'' \<longrightarrow> length new \<le> 1 \<and>
        (\<forall>x \<in> set new. om_To (le_message x) = pm_Email m \<and> IsDeliverable (pm_Email m)))"

lemma supersede_outcome: "\<exists>mk new. outcome m mk new w (supersede e m why w)"
proof -
  obtain mk where "mk = Keep \<or> (\<exists>now. mk = Superseded now why)"
    "step_of (pm_ID m) (pm_Channel m) mk [] w (supersede e m why w)"
    using supersede_step [of why m "pm_Channel m" w e] by auto
  then have "outcome m mk [] w (supersede e m why w)" by (auto simp: outcome_def)
  then show ?thesis by blast
qed

lemma deliverPush_outcome:
  assumes "pm_Channel m = ''push''"
  shows "\<exists>mk new. outcome m mk new w (deliverPush e s m w)"
proof -
  obtain r v where on: "on_db e (\<lambda>fl now d. (DeviceTokens fl (pm_UserID m) d, d)) w = (r, v)"
    by (rule prod.exhaust)
  then have q: "step_of (pm_ID m) (pm_Channel m) Keep [] w v" by (rule on_db_read [THEN conjunct1])
  have then_mark: "\<exists>mk new. outcome m mk new w w'"
    if "step_of (pm_ID m) (pm_Channel m) Keep new w u" "step_of (pm_ID m) (pm_Channel m) mk [] u w'"
      "(\<exists>why. mk = Failed why) \<longrightarrow> (\<forall>x \<in> set new. isl (le_result x))" for new u mk w'
    using step_of_then [OF that(1,2)] that(3) assms by (auto simp: outcome_def)
  show ?thesis
  proof (cases r)
    case (Inl err)
    with on then_mark [OF q, of Keep v] show ?thesis by (simp add: deliverPush_def)
  next
    case (Inr tokens)
    show ?thesis
    proof (cases "tokens = []")
      case True
      have "\<exists>mk new. outcome m mk new w (supersede e m ''the member has no registered device'' v)"
        using supersede_step [of "''the member has no registered device''" m "pm_Channel m" v e]
          then_mark [OF q] by auto
      with True Inr on show ?thesis by (simp add: deliverPush_def)
    next
      case False
      obtain n l u where p: "push_all e s m tokens 0 None v = (n, l, u)" by (metis surj_pair)
      from push_all_step [OF this] obtain new where n: "step_of (pm_ID m) (pm_Channel m) Keep new v u"
        "n = 0 \<longrightarrow> (\<forall>x \<in> set new. isl (le_result x))" by auto
      from step_of_then [OF q n(1)] have s: "step_of (pm_ID m) (pm_Channel m) Keep new w u" by simp
      let ?u = "if 0 < n then mark_sent e m u else (case l of Some err \<Rightarrow> recordFailure e m err u
        | None \<Rightarrow> supersede e m ''every registered device was rejected'' u)"
      have "\<exists>mk. step_of (pm_ID m) (pm_Channel m) mk [] u ?u \<and> ((\<exists>why. mk = Failed why) \<longrightarrow> n = 0)"
      proof (cases "0 < n")
        case True
        with mark_sent_step [of m "pm_Channel m" u e] show ?thesis by auto
      next
        case False
        with recordFailure_step [of _ m "pm_Channel m" u e]
          supersede_step [of "''every registered device was rejected''" m "pm_Channel m" u e]
        show ?thesis by (cases l) fastforce+
      qed
      then obtain mk where "step_of (pm_ID m) (pm_Channel m) mk [] u ?u" "(\<exists>why. mk = Failed why) \<longrightarrow> n = 0"
        by blast
      with then_mark [OF s, of mk] n(2) False Inr on p show ?thesis by (simp add: deliverPush_def)
    qed
  qed
qed

lemma deliver_email_outcome:
  assumes "pm_Channel m \<noteq> ''push''"
  shows "\<exists>mk new. outcome m mk new w (deliver_email e s m w)"
proof (cases "IsDeliverable (pm_Email m)")
  case False
  then show ?thesis by (simp add: deliver_email_def supersede_outcome)
next
  case True
  obtain r v where c: "call_sender s (pm_ID m) (pm_Channel m) (message_to (pm_Email m) m) w = (r, v)"
    by (metis surj_pair)
  from call_sender_step [OF this] obtain a where a: "step_of (pm_ID m) (pm_Channel m) Keep [a] w v"
    "le_result a = r" "le_message a = message_to (pm_Email m) m" by blast
  have fin: "\<exists>mk new. outcome m mk new w w'"
    if "step_of (pm_ID m) (pm_Channel m) mk [] v w'" "(\<exists>why. mk = Failed why) \<longrightarrow> isl r" for mk w'
  proof -
    have "outcome m mk [a] w w'"
      using step_of_then [OF a(1) that(1)] a(2,3) that(2) True by (auto simp: outcome_def message_to_def)
    then show ?thesis by blast
  qed
  show ?thesis
  proof (cases r)
    case (Inl err)
    obtain mk where "step_of (pm_ID m) (pm_Channel m) mk [] v (recordFailure e m err v)"
      using recordFailure_step by blast
    with fin Inl True c show ?thesis by (auto simp: deliver_email_def)
  next
    case (Inr pid)
    let ?v = "if pid \<noteq> [] then snd (on_db e (\<lambda>fl now. UpdateProviderID fl now (pm_ID m) pid) v) else v"
    have q: "step_of (pm_ID m) (pm_Channel m) Keep [] v ?v"
      by (rule step_of_quiet) (simp_all add: on_db_world)
    obtain mk where mk: "(mk = Keep \<or> (\<exists>now. mk = Sent now))"
      "step_of (pm_ID m) (pm_Channel m) mk [] ?v (mark_sent e m ?v)"
      using mark_sent_step by blast
    have "step_of (pm_ID m) (pm_Channel m) mk [] v (mark_sent e m ?v)" using step_of_then [OF q mk(2)] by simp
    moreover have "\<not> (\<exists>why. mk = Failed why)" using mk(1) by auto
    ultimately have "\<exists>mk new. outcome m mk new w (mark_sent e m ?v)" using fin by blast
    with True c Inr show ?thesis by (simp add: deliver_email_def)
  qed
qed

lemma outcome_after:
  "step_of (pm_ID m) (pm_Channel m) Keep [] w v \<Longrightarrow> outcome m mk new v w' \<Longrightarrow> outcome m mk new w w'"
  by (auto simp: outcome_def dest: step_of_then)

theorem deliver_outcome: "\<exists>mk new. outcome m mk new w (deliver k e m w)"
proof -
  obtain r v where on: "on_db e (\<lambda>fl now d. (StillRelevant fl (pm_Template m) (pm_Payload m) d, d)) w = (r, v)"
    by (rule prod.exhaust)
  then have q: "step_of (pm_ID m) (pm_Channel m) Keep [] w v" by (rule on_db_read [THEN conjunct1])
  have keep: "outcome m Keep [] v v" by (simp add: outcome_def)
  note sup = supersede_outcome [of m v e "''the situation changed before delivery''"]
  have "deliver k e m w = v \<or> deliver k e m w = supersede e m ''the situation changed before delivery'' v \<or>
      (pm_Channel m = ''push'' \<and> (\<exists>s. deliver k e m w = deliverPush e s m v)) \<or>
      (pm_Channel m \<noteq> ''push'' \<and> (\<exists>s. deliver k e m w = deliver_email e s m v))"
    by (cases r; cases "map_of (wk_senders k) (pm_Channel m)") (auto simp: deliver_def on)
  then have "\<exists>mk new. outcome m mk new v (deliver k e m w)"
    using keep sup deliverPush_outcome [of m v e] deliver_email_outcome [of m v e] by metis
  with outcome_after [OF q] show ?thesis by blast
qed

section \<open>Claiming a batch\<close>

lemma map_filter_ids:
  "(\<And>x y. f x = Some y \<Longrightarrow> g y = h x) \<Longrightarrow> set (map g (List.map_filter f xs)) \<subseteq> h ` set xs \<and>
     (distinct (map h xs) \<longrightarrow> distinct (map g (List.map_filter f xs)))"
  by (induction xs) (auto simp: List.map_filter_simps image_iff split: option.splits)

lemma message_of_id: "message_of d r = Some m \<Longrightarrow> pm_ID m = ob_id r"
  by (auto simp: message_of_def)

lemma claimed_row_sel [simp]:
  "ob_id (claimed_row r) = ob_id r" "ob_status (claimed_row r) = ObClaimed"
  "ob_attempts (claimed_row r) = Suc (ob_attempts r)" "ob_scheduled_at (claimed_row r) = ob_scheduled_at r"
  by (simp_all add: claimed_row_def)

lemma claim_ids_due:
  "i \<in> set (claim_ids now limit d) \<Longrightarrow> \<exists>r \<in> set (outbox d). ob_id r = i \<and> due now r"
  by (auto simp: claim_ids_def dest!: in_set_takeD)

lemma Pending_Inr:
  assumes "Pending fl now limit d = (Inr ms, d')" and "distinct (map ob_id (outbox d))"
  shows "outbox d' = update_where (\<lambda>r. ob_id r \<in> set (claim_ids now limit d)) claimed_row (outbox d) \<and>
    set (map pm_ID ms) \<subseteq> set (claim_ids now limit d) \<and> distinct (map pm_ID ms)"
proof -
  let ?ids = "claim_ids now limit d"
  let ?rows = "sort_key ob_scheduled_at (filter (\<lambda>m. List.member ?ids (ob_id m))
    (update_where (\<lambda>m. List.member ?ids (ob_id m)) claimed_row (outbox d)))"
  from assms(1) have d': "d' = d\<lparr>outbox := update_where (\<lambda>m. List.member ?ids (ob_id m)) claimed_row (outbox d)\<rparr>"
    and ms: "ms = List.map_filter (message_of d) ?rows"
    by (auto simp: Pending_def transact_def Let_def split: sum.splits)
  have "distinct (map ob_id (update_where (\<lambda>m. List.member ?ids (ob_id m)) claimed_row (outbox d)))"
    using assms(2) by (simp add: map_update_where)
  then have "distinct (map ob_id ?rows)"
    by (metis distinct_map distinct_filter distinct_sort inj_on_filter_key_eq inj_on_subset filter_is_subset set_sort)
  moreover have "ob_id ` set ?rows \<subseteq> set ?ids" by auto
  ultimately have "distinct (map pm_ID ms)" "set (map pm_ID ms) \<subseteq> set ?ids"
    using map_filter_ids [of "message_of d" pm_ID ob_id ?rows] message_of_id unfolding ms by blast+
  with d' show ?thesis by simp
qed

lemma drainOnce_cases:
  assumes "distinct (map ob_id (outbox (w_db w)))"
  obtains "outbox (w_db (snd (drainOnce k e w))) = outbox (w_db w)" and "w_log (snd (drainOnce k e w)) = w_log w"
    and "fault (en_plan e 0) 0 \<noteq> None"
  | v ms where "fault (en_plan e 0) 0 = None" and "w_log v = w_log w" and
      "outbox (w_db v) = update_where (\<lambda>r. ob_id r \<in> set (claim_ids (en_clock e 0) (wk_batch k) (w_db w)))
         claimed_row (outbox (w_db w))"
    and "set (map pm_ID ms) \<subseteq> set (claim_ids (en_clock e 0) (wk_batch k) (w_db w))" and "distinct (map pm_ID ms)"
    and "snd (drainOnce k e w) = snd (drain_messages k e 0 ms v)"
proof (cases "Pending (en_plan e 0) (en_clock e 0) (wk_batch k) (w_db w)")
  case (Pair r d)
  show ?thesis
  proof (cases r)
    case (Inl err)
    with Pair have "d = w_db w" "fault (en_plan e 0) 0 \<noteq> None"
      by (auto simp: Pending_def transact_def sql_def exec_def Let_def split: sum.splits option.splits)
    with Inl Pair that(1) show ?thesis by (simp add: drainOnce_def on_db_def)
  next
    case (Inr ms)
    let ?v = "w\<lparr>w_db := d, w_ops := Suc 0\<rparr>"
    have "snd (drainOnce k e w) = snd (drain_messages k e 0 ms ?v)"
      using Pair Inr by (simp add: drainOnce_def on_db_def split: prod.split)
    moreover have "fault (en_plan e 0) 0 = None"
      using Pair Inr by (auto simp: Pending_def transact_def Let_def split: sum.splits)
    ultimately show ?thesis
      using Pending_Inr [OF Pair [unfolded Inr] assms] that(2) [of ?v ms] by simp
  qed
qed

end
