(* ===== verification/Worker_Runs.thy ===== *)
theory Worker_Runs
  imports Worker
begin

text \<open>
  The worker over any history: a step relation whose steps are a pass of some worker, a message
  queued by a service, and any other work on the database, with the invariant of deliveries proved by
  rule induction; and the passes that empty the queue.
\<close>

section \<open>Calls for a message\<close>

definition calls_of :: "uuid \<Rightarrow> log_entry list \<Rightarrow> log_entry list" where
  "calls_of i log = filter (\<lambda>x. le_id x = i) log"

definition mail_calls :: "uuid \<Rightarrow> log_entry list \<Rightarrow> log_entry list" where
  "mail_calls i log = filter (\<lambda>x. le_id x = i \<and> le_channel x \<noteq> ''push'') log"

definition accepted :: "log_entry list \<Rightarrow> log_entry list" where
  "accepted log = filter (\<lambda>x. \<not> isl (le_result x)) log"

lemma calls_append [simp]:
  "calls_of i (l @ l') = calls_of i l @ calls_of i l'" "mail_calls i (l @ l') = mail_calls i l @ mail_calls i l'"
  "accepted (l @ l') = accepted l @ accepted l'"
  by (simp_all add: calls_of_def mail_calls_def accepted_def)

lemma calls_other:
  "\<forall>x \<in> set new. le_id x = j \<Longrightarrow> i \<noteq> j \<Longrightarrow> calls_of i new = [] \<and> mail_calls i new = []"
  by (auto simp: calls_of_def mail_calls_def filter_empty_conv)

lemma accepted_calls: "accepted (calls_of i l) = [] \<Longrightarrow> accepted (mail_calls i l) = []"
  by (auto simp: accepted_def calls_of_def mail_calls_def filter_empty_conv)

lemma accepted_le: "length (accepted l) \<le> length l"
  by (simp add: accepted_def)

section \<open>The invariant of deliveries\<close>

text \<open>The rows of a batch that are still to be delivered are the set of the first argument.\<close>

definition row_ok :: "uuid set \<Rightarrow> log_entry list \<Rightarrow> outbox_row \<Rightarrow> bool" where
  "row_ok S log r \<longleftrightarrow>
     length (mail_calls (ob_id r) log) \<le> 3 \<and> length (accepted (mail_calls (ob_id r) log)) \<le> 1 \<and>
     (ob_status r = ObPending \<longrightarrow> accepted (calls_of (ob_id r) log) = [] \<and>
        2 * length (mail_calls (ob_id r) log) \<le> ob_attempts r) \<and>
     (ob_id r \<in> S \<longrightarrow> ob_status r = ObClaimed \<and> accepted (calls_of (ob_id r) log) = [] \<and>
        Suc (2 * length (mail_calls (ob_id r) log)) \<le> ob_attempts r \<and> ob_attempts r \<le> 5)"

definition mail_inv :: "uuid set \<Rightarrow> world \<Rightarrow> bool" where
  "mail_inv S w \<longleftrightarrow> distinct (map ob_id (outbox (w_db w))) \<and>
     S \<subseteq> ob_id ` set (outbox (w_db w)) \<and> le_id ` set (w_log w) \<subseteq> ob_id ` set (outbox (w_db w)) \<and>
     (\<forall>x \<in> set (w_log w). le_channel x \<noteq> ''push'' \<longrightarrow> IsDeliverable (om_To (le_message x))) \<and>
     (\<forall>r \<in> set (outbox (w_db w)). row_ok S (w_log w) r)"

lemma mail_inv_cong:
  "outbox (w_db w') = outbox (w_db w) \<Longrightarrow> w_log w' = w_log w \<Longrightarrow> mail_inv S w' = mail_inv S w"
  by (simp add: mail_inv_def)

lemma mail_inv_mono: "mail_inv S w \<Longrightarrow> S' \<subseteq> S \<Longrightarrow> mail_inv S' w"
  by (auto simp: mail_inv_def row_ok_def)

lemma row_ok_marked:
  assumes ok: "row_ok S log r" and i: "ob_id r = pm_ID m" "pm_ID m \<in> S"
    and out: "outcome m mk new w w'"
  shows "row_ok (S - {pm_ID m}) (log @ new) (apply_mark mk r)"
proof -
  let ?i = "pm_ID m"
  have new: "\<forall>x \<in> set new. le_id x = ?i \<and> le_channel x = pm_Channel m"
    and failed: "(\<exists>why. mk = Failed why) \<longrightarrow> accepted (calls_of ?i new) = []"
    using out by (auto simp: outcome_def step_of_def accepted_def calls_of_def filter_empty_conv)
  have le1: "length (mail_calls ?i new) \<le> 1"
  proof (cases "pm_Channel m = ''push''")
    case True
    with new have "mail_calls ?i new = []" by (auto simp: mail_calls_def filter_empty_conv)
    then show ?thesis by simp
  next
    case False
    then have "length new \<le> 1" using out by (simp add: outcome_def)
    moreover have "length (mail_calls ?i new) \<le> length new" by (simp add: mail_calls_def)
    ultimately show ?thesis by simp
  qed
  have old: "ob_status r = ObClaimed" "accepted (calls_of ?i log) = []"
    "Suc (2 * length (mail_calls ?i log)) \<le> ob_attempts r" "ob_attempts r \<le> 5"
    using ok i by (auto simp: row_ok_def)
  have acc: "length (accepted (mail_calls ?i (log @ new))) \<le> 1"
    using accepted_calls [OF old(2)] accepted_le [of "mail_calls ?i new"] le1 by simp
  have num: "length (mail_calls ?i (log @ new)) \<le> 3" using old(3,4) le1 by simp
  have pend: "\<exists>why. mk = Failed why" if "ob_status (apply_mark mk r) = ObPending"
    using that old(1) by (cases mk) auto
  have "2 * length (mail_calls ?i (log @ new)) \<le> ob_attempts (apply_mark mk r)"
    if "ob_status (apply_mark mk r) = ObPending"
    using pend [OF that] old(3) le1 by (auto simp: failed_row_def)
  with acc num pend failed old(2) i show ?thesis by (simp add: row_ok_def)
qed

lemma deliver_inv:
  assumes inv: "mail_inv S w" and m: "pm_ID m \<in> S"
  shows "mail_inv (S - {pm_ID m}) (deliver k e m w)"
proof -
  obtain mk new where out: "outcome m mk new w (deliver k e m w)" using deliver_outcome by blast
  then have rows: "outbox (w_db (deliver k e m w)) =
      map (\<lambda>r. if ob_id r = pm_ID m then apply_mark mk r else r) (outbox (w_db w))"
    and log: "w_log (deliver k e m w) = w_log w @ new"
    and new: "\<forall>x \<in> set new. le_id x = pm_ID m \<and> le_channel x = pm_Channel m"
    and deliv: "\<forall>x \<in> set new. le_channel x \<noteq> ''push'' \<longrightarrow> IsDeliverable (om_To (le_message x))"
    by (auto simp: outcome_def step_of_def marked_map)
  have ids: "map ob_id (outbox (w_db (deliver k e m w))) = map ob_id (outbox (w_db w))"
    by (simp add: rows)
  have each: "row_ok (S - {pm_ID m}) (w_log w @ new) (if ob_id r = pm_ID m then apply_mark mk r else r)"
    if r: "r \<in> set (outbox (w_db w))" for r
  proof (cases "ob_id r = pm_ID m")
    case True
    with r inv m out show ?thesis by (auto simp: mail_inv_def intro: row_ok_marked)
  next
    case False
    moreover have "row_ok S (w_log w) r" using r inv by (simp add: mail_inv_def)
    ultimately show ?thesis using calls_other [of new "pm_ID m" "ob_id r"] new by (auto simp: row_ok_def)
  qed
  have "\<forall>r \<in> set (outbox (w_db (deliver k e m w))). row_ok (S - {pm_ID m}) (w_log (deliver k e m w)) r"
    unfolding rows log using each by (metis (no_types, lifting) imageE set_map)
  moreover have "le_id ` set new \<subseteq> ob_id ` set (outbox (w_db w))"
    using new inv m by (auto simp: mail_inv_def)
  ultimately show ?thesis
    using inv deliv unfolding mail_inv_def ids map_eq_set [OF ids] log by auto
qed

lemma drain_messages_inv:
  "mail_inv S w \<Longrightarrow> set (map pm_ID ms) \<subseteq> S \<Longrightarrow> distinct (map pm_ID ms) \<Longrightarrow>
   mail_inv {} (snd (drain_messages k e n ms w))"
proof (induction ms arbitrary: S n w)
  case Nil
  then show ?case by (simp add: mail_inv_mono)
next
  case (Cons m ms)
  show ?case
  proof (cases "en_cancelled e (w_ops w)")
    case True
    with Cons.prems(1) show ?thesis by (simp add: mail_inv_mono)
  next
    case False
    have "mail_inv (S - {pm_ID m}) (deliver k e m w)" using Cons.prems by (intro deliver_inv) auto
    moreover have "set (map pm_ID ms) \<subseteq> S - {pm_ID m}"
      using Cons.prems(2,3) by auto (metis imageI)
    ultimately show ?thesis using Cons.IH Cons.prems(3) False by simp
  qed
qed

lemma claim_inv:
  assumes inv: "mail_inv {} w" and ids: "ids = set (claim_ids now limit (w_db w))" and log: "w_log v = w_log w"
    and ob: "outbox (w_db v) = update_where (\<lambda>r. ob_id r \<in> ids) claimed_row (outbox (w_db w))"
  shows "mail_inv ids v"
proof -
  have same: "map ob_id (outbox (w_db v)) = map ob_id (outbox (w_db w))" by (simp add: ob map_update_where)
  have sub: "ids \<subseteq> ob_id ` set (outbox (w_db w))" unfolding ids using claim_ids_due by blast
  have "row_ok ids (w_log w) (if ob_id r \<in> ids then claimed_row r else r)" if r: "r \<in> set (outbox (w_db w))" for r
  proof (cases "ob_id r \<in> ids")
    case True
    then obtain r' where r': "r' \<in> set (outbox (w_db w))" "ob_id r' = ob_id r" "due now r'"
      unfolding ids using claim_ids_due by blast
    moreover have "distinct (map ob_id (outbox (w_db w)))" using inv by (simp add: mail_inv_def)
    ultimately have "r' = r" using r by (metis distinct_key)
    with r' inv r True show ?thesis
      by (auto simp: mail_inv_def row_ok_def due_def dest!: accepted_calls)
  next
    case False
    with r inv show ?thesis by (auto simp: mail_inv_def row_ok_def)
  qed
  then have "\<forall>r \<in> set (outbox (w_db v)). row_ok ids (w_log v) r"
    unfolding ob log set_update_where by blast
  with inv sub show ?thesis unfolding mail_inv_def same map_eq_set [OF same] log by auto
qed

lemma drainOnce_inv: "mail_inv {} w \<Longrightarrow> mail_inv {} (snd (drainOnce k e w))"
proof -
  assume inv: "mail_inv {} w"
  then have dist: "distinct (map ob_id (outbox (w_db w)))" by (simp add: mail_inv_def)
  show ?thesis
  proof (cases rule: drainOnce_cases [OF dist, of k e])
    case 1
    then show ?thesis using inv mail_inv_cong by blast
  next
    case (2 v ms)
    from claim_inv [OF inv refl 2(2,3)] drain_messages_inv 2(4,5,6) show ?thesis by metis
  qed
qed

section \<open>Histories\<close>

inductive worker_step :: "world \<Rightarrow> world \<Rightarrow> bool" where
  pass: "worker_step w (snd (drainOnce k e w))"
| queued: "QueueTracked fl now nid u ch t pl (w_db w) = (r, d) \<Longrightarrow> worker_step w (w\<lparr>w_db := d\<rparr>)"
| elsewhere: "outbox d = outbox (w_db w) \<Longrightarrow> worker_step w (w\<lparr>w_db := d\<rparr>)"

inductive_cases worker_stepE: "worker_step w w'"

inductive reached :: "world \<Rightarrow> bool" where
  start: "outbox (w_db w) = [] \<Longrightarrow> w_log w = [] \<Longrightarrow> reached w"
| step: "reached w \<Longrightarrow> worker_step w w' \<Longrightarrow> reached w'"

lemma QueueTracked_outbox:
  assumes "QueueTracked fl now nid u ch t pl d = (r, d')"
  shows "outbox d' = outbox d \<or>
    (nid \<notin> ob_id ` set (outbox d) \<and> outbox d' = outbox d @ [new_message now nid u ch t pl])"
proof (cases "QueueTracked_tx fl now nid u ch t pl d")
  case (Inl e)
  with assms show ?thesis by (simp add: QueueTracked_def transact_def)
next
  case (Inr p)
  with assms have "QueueTracked_tx fl now nid u ch t pl d = Inr (nid, d') \<or> (\<exists>x. p = (x, d'))"
    by (cases p) (auto simp: QueueTracked_def transact_def)
  with Inr obtain x where "QueueTracked_tx fl now nid u ch t pl d = Inr (x, d')" by auto
  then show ?thesis
    by (cases "batch_of pl")
      (auto simp: QueueTracked_tx_def andthen_Inr insert_message_def CreateForOutbox_def
        split: if_splits option.splits)
qed

lemma worker_step_inv: "worker_step w w' \<Longrightarrow> mail_inv {} w \<Longrightarrow> mail_inv {} w'"
proof (induction rule: worker_step.induct)
  case (pass w k e)
  then show ?case by (rule drainOnce_inv)
next
  case (queued fl now nid u ch t pl w r d)
  show ?case
  proof (cases "outbox d = outbox (w_db w)")
    case True
    then show ?thesis using queued(2) mail_inv_cong [of "w\<lparr>w_db := d\<rparr>" w] by simp
  next
    case False
    with QueueTracked_outbox [OF queued(1)] have new: "nid \<notin> ob_id ` set (outbox (w_db w))"
      and ob: "outbox d = outbox (w_db w) @ [new_message now nid u ch t pl]" by auto
    from new queued(2) have "calls_of nid (w_log w) = []" "mail_calls nid (w_log w) = []"
      by (auto simp: mail_inv_def calls_of_def mail_calls_def filter_empty_conv)
    then have "row_ok {} (w_log w) (new_message now nid u ch t pl)"
      by (simp add: row_ok_def new_message_def accepted_def)
    moreover have "ob_id (new_message now nid u ch t pl) = nid" by (simp add: new_message_def)
    ultimately show ?thesis using queued(2) new by (auto simp: mail_inv_def ob)
  qed
next
  case (elsewhere d w)
  then show ?case using mail_inv_cong [of "w\<lparr>w_db := d\<rparr>" w] by simp
qed

lemma reached_inv: "reached w \<Longrightarrow> mail_inv {} w"
proof (induction rule: reached.induct)
  case (start w)
  then show ?case by (simp add: mail_inv_def)
next
  case (step w w')
  then show ?case by (blast intro: worker_step_inv)
qed

section \<open>Rows across a pass\<close>

text \<open>Every row a pass delivers gets one mark, and no other row changes.\<close>

lemma drain_rows:
  assumes "distinct (map pm_ID ms)"
  shows "\<exists>g. outbox (w_db (snd (drain_messages k e n ms w))) = map g (outbox (w_db w)) \<and>
    (\<forall>r. g r = r \<or> (ob_id r \<in> pm_ID ` set ms \<and> (\<exists>mk. g r = apply_mark mk r))) \<and>
    (\<exists>new. w_log (snd (drain_messages k e n ms w)) = w_log w @ new \<and> le_id ` set new \<subseteq> pm_ID ` set ms)"
  using assms
proof (induction ms arbitrary: n w)
  case Nil
  then show ?case by (intro exI [of _ "\<lambda>r. r"]) simp
next
  case (Cons m ms)
  show ?case
  proof (cases "en_cancelled e (w_ops w)")
    case True
    then show ?thesis by (intro exI [of _ "\<lambda>r. r"]) simp
  next
    case False
    let ?v = "deliver k e m w"
    obtain mk new where "outcome m mk new w ?v" using deliver_outcome by blast
    then have rows: "outbox (w_db ?v) = map (\<lambda>r. if ob_id r = pm_ID m then apply_mark mk r else r) (outbox (w_db w))"
      and log: "w_log ?v = w_log w @ new" "le_id ` set new \<subseteq> {pm_ID m}"
      by (auto simp: outcome_def step_of_def marked_map)
    have "distinct (map pm_ID ms)" using Cons.prems by simp
    from Cons.IH [OF this, of "Suc n" ?v] obtain g new' where
      g: "outbox (w_db (snd (drain_messages k e (Suc n) ms ?v))) = map g (outbox (w_db ?v))"
      "\<And>r. g r = r \<or> (ob_id r \<in> pm_ID ` set ms \<and> (\<exists>mk. g r = apply_mark mk r))"
      and log': "w_log (snd (drain_messages k e (Suc n) ms ?v)) = w_log ?v @ new'" "le_id ` set new' \<subseteq> pm_ID ` set ms"
      by blast
    let ?h = "\<lambda>r. g (if ob_id r = pm_ID m then apply_mark mk r else r)"
    have "?h r = r \<or> (ob_id r \<in> pm_ID ` set (m # ms) \<and> (\<exists>mk. ?h r = apply_mark mk r))" for r
    proof (cases "ob_id r = pm_ID m")
      case True
      then have "ob_id (apply_mark mk r) \<notin> pm_ID ` set ms" using Cons.prems by simp
      with g(2) [of "apply_mark mk r"] True show ?thesis by auto
    next
      case False
      with g(2) [of r] show ?thesis by auto
    qed
    moreover have "outbox (w_db (snd (drain_messages k e n (m # ms) w))) = map ?h (outbox (w_db w))"
      using False by (simp add: g(1) rows)
    moreover have "w_log (snd (drain_messages k e n (m # ms) w)) = w_log w @ (new @ new')"
      using False log log' by simp
    moreover have "le_id ` set (new @ new') \<subseteq> pm_ID ` set (m # ms)" using log(2) log'(2) by auto
    ultimately show ?thesis by blast
  qed
qed

text \<open>A pass as a whole: claimed rows may get a mark, the calls are for claimed messages.\<close>

lemma pass_rows:
  assumes dist: "distinct (map ob_id (outbox (w_db w)))"
    and ids: "ids = (if fault (en_plan e 0) 0 = None
      then set (claim_ids (en_clock e 0) (wk_batch k) (w_db w)) else {})"
  shows "\<exists>g new. outbox (w_db (snd (drainOnce k e w))) = map g (outbox (w_db w)) \<and>
    (\<forall>r. ob_id r \<notin> ids \<longrightarrow> g r = r) \<and> (\<forall>r. ob_id r \<in> ids \<longrightarrow> (\<exists>mk. g r = apply_mark mk (claimed_row r))) \<and>
    w_log (snd (drainOnce k e w)) = w_log w @ new \<and> le_id ` set new \<subseteq> ids"
proof (cases rule: drainOnce_cases [OF dist, of k e])
  case 1
  then show ?thesis unfolding ids by (intro exI [of _ "\<lambda>r. r"]) auto
next
  case (2 v ms)
  from drain_rows [OF 2(5), of k e 0 v] obtain g new where
    g: "outbox (w_db (snd (drainOnce k e w))) = map g (outbox (w_db v))"
      "\<And>r. g r = r \<or> (ob_id r \<in> pm_ID ` set ms \<and> (\<exists>mk. g r = apply_mark mk r))"
    and log: "w_log (snd (drainOnce k e w)) = w_log v @ new" "le_id ` set new \<subseteq> pm_ID ` set ms"
    unfolding 2(6) by blast
  let ?h = "\<lambda>r. g (if ob_id r \<in> ids then claimed_row r else r)"
  have ids': "ids = set (claim_ids (en_clock e 0) (wk_batch k) (w_db w))" using 2(1) ids by simp
  then have sub: "pm_ID ` set ms \<subseteq> ids" using 2(4) by simp
  have "outbox (w_db (snd (drainOnce k e w))) = map ?h (outbox (w_db w))"
    by (simp add: g(1) 2(3) ids' update_where_def)
  moreover have "?h r = r" if "ob_id r \<notin> ids" for r using g(2) [of r] that sub by auto
  moreover have "\<exists>mk. ?h r = apply_mark mk (claimed_row r)" if "ob_id r \<in> ids" for r
    using g(2) [of "claimed_row r"] that by (auto intro: exI [of _ Keep])
  moreover have "w_log (snd (drainOnce k e w)) = w_log w @ new" "le_id ` set new \<subseteq> ids"
    using log 2(2) sub by auto
  ultimately show ?thesis by (intro exI [of _ ?h] exI [of _ new]) simp
qed

lemma claimed_row_kept:
  assumes "worker_step w w'" and "distinct (map ob_id (outbox (w_db w)))"
    and "r \<in> set (outbox (w_db w))" and "ob_status r = ObClaimed"
  shows "r \<in> set (outbox (w_db w')) \<and> calls_of (ob_id r) (w_log w') = calls_of (ob_id r) (w_log w)"
  using assms
proof (induction rule: worker_step.induct)
  case (pass w k e)
  obtain ids where
    ids: "ids = (if fault (en_plan e 0) 0 = None then set (claim_ids (en_clock e 0) (wk_batch k) (w_db w)) else {})"
    by blast
  have out: "ob_id r \<notin> ids"
  proof
    assume "ob_id r \<in> ids"
    then have "ob_id r \<in> set (claim_ids (en_clock e 0) (wk_batch k) (w_db w))" by (simp add: ids split: if_splits)
    then obtain r' where "r' \<in> set (outbox (w_db w))" "ob_id r' = ob_id r" "due (en_clock e 0) r'"
      by (blast dest: claim_ids_due)
    moreover from this have "r' = r" using distinct_key [OF pass(1) _ pass(2)] by blast
    ultimately show False using pass(3) by (simp add: due_def)
  qed
  obtain g new where g: "outbox (w_db (snd (drainOnce k e w))) = map g (outbox (w_db w))"
    "\<And>r. ob_id r \<notin> ids \<Longrightarrow> g r = r" "w_log (snd (drainOnce k e w)) = w_log w @ new" "le_id ` set new \<subseteq> ids"
    using pass_rows [OF pass(1) ids] by blast
  have "g r = r" using g(2) out by simp
  moreover have "calls_of (ob_id r) new = []" using g(4) out by (auto simp: calls_of_def filter_empty_conv)
  moreover have "g r \<in> set (map g (outbox (w_db w)))" using pass(2) by simp
  ultimately show ?case by (simp add: g(1,3))
next
  case (queued fl now nid u ch t pl w r' d)
  with QueueTracked_outbox [OF queued(1)] show ?case by auto
qed simp

section \<open>The queue empties\<close>

text \<open>The claims a row may still see: a pass that claims a row uses up at least one.\<close>

definition claims_left :: "time \<Rightarrow> outbox_row \<Rightarrow> nat" where
  "claims_left T r = (if due T r then 5 - ob_attempts r else 0)"

definition backlog :: "time \<Rightarrow> world \<Rightarrow> nat" where
  "backlog T w = sum_list (map (claims_left T) (outbox (w_db w)))"

lemma claims_left_0: "claims_left T r = 0 \<longleftrightarrow> \<not> due T r"
  by (auto simp: claims_left_def due_def)

lemma backlog_0: "backlog T w = 0 \<longleftrightarrow> (\<forall>r \<in> set (outbox (w_db w)). \<not> due T r)"
  by (simp add: backlog_def claims_left_0)

lemma backlog_bound: "backlog T w \<le> 5 * length (outbox (w_db w))"
proof -
  have "sum_list (map (claims_left T) rs) \<le> 5 * length rs" for rs
    by (induction rs) (auto simp: claims_left_def)
  then show ?thesis by (simp add: backlog_def)
qed

lemma claims_left_claimed: "due now r \<Longrightarrow> claims_left T (apply_mark mk (claimed_row r)) \<le> claims_left T r"
  and claims_left_less: "due T r \<Longrightarrow> claims_left T (apply_mark mk (claimed_row r)) < claims_left T r"
  by (cases mk; auto simp: claims_left_def due_def failed_row_def)+

lemma sum_list_less:
  "(\<And>x. x \<in> set xs \<Longrightarrow> f x \<le> (g x :: nat)) \<Longrightarrow> \<exists>x \<in> set xs. f x < g x \<Longrightarrow>
   sum_list (map f xs) < sum_list (map g xs)"
proof (induction xs)
  case (Cons a xs)
  have "sum_list (map f xs) \<le> sum_list (map g xs)" using Cons.prems(1) by (intro sum_list_mono) auto
  with Cons show ?case by (cases "f a < g a") (auto simp: add_less_le_mono add_le_less_mono)
qed simp

lemma claim_oldest:
  assumes "r \<in> set (outbox d)" and "due T r" and "T \<le> now" and "0 < limit"
  shows "\<exists>r' \<in> set (outbox d). due T r' \<and> ob_id r' \<in> set (claim_ids now limit d)"
proof -
  let ?q = "sort_key ob_scheduled_at (filter (due now) (outbox d))"
  have r: "r \<in> set ?q" using assms by (auto simp: due_def)
  then obtain x xs where q: "?q = x # xs" by (cases ?q) auto
  have "sorted (map ob_scheduled_at ?q)" by simp
  with r q have "ob_scheduled_at x \<le> ob_scheduled_at r" by auto
  moreover have "x \<in> set ?q" unfolding q by simp
  then have "x \<in> set (outbox d)" "due now x" by auto
  moreover have "ob_id x \<in> set (claim_ids now limit d)" using assms(4) by (cases limit) (auto simp: claim_ids_def q)
  ultimately show ?thesis using assms(2) by (auto simp: due_def)
qed

lemma pass_backlog:
  assumes dist: "distinct (map ob_id (outbox (w_db w)))" and ok: "fault (en_plan e 0) 0 = None"
    and T: "T \<le> en_clock e 0" and b: "0 < wk_batch k"
  shows "backlog T (snd (drainOnce k e w)) \<le> backlog T w - 1"
proof -
  let ?ids = "set (claim_ids (en_clock e 0) (wk_batch k) (w_db w))"
  have ids: "?ids = (if fault (en_plan e 0) 0 = None then ?ids else {})" using ok by simp
  obtain g where g: "outbox (w_db (snd (drainOnce k e w))) = map g (outbox (w_db w))"
    "\<And>r. ob_id r \<notin> ?ids \<Longrightarrow> g r = r" "\<And>r. ob_id r \<in> ?ids \<Longrightarrow> \<exists>mk. g r = apply_mark mk (claimed_row r)"
    using pass_rows [OF dist ids] by blast
  have claimed_due: "due (en_clock e 0) r" if "r \<in> set (outbox (w_db w))" "ob_id r \<in> ?ids" for r
    using claim_ids_due [OF that(2)] that(1) dist by (metis distinct_key)
  have le: "claims_left T (g r) \<le> claims_left T r" if "r \<in> set (outbox (w_db w))" for r
  proof (cases "ob_id r \<in> ?ids")
    case True
    with g(3) claims_left_claimed [OF claimed_due [OF that True]] show ?thesis by metis
  qed (simp add: g(2))
  show ?thesis
  proof (cases "\<exists>r \<in> set (outbox (w_db w)). due T r")
    case True
    then obtain r where r: "r \<in> set (outbox (w_db w))" "due T r" "ob_id r \<in> ?ids"
      using claim_oldest [OF _ _ T b] by blast
    then have "claims_left T (g r) < claims_left T r" using g(3) claims_left_less by metis
    with r(1) le have "sum_list (map (\<lambda>r. claims_left T (g r)) (outbox (w_db w))) < backlog T w"
      unfolding backlog_def by (intro sum_list_less) auto
    then show ?thesis by (simp add: backlog_def g(1) comp_def)
  next
    case False
    then have "backlog T w = 0" by (simp add: backlog_0)
    moreover have "backlog T (snd (drainOnce k e w)) \<le> backlog T w"
      unfolding backlog_def g(1) using le by (simp add: sum_list_mono)
    ultimately show ?thesis by simp
  qed
qed

lemma pass_ids:
  "distinct (map ob_id (outbox (w_db w))) \<Longrightarrow>
   map ob_id (outbox (w_db (snd (drainOnce k e w)))) = map ob_id (outbox (w_db w))"
proof -
  assume d: "distinct (map ob_id (outbox (w_db w)))"
  obtain ids where
    ids: "ids = (if fault (en_plan e 0) 0 = None then set (claim_ids (en_clock e 0) (wk_batch k) (w_db w)) else {})"
    by blast
  obtain g where g: "outbox (w_db (snd (drainOnce k e w))) = map g (outbox (w_db w))"
    "\<And>r. ob_id r \<notin> ids \<Longrightarrow> g r = r" "\<And>r. ob_id r \<in> ids \<Longrightarrow> \<exists>mk. g r = apply_mark mk (claimed_row r)"
    using pass_rows [OF d ids] by blast
  have "ob_id (g r) = ob_id r" for r
    using g(2,3) [of r] by (cases "ob_id r \<in> ids") auto
  then show ?thesis by (simp add: g(1))
qed

lemma passes_backlog:
  assumes "\<forall>e \<in> set es. fault (en_plan e 0) 0 = None \<and> T \<le> en_clock e 0" and "0 < wk_batch k"
    and "distinct (map ob_id (outbox (w_db w)))"
  shows "backlog T (fold (\<lambda>e w. snd (drainOnce k e w)) es w) \<le> backlog T w - length es"
  using assms
proof (induction es arbitrary: w)
  case (Cons e es)
  let ?v = "snd (drainOnce k e w)"
  have "backlog T (fold (\<lambda>e w. snd (drainOnce k e w)) es ?v) \<le> backlog T ?v - length es"
    using Cons.prems pass_ids [OF Cons.prems(3), of k e] by (intro Cons.IH) simp_all
  moreover have "backlog T ?v \<le> backlog T w - 1" using Cons.prems by (intro pass_backlog) auto
  ultimately show ?case by simp
qed simp

section \<open>Properties\<close>



text \<open>C24: the queue empties. Whatever the providers answer and whichever of the later statements fail,
  if the claiming statement of each pass succeeds then after five passes for each stored message no
  message scheduled by the time T is waiting any more: each has been sent, superseded, given up or left
  claimed.\<close>

theorem queue_empties:
  assumes "\<forall>e \<in> set ticks. fault (en_plan e 0) 0 = None \<and> T \<le> en_clock e 0"
    and "wk_senders k \<noteq> []" and "0 < wk_batch k" and "distinct (map ob_id (outbox (w_db w)))"
    and "5 * length (outbox (w_db w)) \<le> length ticks"
  shows "\<forall>r \<in> set (outbox (w_db (Run k ticks w))). \<not> due T r"
proof -
  have "backlog T (Run k ticks w) \<le> backlog T w - length ticks"
    unfolding Run_def using passes_backlog [OF assms(1,3,4)] assms(2) by simp
  with backlog_bound [of T w] assms(5) have "backlog T (Run k ticks w) = 0" by simp
  then show ?thesis by (simp add: backlog_0)
qed

text \<open>A message queued for a member, a provider that is always busy, and quiet surroundings.\<close>

definition sample_world :: world where
  "sample_world =
     \<lparr>w_db = snd (QueueTracked no_faults 5 500 2 ''email'' ''loan_receipt'' [] sample_db), w_ops = 0, w_log = []\<rparr>"

definition busy_worker :: worker where
  "busy_worker = NewWorker [(''email'', resend_sender (\<lambda>k m. Answer 503 ''busy'' None))]"

definition push_worker :: worker where
  "push_worker = NewWorker [(''push'', fcm_sender (\<lambda>k m. NoAnswer ''offline''))]"

definition quiet :: "time \<Rightarrow> env" where
  "quiet now = \<lparr>en_plan = (\<lambda>_. no_faults), en_clock = (\<lambda>_. now), en_cancelled = (\<lambda>_. False)\<rparr>"

lemma sample_reached: "reached sample_world" "reached (Run k ticks sample_world)"
proof -
  have "reached \<lparr>w_db = sample_db, w_ops = 0, w_log = []\<rparr>" by (rule reached.start) simp_all
  from reached.step [OF this worker_step.queued [of no_faults 5 500 2 "''email''" "''loan_receipt''" "[]"]]
  show r: "reached sample_world"
    by (simp add: sample_world_def prod_eq_iff)
  have "reached (fold (\<lambda>e w. snd (drainOnce k e w)) ticks w)" if "reached w" for w
    using that by (induction ticks arbitrary: w) (auto intro: reached.step worker_step.pass)
  with r show "reached (Run k ticks sample_world)" by (simp add: Run_def)
qed

text \<open>With a provider that is always busy the message is given up after three calls.\<close>

lemma busy_run:
  "(let w = Run busy_worker (replicate 5 (quiet 6)) sample_world
    in (length (mail_calls 500 (w_log w)), map (\<lambda>r. (ob_id r, ob_status r, ob_attempts r)) (outbox (w_db w)))) =
   (3, [(500, ObFailed, 6)])"
  by code_simp


text \<open>A worker without a sender for e-mail claims the message and leaves it.\<close>

lemma stranded_row:
  "map (\<lambda>r. (ob_id r, ob_status r)) (outbox (w_db (snd (drainOnce push_worker (quiet 6) sample_world)))) =
   [(500, ObClaimed)]"
  by code_simp


theorem queue_empties_witness:
  "filter (due 6) (outbox (w_db (Run busy_worker (replicate 5 (quiet 6)) sample_world))) = []"
proof -
  have k: "wk_senders busy_worker \<noteq> []" "0 < wk_batch busy_worker"
    by (simp_all add: busy_worker_def NewWorker_def)
  have one: "map ob_id (outbox (w_db sample_world)) = [500]" by code_simp
  then have d: "distinct (map ob_id (outbox (w_db sample_world)))" by simp
  from arg_cong [OF one, of length]
  have l: "5 * length (outbox (w_db sample_world)) \<le> length (replicate 5 (quiet 6))" by simp
  have "\<forall>e \<in> set (replicate 5 (quiet 6)). fault (en_plan e 0) 0 = None \<and> 6 \<le> en_clock e 0"
    by (simp add: quiet_def)
  from queue_empties [OF this k d l] show ?thesis by (simp only: filter_empty_conv)
qed

end
