(* ===== verification/Server.thy ===== *)
theory Server
  imports Service_Frames Worker_Runs
begin

text \<open>
  The program as cmd/api/main.go puts it together: the services on one database, the endpoints behind
  the router, the hourly chores and the delivery worker beside it. The state of a server is the world
  of its authentication service (the database, the shared limiter and the fallback of that service) and
  the fallback counters of the router's throttle. A run is any sequence of requests, chores and passes,
  each with any clock and any failures; a request is one step.
\<close>

record 'l server =
  sv_world :: "'l auth_world"
  sv_network :: memory

abbreviation sv_db :: "'l server \<Rightarrow> db" where
  "sv_db s \<equiv> aw_db (sv_world s)"

record 'l deployment =
  dp_site :: site
  dp_issuer :: token_issuer
  dp_passwords :: password_lib
  dp_uuid_text :: "uuid \<Rightarrow> string"
  dp_limiter :: "string \<Rightarrow> int \<Rightarrow> duration \<Rightarrow> time \<Rightarrow> 'l \<Rightarrow> (string + bool) \<times> 'l"
  dp_CORSOrigins :: "string list"
  dp_TrustProxyHeaders :: bool
  dp_split_host :: "string \<Rightarrow> string option"
  dp_page :: "string \<Rightarrow> body reply"

text \<open>What one request brings and meets: its clock, failures, draws, ids, and those of the rows of an upload.\<close>

record arrival =
  ar_request :: request
  ar_call :: desk_call
  ar_rows :: "nat \<Rightarrow> desk_call"
  ar_session :: faults
  ar_fresh :: string

section \<open>The wiring\<close>

definition authService :: "'l deployment \<Rightarrow> 'l auth_service" where
  "authService dp = \<lparr>as_limiter = Some (dp_limiter dp), as_issuer = dp_issuer dp, as_passwords = dp_passwords dp,
     as_uuid = dp_uuid_text dp\<rparr>"

definition memberService :: "'l deployment \<Rightarrow> member_service" where
  "memberService dp = \<lparr>ms_issuer = dp_issuer dp, ms_passwords = dp_passwords dp, ms_tokens = True, ms_notifier = True\<rparr>"

definition wired :: "'l deployment \<Rightarrow> site" where
  "wired dp = (dp_site dp)\<lparr>si_members := memberService dp\<rparr>"

text \<open>A handler of the database, or of the world of the accounts, in the server.\<close>

definition on_db_of :: "('b, db) handler \<Rightarrow> ('b, 'l server) handler" where
  "on_db_of h r cx s =
     (case h r cx (sv_db s) of (rp, d) \<Rightarrow> (rp, s\<lparr>sv_world := (sv_world s)\<lparr>aw_db := d\<rparr>\<rparr>))"

definition on_world_of :: "('b, 'l auth_world) handler \<Rightarrow> ('b, 'l server) handler" where
  "on_world_of h r cx s = (case h r cx (sv_world s) of (rp, w) \<Rightarrow> (rp, s\<lparr>sv_world := w\<rparr>))"

definition public_endpoints :: "site \<Rightarrow> desk_call \<Rightarrow> (string \<times> (body, db) handler) list" where
  "public_endpoints si c =
     [(''Health'', Health si), (''Catalogue.Search'', SearchHandler si c), (''Catalogue.Get'', GetHandler si c),
      (''Catalogue.NewArrivals'', NewArrivalsHandler si c), (''Catalogue.Related'', RelatedHandler si c),
      (''Catalogue.Facets'', FacetsHandler si c), (''ResendWebhook'', ResendWebhookHandler si c)]"

definition member_endpoints :: "site \<Rightarrow> desk_call \<Rightarrow> (string \<times> (body, db) handler) list" where
  "member_endpoints si c =
     [(''Circulation.MyLoans'', MyLoansHandler si c), (''Circulation.SelfCheckout'', SelfCheckoutHandler si c),
      (''Circulation.MyHistory'', MyHistoryHandler si c), (''Reservations.List'', ListReservationsHandler si c),
      (''Reservations.Create'', CreateReservationHandler si c), (''Reservations.Cancel'', CancelReservationHandler si c),
      (''Bookmarks.List'', ListBookmarksHandler si c), (''Bookmarks.Create'', CreateBookmarkHandler si c),
      (''Bookmarks.Delete'', DeleteBookmarkHandler si c), (''SavedSearches.List'', ListSearchesHandler si c),
      (''SavedSearches.Create'', CreateSearchHandler si c), (''SavedSearches.Delete'', DeleteSearchHandler si c),
      (''Devices.Register'', RegisterDeviceHandler si c), (''Devices.Unregister'', UnregisterDeviceHandler si c)]"

definition desk_endpoints :: "site \<Rightarrow> desk_call \<Rightarrow> (nat \<Rightarrow> desk_call) \<Rightarrow> (string \<times> (body, db) handler) list" where
  "desk_endpoints si c rows =
     [(''Lookup.Lookup'', LookupHandler si c), (''Catalogue.Create'', CreateBookHandler si c),
      (''Catalogue.UpdateBook'', UpdateBookHandler si c), (''Catalogue.Archive'', ArchiveHandler si c),
      (''Catalogue.AddCopy'', AddCopyHandler si c), (''Catalogue.UpdateCopy'', UpdateCopyHandler si c),
      (''Catalogue.CopyAtDesk'', CopyAtDeskHandler si c), (''Circulation.Borrow'', BorrowHandler si c),
      (''Circulation.Return'', ReturnHandler si c), (''Circulation.List'', ListLoansHandler si c),
      (''Members.List'', ListMembersHandler si c), (''Members.Create'', CreateMemberHandler si c),
      (''Members.ImportCSV'', ImportHandler si c rows), (''Members.Get'', GetMemberHandler si c),
      (''Members.SetStatus'', SetStatusHandler si c), (''Members.SetRole'', SetRoleHandler si c),
      (''Admin.Dashboard'', DashboardHandler si c), (''Admin.Audit'', AuditHandler si c),
      (''Admin.InvitationDeliveries'', InvitationDeliveriesHandler si c),
      (''Admin.ResendInvitation'', ResendInvitationHandler si c)]"

definition account_endpoints ::
  "site \<Rightarrow> 'l auth_service \<Rightarrow> desk_call \<Rightarrow> (string \<times> (body, 'l auth_world) handler) list" where
  "account_endpoints si s c =
     [(''Auth.Login'', LoginHandler si s c), (''Auth.Refresh'', RefreshHandler si s c),
      (''Auth.ForgotPassword'', ForgotPasswordHandler si s c), (''Auth.ResetPassword'', ResetPasswordHandler si s c),
      (''Auth.Logout'', LogoutHandler si s c), (''Auth.ChangePassword'', ChangePasswordHandler si s c)]"

text \<open>The handler of each route; the root redirects to the documentation, whose pages do not change.\<close>

definition endpoint :: "'l deployment \<Rightarrow> arrival \<Rightarrow> string \<Rightarrow> (body, 'l server) handler" where
  "endpoint dp a name =
     (case map_of (account_endpoints (wired dp) (authService dp) (ar_call a)) name of
        Some h \<Rightarrow> on_world_of h
      | None \<Rightarrow>
          (case map_of (public_endpoints (wired dp) (ar_call a) @ member_endpoints (wired dp) (ar_call a) @
                  desk_endpoints (wired dp) (ar_call a) (ar_rows a)) name of
             Some h \<Rightarrow> on_db_of h
           | None \<Rightarrow> \<lambda>r cx s. (Some (if name = ''Root'' then bare 302 [(''Location'', ''/docs'')] else dp_page dp name), s)))"

text \<open>The throttle of the router: the shared limiter, and its own counters when that fails.\<close>

definition throttle :: "'l deployment \<Rightarrow> time \<Rightarrow> ('b, 'l server) handler \<Rightarrow> ('b, 'l server) handler" where
  "throttle dp now h r cx s =
     (case RateLimit (dp_limiter dp) PerIPAuth (dp_split_host dp) (dp_TrustProxyHeaders dp) now
             (\<lambda>r cx (l, m, s). case h r cx (s\<lparr>sv_world := (sv_world s)\<lparr>aw_limiter := l\<rparr>, sv_network := m\<rparr>) of
                (rp, s) \<Rightarrow> (rp, aw_limiter (sv_world s), sv_network s, s))
             r cx (aw_limiter (sv_world s), sv_network s, s) of
        (rp, l, m, s) \<Rightarrow> (rp, s\<lparr>sv_world := (sv_world s)\<lparr>aw_limiter := l\<rparr>, sv_network := m\<rparr>))"

definition router_options :: "'l deployment \<Rightarrow> arrival \<Rightarrow> (body, 'l server) options" where
  "router_options dp a =
     \<lparr>op_Issuer = dp_issuer dp, op_CORSOrigins = dp_CORSOrigins dp,
      op_SessionValid = Some (\<lambda>i t x s. SessionValid (ar_session a) i t x (sv_db s)),
      op_Throttle = throttle dp (dc_now (ar_call a))\<rparr>"

definition serve :: "'l deployment \<Rightarrow> arrival \<Rightarrow> 'l server \<Rightarrow> body reply option \<times> 'l server" where
  "serve dp a s =
     NewRouter (router_options dp a) (dc_now (ar_call a)) True (ar_fresh a) (endpoint dp a) (ar_request a) background s"

section \<open>The chores\<close>

text \<open>Reminders three days ahead, then the stale holds; each with its own clock and failures.\<close>

definition work :: "desk_call \<Rightarrow> desk_call \<Rightarrow> db \<Rightarrow> db" where
  "work c e d =
     best_effort (ExpireStaleService (ExpireStale (dc_plan e 0) (dc_now e))
       (snd (NotifyDueSoon (ListLoans (dc_plan c 0) (dc_now c)) (\<lambda>k. outbox_notify c (Suc k)) (dc_now c)
          (3 * 24 * hour) d)))"

section \<open>Runs of a server\<close>

definition with_db :: "db \<Rightarrow> 'l server \<Rightarrow> 'l server" where
  "with_db d s = s\<lparr>sv_world := (sv_world s)\<lparr>aw_db := d\<rparr>\<rparr>"

inductive server_step :: "'l deployment \<Rightarrow> 'l server \<Rightarrow> 'l server \<Rightarrow> bool" for dp where
  request: "server_step dp s (snd (serve dp a s))"
| chores: "server_step dp s (with_db (work c e (sv_db s)) s)"
| delivery: "w_db w = sv_db s \<Longrightarrow> server_step dp s (with_db (w_db (snd (drainOnce k en w))) s)"

inductive server_run :: "'l deployment \<Rightarrow> 'l server \<Rightarrow> 'l server \<Rightarrow> bool" for dp where
  here: "server_run dp s s"
| further: "server_run dp s s' \<Longrightarrow> server_step dp s' s'' \<Longrightarrow> server_run dp s s''"


section \<open>What a request keeps within\<close>

definition serving :: "(db \<Rightarrow> db \<Rightarrow> bool) \<Rightarrow> 'l server \<Rightarrow> 'l server \<Rightarrow> bool" where
  "serving R s s' \<longleftrightarrow> R (sv_db s) (sv_db s')"

sublocale account_change \<subseteq> server: change "serving R"
  by unfold_locales (auto simp: serving_def refl intro: trans)

context account_change
begin

lemma on_db_within: "(\<And>r cx. within R (h r cx)) \<Longrightarrow> within (serving R) (on_db_of h r cx)"
  by (auto simp: within_def serving_def on_db_of_def split: prod.splits) (metis snd_conv)

lemma on_world_within: "(\<And>r cx. within (stored R) (h r cx)) \<Longrightarrow> within (serving R) (on_world_of h r cx)"
  by (auto simp: within_def serving_def stored_def on_world_of_def split: prod.splits) (metis snd_conv)

lemma throttle_within:
  assumes "\<And>r cx. within (serving R) (h r cx)"
  shows "within (serving R) (throttle dp now h r cx)"
proof (rule withinI)
  fix s
  have "R (sv_db s) (sv_db s')" if "h r cx (s\<lparr>sv_world := (sv_world s)\<lparr>aw_limiter := l\<rparr>, sv_network := m\<rparr>) = (rp, s')" for l m rp s'
    using withinD [OF assms, of "s\<lparr>sv_world := (sv_world s)\<lparr>aw_limiter := l\<rparr>, sv_network := m\<rparr>" r cx] that
    by (simp add: serving_def)
  then show "serving R s (snd (throttle dp now h r cx s))"
    by (auto simp: throttle_def RateLimit_def serving_def Let_def refl split: prod.splits sum.splits if_splits)
qed

lemma authenticate_within:
  "(\<And>r cx. within (serving R) (h r cx)) \<Longrightarrow> within (serving R) (Authenticate i now v h r cx)"
  unfolding Authenticate_def [abs_def] Let_def by (intro server.flow_within server.answers)

lemma require_within:
  "(\<And>r cx. within (serving R) (h r cx)) \<Longrightarrow> within (serving R) (require g h r cx)"
  unfolding require_def RequireMember_def [abs_def] RequireLibrarian_def [abs_def] RequireAdmin_def [abs_def]
  by (cases g) (auto intro!: server.flow_within server.answers)

lemma guarded_within:
  assumes "op_Throttle opts = throttle dp now" and "\<And>r cx. within (serving R) (h r cx)"
  shows "within (serving R) (guarded opts now g h r cx)"
proof (cases "g = Public \<or> g = Throttled")
  case True
  then show ?thesis by (auto simp: guarded_def Let_def assms(1) intro!: assms(2) throttle_within)
next
  case False
  then have "guarded opts now g h = Authenticate (op_Issuer opts) now (op_SessionValid opts) (require g h)"
    by (simp add: guarded_require)
  then show ?thesis by (simp only:) (intro authenticate_within require_within assms(2))
qed

lemma open_endpoints_within:
  "(n, h) \<in> set (account_endpoints si s c) \<Longrightarrow> within (stored R) (h r cx)"
  "(n, k) \<in> set (public_endpoints si c) \<Longrightarrow> within R (k r cx)"
  "(n, k) \<in> set (member_endpoints si c) \<Longrightarrow> within R (k r cx)"
  by (auto simp: account_endpoints_def public_endpoints_def member_endpoints_def
      intro: auth_handlers read_handlers webhook_within member_handlers)

lemma endpoint_within:
  assumes "\<And>n h r cx. (n, h) \<in> set (desk_endpoints (wired dp) (ar_call a) (ar_rows a)) \<Longrightarrow> n = name \<Longrightarrow> within R (h r cx)"
  shows "within (serving R) (endpoint dp a name r cx)"
  unfolding endpoint_def
  by (auto split: option.splits dest!: map_of_SomeD intro!: on_db_within on_world_within server.pure
      intro: open_endpoints_within assms)

lemma mux_within:
  assumes "op_Throttle opts = throttle dp now"
    and "\<And>x r cx. x \<in> set (routes webhook) \<Longrightarrow> within (serving R) (ep (rt_Endpoint x) r cx)"
  shows "within (serving R) (mux opts now webhook ep r cx)"
proof (cases "select_route (routes webhook) r")
  case (Inl n)
  then show ?thesis by (simp add: mux_def [abs_def] server.pure)
next
  case (Inr x)
  then have "x \<in> set (routes webhook)" by (rule select_route_Inr)
  with Inr show ?thesis
    by (simp add: mux_def [abs_def]) (intro guarded_within [OF assms(1)] assms(2))
qed

end

text \<open>The outer middleware changes replies, not the state.\<close>

lemma outer_state:
  "snd (add_headers hs x) = snd x" "snd (Recover h r cx s) = snd (h r cx s)"
  by (simp_all add: add_headers_def Recover_def split: prod.splits option.splits)

lemma router_state:
  "snd (NewRouter opts now webhook fresh ep r cx s) =
   (if rq_Method r = ''OPTIONS'' then s
    else snd (mux opts now webhook ep r
      (cx\<lparr>cx_RequestID := (if header_of r ''X-Request-Id'' = [] then fresh else header_of r ''X-Request-Id'')\<rparr>) s))"
  by (simp add: NewRouter_def WithRequestID_def CORS_def SecurityHeaders_def outer_state Let_def)

lemma server_sound: "serving keeps_sound s (snd (serve dp a s))"
proof -
  have "within (serving keeps_sound) (endpoint dp a n r cx)" for n r cx
    by (rule sound_accounts.endpoint_within)
      (auto simp: desk_endpoints_def intro: sound_staff_handlers sound_accounts.read_handlers)
  then have "within (serving keeps_sound) (mux (router_options dp a) (dc_now (ar_call a)) True (endpoint dp a) r cx)" for r cx
    by (intro sound_accounts.mux_within [where dp = dp]) (simp_all add: router_options_def)
  from withinD [OF this] show ?thesis by (simp add: serve_def router_state sound_accounts.server.refl)
qed


section \<open>What runs beside the requests\<close>

definition mailed :: "world \<Rightarrow> world \<Rightarrow> bool" where
  "mailed w w' \<longleftrightarrow> same_library (w_db w) (w_db w')"

interpretation mailing: change mailed
  by unfold_locales (auto simp: mailed_def intro: same_library_trans)

lemma mailed_on_db: "(\<And>fl now d. same_library d (snd (f fl now d))) \<Longrightarrow> mailed w (snd (on_db e f w))"
  by (simp add: mailed_def on_db_world)

lemma mailed_on_db': "(\<And>fl now d. same_library d (snd (f fl now d))) \<Longrightarrow> on_db e f w = (r, w') \<Longrightarrow> mailed w w'"
  using mailed_on_db [of f w e] by simp

text \<open>Each operation of the worker, after whatever came before.\<close>

lemma marks_mailed:
  assumes "mailed v w"
  shows "mailed v (recordFailure e m cause w)" "mailed v (supersede e m why w)" "mailed v (mark_sent e m w)"
    "mailed v (snd (on_db e (\<lambda>fl now. RevokeDeviceToken fl now t) w))"
    "mailed v (snd (on_db e (\<lambda>fl now. UpdateProviderID fl now i pid) w))"
  by (auto simp: recordFailure_def supersede_def mark_sent_def
      intro!: mailing.trans [OF assms] mailed_on_db MarkSuperseded_same MarkFailed_same MarkSent_same devices_same
        InvitationMark_same)

lemma call_mailed: "mailed v w \<Longrightarrow> mailed v (snd (call_sender s i ch x w))"
  by (simp add: call_sender_def mailed_def Let_def)

lemma push_all_mailed: "mailed v w \<Longrightarrow> mailed v (snd (snd (push_all e s m ts n err w)))"
proof (induction ts arbitrary: n err w)
  case (Cons t ts)
  obtain r u where call: "call_sender s (pm_ID m) (pm_Channel m) (message_to t m) w = (r, u)" by fastforce
  with call_mailed [OF Cons.prems, of s "pm_ID m" "pm_Channel m" "message_to t m"] have "mailed v u" by simp
  with call show ?case by (cases r) (auto intro: Cons.IH marks_mailed)
qed simp

lemma deliverPush_mailed: "mailed v w \<Longrightarrow> mailed v (deliverPush e s m w)"
proof -
  assume v: "mailed v w"
  obtain r u where read: "on_db e (\<lambda>fl now d. (DeviceTokens fl (pm_UserID m) d, d)) w = (r, u)" by fastforce
  have "mailed w u" by (rule mailed_on_db' [OF _ read]) simp
  with v have u: "mailed v u" by (rule mailing.trans)
  have "mailed v u'" if "push_all e s m ts 0 None u = (n, le, u')" for ts n le u'
    using push_all_mailed [OF u, of e s m ts 0 None] that by simp
  with u read show ?thesis
    by (auto simp: deliverPush_def split: sum.splits prod.splits option.splits intro: marks_mailed)
qed

lemma deliver_email_mailed: "mailed v w \<Longrightarrow> mailed v (deliver_email e s m w)"
proof -
  assume v: "mailed v w"
  obtain q u where call: "call_sender s (pm_ID m) (pm_Channel m) (message_to (pm_Email m) m) w = (q, u)" by fastforce
  with call_mailed [OF v, of s "pm_ID m" "pm_Channel m" "message_to (pm_Email m) m"] have "mailed v u" by simp
  with v call show ?thesis
    by (cases q) (auto simp: deliver_email_def intro: marks_mailed)
qed

lemma deliver_mailed: "mailed v w \<Longrightarrow> mailed v (deliver k e m w)"
proof -
  assume v: "mailed v w"
  obtain r u where read: "on_db e (\<lambda>fl now d. (StillRelevant fl (pm_Template m) (pm_Payload m) d, d)) w = (r, u)" by fastforce
  have "mailed w u" by (rule mailed_on_db' [OF _ read]) simp
  with v have "mailed v u" by (rule mailing.trans)
  with read show ?thesis
    by (auto simp: deliver_def split: sum.splits option.splits intro: marks_mailed deliverPush_mailed deliver_email_mailed)
qed

lemma drain_messages_mailed: "mailed v w \<Longrightarrow> mailed v (snd (drain_messages k e n ms w))"
  by (induction ms arbitrary: n w) (auto intro: deliver_mailed)

lemma drainOnce_mailed: "mailed w (snd (drainOnce k e w))"
proof -
  obtain r v where p: "on_db e (\<lambda>fl now. Pending fl now (wk_batch k)) (w\<lparr>w_ops := 0\<rparr>) = (r, v)" by fastforce
  have "mailed (w\<lparr>w_ops := 0\<rparr>) v" by (rule mailed_on_db' [OF _ p]) (rule Pending_same)
  then have "mailed w v" by (simp add: mailed_def)
  then have "mailed w u" if "drain_messages k e 0 ms v = (n, u)" for ms n u
    using drain_messages_mailed [of w v k e 0 ms] that by simp
  with \<open>mailed w v\<close> p show ?thesis
    by (cases r) (auto simp: drainOnce_def split: prod.splits)
qed

context account_change
begin

lemma work_within: "(\<And>fl now. within R (ExpireStale fl now)) \<Longrightarrow> R d (work c e d)"
  unfolding work_def ExpireStaleService_def best_effort_def
  by (rule trans, rule withinD, rule reminders_within, rule notify_within, rule withinD)

end

lemma server_step_keeps:
  "server_step dp s s' \<Longrightarrow> serving keeps_sound s s'"
proof (induction rule: server_step.induct)
  case (request s a)
  show ?case by (rule server_sound)
next
  case (chores s c e)
  show ?case
    using sound_accounts.work_within [OF ExpireStale_sound, of "sv_db s" c e]
    by (simp add: serving_def with_db_def)
next
  case (delivery w s k en)
  then show ?case using drainOnce_mailed [of w k en]
    by (simp add: serving_def with_db_def mailed_def) (metis same_keeps(1))
qed


section \<open>Properties\<close>

lemma server_run_sound: "server_run dp s s' \<Longrightarrow> books_inv (sv_db s) \<Longrightarrow> books_inv (sv_db s')"
proof (induction rule: server_run.induct)
  case (further s s' s'')
  then show ?case using server_step_keeps [OF further.hyps(2)] by (simp add: serving_def keeps_sound_def)
qed


lemma staff_lists: "fst ` set (desk_endpoints si c rows) = set staff_endpoints"
  by (simp add: desk_endpoints_def staff_endpoints_def)

lemma others_keep_records:
  assumes "name \<notin> set staff_endpoints"
  shows "within (serving keeps_records) (endpoint dp a name r cx)"
proof (rule records_accounts.endpoint_within)
  fix n h r cx assume "(n, h) \<in> set (desk_endpoints (wired dp) (ar_call a) (ar_rows a))" "n = name"
  then have "name \<in> set staff_endpoints" using staff_lists by (metis fst_conv image_eqI)
  with assms show "within keeps_records (h r cx)" by simp
qed



definition reading :: "string list" where
  "reading = [''Health'', ''Root'', ''Docs'', ''Spec'', ''Catalogue.Search'', ''Catalogue.Get'', ''Catalogue.NewArrivals'',
     ''Catalogue.Related'', ''Catalogue.Facets'', ''Circulation.MyLoans'', ''Circulation.MyHistory'', ''Reservations.List'',
     ''Bookmarks.List'', ''SavedSearches.List'', ''Lookup.Lookup'', ''Catalogue.CopyAtDesk'', ''Circulation.List'',
     ''Members.List'', ''Members.Get'', ''Admin.Dashboard'', ''Admin.Audit'', ''Admin.InvitationDeliveries'']"

lemma get_routes: "list_all (\<lambda>x. rt_Method x = ''GET'' \<longrightarrow> rt_Endpoint x \<in> set reading \<and> rt_Guard x \<noteq> Throttled) (routes webhook)"
  by (simp add: routes_def route_of_def reading_def)

lemma on_db_same: "within (=) (h r cx) \<Longrightarrow> snd (on_db_of h r cx s) = s"
  using withinD [of "(=)" "h r cx" "sv_db s"] by (auto simp: on_db_of_def split: prod.splits)

lemma reading_within:
  "(n, h) \<in> set (public_endpoints si c @ member_endpoints si c @ desk_endpoints si c rows) \<Longrightarrow> n \<in> set reading \<Longrightarrow>
   within (=) (h r cx)"
  unfolding public_endpoints_def member_endpoints_def desk_endpoints_def reading_def
  by (auto intro: nothing_read.read_handlers)

lemma reading_no_account: "n \<in> set reading \<Longrightarrow> map_of (account_endpoints si s c) n = None"
  by (auto simp: reading_def account_endpoints_def)

lemma reading_same:
  assumes n: "n \<in> set reading"
  shows "snd (endpoint dp a n r cx s) = s"
proof (cases "map_of (public_endpoints (wired dp) (ar_call a) @ member_endpoints (wired dp) (ar_call a) @
    desk_endpoints (wired dp) (ar_call a) (ar_rows a)) n")
  case None
  show ?thesis unfolding endpoint_def reading_no_account [OF n] None by simp
next
  case (Some h)
  have "within (=) (h r cx)" by (rule reading_within [OF map_of_SomeD [OF Some] n])
  then have "snd (on_db_of h r cx s) = s" by (rule on_db_same)
  then show ?thesis unfolding endpoint_def reading_no_account [OF n] Some by simp
qed

lemma guarded_same:
  assumes "g \<noteq> Throttled" and "\<And>r cx. snd (h r cx s) = s"
  shows "snd (guarded opts now g h r cx s) = s"
  using assms
  by (cases g)
    (auto simp: guarded_def Authenticate_def RequireMember_def RequireLibrarian_def RequireAdmin_def refuse_def Let_def
      split: option.splits)

text \<open>C37: to read is to change nothing. A GET, HEAD or OPTIONS request, whatever its path, headers and body,
  leaves the server as it was: the database, the sessions and the counters of the limiters.\<close>

theorem reads_change_nothing:
  assumes "rq_Method (ar_request a) \<in> {''GET'', ''HEAD'', ''OPTIONS''}"
  shows "snd (serve dp a s) = s"
proof (cases "rq_Method (ar_request a) = ''OPTIONS''")
  case True
  then show ?thesis by (simp add: serve_def router_state)
next
  case False
  let ?r = "ar_request a"
  have "snd (mux (router_options dp a) now True (endpoint dp a) ?r cx s) = s" for now cx
  proof (cases "select_route (routes True) ?r")
    case (Inl n)
    then show ?thesis by (simp add: mux_def)
  next
    case (Inr x)
    from select_route_Inr [OF Inr] get_routes [of True]
    have x: "rt_Method x = ''GET'' \<longrightarrow> rt_Endpoint x \<in> set reading \<and> rt_Guard x \<noteq> Throttled" by (simp add: list_all_iff)
    have "method_match (rt_Method x) (rq_Method ?r)"
      using Inr by (auto simp: select_route_def Let_def split: option.splits if_splits dest!: first_by_Some)
    then have "rt_Method x = rq_Method ?r \<or> rt_Method x = ''GET''" by (auto simp: method_match_def)
    moreover have "rt_Method x \<in> {''GET'', ''POST'', ''PATCH'', ''DELETE''}"
      using select_route_Inr [OF Inr] by (auto simp: routes_def route_of_def)
    ultimately have "rt_Method x = ''GET''" using assms False by auto
    with x Inr show ?thesis by (simp add: mux_def guarded_same reading_same)
  qed
  with False show ?thesis by (simp add: serve_def router_state)
qed


section \<open>A member's own records\<close>

text \<open>The loans, bookmarks and stored queries of the other accounts.\<close>

definition others_of :: "uuid \<Rightarrow> db \<Rightarrow> loan_row list \<times> bookmark list \<times> saved_search_row list" where
  "others_of u d = (filter (\<lambda>l. loan_user l \<noteq> u) (loans d), filter (\<lambda>m. bm_user m \<noteq> u) (bookmarks d),
     filter (\<lambda>s. ss_user s \<noteq> u) (saved_searches d))"

definition keeps_others :: "uuid \<Rightarrow> db \<Rightarrow> db \<Rightarrow> bool" where
  "keeps_others u d d' \<longleftrightarrow> others_of u d' = others_of u d"

interpretation others: db_change "keeps_others u" for u
  by unfold_locales (simp_all add: keeps_others_def)

text \<open>What a reply to the account may depend on: its own rows, the catalogue and the queues.\<close>

definition alike :: "uuid \<Rightarrow> db \<Rightarrow> db \<Rightarrow> bool" where
  "alike u d d' \<longleftrightarrow> books d' = books d \<and> copies d' = copies d \<and> reservations d' = reservations d \<and>
     find_user_row u d' = find_user_row u d \<and>
     filter (\<lambda>l. loan_user l = u) (loans d') = filter (\<lambda>l. loan_user l = u) (loans d) \<and>
     filter (\<lambda>m. bm_user m = u) (bookmarks d') = filter (\<lambda>m. bm_user m = u) (bookmarks d) \<and>
     filter (\<lambda>s. ss_user s = u) (saved_searches d') = filter (\<lambda>s. ss_user s = u) (saved_searches d)"

lemma map_filter_filter:
  "(\<And>x y. x \<in> set xs \<Longrightarrow> f x = Some y \<Longrightarrow> P y = Q x) \<Longrightarrow> filter P (List.map_filter f xs) = List.map_filter f (filter Q xs)"
  by (induction xs) (auto simp: List.map_filter_simps split: option.splits)

lemma map_filter_cong: "(\<And>x. x \<in> set xs \<Longrightarrow> f x = g x) \<Longrightarrow> List.map_filter f xs = List.map_filter g xs"
  by (induction xs) (auto simp: List.map_filter_simps split: option.splits)

lemma alike_rows:
  assumes "alike u d d'"
  shows "find_book_row i d' = find_book_row i d" "find_copy_row i d' = find_copy_row i d"
    "find_user_row u d' = find_user_row u d" "scanBook co d' = scanBook co d" "queue_position d' (q :: reservation_row) = queue_position d q"
    "filter (\<lambda>m. bm_user m = u) (bookmarks d') = filter (\<lambda>m. bm_user m = u) (bookmarks d)"
  using assms by (simp_all add: alike_def find_book_row_def find_copy_row_def scanBook_def availability_of_def
      queue_position_def fun_eq_iff)

lemma loans_alike: "alike u d d' \<Longrightarrow> LoansForUser fl u op d' = LoansForUser fl u op d"
proof -
  assume like: "alike u d d'"
  have own: "filter (\<lambda>l. loan_user l = u \<and> (op \<longrightarrow> loan_returned_at l = None)) (List.map_filter (loan_view e) (loans e)) =
      List.map_filter (loan_view e) (filter (\<lambda>l. op \<longrightarrow> loan_returned_at l = None) (filter (\<lambda>l. loan_user l = u) (loans e)))" for e
    unfolding filter_filter by (rule map_filter_filter) (auto simp: loan_view_def split: option.splits)
  have view: "loan_view d' l = loan_view d l" if "loan_user l = u" for l
    unfolding loan_view_def that alike_rows [OF like] ..
  have "List.map_filter (loan_view d') ls = List.map_filter (loan_view d) ls" if "\<forall>l \<in> set ls. loan_user l = u" for ls
    by (rule map_filter_cong) (use that view in auto)
  then show ?thesis using like unfolding LoansForUser_def own by (simp add: alike_def)
qed

lemma lists_alike:
  assumes "alike u d d'"
  shows "ListForUser fl u d' = ListForUser fl u d" "ListBookmarks co fl u limit offset d' = ListBookmarks co fl u limit offset d"
    "ListSearches fl u d' = ListSearches fl u d"
proof -
  have own: "count_where (\<lambda>m. bm_user m = u) (bookmarks d') = count_where (\<lambda>m. bm_user m = u) (bookmarks d)"
    using alike_rows(6) [OF assms] by (simp add: count_where_def)
  note rows = alike_rows [OF assms]
  show "ListBookmarks co fl u limit offset d' = ListBookmarks co fl u limit offset d"
    unfolding ListBookmarks_def own rows ..
  have "reservations d' = reservations d" using assms by (simp add: alike_def)
  then show "ListForUser fl u d' = ListForUser fl u d" unfolding ListForUser_def rows by simp
  show "ListSearches fl u d' = ListSearches fl u d" using assms by (simp add: alike_def ListSearches_def)
qed


definition my_lists :: "string list" where
  "my_lists = [''Circulation.MyLoans'', ''Circulation.MyHistory'', ''Reservations.List'', ''Bookmarks.List'', ''SavedSearches.List'']"

lemma fst_respond: "fst (respond ok (x, s)) = fst (respond ok (x, s'))"
  by (simp add: respond_def refuse_def split: sum.splits)

lemma lists_reply:
  assumes "alike u d d'" and "cx_UserID cx = Some u" and "(n, h) \<in> set (member_endpoints si c)" and "n \<in> set my_lists"
  shows "fst (h r cx d') = fst (h r cx d)"
proof -
  note same = loans_alike [OF assms(1)] lists_alike [OF assms(1)]
  have "fst (MyLoansHandler si c r cx d') = fst (MyLoansHandler si c r cx d)"
    "fst (MyHistoryHandler si c r cx d') = fst (MyHistoryHandler si c r cx d)"
    "fst (ListReservationsHandler si c r cx d') = fst (ListReservationsHandler si c r cx d)"
    "fst (ListSearchesHandler si c r cx d') = fst (ListSearchesHandler si c r cx d)"
    "fst (ListBookmarksHandler si c r cx d') = fst (ListBookmarksHandler si c r cx d)"
    using assms(2)
    by (simp_all add: MyLoansHandler_def MyHistoryHandler_def ListReservationsHandler_def ListSearchesHandler_def
        ListBookmarksHandler_def with_user_def MyLoans_def MyHistory_def ListSearchesService_def same fst_respond
        split: prod.splits)
  with assms(3,4) show ?thesis by (auto simp: member_endpoints_def my_lists_def)
qed

lemma QueueTracked_others:
  "QueueTracked_tx fl now nid u ch t pl d = Inr (x, d') \<Longrightarrow> keeps_others v d d'"
  by (auto simp: QueueTracked_tx_def insert_message_def CreateForOutbox_def andthen_Inr keeps_others_def others_of_def Let_def
      split: if_splits option.splits sum.splits)

lemma stores_others:
  "within (keeps_others v) (outbox_notify c k u ch t pl)" "within (keeps_others v) (Create fl now nid b u)"
  "within (keeps_others v) (Cancel fl i u)" "within (keeps_others v) (PromoteNext fl now b hold)"
  "within (keeps_others v) (RegisterDevice fl now u token platform)"
  "within (keeps_others v) (RevokeOwnDeviceToken fl now u token)"
proof -
  show "within (keeps_others v) (outbox_notify c k u ch t pl)"
    unfolding outbox_notify_def Queue_def
    by (rule withinI) (auto simp: QueueTracked_def transact_def others.refl dest!: QueueTracked_others split: sum.splits prod.splits)
  show "within (keeps_others v) (Create fl now nid b u)" "within (keeps_others v) (Cancel fl i u)"
    unfolding Create_def Cancel_def
    by (rule others.transact_within; auto simp: Create_tx_def Cancel_tx_def andthen_Inr insert_reservation_def keeps_others_def
        others_of_def Let_def split: if_splits sum.splits prod.splits option.splits)+
  show "within (keeps_others v) (PromoteNext fl now b hold)"
    unfolding PromoteNext_def
    by (rule others.transact_within) (auto simp: keeps_others_def others_of_def split: option.splits)
  show "within (keeps_others v) (RegisterDevice fl now u token platform)"
    "within (keeps_others v) (RevokeOwnDeviceToken fl now u token)"
    unfolding RegisterDevice_def RevokeOwnDeviceToken_def
    by (rule others.transact_within; auto simp: Let_def andthen_Inr keeps_others_def others_of_def split: if_splits option.splits)+
qed

lemma own_dropped:
  "filter (\<lambda>x. (ss_id x = i \<longrightarrow> ss_user x \<noteq> v) \<and> ss_user x \<noteq> v) xs = filter (\<lambda>x. ss_user x \<noteq> v) xs"
  by (rule filter_cong) auto

lemma own_stores:
  "bp_user p = v \<Longrightarrow> within (keeps_others v) (borrow fl now nid p self)"
  "within (keeps_others v) (AddBookmark fl now nid v b)" "within (keeps_others v) (RemoveBookmark fl v b)"
  "within (keeps_others v) (CreateSearch fl now nid v name query limit)" "within (keeps_others v) (DeleteSearch fl now i v)"
proof -
  show "within (keeps_others v) (borrow fl now nid p self)" if v: "bp_user p = v"
    unfolding borrow_def
  proof (rule others.transact_within)
    fix d l d' assume "borrow_tx fl now nid p self d = Inr (l, d')"
    then obtain rid where "borrow_claimed fl now nid p self rid d = Inr (l, d')" by (rule borrow_tx_Inr)
    then obtain a where "d' = lent p rid l a d" and "loan_user l = v"
      by (rule borrow_claimed_Inr) (auto elim!: insert_loan_Inr simp: v)
    then show "keeps_others v d d'" by (simp add: keeps_others_def others_of_def lent_def loan_row_of_def)
  qed
  show "within (keeps_others v) (AddBookmark fl now nid v b)" "within (keeps_others v) (RemoveBookmark fl v b)"
    unfolding AddBookmark_def RemoveBookmark_def
    by (rule others.transact_within; auto simp: Let_def keeps_others_def others_of_def bookmark_of_def
        intro!: filter_cong split: if_splits option.splits)+
  show "within (keeps_others v) (CreateSearch fl now nid v name query limit)"
    unfolding CreateSearch_def
    by (rule others.transact_within) (auto simp: CreateSearch_tx_def andthen_Inr Let_def keeps_others_def others_of_def
        elim!: recordAudit_InrE split: if_splits option.splits)
  show "within (keeps_others v) (DeleteSearch fl now i v)"
    unfolding DeleteSearch_def
    by (rule others.transact_within) (auto simp: DeleteSearch_tx_def andthen_Inr keeps_others_def others_of_def
        own_dropped elim!: recordAudit_InrE split: if_splits)
qed

lemma own_services:
  "within (keeps_others v) (self_borrow c b v)" "within (keeps_others v) (reserve c b v)" "within (keeps_others v) (cancel c i v)"
  unfolding self_borrow_def SelfCheckout_def reserve_def Reserve_def [abs_def] cancel_def
  by (intro others.checkout_service_within others.cancel_service_within stores_others own_stores; simp add: loan_request_def)+

lemma own_handlers:
  assumes "cx_UserID cx = Some v" and "(n, h) \<in> set (member_endpoints si c)"
  shows "within (keeps_others v) (h r cx)"
proof -
  have user: "with_user cx f = f v" for f :: "uuid \<Rightarrow> db \<Rightarrow> body reply option \<times> db"
    using assms(1) by (simp add: with_user_def [abs_def])
  have "within (keeps_others v) (SelfCheckoutHandler si c r cx)" "within (keeps_others v) (CreateReservationHandler si c r cx)"
    "within (keeps_others v) (CancelReservationHandler si c r cx)" "within (keeps_others v) (CreateBookmarkHandler si c r cx)"
    "within (keeps_others v) (DeleteBookmarkHandler si c r cx)" "within (keeps_others v) (CreateSearchHandler si c r cx)"
    "within (keeps_others v) (DeleteSearchHandler si c r cx)" "within (keeps_others v) (RegisterDeviceHandler si c r cx)"
    "within (keeps_others v) (UnregisterDeviceHandler si c r cx)"
    unfolding SelfCheckoutHandler_def CreateReservationHandler_def CancelReservationHandler_def CreateBookmarkHandler_def
      DeleteBookmarkHandler_def CreateSearchHandler_def DeleteSearchHandler_def RegisterDeviceHandler_def
      UnregisterDeviceHandler_def user SaveBookmark_def [abs_def] UnsaveBookmark_def [abs_def]
      CreateSearchService_def [abs_def] DeleteSearchService_def [abs_def] Let_def
    by (intro others.step_within others.flow_within own_services own_stores stores_others)+
  with assms(2) show ?thesis by (auto simp: member_endpoints_def intro: others.read_handlers)
qed


lemma on_db_of_sel:
  "fst (on_db_of h r cx s) = fst (h r cx (sv_db s))" "sv_db (snd (on_db_of h r cx s)) = snd (h r cx (sv_db s))"
  by (simp_all add: on_db_of_def split: prod.splits)

lemma member_endpoint:
  assumes "name \<in> set (map fst (member_endpoints (wired dp) (ar_call a)))"
  obtains h where "(name, h) \<in> set (member_endpoints (wired dp) (ar_call a))" and "endpoint dp a name = on_db_of h"
proof -
  have none: "map_of (account_endpoints (wired dp) (authService dp) (ar_call a)) name = None"
    "map_of (public_endpoints (wired dp) (ar_call a)) name = None"
    using assms by (auto simp: member_endpoints_def account_endpoints_def public_endpoints_def)
  from assms obtain h where h: "map_of (member_endpoints (wired dp) (ar_call a)) name = Some h"
    by (metis (no_types, lifting) map_of_eq_None_iff not_None_eq list.set_map)
  then have "endpoint dp a name = on_db_of h" by (simp add: endpoint_def none map_add_def)
  with map_of_SomeD [OF h] that show thesis by blast
qed

text \<open>C3: members keep to themselves. In the name of an account, the endpoints of a member change no loan, no
  bookmark and no stored query of anybody else, whatever the request says and whatever fails; and what
  the lists under /me reply depends on nobody else's: two servers that agree on the catalogue, on the
  queues and on the account's own rows give the same reply.\<close>

theorem members_keep_to_themselves:
  assumes "name \<in> set (map fst (member_endpoints (wired dp) (ar_call a)))" and "cx_UserID cx = Some u"
  shows "others_of u (sv_db (snd (endpoint dp a name r cx s))) = others_of u (sv_db s) \<and>
    (name \<in> set my_lists \<and> alike u (sv_db s) (sv_db s') \<longrightarrow>
       fst (endpoint dp a name r cx s') = fst (endpoint dp a name r cx s))"
  using assms(1)
proof (rule member_endpoint)
  fix h assume h: "(name, h) \<in> set (member_endpoints (wired dp) (ar_call a))" and e: "endpoint dp a name = on_db_of h"
  have "keeps_others u (sv_db s) (snd (h r cx (sv_db s)))" using own_handlers [OF assms(2) h] by (rule withinD)
  moreover have "fst (h r cx (sv_db s')) = fst (h r cx (sv_db s))" if "name \<in> set my_lists" "alike u (sv_db s) (sv_db s')"
    using lists_reply [OF that(2) assms(2) h that(1)] .
  ultimately show ?thesis unfolding e
    by (auto simp: on_db_of_sel keeps_others_def)
qed


section \<open>A server\<close>

definition sample_site :: site where
  "sample_site =
     \<lparr>si_json = (\<lambda>_. Inl ''EOF''), si_repair = (\<lambda>s. s), si_complain = (\<lambda>_. ''unreadable''),
      si_uuid = (\<lambda>s. if s = ''10'' then Some 10 else None), si_driver_text = (\<lambda>_. ''driver''),
      si_collate = (\<lambda>s. s), si_text = sample_text_search, si_year = (\<lambda>_. 2025), si_members = sample_members,
      si_audit_id = (\<lambda>k. k), si_hostname = (\<lambda>s. s), si_ask = (\<lambda>_. Unreachable ''offline''), si_catalogue = ''openlibrary.org'',
      si_webhook_secret = [], si_base64_decode = Some, si_base64_encode = (\<lambda>s. s), si_hmac = (\<lambda>k m. m),
      si_rfc3339 = (\<lambda>_. None), si_ping = None\<rparr>"

text \<open>The token ''abc'' is the librarian's.\<close>

definition sample_deployment :: "memory deployment" where
  "sample_deployment =
     \<lparr>dp_site = sample_site, dp_issuer = op_Issuer sample_options, dp_passwords = sample_lib, dp_uuid_text = decimal,
      dp_limiter = (\<lambda>k n wd now l. case Memory_Allow k n wd now l of (ok, l) \<Rightarrow> (Inr ok, l)),
      dp_CORSOrigins = [], dp_TrustProxyHeaders = False, dp_split_host = Some, dp_page = (\<lambda>_. bare 200 [])\<rparr>"

definition sample_server :: "memory server" where
  "sample_server =
     \<lparr>sv_world = \<lparr>aw_db = sample_db, aw_limiter = (\<lambda>_. None), aw_fallback = (\<lambda>_. None)\<rparr>, sv_network = (\<lambda>_. None)\<rparr>"

definition arrival_of :: "string \<Rightarrow> string \<Rightarrow> arrival" where
  "arrival_of method path =
     \<lparr>ar_request = (http_request path)\<lparr>rq_Method := method\<rparr>, ar_call = sample_desk, ar_rows = (\<lambda>_. sample_desk),
      ar_session = no_faults, ar_fresh = ''1''\<rparr>"


abbreviation sample_archive :: arrival where
  "sample_archive \<equiv> arrival_of ''POST'' ''/api/v1/books/10/archive''"

lemma sample_archive_route:
  "select_route (routes True) (ar_request sample_archive) =
   Inr (route_of ''POST'' (api [''books'', wild, ''archive'']) Staff ''Catalogue.Archive'')"
  by code_simp

lemma sample_archive_endpoint:
  "endpoint sample_deployment a ''Catalogue.Archive'' = on_db_of (ArchiveHandler (wired sample_deployment) (ar_call a))"
  by (simp add: endpoint_def account_endpoints_def public_endpoints_def member_endpoints_def desk_endpoints_def)

lemma sample_fields:
  "dp_issuer sample_deployment = op_Issuer sample_options" "si_uuid (wired sample_deployment) ''10'' = Some 10"
  "sv_db sample_server = sample_db" "dc_now sample_desk = 9" "dc_plan sample_desk k = no_faults"
  by (simp_all add: sample_deployment_def wired_def sample_site_def sample_server_def sample_desk_def)

lemma sample_archived:
  "books (sv_db (snd (serve sample_deployment sample_archive sample_server))) =
   (sample_book 10 ''Algorithms'' [])\<lparr>book_status := BookArchived, book_updated_at := 9\<rparr> # tl (books sample_db)"
proof -
  have "(case parse_role ''librarian'' of None \<Rightarrow> True | Some x \<Rightarrow> \<not> CanManageLibrary x) = False" by code_simp
  moreover have "path_value (route_of ''POST'' (api [''books'', wild, ''archive'']) Staff ''Catalogue.Archive'')
      (ar_request sample_archive) = ''10''" by code_simp
  moreover have "tokens_invalid_before (sample_user 1 ''LIB/1'' RoleLibrarian None) = 0" by (simp add: sample_user_def)
  moreover have "respond ok (ArchiveService (ArchiveBook no_faults 9) 10 1 sample_db) = (Some (ok ()), sample_db
      \<lparr>books := (sample_book 10 ''Algorithms'' [])\<lparr>book_status := BookArchived, book_updated_at := 9\<rparr> # tl (books sample_db),
       audit_log := [audit_line 1 ''BOOK_ARCHIVED'' ''book'' 10 [] 9]\<rparr>)" for ok :: "unit \<Rightarrow> body reply"
    by (simp add: respond_def ArchiveService_def ArchiveBook_def ArchiveBook_tx_def transact_def recordAudit_def
        find_user_row_def update_where_def count_where_def sample_book_def del: One_nat_def)
  moreover note sample_archive_route
  ultimately show ?thesis
    by (simp add: serve_def router_state mux_def route_of_def guarded_def Let_def Authenticate_def router_options_def
        sample_archive_endpoint sample_fields sample_options_def arrival_of_def http_request_def
        header_of_def cut_prefix_def has_prefix_def ParseAccessToken_def SessionValid_def find_user_row_def
        RequireLibrarian_def on_db_of_sel ArchiveHandler_def pathUUID_def with_uuid_def actor_of_def del: One_nat_def)
qed


lemma sample_records: "records_of (sv_db (snd (serve sample_deployment sample_archive sample_server))) \<noteq> records_of (sv_db sample_server)"
proof
  assume "records_of (sv_db (snd (serve sample_deployment sample_archive sample_server))) = records_of (sv_db sample_server)"
  then have "hd (books (sv_db (snd (serve sample_deployment sample_archive sample_server)))) = hd (books sample_db)"
    by (simp add: records_of_def sample_fields)
  then have "book_status (hd (books (sv_db (snd (serve sample_deployment sample_archive sample_server))))) = BookActive"
    by (simp only:) (simp add: sample_book_def)
  then show False unfolding sample_archived by simp
qed



theorem reads_change_nothing_witness:
  "rq_Method (ar_request (arrival_of ''GET'' ''/api/v1/loans'')) = ''GET'' \<and>
   snd (serve sample_deployment (arrival_of ''GET'' ''/api/v1/loans'') sample_server) = sample_server"
proof -
  have m: "rq_Method (ar_request (arrival_of ''GET'' ''/api/v1/loans'')) = ''GET''" by (simp add: arrival_of_def)
  then have "rq_Method (ar_request (arrival_of ''GET'' ''/api/v1/loans'')) \<in> {''GET'', ''HEAD'', ''OPTIONS''}" by simp
  from m reads_change_nothing [OF this] show ?thesis by simp
qed

definition other_loans :: "memory server" where
  "other_loans = with_db (sample_db\<lparr>loans := []\<rparr>) sample_server"

theorem members_keep_to_themselves_witness:
  "sv_db other_loans \<noteq> sample_db \<and>
   fst (endpoint sample_deployment sample_archive ''Circulation.MyLoans'' (http_request ''/api/v1/me/loans'')
          (background\<lparr>cx_UserID := Some 2\<rparr>) other_loans) =
   fst (endpoint sample_deployment sample_archive ''Circulation.MyLoans'' (http_request ''/api/v1/me/loans'')
          (background\<lparr>cx_UserID := Some 2\<rparr>) sample_server)"
proof -
  have like: "alike 2 (sv_db sample_server) (sv_db other_loans)"
    by (simp add: alike_def other_loans_def with_db_def sample_fields find_user_row_def sample_loan_def)

  have name: "''Circulation.MyLoans'' \<in> set (map fst (member_endpoints (wired sample_deployment) (ar_call sample_archive)))"
    by (simp add: member_endpoints_def)
  have user: "cx_UserID (background\<lparr>cx_UserID := Some 2\<rparr>) = Some 2" by simp
  have list: "''Circulation.MyLoans'' \<in> set my_lists" by (simp add: my_lists_def)
  have "loans (sv_db other_loans) \<noteq> loans sample_db" by (simp add: other_loans_def with_db_def)
  then have "sv_db other_loans \<noteq> sample_db" by metis
  with members_keep_to_themselves [OF name user, of "http_request ''/api/v1/me/loans''" sample_server other_loans] list like
  show ?thesis by simp
qed


text \<open>An error of a new member that is none of the rules comes back in its own words: what the database
  driver says about a statement is shown to the caller as a validation message.\<close>

theorem driver_text_is_shown:
  assumes "decode (si_json si) member_struct r = Inr fs"
    and "create_as (si_members si) c (cx_Role cx) (actor_of cx) (new_member_of (si_repair si) fs) d = (Inl (ErrDriver p), d')"
  shows "CreateMemberHandler si c r cx d = (Some (ValidationError (si_driver_text si p)), d') \<and>
    FromError (ErrDriver p) = (internal_error :: body reply)"
  using assms FromError_other [of "ErrDriver p"]
  by (simp add: CreateMemberHandler_def with_body_def isKnownDomainError_def invalid_def)

end
