(* ===== verification/Migrate.thy ===== *)
theory Migrate
  imports Prelude Domain
begin

text \<open>
  The schema migrations (internal/migrate): which files there are and in which order, what Apply runs
  and records, and what Pending reports. The statements of a file are not under this model: running
  them is a parameter, a function from the text of a file and the database to an error or the new
  database. Each file runs in its own transaction, so a failure gives the database back as it was.
  The ledger is the table schema_migrations; its name column is the primary key.
\<close>

section \<open>The files\<close>

record migration =
  m_Name :: string
  m_SQL :: string
  m_Checksum :: string
  m_Seed :: bool

record entry =
  en_Name :: string
  en_IsDir :: bool
  en_Body :: "error + string"

fun contains :: "string \<Rightarrow> string \<Rightarrow> bool" where
  "contains [] p = (p = [])"
| "contains (c # s) p = (has_prefix (c # s) p \<or> contains s p)"

definition has_suffix :: "string \<Rightarrow> string \<Rightarrow> bool" where
  "has_suffix s p \<longleftrightarrow> has_prefix (rev s) (rev p)"

definition migration_of :: "(string \<Rightarrow> string) \<Rightarrow> entry \<Rightarrow> string \<Rightarrow> migration" where
  "migration_of sha256_hex e body =
     \<lparr>m_Name = en_Name e, m_SQL = body, m_Checksum = sha256_hex body, m_Seed = contains (en_Name e) ''seed''\<rparr>"

fun read_files :: "(string \<Rightarrow> string) \<Rightarrow> entry list \<Rightarrow> error + migration list" where
  "read_files sha256_hex [] = Inr []"
| "read_files sha256_hex (e # es) =
     (if en_IsDir e \<or> \<not> has_suffix (en_Name e) ''.sql'' then read_files sha256_hex es
      else case en_Body e of
        Inl err \<Rightarrow> Inl err
      | Inr body \<Rightarrow> (case read_files sha256_hex es of
          Inl err \<Rightarrow> Inl err | Inr ms \<Rightarrow> Inr (migration_of sha256_hex e body # ms)))"

definition Load :: "(string \<Rightarrow> string) \<Rightarrow> (error + entry list) \<Rightarrow> error + migration list" where
  "Load sha256_hex dir =
     (case dir of
        Inl e \<Rightarrow> Inl e
      | Inr es \<Rightarrow> (case read_files sha256_hex es of
          Inl e \<Rightarrow> Inl e | Inr ms \<Rightarrow> Inr (sort_key m_Name ms)))"

section \<open>The database\<close>

record 's store =
  st_data :: 's
  st_ledger :: "(string \<times> string) list option"

text \<open>
  What the driver does on a run. Reading the ledger ends after the last row, or early: without a word
  (the driver keeps that error for rows.Err, which nothing asks for), or in the scan of a row.
\<close>

datatype read = Whole | Cut nat | Broken nat error

record driver =
  dr_ledger :: "error option"
  dr_query :: "error option"
  dr_read :: read
  dr_begin :: "string \<Rightarrow> error option"
  dr_insert :: "string \<Rightarrow> error option"
  dr_commit :: "string \<Rightarrow> error option"

definition ensure_ledger :: "driver \<Rightarrow> 's store \<Rightarrow> (error + unit) \<times> 's store" where
  "ensure_ledger dr st =
     (case dr_ledger dr of
        Some e \<Rightarrow> (Inl e, st)
      | None \<Rightarrow> (Inr (), st\<lparr>st_ledger := Some (case st_ledger st of None \<Rightarrow> [] | Some l \<Rightarrow> l)\<rparr>))"

definition ledger_rows :: "'s store \<Rightarrow> (string \<times> string) list" where
  "ledger_rows st = (case st_ledger st of None \<Rightarrow> [] | Some l \<Rightarrow> l)"

definition read_ledger :: "driver \<Rightarrow> 's store \<Rightarrow> error + (string \<times> string) list" where
  "read_ledger dr st =
     (case dr_query dr of
        Some e \<Rightarrow> Inl e
      | None \<Rightarrow> (case dr_read dr of
          Whole \<Rightarrow> Inr (ledger_rows st)
        | Cut n \<Rightarrow> Inr (take n (ledger_rows st))
        | Broken n e \<Rightarrow> if n < length (ledger_rows st) then Inl e else Inr (ledger_rows st)))"

definition DuplicateName :: error where
  "DuplicateName = ErrText ''duplicate key value violates unique constraint''"

text \<open>One file, in its own transaction: the statements, the ledger's row, the commit.\<close>

definition run_migration ::
  "(string \<Rightarrow> 's \<Rightarrow> error + 's) \<Rightarrow> driver \<Rightarrow> migration \<Rightarrow> 's store \<Rightarrow> (error + unit) \<times> 's store" where
  "run_migration exec dr m st =
     (case dr_begin dr (m_Name m) of
        Some e \<Rightarrow> (Inl e, st)
      | None \<Rightarrow> (case exec (m_SQL m) (st_data st) of
          Inl e \<Rightarrow> (Inl (ErrWrap (''applying '' @ m_Name m @ '': '') e), st)
        | Inr s \<Rightarrow>
            if m_Name m \<in> set (map fst (ledger_rows st)) then (Inl DuplicateName, st)
            else (case dr_insert dr (m_Name m) of
              Some e \<Rightarrow> (Inl e, st)
            | None \<Rightarrow> (case dr_commit dr (m_Name m) of
                Some e \<Rightarrow> (Inl e, st)
              | None \<Rightarrow> (Inr (), st\<lparr>st_data := s,
                  st_ledger := Some (ledger_rows st @ [(m_Name m, m_Checksum m)])\<rparr>)))))"

section \<open>Applying and reporting\<close>

definition changed_error :: "string \<Rightarrow> error" where
  "changed_error name = ErrText (name @ '' was already applied but its contents have changed; add a new migration instead of editing an applied one'')"

text \<open>The loop over the files: what went wrong, if anything did, and the names that ran.\<close>

fun apply_all ::
  "(string \<Rightarrow> 's \<Rightarrow> error + 's) \<Rightarrow> driver \<Rightarrow> bool \<Rightarrow> (string \<times> string) list \<Rightarrow> migration list \<Rightarrow> 's store
   \<Rightarrow> error option \<times> string list \<times> 's store" where
  "apply_all exec dr includeSeeds applied [] st = (None, [], st)"
| "apply_all exec dr includeSeeds applied (m # ms) st =
     (case map_of applied (m_Name m) of
        Some chk \<Rightarrow> if chk \<noteq> m_Checksum m then (Some (changed_error (m_Name m)), [], st)
                    else apply_all exec dr includeSeeds applied ms st
      | None \<Rightarrow>
          if m_Seed m \<and> \<not> includeSeeds then apply_all exec dr includeSeeds applied ms st
          else (case run_migration exec dr m st of
            (Inl e, st) \<Rightarrow> (Some e, [], st)
          | (Inr _, st) \<Rightarrow> (case apply_all exec dr includeSeeds applied ms st of
              (err, names, st) \<Rightarrow> (err, m_Name m # names, st))))"

definition Apply ::
  "(string \<Rightarrow> 's \<Rightarrow> error + 's) \<Rightarrow> driver \<Rightarrow> (error + migration list) \<Rightarrow> bool \<Rightarrow> 's store
   \<Rightarrow> error option \<times> string list \<times> 's store" where
  "Apply exec dr loaded includeSeeds st =
     (case ensure_ledger dr st of
        (Inl e, st) \<Rightarrow> (Some (ErrWrap ''creating the migration ledger: '' e), [], st)
      | (Inr _, st) \<Rightarrow> (case read_ledger dr st of
          Inl e \<Rightarrow> (Some e, [], st)
        | Inr applied \<Rightarrow> (case loaded of
            Inl e \<Rightarrow> (Some e, [], st)
          | Inr ms \<Rightarrow> apply_all exec dr includeSeeds applied ms st)))"

definition Pending_migrations ::
  "driver \<Rightarrow> (error + migration list) \<Rightarrow> bool \<Rightarrow> 's store \<Rightarrow> (error + string list) \<times> 's store" where
  "Pending_migrations dr loaded includeSeeds st =
     (case ensure_ledger dr st of
        (Inl e, st) \<Rightarrow> (Inl e, st)
      | (Inr _, st) \<Rightarrow> (case read_ledger dr st of
          Inl e \<Rightarrow> (Inl e, st)
        | Inr applied \<Rightarrow> (case loaded of
            Inl e \<Rightarrow> (Inl e, st)
          | Inr ms \<Rightarrow> (Inr (map m_Name (filter (\<lambda>m. \<not> (m_Name m \<in> set (map fst applied) \<or> (m_Seed m \<and> \<not> includeSeeds))) ms)), st))))"

section \<open>What a run does\<close>

text \<open>The files a run has to do, and doing them one after the other.\<close>

definition todo :: "bool \<Rightarrow> string set \<Rightarrow> migration list \<Rightarrow> migration list" where
  "todo includeSeeds done ms = filter (\<lambda>m. m_Name m \<notin> done \<and> (m_Seed m \<longrightarrow> includeSeeds)) ms"

fun exec_all :: "(string \<Rightarrow> 's \<Rightarrow> error + 's) \<Rightarrow> migration list \<Rightarrow> 's \<Rightarrow> 's option" where
  "exec_all exec [] s = Some s"
| "exec_all exec (m # ms) s = (case exec (m_SQL m) s of Inl e \<Rightarrow> None | Inr s \<Rightarrow> exec_all exec ms s)"

definition ledger_row :: "migration \<Rightarrow> string \<times> string" where
  "ledger_row m = (m_Name m, m_Checksum m)"

lemma ensure_ledger_cases:
  obtains e where "ensure_ledger dr st = (Inl e, st)"
  | st0 where "ensure_ledger dr st = (Inr (), st0)" "st_data st0 = st_data st" "ledger_rows st0 = ledger_rows st"
      "st_ledger st0 = Some (ledger_rows st)" "dr_ledger dr = None"
proof (cases "dr_ledger dr")
  case None
  show thesis
    by (rule that(2) [of "st\<lparr>st_ledger := Some (ledger_rows st)\<rparr>"]) (simp_all add: ensure_ledger_def ledger_rows_def None)
qed (simp add: ensure_ledger_def that(1))

lemma run_migration_Inr:
  assumes "run_migration exec dr m st = (Inr u, st')"
  shows "exec (m_SQL m) (st_data st) = Inr (st_data st')"
    and "ledger_rows st' = ledger_rows st @ [ledger_row m]"
    and "m_Name m \<notin> set (map fst (ledger_rows st))"
  using assms by (auto simp: run_migration_def ledger_rows_def ledger_row_def split: option.splits sum.splits if_splits)

lemma run_migration_Inl: "run_migration exec dr m st = (Inl e, st') \<Longrightarrow> st' = st"
  by (auto simp: run_migration_def split: option.splits sum.splits if_splits)

lemma todo_Cons:
  "todo inc done (m # ms) =
   (if m_Name m \<notin> done \<and> (m_Seed m \<longrightarrow> inc) then m # todo inc done ms else todo inc done ms)"
  by (simp add: todo_def)

lemma apply_all_spec:
  "apply_all exec dr inc applied ms st = (err, names, st') \<Longrightarrow>
   \<exists>run. run = take (length names) (todo inc (set (map fst applied)) ms) \<and> names = map m_Name run \<and>
     ledger_rows st' = ledger_rows st @ map ledger_row run \<and>
     exec_all exec run (st_data st) = Some (st_data st') \<and>
     (err = None \<longrightarrow> run = todo inc (set (map fst applied)) ms \<and>
        (\<forall>m \<in> set ms. map_of applied (m_Name m) \<in> {None, Some (m_Checksum m)}))"
proof (induction ms arbitrary: st names)
  case Nil
  then show ?case by (simp add: todo_def)
next
  case (Cons m ms)
  note spec = Cons.prems
  show ?case
  proof (cases "map_of applied (m_Name m)")
    case (Some chk)
    then have seen: "m_Name m \<in> fst ` set applied" by (metis domI dom_map_of_conv_image_fst)
    show ?thesis
    proof (cases "chk = m_Checksum m")
      case True
      with spec Some have "apply_all exec dr inc applied ms st = (err, names, st')" by simp
      from Cons.IH [OF this] Some True seen show ?thesis by (simp add: todo_Cons)
    next
      case False
      with spec Some show ?thesis by auto
    qed
  next
    case None
    then have new: "m_Name m \<notin> fst ` set applied" by (simp add: map_of_eq_None_iff)
    show ?thesis
    proof (cases "m_Seed m \<and> \<not> inc")
      case True
      with spec None have "apply_all exec dr inc applied ms st = (err, names, st')" by simp
      from Cons.IH [OF this] None True show ?thesis by (simp add: todo_Cons)
    next
      case False
      show ?thesis
      proof (cases "run_migration exec dr m st")
        case (Pair r st1)
        show ?thesis
        proof (cases r)
          case (Inl e)
          with Pair have "st1 = st" by (auto dest: run_migration_Inl)
          with spec None False Pair Inl show ?thesis by auto
        next
          case (Inr u)
          obtain names' where rest: "apply_all exec dr inc applied ms st1 = (err, names', st')" and names: "names = m_Name m # names'"
            using spec None False Pair Inr by (auto split: prod.splits)
          note step = run_migration_Inr [of exec dr m st u st1]
          from Cons.IH [OF rest] step Pair Inr None False new names show ?thesis
            by (auto simp: todo_Cons ledger_row_def)
        qed
      qed
    qed
  qed
qed

lemma apply_all_distinct:
  "apply_all exec dr inc applied ms st = (err, names, st') \<Longrightarrow>
   distinct (map fst (ledger_rows st)) \<Longrightarrow> distinct (map fst (ledger_rows st'))"
proof (induction ms arbitrary: st names)
  case (Cons m ms)
  have step: "distinct (map fst (ledger_rows st1))" if "run_migration exec dr m st = (r, st1)" for r st1
  proof (cases r)
    case (Inl e)
    with that Cons.prems(2) show ?thesis by (auto dest: run_migration_Inl)
  next
    case (Inr u)
    with run_migration_Inr [of exec dr m st u st1] that Cons.prems(2) show ?thesis by (simp add: ledger_row_def)
  qed
  from Cons.prems(1) show ?case
    using Cons.prems(2)
    by (auto split: option.splits sum.splits if_splits prod.splits intro: Cons.IH step)
qed simp

lemma run_migration_ledger:
  "run_migration exec dr m st = (r, st1) \<Longrightarrow> \<exists>l. st_ledger st = Some l \<Longrightarrow> \<exists>l. st_ledger st1 = Some l"
  by (auto simp: run_migration_def split: option.splits sum.splits if_splits)

lemma apply_all_ledger:
  "apply_all exec dr inc applied ms st = (err, names, st') \<Longrightarrow> \<exists>l. st_ledger st = Some l \<Longrightarrow> \<exists>l. st_ledger st' = Some l"
proof (induction ms arbitrary: st names)
  case (Cons m ms)
  then show ?case
    by (simp split: option.splits sum.splits if_splits prod.splits) (blast dest: run_migration_ledger)+
qed simp


text \<open>A small history: one file applied, one to come, and demonstration data nobody asked for.\<close>

definition sample_files :: "entry list" where
  "sample_files = [\<lparr>en_Name = ''0003_seed.sql'', en_IsDir = False, en_Body = Inr ''demo''\<rparr>,
     \<lparr>en_Name = ''0002_b.sql'', en_IsDir = False, en_Body = Inr ''b''\<rparr>,
     \<lparr>en_Name = ''notes.txt'', en_IsDir = False, en_Body = Inr ''text''\<rparr>,
     \<lparr>en_Name = ''0001_a.sql'', en_IsDir = False, en_Body = Inr ''a''\<rparr>]"

definition sample_migrations :: "migration list" where
  "sample_migrations =
     [\<lparr>m_Name = ''0001_a.sql'', m_SQL = ''a'', m_Checksum = ''#a'', m_Seed = False\<rparr>,
      \<lparr>m_Name = ''0002_b.sql'', m_SQL = ''b'', m_Checksum = ''#b'', m_Seed = False\<rparr>,
      \<lparr>m_Name = ''0003_seed.sql'', m_SQL = ''demo'', m_Checksum = ''#demo'', m_Seed = True\<rparr>]"

definition sample_store :: "string store" where
  "sample_store = \<lparr>st_data = ''a'', st_ledger = Some [(''0001_a.sql'', ''#a'')]\<rparr>"

definition good_driver :: driver where
  "good_driver = \<lparr>dr_ledger = None, dr_query = None, dr_read = Whole, dr_begin = (\<lambda>_. None),
     dr_insert = (\<lambda>_. None), dr_commit = (\<lambda>_. None)\<rparr>"

lemma sample_load: "Load (\<lambda>s. CHR ''#'' # s) (Inr sample_files) = Inr sample_migrations"
  by (simp add: Load_def sample_files_def sample_migrations_def migration_of_def has_suffix_def has_prefix_def)

lemma sample_apply:
  "Apply (\<lambda>sql s. Inr (s @ sql)) good_driver (Inr sample_migrations) False sample_store =
   (None, [''0002_b.sql''], \<lparr>st_data = ''ab'', st_ledger = Some [(''0001_a.sql'', ''#a''), (''0002_b.sql'', ''#b'')]\<rparr>)"
  by (simp add: Apply_def ensure_ledger_def good_driver_def sample_store_def read_ledger_def ledger_rows_def
      sample_migrations_def run_migration_def)


lemma apply_all_nothing:
  "\<forall>m \<in> set ms. map_of applied (m_Name m) = Some (m_Checksum m) \<or>
     (map_of applied (m_Name m) = None \<and> m_Seed m \<and> \<not> inc) \<Longrightarrow> apply_all exec dr inc applied ms st = (None, [], st)"
  by (induction ms) auto

lemma map_of_rows:
  assumes "distinct (map m_Name ms)" and "m \<in> set ms"
  shows "map_of (map ledger_row ms) (m_Name m) = Some (m_Checksum m)"
  using assms by (induction ms) (auto simp: ledger_row_def image_iff)

lemma todo_distinct: "distinct (map m_Name ms) \<Longrightarrow> distinct (map m_Name (todo inc d ms))"
  unfolding todo_def by (rule distinct_map_filter)



end
