(* ===== verification/Providers.thy ===== *)
theory Providers
  imports Requests Worker
begin

text \<open>
  What leaves the program (internal/notify): the request made of each provider for a message, and the
  line the console writes instead of one. The HTTP exchange is a parameter, a function from the number
  of the call and the request to what came back. The members of a JSON object are written sorted.
\<close>

record http_request =
  hr_URL :: string
  hr_Authorization :: string
  hr_Body :: json

definition json_text :: "string \<Rightarrow> json" where
  "json_text s = Str (utf8_valid s) s"

section \<open>Resend\<close>

record resend =
  re_apiKey :: string
  re_from :: string

definition Resend_Configured :: "resend \<Rightarrow> bool" where
  "Resend_Configured r \<longleftrightarrow> re_apiKey r \<noteq> []"

definition Resend_payload :: "resend \<Rightarrow> string \<Rightarrow> rendered \<Rightarrow> json" where
  "Resend_payload r address rd =
     Obj ([(''from'', json_text (re_from r))] @
          (if rd_HTML rd \<noteq> [] then [(''html'', json_text (rd_HTML rd))] else []) @
          [(''subject'', json_text (rd_Subject rd)), (''text'', json_text (rd_Body rd)),
           (''to'', Arr [json_text address])])"

definition Resend_request :: "resend \<Rightarrow> formats \<Rightarrow> string \<Rightarrow> out_message \<Rightarrow> http_request" where
  "Resend_request r fm frontend m =
     \<lparr>hr_URL = ''https://api.resend.com/emails'', hr_Authorization = ''Bearer '' @ re_apiKey r,
      hr_Body = Resend_payload r (om_To m) (Render fm frontend m)\<rparr>"

definition SendWithResult ::
  "(nat \<Rightarrow> http_request \<Rightarrow> http_answer) \<Rightarrow> resend \<Rightarrow> formats \<Rightarrow> string \<Rightarrow> sender" where
  "SendWithResult http r fm frontend k m = ResendResult (http k (Resend_request r fm frontend m))"

section \<open>Firebase\<close>

text \<open>
  The token function gives an access token at each call, or says why it cannot; the program builds the
  sender only when it has one.
\<close>

record fcm =
  fc_projectID :: string
  fc_token :: "nat \<Rightarrow> string + string"

definition FCM_Configured :: "fcm \<Rightarrow> bool" where
  "FCM_Configured f \<longleftrightarrow> fc_projectID f \<noteq> []"

text \<open>
  fmt.Sprint of a payload value: ids and instants were written as text when the message was queued;
  a whole number comes back as floating point, which is written out in full below a million. How the
  other values are written is a parameter.
\<close>

definition sprint :: "formats \<Rightarrow> (jval \<Rightarrow> string) \<Rightarrow> jval \<Rightarrow> string" where
  "sprint fm other v =
     (case text_value fm v of
        Some s \<Rightarrow> s
      | None \<Rightarrow> (case v of
          JBool b \<Rightarrow> if b then ''true'' else ''false''
        | JInt n \<Rightarrow> if \<bar>n\<bar> < 10 ^ 6 then decimal_int n else other v
        | _ \<Rightarrow> other v))"

definition FCM_data :: "formats \<Rightarrow> (jval \<Rightarrow> string) \<Rightarrow> out_message \<Rightarrow> (string \<times> string) list" where
  "FCM_data fm other m =
     (let given = map (\<lambda>(k, v). (k, sprint fm other v)) (filter (\<lambda>(k, v). v \<noteq> JNull) (om_Payload m))
      in sort_key fst ((if ''template'' \<in> set (map fst given) then [] else [(''template'', om_Template m)]) @ given))"

definition FCM_payload :: "string \<Rightarrow> rendered \<Rightarrow> (string \<times> string) list \<Rightarrow> json" where
  "FCM_payload device rd data =
     Obj [(''message'', Obj
       [(''data'', Obj (map (\<lambda>(k, s). (k, json_text s)) data)),
        (''notification'', Obj [(''body'', json_text (firstLine (rd_Body rd))), (''title'', json_text (rd_Subject rd))]),
        (''token'', json_text device)])]"

definition FCM_request ::
  "fcm \<Rightarrow> formats \<Rightarrow> (jval \<Rightarrow> string) \<Rightarrow> string \<Rightarrow> string \<Rightarrow> out_message \<Rightarrow> http_request" where
  "FCM_request f fm other frontend accessToken m =
     \<lparr>hr_URL = ''https://fcm.googleapis.com/v1/projects/'' @ fc_projectID f @ ''/messages:send'',
      hr_Authorization = ''Bearer '' @ accessToken,
      hr_Body = FCM_payload (om_To m) (Render fm frontend m) (FCM_data fm other m)\<rparr>"

text \<open>The address is made of the project's name, and the URL parser may refuse it.\<close>

definition FCM_Send ::
  "(nat \<Rightarrow> http_request \<Rightarrow> http_answer) \<Rightarrow> (string \<Rightarrow> string option) \<Rightarrow> fcm \<Rightarrow> formats \<Rightarrow> (jval \<Rightarrow> string) \<Rightarrow>
   string \<Rightarrow> nat \<Rightarrow> out_message \<Rightarrow> send_error + unit" where
  "FCM_Send http bad_url f fm other frontend k m =
     (case fc_token f k of
        Inl e \<Rightarrow> Inl (SendError False (''obtaining an FCM access token: '' @ e))
      | Inr accessToken \<Rightarrow>
          let q = FCM_request f fm other frontend accessToken m in
          case bad_url (hr_URL q) of
            Some e \<Rightarrow> Inl (SendError False e)
          | None \<Rightarrow> FCMResult (http k q))"

section \<open>The console\<close>

record console_line =
  co_channel :: string
  co_to :: string
  co_template :: string
  co_subject :: string

definition Console_Send :: "string \<Rightarrow> formats \<Rightarrow> string \<Rightarrow> out_message \<Rightarrow> console_line" where
  "Console_Send channel fm frontend m =
     \<lparr>co_channel = channel, co_to = om_To m, co_template = om_Template m,
      co_subject = rd_Subject (Render fm frontend m)\<rparr>"

text \<open>The senders of the worker: both providers through their exchange, and the console, which cannot fail.\<close>

datatype provider = ResendProvider resend | FCMProvider fcm | ConsoleProvider string

definition Channel :: "provider \<Rightarrow> string" where
  "Channel p = (case p of ResendProvider _ \<Rightarrow> ''email'' | FCMProvider _ \<Rightarrow> ''push'' | ConsoleProvider c \<Rightarrow> c)"

record transport =
  tr_http :: "nat \<Rightarrow> http_request \<Rightarrow> http_answer"
  tr_bad_url :: "string \<Rightarrow> string option"
  tr_formats :: formats
  tr_other :: "jval \<Rightarrow> string"
  tr_frontend :: string

definition Send :: "transport \<Rightarrow> provider \<Rightarrow> sender" where
  "Send tr p k m =
     (case p of
        ResendProvider r \<Rightarrow> SendWithResult (tr_http tr) r (tr_formats tr) (tr_frontend tr) k m
      | FCMProvider f \<Rightarrow>
          (case FCM_Send (tr_http tr) (tr_bad_url tr) f (tr_formats tr) (tr_other tr) (tr_frontend tr) k m of
             Inl e \<Rightarrow> Inl e | Inr _ \<Rightarrow> Inr [])
      | ConsoleProvider c \<Rightarrow> Inr [])"

definition senders_of :: "transport \<Rightarrow> provider list \<Rightarrow> (string \<times> sender) list" where
  "senders_of tr ps = map (\<lambda>p. (Channel p, Send tr p)) ps"

section \<open>Secrets stay out of the log\<close>

lemma valueOr_cong: "map_of p k = map_of q k \<Longrightarrow> valueOr f p k d = valueOr f q k d"
  by (simp add: valueOr_def)

lemma lagos_cong: "map_of p k = map_of q k \<Longrightarrow> lagos f p k = lagos f q k"
  by (simp add: lagos_def valueOr_def)

text \<open>The subject of a message is made of its title and dates only.\<close>

lemma fixed_subjects:
  "rd_Subject (render_account_setup n l) = rd_Subject (render_account_setup n [])"
  "rd_Subject (render_password_reset n l t) = rd_Subject (render_password_reset n [] [])"
  by (simp_all only: render_account_setup_def render_password_reset_def rendered.simps)

lemma subject_without_token:
  assumes "\<And>k. k \<noteq> ''token'' \<Longrightarrow> map_of p k = map_of q k"
  shows "rd_Subject (Render fm frontend (m\<lparr>om_Payload := p\<rparr>)) = rd_Subject (Render fm frontend (m\<lparr>om_Payload := q\<rparr>))"
proof -
  have same: "valueOr fm p k d = valueOr fm q k d" "lagos fm p k = lagos fm q k" if "k \<noteq> ''token''" for k d
    by (rule valueOr_cong lagos_cong, rule assms [OF that])+
  have keys: "''full_name'' \<noteq> ''token''" "''title'' \<noteq> ''token''" "''due_at'' \<noteq> ''token''" "''expires_at'' \<noteq> ''token''"
    by simp_all
  obtain a n t x where m: "m = \<lparr>om_To = a, om_Name = n, om_Template = t, om_Payload = x\<rparr>" by (cases m)
  have "m\<lparr>om_Payload := z\<rparr> = \<lparr>om_To = a, om_Name = n, om_Template = t, om_Payload = z\<rparr>" for z
    by (simp add: m)
  note upd = this
  show ?thesis
    unfolding upd Render_def Let_def if_distrib [of rd_Subject] out_message.simps same [OF keys(1)] same [OF keys(2)]
      same [OF keys(3)] same [OF keys(4)]
      fixed_subjects(1) [of _ "reset_link frontend l" for l] fixed_subjects(2) [of _ "reset_link frontend l" l for l]
    by (rule refl)
qed

text \<open>The console never prints a secret. Two messages that differ only in the token they carry (a
  reset or setup link that works) write the same line to the log.\<close>

theorem console_hides_the_token:
  assumes "\<And>k. k \<noteq> ''token'' \<Longrightarrow> map_of p k = map_of q k"
  shows "Console_Send channel fm frontend (m\<lparr>om_Payload := p\<rparr>) = Console_Send channel fm frontend (m\<lparr>om_Payload := q\<rparr>)"
  using subject_without_token [OF assms, of fm frontend m] by (simp add: Console_Send_def)

section \<open>A push\<close>

lemma split_on_parts: "l \<in> set (split_on c s) \<Longrightarrow> c \<notin> set l"
  by (induction c s arbitrary: l rule: split_on.induct) (auto split: if_splits list.splits)

lemma firstLine_line: "CHR 0x0A \<notin> set (firstLine body) \<and> firstLine body \<noteq> [] \<and> \<not> has_prefix (firstLine body) ''Dear ''"
proof (cases "find (\<lambda>line. line \<noteq> [] \<and> \<not> has_prefix line ''Dear '') (map trim_space (split_on (CHR 0x0A) body))")
  case None
  then show ?thesis by (simp add: firstLine_def has_prefix_def)
next
  case (Some l)
  from find_SomeD [OF Some] obtain r where "r \<in> set (split_on (CHR 0x0A) body)" "l = trim_space r" by auto
  with split_on_parts [of r "CHR 0x0A" body] set_trim_space [of r] have "CHR 0x0A \<notin> set l" by blast
  with find_SomeD [OF Some] Some show ?thesis by (simp add: firstLine_def)
qed

lemma distinct_sorted: "distinct (map fst (sort_key f xs)) = distinct (map fst xs)"
  by (simp add: distinct_map)

lemma distinct_data: "distinct (map fst (om_Payload m)) \<Longrightarrow> distinct (map fst (FCM_data fm other m))"
proof -
  assume "distinct (map fst (om_Payload m))"
  then have "distinct (map fst (filter (\<lambda>(k, v). v \<noteq> JNull) (om_Payload m)))" by (rule distinct_map_filter)
  then show ?thesis by (simp add: FCM_data_def Let_def distinct_sorted comp_def split_beta del: set_map)
qed

text \<open>The names in a push payload that stand for no value are left out.\<close>

lemma data_values:
  "distinct (map fst (om_Payload m)) \<Longrightarrow> (k, v) \<in> set (om_Payload m) \<Longrightarrow> v \<noteq> JNull \<Longrightarrow>
   map_of (FCM_data fm other m) k = Some (sprint fm other v)"
  using distinct_data [of m fm other]
  by (intro map_of_is_SomeI) (force simp: FCM_data_def Let_def)+

text \<open>What a push carries. Its notice is one line, never empty and never the salutation of the letter;
  its data are texts under distinct names, one for every member of the payload that has a value, with the
  name of the template where the payload does not say otherwise.\<close>

theorem push_is_a_glance:
  assumes "distinct (map fst (om_Payload m))"
  shows "\<exists>notice data. hr_Body (FCM_request f fm other frontend token m) =
      Obj [(''message'', Obj [(''data'', Obj (map (\<lambda>(k, s). (k, json_text s)) data)),
        (''notification'', Obj [(''body'', json_text notice), (''title'', json_text (rd_Subject (Render fm frontend m)))]),
        (''token'', json_text (om_To m))])] \<and>
    notice \<noteq> [] \<and> CHR 0x0A \<notin> set notice \<and> \<not> has_prefix notice ''Dear '' \<and>
    distinct (map fst data) \<and> sorted (map fst data) \<and>
    fst ` set data = insert ''template'' (fst ` {x \<in> set (om_Payload m). snd x \<noteq> JNull}) \<and>
    map_of data ''template'' = Some (case find (\<lambda>x. fst x = ''template'' \<and> snd x \<noteq> JNull) (om_Payload m) of
      None \<Rightarrow> om_Template m | Some (_, v) \<Rightarrow> sprint fm other v)"
proof (intro exI conjI)
  let ?d = "FCM_data fm other m" and ?n = "firstLine (rd_Body (Render fm frontend m))"
  show "hr_Body (FCM_request f fm other frontend token m) =
      Obj [(''message'', Obj [(''data'', Obj (map (\<lambda>(k, s). (k, json_text s)) ?d)),
        (''notification'', Obj [(''body'', json_text ?n), (''title'', json_text (rd_Subject (Render fm frontend m)))]),
        (''token'', json_text (om_To m))])]"
    by (simp add: FCM_request_def FCM_payload_def)
  show "distinct (map fst ?d)" using assms by (rule distinct_data)
  show "sorted (map fst ?d)" by (simp add: FCM_data_def Let_def)
  show "fst ` set ?d = insert ''template'' (fst ` {x \<in> set (om_Payload m). snd x \<noteq> JNull})"
    by (force simp: FCM_data_def Let_def image_iff)
  show "map_of ?d ''template'' = Some (case find (\<lambda>x. fst x = ''template'' \<and> snd x \<noteq> JNull) (om_Payload m) of
      None \<Rightarrow> om_Template m | Some (_, v) \<Rightarrow> sprint fm other v)"
  proof (cases "find (\<lambda>x. fst x = ''template'' \<and> snd x \<noteq> JNull) (om_Payload m)")
    case None
    then have "(''template'', om_Template m) \<in> set ?d" by (auto simp: FCM_data_def Let_def find_None_iff)
    with None show ?thesis using distinct_data [OF assms, of fm other] by (simp add: map_of_is_SomeI)
  next
    case (Some x)
    obtain v where x: "x = (''template'', v)" using find_SomeD [OF Some] by (cases x) simp
    with find_SomeD [OF Some] data_values [OF assms, of "''template''" v fm other] Some show ?thesis by simp
  qed
qed (simp_all add: firstLine_line)

definition sample_push :: out_message where
  "sample_push = \<lparr>om_To = ''device'', om_Name = ''Ada'', om_Template = ''reservation_ready'',
     om_Payload = [(''title'', JStr ''Go''), (''loan_id'', JNull)]\<rparr>"

theorem push_is_a_glance_witness:
  "\<exists>notice data. map_of data ''template'' = Some ''reservation_ready'' \<and> notice \<noteq> [] \<and>
     fst ` set data = {''template'', ''title''} \<and> (\<exists>q. hr_Body (FCM_request \<lparr>fc_projectID = ''p'', fc_token = (\<lambda>_. Inr ''t'')\<rparr>
       sample_formats (\<lambda>_. []) ''https://a'' ''t'' sample_push) = Obj [(''message'', Obj (q @ [(''token'', json_text ''device'')]))])"
proof -
  let ?f = "\<lparr>fc_projectID = ''p'', fc_token = (\<lambda>_. Inr ''t'')\<rparr> :: fcm"
  have d: "distinct (map fst (om_Payload sample_push))" by (simp add: sample_push_def)
  have s: "fst ` {x \<in> set (om_Payload sample_push). snd x \<noteq> JNull} = {''title''}"
    "find (\<lambda>x. fst x = ''template'' \<and> snd x \<noteq> JNull) (om_Payload sample_push) = None"
    "om_To sample_push = ''device''" "om_Template sample_push = ''reservation_ready''"
    by (force simp: sample_push_def)+
  from push_is_a_glance [OF d, of ?f sample_formats "\<lambda>_. []" "''https://a''" "''t''"]
  obtain notice data where r: "hr_Body (FCM_request ?f sample_formats (\<lambda>_. []) ''https://a'' ''t'' sample_push) =
      Obj [(''message'', Obj ([(''data'', Obj (map (\<lambda>(k, s). (k, json_text s)) data)),
        (''notification'', Obj [(''body'', json_text notice),
           (''title'', json_text (rd_Subject (Render sample_formats ''https://a'' sample_push)))])] @
        [(''token'', json_text ''device'')]))]"
    "notice \<noteq> []" "fst ` set data = insert ''template'' {''title''}" "map_of data ''template'' = Some ''reservation_ready''"
    unfolding s by auto
  then show ?thesis by blast
qed

theorem console_hides_the_token_witness:
  "\<exists>p q. map_of p ''token'' \<noteq> map_of q ''token'' \<and>
     Console_Send ''email'' sample_formats ''https://a'' (sample_push\<lparr>om_Payload := p\<rparr>) =
     Console_Send ''email'' sample_formats ''https://a'' (sample_push\<lparr>om_Payload := q\<rparr>)"
proof (intro exI conjI)
  let ?p = "[(''token'', JStr ''s1'')]" and ?q = "[(''token'', JStr ''s2'')]"
  show "map_of ?p ''token'' \<noteq> map_of ?q ''token''" by simp
  show "Console_Send ''email'' sample_formats ''https://a'' (sample_push\<lparr>om_Payload := ?p\<rparr>) =
     Console_Send ''email'' sample_formats ''https://a'' (sample_push\<lparr>om_Payload := ?q\<rparr>)"
    by (rule console_hides_the_token) simp
qed

end
