(* ===== verification/Startup.thy ===== *)
theory Startup
  imports Server Migrate Rate_Limit Providers
begin

text \<open>
  What happens before the first request: the configuration (internal/config), the choice of the
  limiter and of the senders and the order of the steps of cmd/api/main.go, the Firebase key
  (internal/notify/fcm_auth.go), and the command that creates the first administrator (cmd/bootstrap).
  The environment is a function from names to texts, empty where a variable is not set.
\<close>

section \<open>Durations\<close>

text \<open>
  time.ParseDuration: an optional sign, then numbers with a unit each. The count is of unsigned 64-bit
  nanoseconds and refused when it passes 2 to the 63; the fraction of a number is scaled in floating
  point, which is the argument frac (the digits after the point, their scale and the unit).
\<close>

definition duration_units :: "(string \<times> nat) list" where
  "duration_units = [(''ns'', 1), (''us'', 1000), ([char_of (194::nat), char_of (181::nat), CHR ''s''], 1000),
     ([char_of (206::nat), char_of (188::nat), CHR ''s''], 1000), (''ms'', 1000000), (''s'', 1000000000),
     (''m'', 60000000000), (''h'', 3600000000000)]"

definition digit_of :: "char \<Rightarrow> nat" where
  "digit_of c = of_char c - 48"

text \<open>leadingInt: None where the number passes 2 to the 63.\<close>

fun leadingInt :: "nat \<Rightarrow> string \<Rightarrow> (nat \<times> string) option" where
  "leadingInt x [] = Some (x, [])"
| "leadingInt x (c # s) =
     (if \<not> is_digit_byte c then Some (x, c # s)
      else if 2 ^ 63 div 10 < x then None
      else let y = x * 10 + digit_of c in if 2 ^ 63 < y then None else leadingInt y s)"

text \<open>leadingFraction: digits past what fits are dropped.\<close>

fun leadingFraction :: "nat \<Rightarrow> nat \<Rightarrow> bool \<Rightarrow> string \<Rightarrow> nat \<times> nat \<times> string" where
  "leadingFraction x scale over [] = (x, scale, [])"
| "leadingFraction x scale over (c # s) =
     (if \<not> is_digit_byte c then (x, scale, c # s)
      else if over then leadingFraction x scale over s
      else if (2 ^ 63 - 1) div 10 < x then leadingFraction x scale True s
      else let y = x * 10 + digit_of c in
        if 2 ^ 63 < y then leadingFraction x scale True s
        else leadingFraction y (scale * 10) over s)"

definition number_at :: "string \<Rightarrow> (nat \<times> nat \<times> nat \<times> string) option" where
  "number_at s =
     (case leadingInt 0 s of
        None \<Rightarrow> None
      | Some (v, s1) \<Rightarrow>
          (case s1 of
             [] \<Rightarrow> if s1 = s then None else Some (v, 0, 1, s1)
           | c # s2 \<Rightarrow>
               if c = CHR ''.'' then (case leadingFraction 0 1 False s2 of (f, scale, s3) \<Rightarrow>
                 if s1 = s \<and> s3 = s2 then None else Some (v, f, scale, s3))
               else if s1 = s then None else Some (v, 0, 1, s1)))"

definition unit_at :: "string \<Rightarrow> (nat \<times> string) option" where
  "unit_at s =
     (let u = takeWhile (\<lambda>c. c \<noteq> CHR ''.'' \<and> \<not> is_digit_byte c) s in
      if u = [] then None
      else map_option (\<lambda>n. (n, drop (length u) s)) (map_of duration_units u))"

lemma leadingInt_length: "leadingInt x s = Some (y, s') \<Longrightarrow> length s' \<le> length s"
  by (induction s arbitrary: x) (auto simp: Let_def split: if_splits intro: le_SucI)

lemma leadingFraction_length: "leadingFraction x sc ov s = (y, sc', s') \<Longrightarrow> length s' \<le> length s"
  by (induction s arbitrary: x sc ov) (auto simp: Let_def split: if_splits intro: le_SucI)

lemma number_at_length: "number_at s = Some (v, f, sc, s') \<Longrightarrow> length s' \<le> length s"
  by (auto simp: number_at_def split: option.splits list.splits if_splits prod.splits
      dest!: leadingInt_length leadingFraction_length)

lemma unit_at_length: "unit_at s = Some (n, s') \<Longrightarrow> length s' < length s"
  by (cases s) (auto simp: unit_at_def Let_def split: if_splits)

function parse_terms :: "(nat \<Rightarrow> nat \<Rightarrow> nat \<Rightarrow> nat) \<Rightarrow> nat \<Rightarrow> string \<Rightarrow> nat option" where
  "parse_terms frac d s =
     (if s = [] then Some d
      else case number_at s of
        None \<Rightarrow> None
      | Some (v, f, scale, s1) \<Rightarrow>
          (case unit_at s1 of
             None \<Rightarrow> None
           | Some (n, s2) \<Rightarrow>
               if 2 ^ 63 div n < v then None
               else let w = v * n + (if 0 < f then frac f scale n else 0) in
                 if 2 ^ 63 < w \<or> 2 ^ 63 < (d + w) mod 2 ^ 64 then None
                 else parse_terms frac ((d + w) mod 2 ^ 64) s2))"
  by pat_completeness auto
termination
  by (relation "measure (\<lambda>(frac, d, s). length s)")
    (auto dest!: number_at_length unit_at_length)

declare parse_terms.simps [simp del]

definition ParseDuration :: "(nat \<Rightarrow> nat \<Rightarrow> nat \<Rightarrow> nat) \<Rightarrow> string \<Rightarrow> duration option" where
  "ParseDuration frac s =
     (let neg = has_prefix s ''-''; t = (if has_prefix s ''-'' \<or> has_prefix s ''+'' then drop 1 s else s) in
      if t = ''0'' then Some 0
      else if t = [] then None
      else case parse_terms frac 0 t of
        None \<Rightarrow> None
      | Some d \<Rightarrow> if neg then Some (- int d) else if 2 ^ 63 - 1 < d then None else Some (int d))"

section \<open>Configuration\<close>

type_synonym environment = "string \<Rightarrow> string"

record config =
  cf_Port :: string
  cf_Env :: string
  cf_DatabaseURL :: string
  cf_RedisURL :: string
  cf_RedisPrefix :: string
  cf_JWTSecret :: string
  cf_AccessTokenTTL :: duration
  cf_RefreshTokenTTL :: duration
  cf_CORSOrigins :: "string list"
  cf_FirebaseKey :: string
  cf_TrustProxyHeaders :: bool
  cf_SeedDemoData :: bool
  cf_ResendAPIKey :: string
  cf_ResendWebhookSecret :: string
  cf_MailFrom :: string
  cf_OpenLibraryBaseURL :: string
  cf_FrontendURL :: string

definition IsProduction :: "config \<Rightarrow> bool" where
  "IsProduction c \<longleftrightarrow> cf_Env c = ''production''"

datatype config_error = NotADuration string | Required string | ShortSecret | PublishedSecret | SeedInProduction

definition env_or :: "environment \<Rightarrow> string \<Rightarrow> string \<Rightarrow> string" where
  "env_or env key def = (if env key \<noteq> [] then env key else def)"

definition env_duration ::
  "(nat \<Rightarrow> nat \<Rightarrow> nat \<Rightarrow> nat) \<Rightarrow> environment \<Rightarrow> string \<Rightarrow> duration \<Rightarrow> config_error + duration" where
  "env_duration frac env key def =
     (if env key = [] then Inr def
      else case ParseDuration frac (env key) of None \<Rightarrow> Inl (NotADuration key) | Some d \<Rightarrow> Inr d)"

definition origins :: "string \<Rightarrow> string list" where
  "origins s = filter (\<lambda>o'. o' \<noteq> []) (map trim_space (split_on (CHR '','') s))"

definition check_config :: "config \<Rightarrow> config_error + config" where
  "check_config c =
     (if cf_DatabaseURL c = [] then Inl (Required ''DATABASE_URL'')
      else if cf_JWTSecret c = [] then Inl (Required ''JWT_SECRET'')
      else if length (cf_JWTSecret c) < 32 then Inl ShortSecret
      else if IsProduction c \<and> contains (cf_JWTSecret c) ''development-secret'' then Inl PublishedSecret
      else if IsProduction c \<and> cf_SeedDemoData c then Inl SeedInProduction
      else Inr c)"

definition LoadConfig :: "(nat \<Rightarrow> nat \<Rightarrow> nat \<Rightarrow> nat) \<Rightarrow> environment \<Rightarrow> config_error + config" where
  "LoadConfig frac env =
     (case env_duration frac env ''ACCESS_TOKEN_TTL'' (15 * minute) of
        Inl e \<Rightarrow> Inl e
      | Inr access \<Rightarrow> (case env_duration frac env ''REFRESH_TOKEN_TTL'' (7 * 24 * hour) of
          Inl e \<Rightarrow> Inl e
        | Inr refresh \<Rightarrow> check_config
            \<lparr>cf_Port = env_or env ''PORT'' ''8080'', cf_Env = env_or env ''ENV'' ''development'',
             cf_DatabaseURL = env ''DATABASE_URL'', cf_RedisURL = env ''REDIS_URL'',
             cf_RedisPrefix = env_or env ''REDIS_PREFIX'' ''holibrary'', cf_JWTSecret = env ''JWT_SECRET'',
             cf_AccessTokenTTL = access, cf_RefreshTokenTTL = refresh, cf_CORSOrigins = origins (env ''CORS_ORIGINS''),
             cf_FirebaseKey = env ''FIREBASE_SERVICE_ACCOUNT'',
             cf_TrustProxyHeaders = (env ''TRUST_PROXY_HEADERS'' = ''true''),
             cf_SeedDemoData = (env ''SEED_DEMO_DATA'' = ''true''),
             cf_ResendAPIKey = env ''RESEND_API_KEY'', cf_ResendWebhookSecret = env ''RESEND_WEBHOOK_SECRET'',
             cf_MailFrom = env_or env ''MAIL_FROM'' ''library@example.edu.ng'',
             cf_OpenLibraryBaseURL = env_or env ''OPENLIBRARY_BASE_URL'' ''https://openlibrary.org'',
             cf_FrontendURL = trim_right (CHR ''/'') (env_or env ''FRONTEND_URL'' ''https://library.appmd.dev'')\<rparr>))"

section \<open>The Firebase key\<close>

text \<open>
  The key is JSON or the base64 of it. Reading a service account out of it is Google's library: a
  parameter that gives the token function or an error.
\<close>

definition key_struct :: struct where
  "key_struct = [(''project_id'', FText), (''client_email'', FText), (''type'', FText)]"

definition unmarshal_key :: "(string \<Rightarrow> string + json \<times> string) \<Rightarrow> string \<Rightarrow> fields option" where
  "unmarshal_key parse raw =
     (case parse raw of
        Inl _ \<Rightarrow> None
      | Inr (v, rest) \<Rightarrow>
          if \<not> list_all json_space rest then None
          else (case decode_struct key_struct (known_members key_struct v) of Inl _ \<Rightarrow> None | Inr fs \<Rightarrow> Some fs))"

datatype key_error = NeitherJSONNorBase64 | NotJSON | KeyType string | NoProject | NotAServiceAccount string

record key_library =
  kl_base64 :: "string \<Rightarrow> string option"
  kl_json :: "string \<Rightarrow> string + json \<times> string"
  kl_repair :: "string \<Rightarrow> string"
  kl_google :: "string \<Rightarrow> string + (nat \<Rightarrow> string + string)"

definition FCMTokenSource :: "key_library \<Rightarrow> string \<Rightarrow> key_error + fcm option" where
  "FCMTokenSource lib key =
     (let raw = trim_space key in
      if raw = [] then Inr None
      else case (if has_prefix raw ''{'' then Some raw else kl_base64 lib raw) of
        None \<Rightarrow> Inl NeitherJSONNorBase64
      | Some raw \<Rightarrow> (case unmarshal_key (kl_json lib) raw of
          None \<Rightarrow> Inl NotJSON
        | Some fs \<Rightarrow>
            let project = text_field (kl_repair lib) fs ''project_id''; type = text_field (kl_repair lib) fs ''type'' in
            if type \<noteq> ''service_account'' then Inl (KeyType type)
            else if project = [] then Inl NoProject
            else (case kl_google lib raw of
              Inl e \<Rightarrow> Inl (NotAServiceAccount e)
            | Inr source \<Rightarrow> Inr (Some \<lparr>fc_projectID = project,
                fc_token = (\<lambda>k. case source k of Inl e \<Rightarrow> Inl (''obtaining a Firebase access token: '' @ e) | Inr t \<Rightarrow> Inr t)\<rparr>))))"

section \<open>Starting\<close>

text \<open>The limiter the server uses: shared counters when a Redis answers, else counters of its own.\<close>

datatype redis_state = BadRedisURL string | RedisSilent string | RedisAnswers

datatype chosen_limiter = InProcess | Shared string

definition NewRedis :: "string \<Rightarrow> string" where
  "NewRedis prefix = (if prefix = [] then ''holibrary'' else prefix) @ '':''"

definition choose_limiter :: "(string \<Rightarrow> redis_state) \<Rightarrow> config \<Rightarrow> chosen_limiter" where
  "choose_limiter redis c =
     (if cf_RedisURL c \<noteq> [] then
        (case redis (cf_RedisURL c) of RedisAnswers \<Rightarrow> Shared (NewRedis (cf_RedisPrefix c)) | _ \<Rightarrow> InProcess)
      else InProcess)"

definition choose_senders :: "key_library \<Rightarrow> config \<Rightarrow> provider list" where
  "choose_senders lib c =
     (let resend = \<lparr>re_apiKey = cf_ResendAPIKey c, re_from = cf_MailFrom c\<rparr>;
          mail = (if Resend_Configured resend then [ResendProvider resend]
                  else if \<not> IsProduction c then [ConsoleProvider ''email'', ConsoleProvider ''push''] else [])
      in case FCMTokenSource lib (cf_FirebaseKey c) of
           Inr (Some f) \<Rightarrow> if FCM_Configured f then mail @ [FCMProvider f] else mail
         | _ \<Rightarrow> mail)"

definition withAdvisoryLock ::
  "string option \<Rightarrow> string option \<Rightarrow> ('s \<Rightarrow> error option \<times> 's) \<Rightarrow> 's \<Rightarrow> error option \<times> 's" where
  "withAdvisoryLock acquire lock fn st =
     (case acquire of
        Some e \<Rightarrow> (Some (ErrText e), st)
      | None \<Rightarrow> (case lock of Some e \<Rightarrow> (Some (ErrText e), st) | None \<Rightarrow> fn st))"

datatype start_error =
    Misconfigured config_error | DatabaseUnreachable string | Migrating error | ExternalCatalogue url_error

text \<open>What the program finds around it when it starts.\<close>

record 's surroundings =
  su_frac :: "nat \<Rightarrow> nat \<Rightarrow> nat \<Rightarrow> nat"
  su_connect :: "string \<Rightarrow> string option"
  su_acquire :: "string option"
  su_lock :: "string option"
  su_exec :: "string \<Rightarrow> 's \<Rightarrow> error + 's"
  su_driver :: driver
  su_files :: "error + migration list"
  su_redis :: "string \<Rightarrow> redis_state"
  su_parse_url :: "string \<Rightarrow> string + url"
  su_keys :: key_library

record started =
  sd_config :: config
  sd_limiter :: chosen_limiter
  sd_catalogue :: string
  sd_senders :: "provider list"

definition startup :: "'s surroundings \<Rightarrow> environment \<Rightarrow> 's store \<Rightarrow> (start_error + started) \<times> 's store" where
  "startup su env st =
     (case LoadConfig (su_frac su) env of
        Inl e \<Rightarrow> (Inl (Misconfigured e), st)
      | Inr c \<Rightarrow> (case su_connect su (cf_DatabaseURL c) of
          Some e \<Rightarrow> (Inl (DatabaseUnreachable e), st)
        | None \<Rightarrow> (case withAdvisoryLock (su_acquire su) (su_lock su)
              (\<lambda>st. case Apply (su_exec su) (su_driver su) (su_files su) (cf_SeedDemoData c) st of (err, _, st) \<Rightarrow> (err, st)) st of
            (Some e, st) \<Rightarrow> (Inl (Migrating e), st)
          | (None, st') \<Rightarrow>
              let limiter = choose_limiter (su_redis su) c in
              (case safeBaseURL (su_parse_url su) (cf_OpenLibraryBaseURL c) of
                 Inl e \<Rightarrow> (Inl (ExternalCatalogue e), st')
               | Inr base \<Rightarrow>
                   (Inr \<lparr>sd_config = c, sd_limiter = limiter, sd_catalogue = base,
                      sd_senders = choose_senders (su_keys su) c\<rparr>, st')))))"

section \<open>The commands\<close>

text \<open>What the migrate command prints; its exit code is 2 without an address, 1 after an error.\<close>

datatype printed = UpToDate | WouldApply "string list" | NothingToApply | Applied "string list" | Complaint error

definition migrate_run ::
  "(string \<Rightarrow> 's \<Rightarrow> error + 's) \<Rightarrow> driver \<Rightarrow> (error + migration list) \<Rightarrow> bool \<Rightarrow> bool \<Rightarrow> 's store \<Rightarrow> (error + printed) \<times> 's store" where
  "migrate_run run_sql dr files dryRun seed st =
     (if dryRun then
        (case Pending_migrations dr files seed st of
           (Inl e, st) \<Rightarrow> (Inl e, st)
         | (Inr names, st) \<Rightarrow> (Inr (if names = [] then UpToDate else WouldApply names), st))
      else
        (case Apply run_sql dr files seed st of
           (Some e, _, st) \<Rightarrow> (Inl e, st)
         | (None, names, st) \<Rightarrow> (Inr (if names = [] then NothingToApply else Applied names), st)))"

definition migrate_command ::
  "(string \<Rightarrow> string option) \<Rightarrow> (string \<Rightarrow> 's \<Rightarrow> error + 's) \<Rightarrow> driver \<Rightarrow> (error + migration list) \<Rightarrow> environment \<Rightarrow>
   bool \<Rightarrow> bool \<Rightarrow> 's store \<Rightarrow> nat \<times> printed \<times> 's store" where
  "migrate_command connect run_sql dr files env dryRun seed st =
     (if env ''DATABASE_URL'' = [] then (2, Complaint (ErrText ''DATABASE_URL is not set''), st)
      else case connect (env ''DATABASE_URL'') of
        Some e \<Rightarrow> (1, Complaint (ErrText e), st)
      | None \<Rightarrow> (case migrate_run run_sql dr files dryRun seed st of
          (Inl e, st) \<Rightarrow> (1, Complaint e, st) | (Inr p, st) \<Rightarrow> (0, p, st)))"

text \<open>
  The first administrator. The password is the first 16 characters of a fresh token; slicing a shorter
  text is a panic. Row ids and the clock belong to the database.
\<close>

definition AdministratorExists :: error where
  "AdministratorExists = ErrText (''an administrator already exists; create further staff through the API, '' @
     ''where the action is attributable and audited'')"

definition AlreadyRegistered :: error where
  "AlreadyRegistered = ErrText ''that email or staff number is already registered''"

definition mentions_duplicate :: "pg_error \<Rightarrow> bool" where
  "mentions_duplicate e =
     (case e of UniqueViolation _ \<Rightarrow> True | ForeignKeyViolation n \<Rightarrow> contains n ''duplicate''
      | CheckViolation n \<Rightarrow> contains n ''duplicate'' | DriverFailure m \<Rightarrow> contains m ''duplicate'' | NoRows \<Rightarrow> False)"

definition first_admin :: "string \<Rightarrow> string \<Rightarrow> string \<Rightarrow> string \<Rightarrow> create_user_params" where
  "first_admin email name identifier hash =
     \<lparr>cu_Identifier = trim_space identifier, cu_Email = to_lower (trim_space email), cu_FullName = trim_space name,
      cu_FirstName = [], cu_LastName = [], cu_Faculty = [], cu_Department = [], cu_Level = [], cu_PasswordHash = hash,
      cu_Role = RoleAdmin, cu_Category = None, cu_IsSynthetic = False, cu_CreatedBy = uuid_nil\<rparr>"

definition bootstrap_run ::
  "token_issuer \<Rightarrow> password_lib \<Rightarrow> faults \<Rightarrow> string option \<Rightarrow> string option \<Rightarrow> time \<Rightarrow> uuid \<Rightarrow>
   string \<Rightarrow> string \<Rightarrow> string \<Rightarrow> db \<Rightarrow> (error + string) \<times> db" where
  "bootstrap_run ti lib fl random salt now nid email name identifier d =
     (case exec fl 0 (Inr (admin_count d)) of
        Inl e \<Rightarrow> (Inl (ErrWrap ''checking for an existing administrator: '' (ErrDriver e)), d)
      | Inr existing \<Rightarrow>
          if 0 < existing then (Inl AdministratorExists, d)
          else (case NewOpaqueToken ti random of
            Inl e \<Rightarrow> (Inl e, d)
          | Inr (raw, _) \<Rightarrow>
              if length raw < 16 then (Inl (ErrText ''slice bounds out of range''), d)
              else (case HashPassword lib salt (take 16 raw) of
                Inl e \<Rightarrow> (Inl e, d)
              | Inr hash \<Rightarrow> (case exec fl 1 (insert_user now nid (first_admin email name identifier hash) d) of
                  Inl e \<Rightarrow> (Inl (if mentions_duplicate e then AlreadyRegistered else ErrDriver e), d)
                | Inr (_, d') \<Rightarrow> (Inr (take 16 raw), d')))))"

text \<open>The command line: exit code, and the password shown once.\<close>

definition bootstrap_command ::
  "(string \<Rightarrow> string option) \<Rightarrow> token_issuer \<Rightarrow> password_lib \<Rightarrow> faults \<Rightarrow> string option \<Rightarrow> string option \<Rightarrow> time \<Rightarrow> uuid \<Rightarrow>
   environment \<Rightarrow> string \<Rightarrow> string \<Rightarrow> string \<Rightarrow> db \<Rightarrow> nat \<times> string option \<times> db" where
  "bootstrap_command connect ti lib fl random salt now nid env email name identifier d =
     (if email = [] \<or> name = [] then (2, None, d)
      else if env ''DATABASE_URL'' = [] then (2, None, d)
      else case connect (env ''DATABASE_URL'') of
        Some e \<Rightarrow> (1, None, d)
      | None \<Rightarrow> (case bootstrap_run ti lib fl random salt now nid email name
            (if identifier = [] then ''LIB/ADMIN/001'' else identifier) d of
          (Inl e, d) \<Rightarrow> (1, None, d) | (Inr password, d) \<Rightarrow> (0, Some password, d)))"

section \<open>What a started server can rely on\<close>

lemma check_config_Inr:
  "check_config c = Inr c' \<longleftrightarrow> c' = c \<and> cf_DatabaseURL c \<noteq> [] \<and> 32 \<le> length (cf_JWTSecret c) \<and>
     (IsProduction c \<longrightarrow> \<not> contains (cf_JWTSecret c) ''development-secret'' \<and> \<not> cf_SeedDemoData c)"
  by (auto simp: check_config_def)

lemma LoadConfig_Inr:
  assumes "LoadConfig frac env = Inr c"
  shows "cf_DatabaseURL c \<noteq> [] \<and> 32 \<le> length (cf_JWTSecret c) \<and>
     (IsProduction c \<longrightarrow> \<not> contains (cf_JWTSecret c) ''development-secret'' \<and> \<not> cf_SeedDemoData c)"
  using assms unfolding LoadConfig_def by (auto simp: check_config_Inr split: sum.splits)

lemma choose_senders_provider:
  "p \<in> set (choose_senders lib c) \<Longrightarrow>
   (\<exists>r. p = ResendProvider r \<and> re_apiKey r = cf_ResendAPIKey c \<and> cf_ResendAPIKey c \<noteq> []) \<or>
   (\<exists>x. p = ConsoleProvider x \<and> \<not> IsProduction c \<and> cf_ResendAPIKey c = []) \<or>
   (\<exists>f. p = FCMProvider f \<and> FCMTokenSource lib (cf_FirebaseKey c) = Inr (Some f) \<and> fc_projectID f \<noteq> [])"
  by (auto simp: choose_senders_def Let_def Resend_Configured_def FCM_Configured_def
      split: if_splits sum.splits option.splits)

lemma startup_Inr:
  assumes "startup su env st = (Inr z, st')"
  obtains names where "LoadConfig (su_frac su) env = Inr (sd_config z)"
    and "Apply (su_exec su) (su_driver su) (su_files su) (cf_SeedDemoData (sd_config z)) st = (None, names, st')"
    and "sd_limiter z = choose_limiter (su_redis su) (sd_config z)"
    and "safeBaseURL (su_parse_url su) (cf_OpenLibraryBaseURL (sd_config z)) = Inr (sd_catalogue z)"
    and "sd_senders z = choose_senders (su_keys su) (sd_config z)"
  using assms
  by (auto simp: startup_def withAdvisoryLock_def Let_def split: sum.splits option.splits prod.splits)

lemma Apply_rows:
  assumes "Apply run_sql dr files inc st = (None, names, st')"
  obtains ms run where "files = Inr ms" "set run \<subseteq> set ms" "\<not> inc \<Longrightarrow> filter m_Seed run = []"
    "names = map m_Name run" "ledger_rows st' = ledger_rows st @ map ledger_row run"
proof (cases rule: ensure_ledger_cases [of dr st])
  case (1 e)
  with assms show thesis by (simp add: Apply_def)
next
  case (2 st0)
  with assms obtain ms applied where all: "files = Inr ms" "apply_all run_sql dr inc applied ms st0 = (None, names, st')"
    by (auto simp: Apply_def split: sum.splits)
  from apply_all_spec [OF all(2)] obtain run where "run = todo inc (set (map fst applied)) ms" "names = map m_Name run"
      "ledger_rows st' = ledger_rows st0 @ map ledger_row run"
    by blast
  with all(1) 2(3) show thesis by (intro that [of ms run]) (auto simp: todo_def filter_empty_conv)
qed

definition is_console :: "provider \<Rightarrow> bool" where
  "is_console p \<longleftrightarrow> (case p of ConsoleProvider _ \<Rightarrow> True | _ \<Rightarrow> False)"

definition sends_mail :: "provider \<Rightarrow> bool" where
  "sends_mail p \<longleftrightarrow> (case p of ResendProvider _ \<Rightarrow> True | _ \<Rightarrow> False)"

text \<open>A server that starts is configured safely. The signing secret has at least 32 bytes; the external
  catalogue is on an allowed host; counters are shared only with a Redis that answered; messages go to
  the console only where no mail provider is configured. In production the secret does not contain the
  published one, no message goes to the console, and of the migrations that ran none is demonstration
  data: the ledger has grown by exactly the files that did run.\<close>

theorem started_server_is_configured:
  assumes "startup su env st = (Inr z, st')"
  shows "32 \<le> length (cf_JWTSecret (sd_config z)) \<and>
    (sd_catalogue z = ''https://openlibrary.org'' \<or>
     (\<exists>u. su_parse_url su (cf_OpenLibraryBaseURL (sd_config z)) = Inr u \<and> u_Hostname u \<in> set allowedCatalogueHosts)) \<and>
    (sd_limiter z = InProcess \<or> su_redis su (cf_RedisURL (sd_config z)) = RedisAnswers) \<and>
    (filter is_console (sd_senders z) = [] \<or> filter sends_mail (sd_senders z) = []) \<and>
    (\<exists>ms run. su_files su = Inr ms \<and> set run \<subseteq> set ms \<and> ledger_rows st' = ledger_rows st @ map ledger_row run \<and>
       (cf_Env (sd_config z) = ''production'' \<longrightarrow> filter m_Seed run = [] \<and> filter is_console (sd_senders z) = [] \<and>
          \<not> contains (cf_JWTSecret (sd_config z)) ''development-secret''))"
proof -
  obtain names where start: "LoadConfig (su_frac su) env = Inr (sd_config z)"
      "Apply (su_exec su) (su_driver su) (su_files su) (cf_SeedDemoData (sd_config z)) st = (None, names, st')"
      "sd_limiter z = choose_limiter (su_redis su) (sd_config z)"
      "safeBaseURL (su_parse_url su) (cf_OpenLibraryBaseURL (sd_config z)) = Inr (sd_catalogue z)"
      "sd_senders z = choose_senders (su_keys su) (sd_config z)"
    using startup_Inr [OF assms] .
  note loaded = LoadConfig_Inr [OF start(1)]
  obtain ms run where rows: "su_files su = Inr ms" "set run \<subseteq> set ms"
      "\<not> cf_SeedDemoData (sd_config z) \<Longrightarrow> filter m_Seed run = []" "ledger_rows st' = ledger_rows st @ map ledger_row run"
    using Apply_rows [OF start(2)] by metis
  have console: "filter is_console (sd_senders z) = []"
    if "IsProduction (sd_config z) \<or> cf_ResendAPIKey (sd_config z) \<noteq> []"
    using that unfolding start(5) is_console_def
    by (auto simp: filter_empty_conv split: provider.splits dest!: choose_senders_provider)
  have mail: "filter sends_mail (sd_senders z) = []" if "cf_ResendAPIKey (sd_config z) = []"
    using that unfolding start(5) sends_mail_def
    by (auto simp: filter_empty_conv split: provider.splits dest!: choose_senders_provider)
  have "sd_catalogue z = ''https://openlibrary.org'' \<or>
     (\<exists>u. su_parse_url su (cf_OpenLibraryBaseURL (sd_config z)) = Inr u \<and> u_Hostname u \<in> set allowedCatalogueHosts)"
    using start(4) by (auto simp: safeBaseURL_def split: if_splits sum.splits)
  moreover have "sd_limiter z = InProcess \<or> su_redis su (cf_RedisURL (sd_config z)) = RedisAnswers"
    unfolding start(3) by (simp add: choose_limiter_def split: redis_state.split)
  ultimately show ?thesis using loaded console mail rows by (auto simp: IsProduction_def)
qed

definition sample_env :: environment where
  "sample_env = (\<lambda>_. [])(''DATABASE_URL'' := ''postgres'', ''JWT_SECRET'' := replicate 40 (CHR ''k''), ''ENV'' := ''production'',
     ''REDIS_URL'' := ''redis'', ''RESEND_API_KEY'' := ''key'', ''OPENLIBRARY_BASE_URL'' := ''https://openlibrary.org'')"

definition sample_surroundings :: "nat surroundings" where
  "sample_surroundings =
     \<lparr>su_frac = (\<lambda>f s u. f * u div s), su_connect = (\<lambda>_. None), su_acquire = None, su_lock = None,
      su_exec = (\<lambda>s n. Inr (Suc n)),
      su_driver = \<lparr>dr_ledger = None, dr_query = None, dr_read = Whole, dr_begin = (\<lambda>_. None), dr_insert = (\<lambda>_. None),
        dr_commit = (\<lambda>_. None)\<rparr>,
      su_files = Inr [\<lparr>m_Name = ''0001_init.sql'', m_SQL = ''create'', m_Checksum = ''a'', m_Seed = False\<rparr>,
        \<lparr>m_Name = ''0004_seed.sql'', m_SQL = ''insert'', m_Checksum = ''b'', m_Seed = True\<rparr>],
      su_redis = (\<lambda>_. RedisAnswers),
      su_parse_url = (\<lambda>s. Inr \<lparr>u_Scheme = ''https'', u_Host = ''openlibrary.org'', u_Hostname = ''openlibrary.org''\<rparr>),
      su_keys = \<lparr>kl_base64 = Some, kl_json = Inl, kl_repair = id, kl_google = Inl\<rparr>\<rparr>"

lemma sample_config:
  "\<exists>c. LoadConfig frac sample_env = Inr c \<and> cf_Env c = ''production'' \<and> cf_DatabaseURL c = ''postgres'' \<and>
     \<not> cf_SeedDemoData c \<and> cf_RedisURL c = ''redis'' \<and> cf_RedisPrefix c = ''holibrary'' \<and> cf_ResendAPIKey c = ''key'' \<and>
     cf_FirebaseKey c = [] \<and> cf_OpenLibraryBaseURL c = ''https://openlibrary.org''"
proof -
  have "\<not> contains (replicate n (CHR ''k'')) ''development-secret''" for n
    by (induction n) (auto simp: has_prefix_def)
  then show ?thesis
    by (simp add: LoadConfig_def env_duration_def env_or_def sample_env_def check_config_def IsProduction_def)
qed

theorem started_server_is_configured_witness:
  "\<exists>z st'. startup sample_surroundings sample_env \<lparr>st_data = 0, st_ledger = None\<rparr> = (Inr z, st') \<and>
     32 \<le> length (cf_JWTSecret (sd_config z)) \<and> ledger_rows st' = [(''0001_init.sql'', ''a'')] \<and>
     filter is_console (sd_senders z) = []"
proof -
  let ?st = "\<lparr>st_data = 0, st_ledger = None\<rparr> :: nat store"
  obtain c where c: "LoadConfig (su_frac sample_surroundings) sample_env = Inr c" "cf_Env c = ''production''"
      "\<not> cf_SeedDemoData c" "cf_OpenLibraryBaseURL c = ''https://openlibrary.org''"
    using sample_config by metis
  have a: "Apply (su_exec sample_surroundings) (su_driver sample_surroundings) (su_files sample_surroundings) False ?st =
      (None, [''0001_init.sql''], \<lparr>st_data = 1, st_ledger = Some [(''0001_init.sql'', ''a'')]\<rparr>)"
    by (simp add: sample_surroundings_def Apply_def ensure_ledger_def read_ledger_def ledger_rows_def run_migration_def)
  have around: "su_connect sample_surroundings u = None" "su_acquire sample_surroundings = None"
      "su_lock sample_surroundings = None"
      "safeBaseURL (su_parse_url sample_surroundings) ''https://openlibrary.org'' = Inr ''https://openlibrary.org''" for u
    by (simp_all add: sample_surroundings_def safeBaseURL_def allowedCatalogueHosts_def trim_right_def)
  let ?z = "\<lparr>sd_config = c, sd_limiter = choose_limiter (su_redis sample_surroundings) c,
      sd_catalogue = ''https://openlibrary.org'', sd_senders = choose_senders (su_keys sample_surroundings) c\<rparr>"
  let ?st' = "\<lparr>st_data = 1, st_ledger = Some [(''0001_init.sql'', ''a'')]\<rparr> :: nat store"
  have run: "startup sample_surroundings sample_env ?st = (Inr ?z, ?st')"
    using c a around by (simp add: startup_def withAdvisoryLock_def)
  from started_server_is_configured [OF run] c(2) have "32 \<le> length (cf_JWTSecret c)" "filter is_console (sd_senders ?z) = []"
    by auto
  with run show ?thesis by (intro exI [of _ ?z] exI [of _ ?st'])
    (simp add: ledger_rows_def)
qed

section \<open>The first administrator\<close>

lemma HashPassword_text:
  "HashPassword lib (Some salt) plain = Inr (''$argon2id$v=19$m=65536,t=1,p=4$'' @ pl_encode lib salt @ CHR ''$'' #
     pl_encode lib (pl_IDKey lib plain salt argonTime argonMemory argonThreads argonKeyLen))"
proof -
  have "decimal argonVersion = ''19''" "decimal argonMemory = ''65536''" "decimal argonTime = ''1''"
    "decimal argonThreads = ''4''"
    by (simp_all add: argonVersion_def argonMemory_def argonTime_def argonThreads_def decimal.simps digit_chars)
  then show ?thesis by (simp add: HashPassword_def)
qed


definition sample_bootstrap :: "(error + string) \<times> db" where
  "sample_bootstrap = bootstrap_run sample_issuer sample_lib no_faults (Some ''abcdefghijklmnopqrstuvwxyz'') (Some ''salt'')
     5 900 ''You@Oau.edu'' ''Your Name'' ''LIB/ADMIN/001'' (sample_db\<lparr>users := []\<rparr>)"

lemma sample_bootstrap_runs: "\<exists>d'. sample_bootstrap = (Inr ''abcdefghijklmnop'', d')"
  by (simp add: sample_bootstrap_def bootstrap_run_def NewOpaqueToken_def sample_issuer_def HashPassword_def
      insert_user_def Let_def admin_count_def count_where_def new_user_def first_admin_def user_ids_def)


section \<open>Durations and a mail provider that is not there\<close>

lemma parse_terms_fits: "parse_terms frac d s = Some n \<Longrightarrow> d \<le> 2 ^ 63 \<Longrightarrow> n \<le> 2 ^ 63"
proof (induction frac d s rule: parse_terms.induct)
  case (1 frac d s)
  show ?case
  proof (cases "s = []")
    case True
    with "1.prems" show ?thesis by (simp add: parse_terms.simps)
  next
    case False
    with "1.prems"(1) obtain v f scale s1 where num: "number_at s = Some (v, f, scale, s1)"
      by (subst (asm) parse_terms.simps) (auto split: option.splits)
    with False "1.prems"(1) obtain u s2 where unit: "unit_at s1 = Some (u, s2)"
      by (subst (asm) parse_terms.simps) (auto split: option.splits)
    let ?w = "v * u + (if 0 < f then frac f scale u else 0)"
    from False "1.prems"(1) num unit have over: "\<not> 2 ^ 63 div u < v" "\<not> (2 ^ 63 < ?w \<or> 2 ^ 63 < (d + ?w) mod 2 ^ 64)"
      and rest: "parse_terms frac ((d + ?w) mod 2 ^ 64) s2 = Some n"
      by (subst (asm) parse_terms.simps, simp add: Let_def split: if_splits)+
    from "1.IH" [OF False num refl refl refl unit refl over(1) refl over(2) rest] over(2) show ?thesis by simp
  qed
qed

text \<open>What ParseDuration returns is a duration of 64 bits.\<close>

lemma ParseDuration_fits:
  assumes "ParseDuration frac s = Some d"
  shows "- (2 ^ 63) \<le> d \<and> d < 2 ^ 63"
proof -
  have "int n \<le> 2 ^ 63" if "parse_terms frac 0 t = Some n" for t n
    using parse_terms_fits [OF that] by simp
  then show ?thesis
    using assms by (auto simp: ParseDuration_def Let_def split: if_splits option.splits)
qed


lemma duration_examples:
  "ParseDuration frac ''15m'' = Some (15 * minute)" "ParseDuration frac ''1h30m'' = Some (hour + 30 * minute)"
  "ParseDuration frac ''-5s'' = Some (- 5 * second)" "ParseDuration frac ''7d'' = None" "ParseDuration frac ''0'' = Some 0"
  by (simp_all add: ParseDuration_def parse_terms.simps number_at_def unit_at_def duration_units_def has_prefix_def
      is_digit_byte_def digit_of_def Let_def durations)

text \<open>A lifetime that is negative is a lifetime: every access token is then expired when it is issued.\<close>

lemma negative_lifetimes_are_accepted:
  "\<exists>c. LoadConfig frac (sample_env(''ACCESS_TOKEN_TTL'' := ''-1h'')) = Inr c \<and> cf_AccessTokenTTL c = - hour"
proof -
  have "\<not> contains (replicate n (CHR ''k'')) ''development-secret''" for n
    by (induction n) (auto simp: has_prefix_def)
  moreover have "ParseDuration frac ''-1h'' = Some (- hour)"
    by (simp add: ParseDuration_def parse_terms.simps number_at_def unit_at_def duration_units_def has_prefix_def
      is_digit_byte_def digit_of_def Let_def durations)
  ultimately show ?thesis
    by (simp add: LoadConfig_def env_duration_def env_or_def sample_env_def check_config_def IsProduction_def)
qed

text \<open>
  In production without a mail key there is no sender for e-mail. The code means the messages to stay
  queued until there is one; but a pass has claimed them before it looks for the sender, and leaves them so.
\<close>

lemma fold_update_None:
  "c \<notin> fst ` set xs \<Longrightarrow> map_of m c = None \<Longrightarrow> map_of (fold (\<lambda>(c, s). AList.update c s) xs m) c = None"
  by (induction xs arbitrary: m) (auto simp: update_conv')

lemma production_without_mail:
  assumes "IsProduction c" and "cf_ResendAPIKey c = []" and "pm_Channel m = ''email''"
    and "StillRelevant (en_plan e (w_ops w)) (pm_Template m) (pm_Payload m) (w_db w) = Inr True"
  shows "w_db (deliver (NewWorker (senders_of tr (choose_senders lib c))) e m w) = w_db w \<and>
    w_log (deliver (NewWorker (senders_of tr (choose_senders lib c))) e m w) = w_log w"
proof -
  have "''email'' \<notin> Channel ` set (choose_senders lib c)"
    using assms(1,2) by (auto simp: Channel_def dest!: choose_senders_provider)
  then have "map_of (wk_senders (NewWorker (senders_of tr (choose_senders lib c)))) ''email'' = None"
    by (simp add: NewWorker_def fold_update_None senders_of_def image_image)
  with assms(3,4) show ?thesis by (simp add: deliver_def on_db_def)
qed

end
