(* ===== verification/Lending_Race.thy ===== *)
theory Lending_Race
  imports Circulation
begin

text \<open>
  Several desks lending at the same time (circulation_repo.go, borrow). A transaction of Postgres at
  its default isolation level, READ COMMITTED, sees at each statement what is committed by then and what
  it has itself written; a row it has written or selected for update it holds until it ends, and another
  transaction that wants the row waits. So the statements of the desks interleave: a desk goes through
  the stages of the code, each one statement on what it then sees. Until it commits it has written the
  status of its copy and nothing else that another statement of a loan reads. No statement fails here;
  the plans of failures are those of the single transaction.
\<close>

section \<open>Stages of a loan\<close>

datatype stage =
    Waiting | Claimed uuid | Shelved uuid | Locked uuid | Allowed uuid | Ended "error + loan"

record desk =
  dk_params :: borrow_params
  dk_self :: bool
  dk_loan :: uuid
  dk_now :: time
  dk_stage :: stage

abbreviation dk_copy :: "desk \<Rightarrow> uuid" where "dk_copy k \<equiv> bp_copy (dk_params k)"
abbreviation dk_user :: "desk \<Rightarrow> uuid" where "dk_user k \<equiv> bp_user (dk_params k)"

definition claim_stage :: "desk \<Rightarrow> uuid \<Rightarrow> db \<Rightarrow> stage" where
  "claim_stage k rid d =
     (case claim_copy (dk_copy k) d of
        Inl e \<Rightarrow> Ended (Inl (explainUnclaimableCopy no_faults (dk_copy k) d))
      | Inr _ \<Rightarrow> Claimed rid)"

text \<open>The last statements and the commit.\<close>

definition issue :: "desk \<Rightarrow> uuid \<Rightarrow> db \<Rightarrow> error + loan \<times> db" where
  "issue k rid d =
     (case insert_loan (dk_loan k) (dk_params k) d of
        Inl e \<Rightarrow> Inl (if isUniqueViolation e ''one_active_loan_per_copy'' then ErrCopyNotAvailable else translate e)
      | Inr (l, d) \<Rightarrow>
          andthen (if rid \<noteq> uuid_nil then sql no_faults 8 (fulfil_reservation rid (dk_user k) d) else Inr ((), d)) (\<lambda>_ d.
          andthen (sql no_faults 9 (recordAudit (bp_issued_by (dk_params k)) (loan_action (dk_self k)) ''loan''
                               (loan_id l) (loan_metadata (dk_self k) l) (dk_now k) d)) (\<lambda>_ d.
          commit no_faults 10 l d)))"

text \<open>The next statement of a desk on the committed database: its stage after it, and what is committed then.\<close>

definition attempt :: "desk \<Rightarrow> db \<Rightarrow> stage \<times> db" where
  "attempt k d =
     (let seen = claimed_db (dk_copy k) d in
      case dk_stage k of
        Waiting \<Rightarrow>
          (case select_head (dk_copy k) d of
             Inr (rid, u) \<Rightarrow> if u \<noteq> dk_user k then (Ended (Inl ErrReservedForOther), d) else (claim_stage k rid d, d)
           | Inl e \<Rightarrow> (claim_stage k uuid_nil d, d))
      | Claimed rid \<Rightarrow>
          (case shelf_counts (dk_copy k) seen of (stock, availableAfter) \<Rightarrow>
             if 2 \<le> stock \<and> availableAfter = 0 then (Ended (Inl ErrLastCopyRetained), d) else (Shelved rid, d))
      | Shelved rid \<Rightarrow> (Locked rid, d)
      | Locked rid \<Rightarrow>
          if bp_max_loans (dk_params k) \<le> int (open_loans_of_user (dk_user k) seen)
          then (Ended (Inl ErrLoanLimitReached), d) else (Allowed rid, d)
      | Allowed rid \<Rightarrow>
          (case issue k rid seen of Inl e \<Rightarrow> (Ended (Inl e), d) | Inr (l, d') \<Rightarrow> (Ended (Inr l), d'))
      | Ended r \<Rightarrow> (Ended r, d))"

section \<open>Locks\<close>

definition holds_copy :: "desk \<Rightarrow> bool" where
  "holds_copy k \<longleftrightarrow> (case dk_stage k of Waiting \<Rightarrow> False | Ended _ \<Rightarrow> False | _ \<Rightarrow> True)"

definition holds_user :: "desk \<Rightarrow> bool" where
  "holds_user k \<longleftrightarrow> (case dk_stage k of Locked _ \<Rightarrow> True | Allowed _ \<Rightarrow> True | _ \<Rightarrow> False)"

definition held_reservation :: "desk \<Rightarrow> uuid" where
  "held_reservation k =
     (case dk_stage k of Claimed rid \<Rightarrow> rid | Shelved rid \<Rightarrow> rid | Locked rid \<Rightarrow> rid | Allowed rid \<Rightarrow> rid | _ \<Rightarrow> uuid_nil)"

definition blocked :: "desk list \<Rightarrow> nat \<Rightarrow> db \<Rightarrow> bool" where
  "blocked ks i d \<longleftrightarrow>
     list_ex (\<lambda>j. j \<noteq> i \<and>
       (case dk_stage (ks ! i) of
          Waiting \<Rightarrow> (holds_copy (ks ! j) \<and> dk_copy (ks ! j) = dk_copy (ks ! i)) \<or>
            (case select_head (dk_copy (ks ! i)) d of Inl _ \<Rightarrow> False | Inr (rid, _) \<Rightarrow> held_reservation (ks ! j) = rid)
        | Shelved _ \<Rightarrow> holds_user (ks ! j) \<and> dk_user (ks ! j) = dk_user (ks ! i)
        | _ \<Rightarrow> False)) [0..<length ks]"

text \<open>One statement of one desk that does not have to wait.\<close>

inductive lending :: "db \<times> desk list \<Rightarrow> db \<times> desk list \<Rightarrow> bool" where
  statement: "i < length ks \<Longrightarrow> \<not> blocked ks i d \<Longrightarrow> attempt (ks ! i) d = (st, d') \<Longrightarrow>
    lending (d, ks) (d', ks[i := (ks ! i)\<lparr>dk_stage := st\<rparr>])"

definition waiting_desk :: "borrow_params \<Rightarrow> bool \<Rightarrow> uuid \<Rightarrow> time \<Rightarrow> desk" where
  "waiting_desk p self nid now = \<lparr>dk_params = p, dk_self = self, dk_loan = nid, dk_now = now, dk_stage = Waiting\<rparr>"

section \<open>One desk alone is the transaction\<close>

fun alone :: "nat \<Rightarrow> desk \<Rightarrow> db \<Rightarrow> desk \<times> db" where
  "alone 0 k d = (k, d)"
| "alone (Suc n) k d = (case attempt k d of (st, d') \<Rightarrow> alone n (k\<lparr>dk_stage := st\<rparr>) d')"

lemma ended_stays: "dk_stage k = Ended r \<Longrightarrow> alone n k d = (k, d)"
  by (induction n) (simp_all add: attempt_def, metis desk.surjective desk.update_convs(5))

lemma borrow_claimed_stages:
  "borrow_claimed no_faults now nid p self rid d =
     (case claim_copy (bp_copy p) d of
        Inl e \<Rightarrow> Inl (if e = NoRows then explainUnclaimableCopy no_faults (bp_copy p) d else translate e)
      | Inr (x, d) \<Rightarrow> (case shelf_counts (bp_copy p) d of (stock, availableAfter) \<Rightarrow>
          if 2 \<le> stock \<and> availableAfter = 0 then Inl ErrLastCopyRetained
          else if bp_max_loans p \<le> int (open_loans_of_user (bp_user p) d) then Inl ErrLoanLimitReached
          else issue \<lparr>dk_params = p, dk_self = self, dk_loan = nid, dk_now = now, dk_stage = Waiting\<rparr> rid d))"
  by (auto simp: borrow_claimed_def issue_def CountActiveLoans_def andthen_def fail_if_def split: sum.splits prod.splits)

lemma claim_copy_error: "claim_copy i d = Inl e \<Longrightarrow> e = NoRows"
  by (auto simp: claim_copy_def split: option.splits)

lemma claim_copy_seen: "claim_copy i d = Inr (x, d') \<Longrightarrow> d' = claimed_db i d"
  by (simp add: claim_copy_Inr claimed_db_def)

lemma issue_stage: "issue (k\<lparr>dk_stage := st\<rparr>) rid d = issue k rid d"
  by (cases k) (simp only: issue_def desk.simps)

lemma alone_claimed:
  assumes "dk_stage k = Claimed rid" and "claim_copy (dk_copy k) d = Inr (x, d1)"
  shows "alone 4 k d =
    (case borrow_claimed no_faults (dk_now k) (dk_loan k) (dk_params k) (dk_self k) rid d of
       Inl e \<Rightarrow> (k\<lparr>dk_stage := Ended (Inl e)\<rparr>, d) | Inr (l, d') \<Rightarrow> (k\<lparr>dk_stage := Ended (Inr l)\<rparr>, d'))"
proof -
  obtain stock av where c: "shelf_counts (dk_copy k) (claimed_db (dk_copy k) d) = (stock, av)" by fastforce
  have i: "issue \<lparr>dk_params = dk_params k, dk_self = dk_self k, dk_loan = dk_loan k, dk_now = dk_now k, dk_stage = Waiting\<rparr> rid v =
      issue k rid v" for v
    by (cases k) (simp only: issue_def desk.simps)
  have four: "alone 4 k d = alone (Suc (Suc (Suc (Suc 0)))) k d" by (simp add: numeral_eq_Suc)
  consider "2 \<le> stock \<and> av = 0"
    | "\<not> (2 \<le> stock \<and> av = 0)" "bp_max_loans (dk_params k) \<le> int (open_loans_of_user (dk_user k) (claimed_db (dk_copy k) d))"
    | "\<not> (2 \<le> stock \<and> av = 0)" "\<not> bp_max_loans (dk_params k) \<le> int (open_loans_of_user (dk_user k) (claimed_db (dk_copy k) d))"
    by blast
  then show ?thesis
  proof cases
    case 3
    then show ?thesis
      using assms c claim_copy_seen [OF assms(2)] unfolding four
      by (cases "issue k rid (claimed_db (dk_copy k) d)")
        (auto simp: attempt_def borrow_claimed_stages i issue_stage split: prod.splits)
  qed (use assms c claim_copy_seen [OF assms(2)] in \<open>auto simp: four attempt_def borrow_claimed_stages\<close>)
qed

text \<open>A desk that works alone does, in at most five statements, what the transaction of the code does.\<close>

lemma alone_is_borrow:
  "alone 5 (waiting_desk p self nid now) d =
    (case borrow no_faults now nid p self d of (r, d') \<Rightarrow> ((waiting_desk p self nid now)\<lparr>dk_stage := Ended r\<rparr>, d'))"
proof -
  let ?k = "waiting_desk p self nid now"
  have five: "alone 5 ?k d = (case attempt ?k d of (st, d') \<Rightarrow> alone 4 (?k\<lparr>dk_stage := st\<rparr>) d')"
  proof -
    have "alone 5 ?k d = alone (Suc 4) ?k d" by simp
    then show ?thesis by (simp only: alone.simps)
  qed
  have claim: "alone 4 (?k\<lparr>dk_stage := claim_stage ?k rid d\<rparr>) d =
      (case transact (borrow_claimed no_faults now nid p self rid) d of (r, d') \<Rightarrow> (?k\<lparr>dk_stage := Ended r\<rparr>, d'))" for rid
  proof (cases "claim_copy (bp_copy p) d")
    case (Inl e)
    with claim_copy_error [OF Inl] show ?thesis
      by (simp add: claim_stage_def ended_stays waiting_desk_def borrow_claimed_stages transact_def)
  next
    case (Inr y)
    obtain x d1 where y: "claim_copy (bp_copy p) d = Inr (x, d1)" using Inr by (cases y) simp
    show ?thesis
      using alone_claimed [of "?k\<lparr>dk_stage := Claimed rid\<rparr>" rid d x d1] y
      by (simp add: claim_stage_def waiting_desk_def transact_def split: sum.splits prod.splits)
  qed
  show ?thesis
  proof (cases "select_head (bp_copy p) d")
    case (Inl e)
    then have "e = NoRows" by (auto simp: select_head_def split: option.splits)
    with Inl claim [of uuid_nil] show ?thesis
      unfolding five by (simp add: attempt_def waiting_desk_def borrow_def borrow_tx_def transact_def ended_stays)
  next
    case (Inr y)
    obtain rid u where y: "y = (rid, u)" by fastforce
    show ?thesis
    proof (cases "u = bp_user p")
      case True
      with Inr y claim [of rid] show ?thesis
        unfolding five by (simp add: attempt_def waiting_desk_def borrow_def borrow_tx_def transact_def ended_stays)
    next
      case False
      with Inr y show ?thesis
        unfolding five by (simp add: attempt_def waiting_desk_def borrow_def borrow_tx_def transact_def ended_stays)
    qed
  qed
qed

section \<open>What holds at every moment\<close>

definition apart :: "(desk \<Rightarrow> bool) \<Rightarrow> (desk \<Rightarrow> uuid) \<Rightarrow> desk list \<Rightarrow> bool" where
  "apart P f ks \<longleftrightarrow> (\<forall>i < length ks. \<forall>j < length ks. i \<noteq> j \<longrightarrow> P (ks ! i) \<longrightarrow> P (ks ! j) \<longrightarrow> f (ks ! i) \<noteq> f (ks ! j))"

lemma apart_update:
  assumes "apart P f ks" and "i < length ks" and "f k = f (ks ! i)"
    and "P k \<Longrightarrow> P (ks ! i) \<or> (\<forall>j < length ks. j \<noteq> i \<longrightarrow> P (ks ! j) \<longrightarrow> f (ks ! j) \<noteq> f (ks ! i))"
  shows "apart P f (ks[i := k])"
  using assms unfolding apart_def by (auto simp: nth_list_update)

definition claim_stands :: "db \<Rightarrow> desk \<Rightarrow> bool" where
  "claim_stands d k \<longleftrightarrow>
     (holds_copy k \<longrightarrow> (\<exists>c \<in> set (copies d). copy_id c = dk_copy k \<and> claimable c)) \<and>
     (case dk_stage k of
        Allowed rid \<Rightarrow> int (open_loans_of_user (dk_user k) d) < bp_max_loans (dk_params k)
      | Ended (Inr l) \<Rightarrow> loan_row_of l \<in> set (loans d)
      | _ \<Rightarrow> True)"

definition desks_ok :: "db \<times> desk list \<Rightarrow> bool" where
  "desks_ok s \<longleftrightarrow> (case s of (d, ks) \<Rightarrow>
     lib_inv d \<and> list_all (claim_stands d) ks \<and> apart holds_copy dk_copy ks \<and> apart holds_user dk_user ks)"

lemma issue_Inr:
  assumes "issue k rid (claimed_db (dk_copy k) d) = Inr (l, d')"
  obtains a d2 where "insert_loan (dk_loan k) (dk_params k) (claimed_db (dk_copy k) d) = Inr (l, d2)"
    and "d' = lent (dk_params k) rid l a d" and "loan_user l = dk_user k" and "loan_copy l = dk_copy k"
    and "loan_returned_at l = None"
proof -
  let ?d1 = "claimed_db (dk_copy k) d"
  from assms obtain d2 d3 where ins: "insert_loan (dk_loan k) (dk_params k) ?d1 = Inr (l, d2)"
    and ful: "(if rid \<noteq> uuid_nil then sql no_faults 8 (fulfil_reservation rid (dk_user k) d2) else Inr ((), d2)) = Inr ((), d3)"
    and aud: "recordAudit (bp_issued_by (dk_params k)) (loan_action (dk_self k)) ''loan'' (loan_id l)
        (loan_metadata (dk_self k) l) (dk_now k) d3 = Inr ((), d')"
    by (auto simp: issue_def andthen_Inr split: sum.splits prod.splits)
  from ful have d3: "d3 = d2\<lparr>reservations := fulfil_upd rid (dk_user k) (reservations d2)\<rparr>"
    by (auto simp: fulfil_reservation_def fulfil_upd_def split: if_splits)
  from ins have l: "loan_user l = dk_user k" "loan_copy l = dk_copy k" "loan_returned_at l = None"
    and d2: "d2 = ?d1\<lparr>loans := loans d @ [loan_row_of l]\<rparr>"
    by (auto elim!: insert_loan_Inr simp: claimed_db_def)
  from aud obtain a where "d' = d3\<lparr>audit_log := audit_log d3 @ [a]\<rparr>" by (auto elim!: recordAudit_InrE)
  then have "d' = lent (dk_params k) rid l a d" by (simp add: d3 d2 lent_def claimed_db_def)
  with ins l show thesis by (intro that [of d2 a]) auto
qed

lemma unblocked:
  assumes "\<not> blocked ks i d" and "j < length ks" and "j \<noteq> i"
  shows "dk_stage (ks ! i) = Waiting \<Longrightarrow> holds_copy (ks ! j) \<Longrightarrow> dk_copy (ks ! j) \<noteq> dk_copy (ks ! i)"
    and "dk_stage (ks ! i) = Shelved rid \<Longrightarrow> holds_user (ks ! j) \<Longrightarrow> dk_user (ks ! j) \<noteq> dk_user (ks ! i)"
  using assms by (force simp: blocked_def list_ex_iff)+

text \<open>A statement that commits nothing.\<close>

lemma quiet_statement:
  assumes "desks_ok (d, ks)" and "i < length ks" and "claim_stands d ((ks ! i)\<lparr>dk_stage := st\<rparr>)"
    and "holds_copy ((ks ! i)\<lparr>dk_stage := st\<rparr>) \<Longrightarrow> holds_copy (ks ! i) \<or>
      (\<forall>j < length ks. j \<noteq> i \<longrightarrow> holds_copy (ks ! j) \<longrightarrow> dk_copy (ks ! j) \<noteq> dk_copy (ks ! i))"
    and "holds_user ((ks ! i)\<lparr>dk_stage := st\<rparr>) \<Longrightarrow> holds_user (ks ! i) \<or>
      (\<forall>j < length ks. j \<noteq> i \<longrightarrow> holds_user (ks ! j) \<longrightarrow> dk_user (ks ! j) \<noteq> dk_user (ks ! i))"
  shows "desks_ok (d, ks[i := (ks ! i)\<lparr>dk_stage := st\<rparr>])"
  using assms set_update_subset_insert [of ks i "(ks ! i)\<lparr>dk_stage := st\<rparr>"]
  by (auto simp: desks_ok_def list_all_iff intro!: apart_update)


text \<open>The statement that commits a loan.\<close>

lemma commit_statement:
  assumes ok: "desks_ok (d, ks)" and i: "i < length ks" "dk_stage (ks ! i) = Allowed rid"
    and "issue (ks ! i) rid (claimed_db (dk_copy (ks ! i)) d) = Inr (l, d')"
  shows "desks_ok (d', ks[i := (ks ! i)\<lparr>dk_stage := Ended (Inr l)\<rparr>])"
proof -
  let ?k = "ks ! i"
  obtain a d2 where ins: "insert_loan (dk_loan ?k) (dk_params ?k) (claimed_db (dk_copy ?k) d) = Inr (l, d2)"
    and d': "d' = lent (dk_params ?k) rid l a d" and l: "loan_user l = dk_user ?k" "loan_copy l = dk_copy ?k"
      "loan_returned_at l = None"
    using issue_Inr [OF assms(4)] by metis
  have k: "?k \<in> set ks" using i(1) by simp
  then have "claim_stands d ?k" using ok by (auto simp: desks_ok_def list_all_iff)
  then obtain c where c: "c \<in> set (copies d)" "copy_id c = dk_copy ?k" "claimable c"
    using i(2) by (auto simp: claim_stands_def holds_copy_def)
  from ok have "lib_inv d" by (simp add: desks_ok_def)
  then have "lib_inv d'" unfolding d' by (rule lent_inv [OF _ c ins])
  moreover have "list_all (claim_stands d') (ks[i := ?k\<lparr>dk_stage := Ended (Inr l)\<rparr>])"
    unfolding list_all_length
  proof (intro allI impI)
    fix j assume "j < length (ks[i := ?k\<lparr>dk_stage := Ended (Inr l)\<rparr>])"
    then have j: "j < length ks" by simp
    show "claim_stands d' (ks[i := ?k\<lparr>dk_stage := Ended (Inr l)\<rparr>] ! j)"
    proof (cases "j = i")
      case True
      with j show ?thesis by (simp add: claim_stands_def holds_copy_def d' lent_def)
    next
      case False
      let ?o = "ks ! j"
      from ok j have st: "claim_stands d ?o" by (auto simp: desks_ok_def list_all_iff)
      have copy: "dk_copy ?o \<noteq> dk_copy ?k" if "holds_copy ?o"
        using ok i j False that by (auto simp: desks_ok_def apart_def holds_copy_def)
      have user: "dk_user ?o \<noteq> dk_user ?k" if "dk_stage ?o = Allowed r" for r
        using ok i j False that by (auto simp: desks_ok_def apart_def holds_user_def)
      have "\<exists>c \<in> set (copies d'). copy_id c = dk_copy ?o \<and> claimable c" if "holds_copy ?o"
      proof -
        from st that obtain x where "x \<in> set (copies d)" "copy_id x = dk_copy ?o" "claimable x"
          by (auto simp: claim_stands_def)
        with copy [OF that] show ?thesis by (force simp: d' lent_def claim_upd_def set_update_where)
      qed
      moreover have "int (open_loans_of_user (dk_user ?o) d') < bp_max_loans (dk_params ?o)" if "dk_stage ?o = Allowed r" for r
        using st that user [OF that] l by (simp add: claim_stands_def d' open_loans_of_user_lent)
      moreover have "loan_row_of m \<in> set (loans d')" if "dk_stage ?o = Ended (Inr m)" for m
        using st that by (simp add: claim_stands_def d' lent_def)
      ultimately show ?thesis using False by (simp add: claim_stands_def split: stage.splits sum.splits)
    qed
  qed
  moreover have "apart holds_copy dk_copy (ks[i := ?k\<lparr>dk_stage := Ended (Inr l)\<rparr>])"
    "apart holds_user dk_user (ks[i := ?k\<lparr>dk_stage := Ended (Inr l)\<rparr>])"
    using ok i(1) by (auto simp: desks_ok_def holds_copy_def holds_user_def intro!: apart_update)
  ultimately show ?thesis by (simp add: desks_ok_def)
qed

lemma claim_stage_cases:
  obtains e where "claim_stage k rid d = Ended (Inl e)"
  | c where "claim_stage k rid d = Claimed rid" "c \<in> set (copies d)" "copy_id c = dk_copy k" "claimable c"
proof (cases "claim_copy (dk_copy k) d")
  case (Inl e)
  then show thesis by (intro that(1)) (simp add: claim_stage_def)
next
  case (Inr y)
  obtain x d1 where y: "claim_copy (dk_copy k) d = Inr (x, d1)" using Inr by (cases y) simp
  then obtain c where "c \<in> set (copies d)" "copy_id c = dk_copy k" "claimable c"
    by (auto simp: claim_copy_Inr dest!: find_SomeD)
  with y show thesis by (intro that(2) [of c]) (simp_all add: claim_stage_def)
qed

lemma lending_ok:
  assumes "desks_ok (d, ks)" and "lending (d, ks) s'"
  shows "desks_ok s'"
proof -
  obtain i st d' where 1: "s' = (d', ks[i := (ks ! i)\<lparr>dk_stage := st\<rparr>])" "i < length ks" "\<not> blocked ks i d"
      "attempt (ks ! i) d = (st, d')"
    using assms(2) by (blast elim: lending.cases)
  let ?k = "ks ! i"
  have st: "claim_stands d ?k" using assms(1) 1(2) by (auto simp: desks_ok_def list_all_iff)
  note quiet = quiet_statement [OF assms(1) 1(2)] and un = unblocked [OF 1(3)]
  have refuse: "desks_ok (d, ks[i := ?k\<lparr>dk_stage := Ended (Inl e)\<rparr>])" for e
    by (rule quiet) (simp_all add: claim_stands_def holds_copy_def holds_user_def)
  show ?thesis
  proof (cases "dk_stage ?k")
    case Waiting
    have claim: "desks_ok (d, ks[i := ?k\<lparr>dk_stage := claim_stage ?k rid d\<rparr>])" for rid
    proof (cases rule: claim_stage_cases [of ?k rid d])
      case (1 e)
      then show ?thesis using refuse [of e] by simp
    next
      case (2 c)
      then show ?thesis using un(1) Waiting
        by (intro quiet) (auto simp: claim_stands_def holds_copy_def holds_user_def)
    qed
    with 1 Waiting refuse show ?thesis
      by (auto simp: attempt_def split: sum.splits prod.splits if_splits)
  next
    case (Claimed rid)
    have "desks_ok (d, ks[i := ?k\<lparr>dk_stage := Shelved rid\<rparr>])"
      using st Claimed by (intro quiet) (auto simp: claim_stands_def holds_copy_def holds_user_def)
    with 1 Claimed refuse show ?thesis by (auto simp: attempt_def Let_def split: prod.splits if_splits)
  next
    case (Shelved rid)
    have "desks_ok (d, ks[i := ?k\<lparr>dk_stage := Locked rid\<rparr>])"
      using st Shelved un(2) by (intro quiet) (auto simp: claim_stands_def holds_copy_def holds_user_def)
    with 1 Shelved show ?thesis by (auto simp: attempt_def Let_def)
  next
    case (Locked rid)
    have "desks_ok (d, ks[i := ?k\<lparr>dk_stage := Allowed rid\<rparr>])"
      if "\<not> bp_max_loans (dk_params ?k) \<le> int (open_loans_of_user (dk_user ?k) d)"
      using st Locked that by (intro quiet) (auto simp: claim_stands_def holds_copy_def holds_user_def)
    moreover have "open_loans_of_user u (claimed_db i d) = open_loans_of_user u d" for u i
      by (simp add: open_loans_of_user_def)
    ultimately show ?thesis using 1 Locked refuse by (auto simp: attempt_def Let_def split: if_splits)
  next
    case (Allowed rid)
    with 1 refuse show ?thesis
      by (auto simp: attempt_def Let_def split: sum.splits prod.splits intro: commit_statement [OF assms(1) 1(2)])
  next
    case (Ended r)
    with 1 have "s' = (d, ks[i := ?k\<lparr>dk_stage := Ended r\<rparr>])" by (simp add: attempt_def)
    also have "?k\<lparr>dk_stage := Ended r\<rparr> = ?k" using Ended by (metis desk.surjective desk.update_convs(5))
    finally show ?thesis using assms(1) by simp
  qed
qed

lemma lending_run_ok: "lending\<^sup>*\<^sup>* s s' \<Longrightarrow> desks_ok s \<Longrightarrow> desks_ok s'"
  by (induction rule: rtranclp_induct) (auto intro: lending_ok)

lemma attempt_commits:
  assumes "attempt k d = (st, d')"
  obtains "d' = d" | rid l where "dk_stage k = Allowed rid" "issue k rid (claimed_db (dk_copy k) d) = Inr (l, d')"
  using assms by (auto simp: attempt_def Let_def split: stage.splits sum.splits prod.splits if_splits)

lemma lending_limit:
  assumes "desks_ok (d, ks)" and "lending (d, ks) (d', ks')"
    and "\<And>k. k \<in> set ks \<Longrightarrow> dk_user k = u \<Longrightarrow> bp_max_loans (dk_params k) \<le> L"
    and "int (open_loans_of_user u d) \<le> L"
  shows "int (open_loans_of_user u d') \<le> L" and "map dk_params ks' = map dk_params ks"
proof -
  obtain i st where 1: "ks' = ks[i := (ks ! i)\<lparr>dk_stage := st\<rparr>]" "i < length ks" "attempt (ks ! i) d = (st, d')"
    using assms(2) by (blast elim: lending.cases)
  show "map dk_params ks' = map dk_params ks"
    using 1(1,2) by (simp add: map_update list_update_same_conv)
  show "int (open_loans_of_user u d') \<le> L"
    using 1(3)
  proof (cases rule: attempt_commits)
    case (2 rid l)
    let ?k = "ks ! i"
    obtain a where d': "d' = lent (dk_params ?k) rid l a d" "loan_user l = dk_user ?k" "loan_returned_at l = None"
      using issue_Inr [OF 2(2)] by metis
    from assms(1) 1(2) have "claim_stands d ?k" by (auto simp: desks_ok_def list_all_iff)
    with 2(1) have "int (open_loans_of_user (dk_user ?k) d) < bp_max_loans (dk_params ?k)" by (simp add: claim_stands_def)
    moreover have "bp_max_loans (dk_params ?k) \<le> L" if "dk_user ?k = u" using assms(3) [of ?k] 1(2) that by simp
    ultimately show ?thesis using assms(4) by (auto simp: d' open_loans_of_user_lent)
  qed (use assms(4) in simp)
qed

lemma lending_run_limit:
  assumes "lending\<^sup>*\<^sup>* s s'" and "desks_ok s" and "\<And>p. p \<in> dk_params ` set (snd s) \<Longrightarrow> bp_user p = u \<Longrightarrow> bp_max_loans p \<le> L"
    and "int (open_loans_of_user u (fst s)) \<le> L"
  shows "int (open_loans_of_user u (fst s')) \<le> L \<and> map dk_params (snd s') = map dk_params (snd s)"
  using assms(1)
proof (induction rule: rtranclp_induct)
  case base
  show ?case using assms(4) by simp
next
  case (step t t')
  have "dk_params ` set (snd t) = dk_params ` set (snd s)" using step.IH by (metis set_map)
  then have "bp_max_loans (dk_params k) \<le> L" if "k \<in> set (snd t)" "dk_user k = u" for k
    using assms(3) that by blast
  with lending_limit [of "fst t" "snd t" "fst t'" "snd t'" u L] lending_run_ok [OF step.hyps(1) assms(2)] step
  show ?case by simp
qed

text \<open>C6: however the statements of any number of desks interleave, each statement seeing what the others
  have committed by then and waiting for the rows they hold, the library stays sound: no copy is out
  twice, the loan of every desk that was told it lent is recorded, and no member has more loans open
  than the limit his desks ask for, if he did not before.\<close>

theorem desks_lend_within_the_rules:
  assumes "lending\<^sup>*\<^sup>* (d, ks) (d', ks')" and "lib_inv d" and "filter (\<lambda>k. dk_stage k \<noteq> Waiting) ks = []"
    and "filter (\<lambda>k. dk_user k = u \<and> L < bp_max_loans (dk_params k)) ks = []" and "int (open_loans_of_user u d) \<le> L"
  shows "lib_inv d' \<and> open_loans_of_copy c d' \<le> 1 \<and> int (open_loans_of_user u d') \<le> L \<and>
    (\<forall>k l. k \<in> set ks' \<and> dk_stage k = Ended (Inr l) \<longrightarrow> loan_row_of l \<in> set (loans d'))"
proof -
  have start: "desks_ok (d, ks)"
    using assms(2,3) by (auto simp: desks_ok_def list_all_iff claim_stands_def apart_def holds_copy_def holds_user_def
        filter_empty_conv)
  have ok: "desks_ok (d', ks')" by (rule lending_run_ok [OF assms(1) start])
  then have "lib_inv d'" by (simp add: desks_ok_def)
  moreover have "open_loans_of_copy c d' \<le> 1" by (rule lib_inv_one_open_loan [OF \<open>lib_inv d'\<close>])
  moreover have "int (open_loans_of_user u d') \<le> L"
    using lending_run_limit [OF assms(1) start, of u L] assms(4,5) by (auto simp: filter_empty_conv not_less)
  moreover have "loan_row_of l \<in> set (loans d')" if "k \<in> set ks'" "dk_stage k = Ended (Inr l)" for k l
    using ok that by (auto simp: desks_ok_def list_all_iff claim_stands_def)
  ultimately show ?thesis by blast
qed

section \<open>The last copy on the shelf\<close>

text \<open>Two desks with different copies, each told nothing about the other.\<close>

lemma step_first:
  "attempt k d = (st, d') \<Longrightarrow> \<not> blocked [k, k'] 0 d \<Longrightarrow> lending (d, [k, k']) (d', [k\<lparr>dk_stage := st\<rparr>, k'])"
  using lending.statement [of 0 "[k, k']" d st d'] by simp

lemma step_second:
  "attempt k' d = (st, d') \<Longrightarrow> \<not> blocked [k, k'] (Suc 0) d \<Longrightarrow> lending (d, [k, k']) (d', [k, k'\<lparr>dk_stage := st\<rparr>])"
  using lending.statement [of "Suc 0" "[k, k']" d st d'] by simp

lemma blocked_two:
  "blocked [k, k'] 0 d \<longleftrightarrow>
     (case dk_stage k of
        Waiting \<Rightarrow> (holds_copy k' \<and> dk_copy k' = dk_copy k) \<or>
          (case select_head (dk_copy k) d of Inl _ \<Rightarrow> False | Inr (rid, _) \<Rightarrow> held_reservation k' = rid)
      | Shelved _ \<Rightarrow> holds_user k' \<and> dk_user k' = dk_user k
      | _ \<Rightarrow> False)"
  "blocked [k, k'] (Suc 0) d \<longleftrightarrow>
     (case dk_stage k' of
        Waiting \<Rightarrow> (holds_copy k \<and> dk_copy k = dk_copy k') \<or>
          (case select_head (dk_copy k') d of Inl _ \<Rightarrow> False | Inr (rid, _) \<Rightarrow> held_reservation k = rid)
      | Shelved _ \<Rightarrow> holds_user k \<and> dk_user k = dk_user k'
      | _ \<Rightarrow> False)"
  by (simp_all add: blocked_def upt_rec split: stage.split sum.split prod.split)

lemma copies_lent: "copies (lent p rid l a d) = copies (claimed_db (bp_copy p) d)"
  by (simp add: lent_def claimed_db_def)

lemma available_lent:
  assumes "keys_ok d" and "c \<in> set (copies d)" and "claimable c" and "copy_id c = bp_copy p"
  shows "Suc (available_of_book (copy_book c) (lent p rid l a d)) = available_of_book (copy_book c) d"
    and "stock_of_book b (lent p rid l a d) = stock_of_book b d"
  using available_claimed [OF assms(1-3)] stock_claimed [of b "bp_copy p" d]
  by (simp_all add: assms(4) available_of_book_def stock_of_book_def copies_lent)

lemma issue_ok:
  assumes "lib_inv d" and "sound_request (dk_loan k) (dk_params k) d" and "find_copy_row (dk_copy k) d = Some c"
    and "claimable c"
  obtains l a where "issue k uuid_nil (claimed_db (dk_copy k) d) = Inr (l, lent (dk_params k) uuid_nil l a d)"
    and "lib_inv (lent (dk_params k) uuid_nil l a d)" and "loan_id l = dk_loan k" and "loan_user l = dk_user k"
    and "loan_returned_at l = None"
proof -
  obtain l where ins: "insert_loan (dk_loan k) (dk_params k) (claimed_db (dk_copy k) d) =
      Inr (l, (claimed_db (dk_copy k) d)\<lparr>loans := loans d @ [loan_row_of l]\<rparr>)" "loan_id l = dk_loan k"
    using insert_loan_ok [OF assms(1,2,3,4)] by metis
  from assms(2) have "find_user_row (bp_issued_by (dk_params k)) ((claimed_db (dk_copy k) d)\<lparr>loans := x\<rparr>) \<noteq> None" for x
    by (simp add: find_user_row_None sound_request_def user_ids_def claimed_db_def)
  then obtain r where "issue k uuid_nil (claimed_db (dk_copy k) d) = Inr (l, r)"
    using ins(1) by (simp add: issue_def recordAudit_def commit_def)
  with issue_Inr [OF this] obtain a where r: "issue k uuid_nil (claimed_db (dk_copy k) d) =
      Inr (l, lent (dk_params k) uuid_nil l a d)" "loan_user l = dk_user k" "loan_returned_at l = None"
    by metis
  have "c \<in> set (copies d)" "copy_id c = dk_copy k" using assms(3) by (auto dest: find_rowD)
  from lent_inv [OF assms(1) this assms(4) ins(1)] r ins(2) show thesis by (intro that)
qed

lemma loans_seen: "open_loans_of_user u (claimed_db i d) = open_loans_of_user u d"
  by (simp add: open_loans_of_user_def)

lemmas stages = attempt_def waiting_desk_def claim_stage_def loans_seen blocked_two holds_copy_def holds_user_def

text \<open>Both desks claim, both count while neither has committed, and the first goes on to its commit.\<close>

lemma both_count:
  assumes "claim_copy (bp_copy p) d = Inr x" and "claim_copy (bp_copy q) d = Inr y" and "bp_copy p \<noteq> bp_copy q"
    and "shelf_counts (bp_copy p) (claimed_db (bp_copy p) d) = (s, 1)" and "shelf_counts (bp_copy q) (claimed_db (bp_copy q) d) = (s, 1)"
    and "select_head (bp_copy p) d = Inl NoRows" and "select_head (bp_copy q) d = Inl NoRows"
    and "int (open_loans_of_user (bp_user p) d) < bp_max_loans p"
  shows "lending\<^sup>*\<^sup>* (d, [waiting_desk p False n t, waiting_desk q False m t'])
    (d, [(waiting_desk p False n t)\<lparr>dk_stage := Allowed uuid_nil\<rparr>, (waiting_desk q False m t')\<lparr>dk_stage := Shelved uuid_nil\<rparr>])"
proof -
  let ?A = "waiting_desk p False n t" and ?B = "waiting_desk q False m t'"
  let ?a = "\<lambda>s. ?A\<lparr>dk_stage := s\<rparr>" and ?z = "\<lambda>s. ?B\<lparr>dk_stage := s\<rparr>"
  note sim = stages assms(1-2,4-7)
  have "lending (d, [?A, ?B]) (d, [?a (Claimed uuid_nil), ?B])" by (rule step_first) (simp_all add: sim)
  moreover have "lending (d, [?a (Claimed uuid_nil), ?B]) (d, [?a (Claimed uuid_nil), ?z (Claimed uuid_nil)])"
    by (rule step_second) (use assms(3) in \<open>simp_all add: sim\<close>)
  moreover have "lending (d, [?a (Claimed uuid_nil), ?z (Claimed uuid_nil)]) (d, [?a (Shelved uuid_nil), ?z (Claimed uuid_nil)])"
    using step_first [of "?a (Claimed uuid_nil)" d "Shelved uuid_nil" d] by (simp add: sim)
  moreover have "lending (d, [?a (Shelved uuid_nil), ?z (Claimed uuid_nil)]) (d, [?a (Shelved uuid_nil), ?z (Shelved uuid_nil)])"
    using step_second [of "?z (Claimed uuid_nil)" d "Shelved uuid_nil" d] by (simp add: sim)
  moreover have "lending (d, [?a (Shelved uuid_nil), ?z (Shelved uuid_nil)]) (d, [?a (Locked uuid_nil), ?z (Shelved uuid_nil)])"
    using step_first [of "?a (Shelved uuid_nil)" d "Locked uuid_nil" d] by (simp add: sim)
  moreover have "lending (d, [?a (Locked uuid_nil), ?z (Shelved uuid_nil)]) (d, [?a (Allowed uuid_nil), ?z (Shelved uuid_nil)])"
    using step_first [of "?a (Locked uuid_nil)" d "Allowed uuid_nil" d] assms(8) by (simp add: sim)
  ultimately show ?thesis by (meson rtranclp.rtrancl_refl rtranclp.rtrancl_into_rtrancl)
qed

lemma both_commit:
  assumes "issue (waiting_desk p False n t) uuid_nil (claimed_db (bp_copy p) d) = Inr (l, d1)"
    and "issue (waiting_desk q False m t') uuid_nil (claimed_db (bp_copy q) d1) = Inr (l', d2)"
    and "int (open_loans_of_user (bp_user q) d1) < bp_max_loans q"
  shows "lending\<^sup>*\<^sup>*
    (d, [(waiting_desk p False n t)\<lparr>dk_stage := Allowed uuid_nil\<rparr>, (waiting_desk q False m t')\<lparr>dk_stage := Shelved uuid_nil\<rparr>])
    (d2, [(waiting_desk p False n t)\<lparr>dk_stage := Ended (Inr l)\<rparr>, (waiting_desk q False m t')\<lparr>dk_stage := Ended (Inr l')\<rparr>])"
proof -
  let ?a = "\<lambda>s. (waiting_desk p False n t)\<lparr>dk_stage := s\<rparr>" and ?z = "\<lambda>s. (waiting_desk q False m t')\<lparr>dk_stage := s\<rparr>"
  have staged: "issue \<lparr>dk_params = p, dk_self = False, dk_loan = n, dk_now = t, dk_stage = s\<rparr> uuid_nil (claimed_db (bp_copy p) d) = Inr (l, d1)"
    "issue \<lparr>dk_params = q, dk_self = False, dk_loan = m, dk_now = t', dk_stage = s\<rparr> uuid_nil (claimed_db (bp_copy q) d1) = Inr (l', d2)" for s
    using assms(1,2) unfolding waiting_desk_def issue_def desk.simps by blast+
  have "lending (d, [?a (Allowed uuid_nil), ?z (Shelved uuid_nil)]) (d1, [?a (Ended (Inr l)), ?z (Shelved uuid_nil)])"
    using step_first [of "?a (Allowed uuid_nil)" d "Ended (Inr l)" d1] by (simp add: stages staged)
  moreover have "lending (d1, [?a (Ended (Inr l)), ?z (Shelved uuid_nil)]) (d1, [?a (Ended (Inr l)), ?z (Locked uuid_nil)])"
    using step_second [of "?z (Shelved uuid_nil)" d1 "Locked uuid_nil" d1] by (simp add: stages)
  moreover have "lending (d1, [?a (Ended (Inr l)), ?z (Locked uuid_nil)]) (d1, [?a (Ended (Inr l)), ?z (Allowed uuid_nil)])"
    using step_second [of "?z (Locked uuid_nil)" d1 "Allowed uuid_nil" d1] assms(3) by (simp add: stages)
  moreover have "lending (d1, [?a (Ended (Inr l)), ?z (Allowed uuid_nil)]) (d2, [?a (Ended (Inr l)), ?z (Ended (Inr l'))])"
    using step_second [of "?z (Allowed uuid_nil)" d1 "Ended (Inr l')" d2] by (simp add: stages staged)
  ultimately show ?thesis by (meson rtranclp.rtrancl_refl rtranclp.rtrancl_into_rtrancl)
qed

text \<open>C7: the last copy on the shelf is not kept when two desks lend at once. The code counts the copies left
  inside the transaction, after claiming, so that two librarians cannot both take the last two; but at
  READ COMMITTED neither count sees the other's claim. From every sound library in which exactly two
  copies of a title can be lent and nobody waits for it, two desks serving two members in good standing
  with one copy each can both succeed, leaving no copy on the shelf of a title that keeps one; one
  after the other, the second is refused.\<close>

theorem last_copy_race:
  assumes "lib_inv d"
    and "find_copy_row (bp_copy p) d = Some c" and "claimable c" and "find_copy_row (bp_copy q) d = Some c'" and "claimable c'"
    and "copy_book c' = copy_book c" and "bp_copy p \<noteq> bp_copy q" and "available_of_book (copy_book c) d = 2"
    and "head_reservation (bp_copy p) d = None" and "head_reservation (bp_copy q) d = None"
    and "sound_request n p d" and "sound_request m q d" and "n \<noteq> m" and "bp_user p \<noteq> bp_user q"
    and "int (open_loans_of_user (bp_user p) d) < bp_max_loans p" and "int (open_loans_of_user (bp_user q) d) < bp_max_loans q"
  shows "\<exists>d' l l'. lending\<^sup>*\<^sup>* (d, [waiting_desk p False n t, waiting_desk q False m t'])
      (d', [(waiting_desk p False n t)\<lparr>dk_stage := Ended (Inr l)\<rparr>, (waiting_desk q False m t')\<lparr>dk_stage := Ended (Inr l')\<rparr>]) \<and>
    lib_inv d' \<and> 2 \<le> stock_of_book (copy_book c) d' \<and> available_of_book (copy_book c) d' = 0 \<and>
    fst (borrow no_faults t' m q False (snd (borrow no_faults t n p False d))) = Inl ErrLastCopyRetained"
proof -
  let ?A = "waiting_desk p False n t" and ?B = "waiting_desk q False m t'" and ?b = "copy_book c"
  have k: "keys_ok d" using assms(1) by blast
  have c: "c \<in> set (copies d)" "copy_id c = bp_copy p" "c' \<in> set (copies d)" "copy_id c' = bp_copy q"
    using assms(2,4) by (auto dest: find_rowD)
  have claim: "claim_copy (bp_copy p) d = Inr (bp_copy p, claimed_db (bp_copy p) d)"
    "claim_copy (bp_copy q) d = Inr (bp_copy q, claimed_db (bp_copy q) d)"
    using claim_copy_ok [OF k] assms(2-5) by auto
  have counts: "shelf_counts (bp_copy p) (claimed_db (bp_copy p) d) = (stock_of_book ?b d, 1)"
    "shelf_counts (bp_copy q) (claimed_db (bp_copy q) d) = (stock_of_book ?b d, 1)"
    using shelf_counts_claimed [OF k c(1) assms(3)] shelf_counts_claimed [OF k c(3) assms(5)] c assms(6,8) by auto
  have head: "select_head (bp_copy p) d = Inl NoRows" "select_head (bp_copy q) d = Inl NoRows"
    using assms(9,10) by (simp_all add: select_head_def)
  obtain l a where l: "issue ?A uuid_nil (claimed_db (bp_copy p) d) = Inr (l, lent p uuid_nil l a d)"
      "lib_inv (lent p uuid_nil l a d)" "loan_id l = n" "loan_user l = bp_user p" "loan_returned_at l = None"
    by (rule issue_ok [of d ?A c]) (use assms in \<open>auto simp: waiting_desk_def\<close>)
  define d1 where "d1 = lent p uuid_nil l a d"
  note l = l [folded d1_def]
  have k1: "keys_ok d1" using l(2) by blast
  have c1: "c' \<in> set (copies d1)" using c assms(7) by (force simp: d1_def lent_def claim_upd_def set_update_where)
  have find1: "find_copy_row (bp_copy q) d1 = Some c'" using find_copy_row_key [OF k1 c1] c(4) by simp
  have req1: "sound_request m q d1"
    using assms(12,13) l(3) by (auto simp: sound_request_def d1_def lent_def loan_row_of_def id_sets)
  have user1: "int (open_loans_of_user (bp_user q) d1) < bp_max_loans q"
    using l(4,5) assms(14,16) by (simp add: d1_def open_loans_of_user_lent)
  obtain l' a' where l': "issue ?B uuid_nil (claimed_db (bp_copy q) d1) = Inr (l', lent q uuid_nil l' a' d1)"
      "lib_inv (lent q uuid_nil l' a' d1)"
    by (rule issue_ok [of d1 ?B c']) (use l(2) req1 find1 assms(5) in \<open>auto simp: waiting_desk_def\<close>)
  define d2 where "d2 = lent q uuid_nil l' a' d1"
  note l' = l' [folded d2_def]
  have left1: "available_of_book ?b d1 = 1" "stock_of_book ?b d1 = stock_of_book ?b d"
    using available_lent [OF k c(1) assms(3) c(2), where rid = uuid_nil and l = l and a = a] assms(8) by (simp_all add: d1_def)
  have left2: "available_of_book ?b d2 = 0" "stock_of_book ?b d2 = stock_of_book ?b d"
    using available_lent [OF k1 c1 assms(5) c(4), where rid = uuid_nil and l = l' and a = a'] assms(6) left1 by (simp_all add: d2_def)
  have two: "2 \<le> stock_of_book ?b d"
    using count_where_mono [of "copies d" "\<lambda>x. copy_book x = ?b \<and> circulating x \<and> copy_status x = CopyAvailable"
        "\<lambda>x. copy_book x = ?b \<and> circulating x \<and> (copy_status x = CopyAvailable \<or> copy_status x = CopyOnLoan)"] assms(8)
    by (simp add: stock_of_book_def available_of_book_def)
  have run: "lending\<^sup>*\<^sup>* (d, [?A, ?B]) (d2, [?A\<lparr>dk_stage := Ended (Inr l)\<rparr>, ?B\<lparr>dk_stage := Ended (Inr l')\<rparr>])"
    by (rule rtranclp_trans [OF both_count [OF claim assms(7) counts head assms(15)] both_commit [OF l(1) l'(1) user1]])
  have first: "borrow no_faults t n p False d = (Inr l, d1)"
    using l(1) counts(1) assms(15)
    by (simp add: borrow_def borrow_tx_def head borrow_claimed_stages claim loans_seen waiting_desk_def transact_def)
  have "waits_for (bp_copy q) d1 = waits_for (bp_copy q) d"
    using find1 assms(4) by (simp add: fun_eq_iff waits_for_def book_of_copy_def)
  moreover have "reservations d1 = reservations d" by (simp add: d1_def lent_def fulfil_upd_def)
  ultimately have "head_reservation (bp_copy q) d1 = head_reservation (bp_copy q) d" by (simp add: head_reservation_def)
  then have "borrow_verdict q d1 = Some ErrLastCopyRetained"
    using assms(5,6,10) find1 left1 two
    by (simp add: borrow_verdict_def claimable_def IsBorrowable_def BorrowableCount_def)
  with borrow_tx_decides [OF l(2) req1, of t' False] have "fst (borrow no_faults t' m q False d1) = Inl ErrLastCopyRetained"
    by (simp add: borrow_def transact_def)
  with run left2 two l'(2) show ?thesis unfolding first by (intro exI [of _ d2] exI [of _ l] exI [of _ l']) simp
qed

section \<open>Witnesses\<close>

definition race_request :: "uuid \<Rightarrow> uuid \<Rightarrow> borrow_params" where
  "race_request c u = \<lparr>bp_copy = c, bp_user = u, bp_issued_by = 1, bp_borrowed_at = 0, bp_due_at = 14 * day, bp_max_loans = 4\<rparr>"

lemma race_facts:
  "find_copy_row 11 sample_db = Some (sample_copy 11 10 ''A11'' CopyAvailable)"
  "find_copy_row 12 sample_db = Some (sample_copy 12 10 ''A12'' CopyAvailable)"
  "available_of_book 10 sample_db = 2" "head_reservation 11 sample_db = None" "head_reservation 12 sample_db = None"
  "sound_request 500 (race_request 11 2) sample_db" "sound_request 501 (race_request 12 3) sample_db"
  "open_loans_of_user 2 sample_db = 0" "open_loans_of_user 3 sample_db = 2"
  by (simp_all add: find_copy_row_def available_of_book_def circulating_def head_reservation_def first_by_def waits_for_def
      book_of_copy_def sound_request_def race_request_def id_sets open_loans_of_user_def open_loan_def)

theorem last_copy_race_witness:
  "\<exists>d' ks'. lending\<^sup>*\<^sup>* (sample_db, [waiting_desk (race_request 11 2) False 500 0, waiting_desk (race_request 12 3) False 501 0]) (d', ks') \<and>
     available_of_book 10 d' = 0 \<and> 2 \<le> stock_of_book 10 d'"
proof -
  have r: "bp_copy (race_request c u) = c" "bp_user (race_request c u) = u" "bp_max_loans (race_request c u) = 4" for c u
    by (simp_all add: race_request_def)
  have b: "copy_book (sample_copy 11 10 ''A11'' CopyAvailable) = 10" by simp
  from last_copy_race [OF sample_inv, of "race_request 11 2" "sample_copy 11 10 ''A11'' CopyAvailable" "race_request 12 3"
      "sample_copy 12 10 ''A12'' CopyAvailable" 500 501 0 0] race_facts
  show ?thesis unfolding r b by (auto simp: claimable_def)
qed

theorem desks_lend_within_the_rules_witness:
  "\<exists>d' ks'. lending (sample_db, [waiting_desk (race_request 11 2) False 500 0]) (d', ks') \<and>
     lib_inv d' \<and> open_loans_of_copy 13 d' \<le> 1 \<and> int (open_loans_of_user 3 d') \<le> 4"
proof -
  let ?ks = "[waiting_desk (race_request 11 2) False 500 0]"
  obtain st d' where "attempt (?ks ! 0) sample_db = (st, d')" by fastforce
  then have step: "lending (sample_db, ?ks) (d', ?ks[0 := (?ks ! 0)\<lparr>dk_stage := st\<rparr>])"
    by (intro lending.statement) (simp_all add: blocked_def)
  then have "lending\<^sup>*\<^sup>* (sample_db, ?ks) (d', ?ks[0 := (?ks ! 0)\<lparr>dk_stage := st\<rparr>])" by simp
  from desks_lend_within_the_rules [OF this sample_inv, of 3 4 13] race_facts(9) step
  show ?thesis by (auto simp: waiting_desk_def race_request_def)
qed

end
