(* ===== verification/Simulator.thy ===== *)
theory Simulator
  imports Open_Library Providers "HOL-Library.Monad_Syntax"
begin

text \<open>
  The activity simulator (internal/simulator, cmd/simulator): a client that signs in as a librarian,
  stocks the catalogue, registers synthetic borrowers, lends and takes back at random, and grades what it
  saw. The deployment it drives is a function from the exchanges so far and the next request to an
  answer; the decoding of an answer's data into the struct of each call belongs to encoding/json and is a
  parameter, as are floating point arithmetic and the random source. None is a panic of the program.
\<close>

section \<open>Chance\<close>

record ('f, 'g) chance =
  ch_of :: "nat \<Rightarrow> 'f"
  ch_add :: "'f \<Rightarrow> 'f \<Rightarrow> 'f"
  ch_sub :: "'f \<Rightarrow> 'f \<Rightarrow> 'f"
  ch_mul :: "'f \<Rightarrow> 'f \<Rightarrow> 'f"
  ch_div :: "'f \<Rightarrow> 'f \<Rightarrow> 'f"
  ch_pow :: "'f \<Rightarrow> 'f \<Rightarrow> 'f"
  ch_le :: "'f \<Rightarrow> 'f \<Rightarrow> bool"
  ch_less :: "'f \<Rightarrow> 'f \<Rightarrow> bool"
  ch_Float64 :: "'g \<Rightarrow> 'f \<times> 'g"
  ch_Intn :: "nat \<Rightarrow> 'g \<Rightarrow> nat \<times> 'g"

text \<open>
  Intn panics where there is nothing to choose from, and is below its bound: a source that keeps to
  that is not changed by the remainder.
\<close>

definition Intn :: "('f, 'g) chance \<Rightarrow> nat \<Rightarrow> 'g \<Rightarrow> (nat \<times> 'g) option" where
  "Intn ch n g = (if n = 0 then None else case ch_Intn ch n g of (k, g) \<Rightarrow> Some (k mod n, g))"

definition total_weight :: "('f, 'g) chance \<Rightarrow> ('a \<Rightarrow> 'f) \<Rightarrow> 'a list \<Rightarrow> 'f" where
  "total_weight ch w items = foldl (\<lambda>t it. ch_add ch t (w it)) (ch_of ch 0) items"

text \<open>The loop that takes the weights off the roll, to the first item that uses it up.\<close>

fun roll_over :: "('f, 'g) chance \<Rightarrow> ('a \<Rightarrow> 'f) \<Rightarrow> 'f \<Rightarrow> 'a list \<Rightarrow> 'a option" where
  "roll_over ch w roll [] = None"
| "roll_over ch w roll (it # items) =
     (let roll = ch_sub ch roll (w it)
      in if ch_le ch roll (ch_of ch 0) then Some it else roll_over ch w roll items)"

definition pick_weighted :: "('f, 'g) chance \<Rightarrow> 'a list \<Rightarrow> ('a \<Rightarrow> 'f) \<Rightarrow> 'g \<Rightarrow> ('a \<times> 'g) option" where
  "pick_weighted ch items w g =
     (case ch_Float64 ch g of (x, g) \<Rightarrow>
        case roll_over ch w (ch_mul ch x (total_weight ch w items)) items of
          Some it \<Rightarrow> Some (it, g)
        | None \<Rightarrow> if items = [] then None else Some (List.last items, g))"

definition zipf_weight :: "('f, 'g) chance \<Rightarrow> 'f \<Rightarrow> nat \<Rightarrow> 'f" where
  "zipf_weight ch e i = ch_div ch (ch_of ch 1) (ch_pow ch (ch_of ch i) e)"

definition ZipfIndex :: "('f, 'g) chance \<Rightarrow> nat \<Rightarrow> 'f \<Rightarrow> 'g \<Rightarrow> nat \<times> 'g" where
  "ZipfIndex ch n e g =
     (if n \<le> 1 then (0, g)
      else case ch_Float64 ch g of (x, g) \<Rightarrow>
        case roll_over ch (zipf_weight ch e) (ch_mul ch x (total_weight ch (zipf_weight ch e) [1..<Suc n])) [1..<Suc n] of
          Some i \<Rightarrow> (i - 1, g)
        | None \<Rightarrow> (n - 1, g))"

section \<open>The behaviour model\<close>

record 'f archetype =
  at_Name :: string
  at_Weight :: 'f
  at_Category :: string
  at_BorrowRate :: 'f
  at_ReturnRate :: 'f
  at_ReserveRate :: 'f
  at_OverdueTendency :: 'f

record 'f behaviour =
  be_Subjects :: "(string \<times> string \<times> 'f) list"
  be_CopiesPerTitle :: "(int \<times> 'f) list"
  be_LoanPolicy :: "(string \<times> 'f) list"
  be_Archetypes :: "'f archetype list"
  be_Given :: "string list"
  be_Family :: "string list"
  be_Departments :: "string list"
  be_Levels :: "string list"
  be_ZipfExponent :: 'f
  be_MaxNewTitles :: int
  be_MaxNewMembers :: int
  be_MaxActions :: int

definition LoadModel :: "string + 'f behaviour \<Rightarrow> string + 'f behaviour" where
  "LoadModel embedded =
     (case embedded of
        Inl e \<Rightarrow> Inl (''parsing the behaviour model: '' @ e)
      | Inr m \<Rightarrow>
          if be_Archetypes m = [] \<or> be_Subjects m = [] then Inl ''the behaviour model is empty'' else Inr m)"

definition PickArchetype :: "('f, 'g) chance \<Rightarrow> 'f behaviour \<Rightarrow> 'g \<Rightarrow> ('f archetype \<times> 'g) option" where
  "PickArchetype ch m = pick_weighted ch (be_Archetypes m) at_Weight"

definition PickSubject :: "('f, 'g) chance \<Rightarrow> 'f behaviour \<Rightarrow> 'g \<Rightarrow> ((string \<times> string) \<times> 'g) option" where
  "PickSubject ch m g =
     do { ((query, lcc, _), g) \<leftarrow> pick_weighted ch (be_Subjects m) (\<lambda>(_, _, w). w) g; Some ((query, lcc), g) }"

definition PickCopyCount :: "('f, 'g) chance \<Rightarrow> 'f behaviour \<Rightarrow> 'g \<Rightarrow> (int \<times> 'g) option" where
  "PickCopyCount ch m g = do { ((n, _), g) \<leftarrow> pick_weighted ch (be_CopiesPerTitle m) snd g; Some (n, g) }"

definition PickLoanPolicy :: "('f, 'g) chance \<Rightarrow> 'f behaviour \<Rightarrow> 'g \<Rightarrow> (string \<times> 'g) option" where
  "PickLoanPolicy ch m g = do { ((p, _), g) \<leftarrow> pick_weighted ch (be_LoanPolicy m) snd g; Some (p, g) }"

definition PickName :: "('f, 'g) chance \<Rightarrow> 'f behaviour \<Rightarrow> 'g \<Rightarrow> ((string \<times> string \<times> string) \<times> 'g) option" where
  "PickName ch m g = do {
     (i, g) \<leftarrow> Intn ch (length (be_Given m)) g;
     (j, g) \<leftarrow> Intn ch (length (be_Family m)) g;
     (k, g) \<leftarrow> Intn ch (length (be_Departments m)) g;
     (l, g) \<leftarrow> Intn ch (length (be_Levels m)) g;
     Some ((be_Given m ! i @ '' '' @ be_Family m ! j, be_Departments m ! k, be_Levels m ! l), g) }"

section \<open>The agent\<close>

record outcome_check =
  oc_Name :: string
  oc_Passed :: bool
  oc_Detail :: string

record report =
  rp_Outcome :: string
  rp_BooksImported :: nat
  rp_CopiesToExisting :: nat
  rp_CopiesAdded :: nat
  rp_MembersCreated :: nat
  rp_LoansCreated :: nat
  rp_ReturnsMade :: nat
  rp_Reservations :: nat
  rp_Refusals :: "string \<Rightarrow> nat"
  rp_Failures :: "string list"
  rp_Checks :: "outcome_check list"

definition new_report :: report where
  "new_report =
     \<lparr>rp_Outcome = [], rp_BooksImported = 0, rp_CopiesToExisting = 0, rp_CopiesAdded = 0, rp_MembersCreated = 0,
      rp_LoansCreated = 0, rp_ReturnsMade = 0, rp_Reservations = 0, rp_Refusals = (\<lambda>_. 0), rp_Failures = [],
      rp_Checks = []\<rparr>"

record api_request =
  rq_Method :: string
  rq_Base :: string
  rq_Path :: string
  rq_Body :: "json option"
  rq_Token :: string

datatype api_answer = Silence string | Replied nat string

type_synonym exchange = "api_request \<times> api_answer"

text \<open>The exchanges of an agent, the last one first.\<close>

record 'g agent =
  ag_baseURL :: string
  ag_catalogue :: string
  ag_rng :: 'g
  ag_staffToken :: string
  ag_report :: report
  ag_log :: "exchange list"

text \<open>What the structs of the calls take from the data of an answer.\<close>

record session_data =
  se_AccessToken :: string
  se_MustChangePassword :: bool

record roll_entry =
  ro_Role :: string
  ro_IsSynthetic :: bool

record created_data =
  cd_ID :: string
  cd_ExistingID :: string

record shelf_line =
  sl_Title :: string
  sl_Borrowable :: int
  sl_TotalCopies :: int
  sl_Available :: int
  sl_OnLoan :: int

record copy_line =
  cl_ID :: string
  cl_Status :: string
  cl_LoanPolicy :: string

record network =
  nw_bad_url :: "string \<Rightarrow> string option"
  nw_answer :: "exchange list \<Rightarrow> api_request \<Rightarrow> api_answer"
  nw_code :: "string \<Rightarrow> string"
  nw_session :: "string \<Rightarrow> string + session_data"
  nw_roll :: "string \<Rightarrow> string + roll_entry list"
  nw_created :: "string \<Rightarrow> string + created_data"
  nw_member :: "string \<Rightarrow> string + string"
  nw_titles :: "string \<Rightarrow> string + string list"
  nw_shelves :: "string \<Rightarrow> string + shelf_line list"
  nw_copies :: "string \<Rightarrow> string + copy_line list"
  nw_held :: "string \<Rightarrow> string + string list"
  nw_loans :: "string \<Rightarrow> string + (string \<times> string) list"
  nw_health :: "string \<Rightarrow> string + string"
  nw_hostname :: "string \<Rightarrow> string"
  nw_ask :: "nat \<Rightarrow> string \<Rightarrow> answer"
  nw_parse :: "string \<Rightarrow> string + url"
  nw_quote :: "string \<Rightarrow> string"
  nw_year :: int

definition safeTargetURL :: "network \<Rightarrow> string \<Rightarrow> string + string" where
  "safeTargetURL nw raw =
     (case nw_parse nw (trim_right (CHR ''/'') raw) of
        Inl e \<Rightarrow> Inl (''the target URL is not a valid URL: '' @ e)
      | Inr u \<Rightarrow>
          if u_Scheme u \<noteq> ''https'' \<and> u_Scheme u \<noteq> ''http''
          then Inl (''the target URL must be http or https, not '' @ nw_quote nw (u_Scheme u))
          else
            let host = u_Hostname u;
                isLocal = (host = ''localhost'' \<or> host = ''127.0.0.1'' \<or> host = ''::1'' \<or> host = ''api'') in
            if u_Scheme u = ''http'' \<and> \<not> isLocal
            then Inl (''refusing to send librarian credentials to '' @ nw_quote nw host @ '' over plain http; use https'')
            else Inr (u_Scheme u @ ''://'' @ u_Host u))"

definition NewAgent :: "network \<Rightarrow> string \<Rightarrow> string \<Rightarrow> 'g \<Rightarrow> url_error + string + 'g agent" where
  "NewAgent nw baseURL catalogueURL g =
     (case safeBaseURL (nw_parse nw) catalogueURL of
        Inl e \<Rightarrow> Inl e
      | Inr catalogue \<Rightarrow>
          case safeTargetURL nw baseURL of
            Inl e \<Rightarrow> Inr (Inl e)
          | Inr base \<Rightarrow>
              Inr (Inr \<lparr>ag_baseURL = base, ag_catalogue = catalogue, ag_rng = g, ag_staffToken = [],
                         ag_report = new_report, ag_log = []\<rparr>))"

section \<open>One call\<close>

definition refusal_code :: "network \<Rightarrow> nat \<Rightarrow> string \<Rightarrow> string" where
  "refusal_code nw status payload =
     (if nw_code nw payload = [] then ''HTTP_'' @ decimal status else nw_code nw payload)"

definition note_refusal :: "network \<Rightarrow> string \<Rightarrow> string \<Rightarrow> nat \<Rightarrow> string \<Rightarrow> 'g agent \<Rightarrow> 'g agent" where
  "note_refusal nw meth path status code a =
     (let r = ag_report a; r = r\<lparr>rp_Refusals := (rp_Refusals r)(code := Suc (rp_Refusals r code))\<rparr> in
      a\<lparr>ag_report := if 500 \<le> status
          then r\<lparr>rp_Failures := rp_Failures r @ [meth @ '' '' @ path @ '' -> '' @ decimal status @ '' '' @ code]\<rparr>
          else r\<rparr>)"

text \<open>The data of a reply without a body stay as they were, which is the zero value at every call.\<close>

definition read_out :: "(string \<Rightarrow> string + 'o) option \<Rightarrow> 'o \<Rightarrow> string \<Rightarrow> string + 'o" where
  "read_out out zero payload =
     (case out of None \<Rightarrow> Inr zero | Some dec \<Rightarrow> if payload = [] then Inr zero else dec payload)"

definition api_call ::
  "network \<Rightarrow> string \<Rightarrow> string \<Rightarrow> json option \<Rightarrow> (string \<Rightarrow> string + 'o) option \<Rightarrow> 'o \<Rightarrow> string \<Rightarrow> 'g agent \<Rightarrow>
   (string + nat \<times> string \<times> 'o) \<times> 'g agent" where
  "api_call nw meth path body out zero token a =
     (case nw_bad_url nw (ag_baseURL a @ path) of
        Some e \<Rightarrow> (Inl e, a)
      | None \<Rightarrow>
          let q = \<lparr>rq_Method = meth, rq_Base = ag_baseURL a, rq_Path = path, rq_Body = body, rq_Token = token\<rparr>;
              r = nw_answer nw (ag_log a) q;
              a = a\<lparr>ag_log := (q, r) # ag_log a\<rparr> in
          case r of
            Silence e \<Rightarrow> (Inl e, a)
          | Replied status payload \<Rightarrow>
              if 400 \<le> status
              then (let code = refusal_code nw status payload
                    in (Inr (status, code, zero), note_refusal nw meth path status code a))
              else (case read_out out zero payload of
                      Inl e \<Rightarrow> (Inl e, a) | Inr v \<Rightarrow> (Inr (status, [], v), a)))"

text \<open>A call without a struct for its reply.\<close>

abbreviation call_only ::
  "network \<Rightarrow> string \<Rightarrow> string \<Rightarrow> json option \<Rightarrow> string \<Rightarrow> 'g agent \<Rightarrow> (string + nat \<times> string \<times> unit) \<times> 'g agent" where
  "call_only nw meth path body token a \<equiv> api_call nw meth path body None () token a"

definition SignIn :: "network \<Rightarrow> string \<Rightarrow> string \<Rightarrow> 'g agent \<Rightarrow> (string + unit) \<times> 'g agent" where
  "SignIn nw login password a =
     (case api_call nw ''POST'' ''/api/v1/auth/login''
             (Some (Obj [(''login'', json_text login), (''password'', json_text password)]))
             (Some (nw_session nw)) \<lparr>se_AccessToken = [], se_MustChangePassword = False\<rparr> [] a of
        (Inl e, a) \<Rightarrow> (Inl (''signing in: '' @ e), a)
      | (Inr (status, code, session), a) \<Rightarrow>
          if status \<noteq> 200 then (Inl (''signing in: '' @ code), a)
          else if se_MustChangePassword session
          then (Inl ''the simulator's account still holds a temporary password; change it first'', a)
          else if status = 429 then (Inl ''signing in: rate limited'', a)
          else (Inr (), a\<lparr>ag_staffToken := se_AccessToken session\<rparr>))"

definition Authenticated :: "network \<Rightarrow> 'g agent \<Rightarrow> bool \<times> 'g agent" where
  "Authenticated nw a =
     (if ag_staffToken a = [] then (False, a)
      else case call_only nw ''GET'' ''/api/v1/admin/dashboard'' None (ag_staffToken a) a of
        (Inl e, a) \<Rightarrow> (False, a)
      | (Inr (status, _), a) \<Rightarrow> (status = 200, a))"

section \<open>What the agent does\<close>

definition truncate :: "string \<Rightarrow> nat \<Rightarrow> string" where
  "truncate s n = (if n < length s then trim_space (take n s) else s)"

definition padded :: "nat \<Rightarrow> nat \<Rightarrow> string" where
  "padded w n = replicate (w - length (decimal n)) (CHR ''0'') @ decimal n"

definition accessionNumber :: "('f, 'g) chance \<Rightarrow> 'g \<Rightarrow> (string \<times> 'g) option" where
  "accessionNumber ch g = do { (n, g) \<leftarrow> Intn ch 1000000 g; Some (''SIM-'' @ padded 6 n, g) }"

text \<open>A case mapping of one byte: a byte that is not ASCII is no text and becomes U+FFFD.\<close>

definition map_one_byte :: "(char \<Rightarrow> char) \<Rightarrow> char \<Rightarrow> string" where
  "map_one_byte f c = (if of_char c < (128 :: nat) then [f c] else [CHR 0xEF, CHR 0xBF, CHR 0xBD])"

text \<open>The letters of the suffix come from the last word of the first author's name.\<close>

definition cutter_for :: "('f, 'g) chance \<Rightarrow> string list \<Rightarrow> 'g \<Rightarrow> (string \<times> 'g) option" where
  "cutter_for ch authors g =
     (case authors of
        [] \<Rightarrow> Some (''A1'', g)
      | author # _ \<Rightarrow>
          if Fields author = [] then None
          else case List.last (Fields author) of
            c # d # _ \<Rightarrow> do { (n, g) \<leftarrow> Intn ch 90 g;
                             Some (map_one_byte upper_byte c @ map_one_byte lower_byte d @ decimal (n + 10), g) }
          | _ \<Rightarrow> Some (''A1'', g))"

definition callNumberFor :: "('f, 'g) chance \<Rightarrow> string \<Rightarrow> metadata \<Rightarrow> 'g \<Rightarrow> (string \<times> 'g) option" where
  "callNumberFor ch lcc meta g = do {
     (cutter, g) \<leftarrow> cutter_for ch (md_Authors meta) g;
     (n, g) \<leftarrow> Intn ch 900 g;
     (m, g) \<leftarrow> Intn ch 99 g;
     Some (lcc @ decimal (n + 76) @ ''.'' @ decimal m @ '' .'' @ cutter, g) }"

definition book_body :: "string \<Rightarrow> metadata \<Rightarrow> json" where
  "book_body callNumber meta = Obj
     [(''authors'', Arr (map json_text (md_Authors meta))), (''call_number'', json_text callNumber),
      (''description'', json_text (''Imported from '' @ md_Source meta @ '' by the activity simulator.'')),
      (''isbn10'', json_text (md_ISBN10 meta)), (''isbn13'', json_text (md_ISBN13 meta)),
      (''published_year'', case md_PublishedYear meta of None \<Rightarrow> Null | Some y \<Rightarrow> Num (decimal_int y)),
      (''publisher'', json_text (truncate (md_Publisher meta) 120)),
      (''subjects'', Arr (map json_text (md_Subjects meta))),
      (''subtitle'', json_text (truncate (md_Subtitle meta) 200)),
      (''title'', json_text (truncate (md_Title meta) 200))]"

definition post_copy :: "network \<Rightarrow> string \<Rightarrow> string \<Rightarrow> string \<Rightarrow> 'g agent \<Rightarrow> 'g agent" where
  "post_copy nw bookID number pol a =
     (case call_only nw ''POST'' (''/api/v1/books/'' @ bookID @ ''/copies'')
             (Some (Obj [(''accession_number'', json_text number), (''loan_policy'', json_text pol)])) (ag_staffToken a) a of
        (Inr (status, _), a) \<Rightarrow>
          if status = 201 then a\<lparr>ag_report := (ag_report a)\<lparr>rp_CopiesAdded := Suc (rp_CopiesAdded (ag_report a))\<rparr>\<rparr> else a
      | (Inl _, a) \<Rightarrow> a)"

definition add_copy ::
  "network \<Rightarrow> ('f, 'g) chance \<Rightarrow> 'f behaviour \<Rightarrow> string \<Rightarrow> 'g agent \<Rightarrow> (unit \<times> 'g agent) option" where
  "add_copy nw ch m bookID a = do {
     (pol, g) \<leftarrow> PickLoanPolicy ch m (ag_rng a);
     (number, g) \<leftarrow> accessionNumber ch g;
     Some ((), post_copy nw bookID number pol (a\<lparr>ag_rng := g\<rparr>)) }"

lemma Intn_below: "Intn ch n g = Some (k, g') \<Longrightarrow> k < n"
  by (auto simp: Intn_def split: if_splits prod.splits)

lemma roll_over_in: "roll_over ch w roll items = Some it \<Longrightarrow> it \<in> set items"
  by (induction items arbitrary: roll) (auto simp: Let_def split: if_splits)

lemma pick_weighted_in: "pick_weighted ch items w g = Some (it, g') \<Longrightarrow> it \<in> set items"
  by (auto simp: pick_weighted_def dest: roll_over_in split: prod.splits option.splits if_splits)

lemma PickCopyCount_in: "PickCopyCount ch m g = Some (n, g') \<Longrightarrow> n \<in> fst ` set (be_CopiesPerTitle m)"
  by (auto simp: PickCopyCount_def bind_eq_Some_conv dest!: pick_weighted_in intro: rev_image_eqI)

definition most_copies :: "'f behaviour \<Rightarrow> nat" where
  "most_copies m = foldr (\<lambda>(n, _) k. max (nat n) k) (be_CopiesPerTitle m) 0"

lemma most_copies_bound: "n \<in> fst ` set (be_CopiesPerTitle m) \<Longrightarrow> nat n \<le> most_copies m"
proof -
  have "nat n \<le> foldr (\<lambda>(n, _) k. max (nat n) k) xs 0" if "n \<in> fst ` set xs" for xs :: "(int \<times> 'a) list"
    using that by (induction xs) (auto simp: le_max_iff_disj split: prod.splits intro: rev_image_eqI)
  then show "n \<in> fst ` set (be_CopiesPerTitle m) \<Longrightarrow> nat n \<le> most_copies m" by (simp add: most_copies_def)
qed

text \<open>The bound of the loop is drawn anew before every copy; it never exceeds the largest count of the model.\<close>

function shelve_copies ::
  "network \<Rightarrow> ('f, 'g) chance \<Rightarrow> 'f behaviour \<Rightarrow> string \<Rightarrow> nat \<Rightarrow> 'g agent \<Rightarrow> (unit \<times> 'g agent) option" where
  "shelve_copies nw ch m bookID i a =
     (case PickCopyCount ch m (ag_rng a) of
        None \<Rightarrow> None
      | Some (n, g) \<Rightarrow>
          if n \<le> int i then Some ((), a\<lparr>ag_rng := g\<rparr>)
          else (case add_copy nw ch m bookID (a\<lparr>ag_rng := g\<rparr>) of
                  None \<Rightarrow> None | Some (_, a) \<Rightarrow> shelve_copies nw ch m bookID (Suc i) a))"
  by pat_completeness auto

termination
  by (relation "measure (\<lambda>(_, _, m, _, i, _). most_copies m - i)")
    (auto dest!: PickCopyCount_in most_copies_bound)

declare shelve_copies.simps [simp del]

text \<open>One suggestion of the external catalogue.\<close>

definition post_book ::
  "network \<Rightarrow> ('f, 'g) chance \<Rightarrow> 'f behaviour \<Rightarrow> string \<Rightarrow> metadata \<Rightarrow> 'g agent \<Rightarrow> (unit \<times> 'g agent) option" where
  "post_book nw ch m callNumber meta a =
     (case api_call nw ''POST'' ''/api/v1/books'' (Some (book_body callNumber meta)) (Some (nw_created nw))
            \<lparr>cd_ID = [], cd_ExistingID = []\<rparr> (ag_staffToken a) a of
       (Inl e, a) \<Rightarrow>
         Some ((), a\<lparr>ag_report := (ag_report a)\<lparr>rp_Failures := rp_Failures (ag_report a) @ [''creating a book: '' @ e]\<rparr>\<rparr>)
     | (Inr (status, _, created), a) \<Rightarrow>
         if status = 201 then shelve_copies nw ch m (cd_ID created) 0
           (a\<lparr>ag_report := (ag_report a)\<lparr>rp_BooksImported := Suc (rp_BooksImported (ag_report a))\<rparr>\<rparr>)
         else if status = 409 then
           (if cd_ExistingID created = [] then Some ((), a)
            else shelve_copies nw ch m (cd_ExistingID created) 0
              (a\<lparr>ag_report := (ag_report a)\<lparr>rp_CopiesToExisting := Suc (rp_CopiesToExisting (ag_report a))\<rparr>\<rparr>))
         else Some ((), a))"

definition stock_one ::
  "network \<Rightarrow> ('f, 'g) chance \<Rightarrow> 'f behaviour \<Rightarrow> string \<Rightarrow> metadata \<Rightarrow> 'g agent \<Rightarrow> (unit \<times> 'g agent) option" where
  "stock_one nw ch m lcc meta a = do {
     (callNumber, g) \<leftarrow> callNumberFor ch lcc meta (ag_rng a);
     post_book nw ch m callNumber meta (a\<lparr>ag_rng := g\<rparr>) }"

fun stock_all ::
  "network \<Rightarrow> ('f, 'g) chance \<Rightarrow> 'f behaviour \<Rightarrow> string \<Rightarrow> metadata list \<Rightarrow> 'g agent \<Rightarrow> (unit \<times> 'g agent) option" where
  "stock_all nw ch m lcc [] a = Some ((), a)"
| "stock_all nw ch m lcc (meta # found) a = do {
     (_, a) \<leftarrow> stock_one nw ch m lcc meta a; stock_all nw ch m lcc found a }"

definition StockCatalogue ::
  "network \<Rightarrow> ('f, 'g) chance \<Rightarrow> 'f behaviour \<Rightarrow> int \<Rightarrow> 'g agent \<Rightarrow> (unit \<times> 'g agent) option" where
  "StockCatalogue nw ch m maxTitles a = do {
     ((query, lcc), g) \<leftarrow> PickSubject ch m (ag_rng a);
     let a = a\<lparr>ag_rng := g\<rparr>;
     case SearchExternal (nw_hostname nw) (nw_ask nw (length (ag_log a))) (ag_catalogue a) query maxTitles of
       Inl e \<Rightarrow>
         Some ((), a\<lparr>ag_report := (ag_report a)\<lparr>rp_Failures := rp_Failures (ag_report a) @
           [''external catalogue unavailable for '' @ nw_quote nw query @ '': '' @ e]\<rparr>\<rparr>)
     | Inr found \<Rightarrow> stock_all nw ch m lcc found a }"

record 'f sim_member =
  sm_ID :: string
  sm_Name :: string
  sm_Archetype :: "'f archetype"

definition member_body :: "string \<Rightarrow> string \<Rightarrow> string \<Rightarrow> string \<Rightarrow> string \<Rightarrow> json" where
  "member_body identifier name category department level = Obj
     [(''category'', json_text category), (''department'', json_text department),
      (''email'', json_text (to_lower (map (\<lambda>c. if c = CHR ''/'' then CHR ''.'' else c) identifier) @ ''@simulated.invalid'')),
      (''full_name'', json_text name), (''identifier'', json_text identifier),
      (''is_synthetic'', Bool True), (''level'', json_text level)]"

definition post_member ::
  "network \<Rightarrow> string \<Rightarrow> 'f archetype \<Rightarrow> string \<times> string \<times> string \<Rightarrow> 'g agent \<Rightarrow> 'f sim_member list \<times> 'g agent" where
  "post_member nw identifier archetype person a =
     (case person of (name, department, level) \<Rightarrow>
        case api_call nw ''POST'' ''/api/v1/members''
               (Some (member_body identifier name (at_Category archetype) department level))
               (Some (nw_member nw)) [] (ag_staffToken a) a of
          (Inr (status, _, memberID), a) \<Rightarrow>
            if status \<noteq> 201 then ([], a)
            else ([\<lparr>sm_ID = memberID, sm_Name = name, sm_Archetype = archetype\<rparr>],
                  a\<lparr>ag_report := (ag_report a)\<lparr>rp_MembersCreated := Suc (rp_MembersCreated (ag_report a))\<rparr>\<rparr>)
        | (Inl _, a) \<Rightarrow> ([], a))"

definition register_one ::
  "network \<Rightarrow> ('f, 'g) chance \<Rightarrow> 'f behaviour \<Rightarrow> 'g agent \<Rightarrow> ('f sim_member list \<times> 'g agent) option" where
  "register_one nw ch m a = do {
     (archetype, g) \<leftarrow> PickArchetype ch m (ag_rng a);
     (person, g) \<leftarrow> PickName ch m g;
     (n, g) \<leftarrow> Intn ch 10000 g;
     Some (post_member nw (''SIM/'' @ decimal_int (nw_year nw) @ ''/'' @ padded 4 n) archetype person (a\<lparr>ag_rng := g\<rparr>)) }"

fun register_all ::
  "network \<Rightarrow> ('f, 'g) chance \<Rightarrow> 'f behaviour \<Rightarrow> nat \<Rightarrow> 'g agent \<Rightarrow> ('f sim_member list \<times> 'g agent) option" where
  "register_all nw ch m 0 a = Some ([], a)"
| "register_all nw ch m (Suc n) a = do {
     (new, a) \<leftarrow> register_one nw ch m a;
     (others, a) \<leftarrow> register_all nw ch m n a;
     Some (new @ others, a) }"

definition RegisterMembers ::
  "network \<Rightarrow> ('f, 'g) chance \<Rightarrow> 'f behaviour \<Rightarrow> int \<Rightarrow> 'g agent \<Rightarrow> ('f sim_member list \<times> 'g agent) option" where
  "RegisterMembers nw ch m n = register_all nw ch m (nat n)"

text \<open>The first copy on the shelf that circulates is asked for, and whatever the answer no other.\<close>

definition post_loan :: "network \<Rightarrow> string \<Rightarrow> string \<Rightarrow> 'g agent \<Rightarrow> 'g agent" where
  "post_loan nw copyID memberID a =
     (case call_only nw ''POST'' ''/api/v1/loans''
             (Some (Obj [(''copy_id'', json_text copyID), (''member_id'', json_text memberID)])) (ag_staffToken a) a of
        (Inr (status, _), a) \<Rightarrow>
          if status = 201 then a\<lparr>ag_report := (ag_report a)\<lparr>rp_LoansCreated := Suc (rp_LoansCreated (ag_report a))\<rparr>\<rparr> else a
      | (Inl _, a) \<Rightarrow> a)"

definition borrow_title :: "network \<Rightarrow> 'f sim_member \<Rightarrow> string \<Rightarrow> 'g agent \<Rightarrow> 'g agent" where
  "borrow_title nw member bookID a =
     (case api_call nw ''GET'' (''/api/v1/books/'' @ bookID) None (Some (nw_copies nw)) [] (ag_staffToken a) a of
        (Inl _, a) \<Rightarrow> a
      | (Inr (_, _, found), a) \<Rightarrow>
          case find (\<lambda>c. cl_Status c = ''available'' \<and> cl_LoanPolicy c = ''circulating'') found of
            None \<Rightarrow> a
          | Some c \<Rightarrow> post_loan nw (cl_ID c) (sm_ID member) a)"

definition synthetic_loans :: string where
  "synthetic_loans = ''/api/v1/loans?open=true&synthetic=true&per_page=40''"

definition post_return :: "network \<Rightarrow> string \<Rightarrow> 'g agent \<Rightarrow> 'g agent" where
  "post_return nw loanID a =
     (case call_only nw ''POST'' (''/api/v1/loans/'' @ loanID @ ''/return'') None (ag_staffToken a) a of
        (Inr (status, _), a) \<Rightarrow>
          if status = 200 then a\<lparr>ag_report := (ag_report a)\<lparr>rp_ReturnsMade := Suc (rp_ReturnsMade (ag_report a))\<rparr>\<rparr> else a
      | (Inl _, a) \<Rightarrow> a)"

definition returnSomething :: "network \<Rightarrow> ('f, 'g) chance \<Rightarrow> 'g agent \<Rightarrow> (unit \<times> 'g agent) option" where
  "returnSomething nw ch a =
     (case api_call nw ''GET'' synthetic_loans None (Some (nw_held nw)) [] (ag_staffToken a) a of
        (Inl _, a) \<Rightarrow> Some ((), a)
      | (Inr (_, _, held), a) \<Rightarrow>
          if held = [] then Some ((), a)
          else do {
            (i, g) \<leftarrow> Intn ch (length held) (ag_rng a);
            Some ((), post_return nw (held ! i) (a\<lparr>ag_rng := g\<rparr>)) })"

definition roll_below :: "('f, 'g) chance \<Rightarrow> 'f \<Rightarrow> 'g agent \<Rightarrow> bool \<times> 'g agent" where
  "roll_below ch rate a = (case ch_Float64 ch (ag_rng a) of (x, g) \<Rightarrow> (ch_less ch x rate, a\<lparr>ag_rng := g\<rparr>))"

definition demanded_title :: "('f, 'g) chance \<Rightarrow> 'f behaviour \<Rightarrow> string list \<Rightarrow> 'g agent \<Rightarrow> string \<times> 'g agent" where
  "demanded_title ch m titles a =
     (case ZipfIndex ch (length titles) (be_ZipfExponent m) (ag_rng a) of (i, g) \<Rightarrow> (titles ! i, a\<lparr>ag_rng := g\<rparr>))"

text \<open>
  One action of a member. Reserving draws a title and leaves it at that: the simulator holds no member's
  token.
\<close>

definition act ::
  "network \<Rightarrow> ('f, 'g) chance \<Rightarrow> 'f behaviour \<Rightarrow> 'f sim_member list \<Rightarrow> string list \<Rightarrow> 'g agent \<Rightarrow>
   (unit \<times> 'g agent) option" where
  "act nw ch m members titles a = do {
     (i, g) \<leftarrow> Intn ch (length members) (ag_rng a);
     let member = members ! i;
     case roll_below ch (at_ReturnRate (sm_Archetype member)) (a\<lparr>ag_rng := g\<rparr>) of
       (True, a) \<Rightarrow> returnSomething nw ch a
     | (False, a) \<Rightarrow>
         case roll_below ch (at_BorrowRate (sm_Archetype member)) a of
           (True, a) \<Rightarrow> (case demanded_title ch m titles a of (b, a) \<Rightarrow> Some ((), borrow_title nw member b a))
         | (False, a) \<Rightarrow>
             case roll_below ch (at_ReserveRate (sm_Archetype member)) a of
               (True, a) \<Rightarrow> Some ((), snd (demanded_title ch m titles a))
             | (False, a) \<Rightarrow> Some ((), a) }"

fun act_all ::
  "network \<Rightarrow> ('f, 'g) chance \<Rightarrow> 'f behaviour \<Rightarrow> 'f sim_member list \<Rightarrow> string list \<Rightarrow> nat \<Rightarrow> 'g agent \<Rightarrow>
   (unit \<times> 'g agent) option" where
  "act_all nw ch m members titles 0 a = Some ((), a)"
| "act_all nw ch m members titles (Suc n) a = do {
     (_, a) \<leftarrow> act nw ch m members titles a; act_all nw ch m members titles n a }"

definition Circulate ::
  "network \<Rightarrow> ('f, 'g) chance \<Rightarrow> 'f behaviour \<Rightarrow> 'f sim_member list \<Rightarrow> int \<Rightarrow> 'g agent \<Rightarrow> (unit \<times> 'g agent) option" where
  "Circulate nw ch m members maxActions a =
     (if members = [] then Some ((), a)
      else case api_call nw ''GET'' ''/api/v1/books?per_page=100'' None (Some (nw_titles nw)) [] [] a of
        (Inl _, a) \<Rightarrow> Some ((), a)
      | (Inr (_, _, titles), a) \<Rightarrow>
          if titles = [] then Some ((), a) else act_all nw ch m members titles (nat maxActions) a)"

section \<open>Checks and the grade\<close>

text \<open>A decimal of either sign, as percent d prints it.\<close>

definition SafeToRun :: "network \<Rightarrow> 'g agent \<Rightarrow> (bool \<times> string) \<times> 'g agent" where
  "SafeToRun nw a =
     (case api_call nw ''GET'' ''/api/v1/members?per_page=100'' None (Some (nw_roll nw)) [] (ag_staffToken a) a of
        (Inl e, a) \<Rightarrow> ((False, ''could not read the member roll: '' @ e), a)
      | (Inr (_, _, members), a) \<Rightarrow>
          let real = length (filter (\<lambda>m. ro_Role m = ''member'' \<and> \<not> ro_IsSynthetic m) members) in
          if 0 < real
          then ((False, ''this instance holds '' @ decimal real @
                   '' real borrower record(s); refusing to generate activity against it''), a)
          else ((True, decimal (length members) @ '' members, all synthetic''), a))"

definition check_reachable :: "network \<Rightarrow> 'g agent \<Rightarrow> (bool \<times> string) \<times> 'g agent" where
  "check_reachable nw a =
     (case api_call nw ''GET'' ''/api/v1/books?per_page=5'' None (Some (nw_titles nw)) [] [] a of
        (Inl e, a) \<Rightarrow> ((False, e), a)
      | (Inr (status, _, titles), a) \<Rightarrow>
          if status \<noteq> 200 then ((False, ''HTTP '' @ decimal status), a)
          else ((titles \<noteq> [], decimal (length titles) @ '' titles listed''), a))"

text \<open>The complaint about a line of the catalogue, where there is one.\<close>

definition shelf_complaint :: "network \<Rightarrow> shelf_line \<Rightarrow> string option" where
  "shelf_complaint nw b =
     (if sl_Available b < 0 \<or> sl_OnLoan b < 0 then Some (nw_quote nw (sl_Title b) @ '' has a negative count'')
      else if sl_TotalCopies b < sl_Available b + sl_OnLoan b
      then Some (nw_quote nw (sl_Title b) @ '': '' @ decimal_int (sl_Available b) @ '' available + '' @
             decimal_int (sl_OnLoan b) @ '' on loan exceeds '' @ decimal_int (sl_TotalCopies b) @ '' held'')
      else if sl_Available b < sl_Borrowable b
      then Some (nw_quote nw (sl_Title b) @ '' offers more copies than are on the shelf'')
      else None)"

definition check_availability :: "network \<Rightarrow> 'g agent \<Rightarrow> (bool \<times> string) \<times> 'g agent" where
  "check_availability nw a =
     (case api_call nw ''GET'' ''/api/v1/books?per_page=100'' None (Some (nw_shelves nw)) [] [] a of
        (Inl e, a) \<Rightarrow> ((False, e), a)
      | (Inr (_, _, shelves), a) \<Rightarrow>
          case List.map_filter (shelf_complaint nw) shelves of
            complaint # _ \<Rightarrow> ((False, complaint), a)
          | [] \<Rightarrow> ((True, decimal (length shelves) @ '' titles consistent''), a))"

fun seen_twice :: "(string \<rightharpoonup> string) \<Rightarrow> (string \<times> string) list \<Rightarrow> (string \<times> string \<times> string) option" where
  "seen_twice seen [] = None"
| "seen_twice seen ((copy, title) # rest) =
     (case seen copy of
        Some prev \<Rightarrow> Some (copy, prev, title) | None \<Rightarrow> seen_twice (seen(copy \<mapsto> title)) rest)"

definition check_loans :: "network \<Rightarrow> 'g agent \<Rightarrow> (bool \<times> string) \<times> 'g agent" where
  "check_loans nw a =
     (case api_call nw ''GET'' ''/api/v1/loans?open=true&per_page=100'' None (Some (nw_loans nw)) [] (ag_staffToken a) a of
        (Inl e, a) \<Rightarrow> ((False, e), a)
      | (Inr (_, _, out), a) \<Rightarrow>
          case seen_twice (\<lambda>_. None) out of
            Some (copy, prev, title) \<Rightarrow>
              ((False, ''copy '' @ copy @ '' is out twice ('' @ nw_quote nw prev @ '' and '' @ nw_quote nw title @ '')''), a)
          | None \<Rightarrow> ((True, decimal (length out) @ '' open loans, all distinct copies''), a))"

definition check_staff_routes :: "network \<Rightarrow> 'g agent \<Rightarrow> (bool \<times> string) \<times> 'g agent" where
  "check_staff_routes nw a =
     (case call_only nw ''GET'' ''/api/v1/members'' None [] a of
        (Inl e, a) \<Rightarrow> ((False, e), a)
      | (Inr (status, _), a) \<Rightarrow> ((status = 401, ''unauthenticated GET /members returned '' @ decimal status), a))"

definition check_database :: "network \<Rightarrow> 'g agent \<Rightarrow> (bool \<times> string) \<times> 'g agent" where
  "check_database nw a =
     (case api_call nw ''GET'' ''/healthz'' None (Some (nw_health nw)) [] [] a of
        (Inl e, a) \<Rightarrow> ((False, e), a)
      | (Inr (_, _, database), a) \<Rightarrow> ((database = ''reachable'', ''database '' @ database), a))"

definition outcome_of_check ::
  "string \<Rightarrow> ('g agent \<Rightarrow> (bool \<times> string) \<times> 'g agent) \<Rightarrow> 'g agent \<Rightarrow> 'g agent" where
  "outcome_of_check name run a =
     (case run a of ((passed, detail), a) \<Rightarrow>
        a\<lparr>ag_report := (ag_report a)\<lparr>rp_Checks := rp_Checks (ag_report a) @
          [\<lparr>oc_Name = name, oc_Passed = passed, oc_Detail = detail\<rparr>]\<rparr>\<rparr>)"

definition RunChecks :: "network \<Rightarrow> 'g agent \<Rightarrow> 'g agent" where
  "RunChecks nw a =
     (let a = outcome_of_check ''the catalogue is reachable without signing in'' (check_reachable nw) a;
          a = outcome_of_check ''availability never exceeds the number of copies held'' (check_availability nw) a;
          a = outcome_of_check ''no copy is out on more than one loan'' (check_loans nw) a;
          a = outcome_of_check ''a member cannot reach staff routes'' (check_staff_routes nw) a
      in outcome_of_check ''the service reports its database reachable'' (check_database nw) a)"

definition Finish :: "report \<Rightarrow> report" where
  "Finish r =
     (if list_ex (\<lambda>c. \<not> oc_Passed c) (rp_Checks r) then r\<lparr>rp_Outcome := ''failed''\<rparr>
      else if rp_Failures r \<noteq> [] then r\<lparr>rp_Outcome := ''failed''\<rparr>
      else if rp_LoansCreated r = 0 \<and> rp_BooksImported r = 0 then r\<lparr>rp_Outcome := ''degraded''\<rparr>
      else r\<lparr>rp_Outcome := ''ok''\<rparr>)"

section \<open>A pass and the command\<close>

record sim_options =
  so_BaseURL :: string
  so_Login :: string
  so_CatalogueURL :: string
  so_Password :: string
  so_AllowReal :: bool

text \<open>What a pass leaves: the report or the reason there is none, the token kept for the next, its exchanges.\<close>

record pass_result =
  pr_Result :: "string + report"
  pr_Token :: string
  pr_Log :: "exchange list"

definition url_error_text :: "network \<Rightarrow> url_error \<Rightarrow> string" where
  "url_error_text nw e =
     (case e of
        BadURL m \<Rightarrow> ''the catalogue URL is not a valid URL: '' @ m
      | BadScheme s \<Rightarrow> ''the catalogue URL must be http or https, not '' @ nw_quote nw s
      | HostNotAllowed h \<Rightarrow> nw_quote nw h @ '' is not an allowed catalogue host''
      | NotSecure \<Rightarrow> ''the catalogue must be reached over https'')"

definition refusal_text :: "string \<Rightarrow> string" where
  "refusal_text why =
     why @ [CHR 0x0A] @ ''  The simulator lends books, registers borrowers and closes loans. Against a'' @
     [CHR 0x0A] @ ''  real member roll that is not a demonstration.'' @ [CHR 0x0A] @
     ''  Pass -allow-real-data only if you are certain.''"

definition drive ::
  "network \<Rightarrow> ('f, 'g) chance \<Rightarrow> 'f behaviour \<Rightarrow> 'g agent \<Rightarrow> (report \<times> 'g agent) option" where
  "drive nw ch m a = do {
     (_, a) \<leftarrow> StockCatalogue nw ch m (be_MaxNewTitles m) a;
     (members, a) \<leftarrow> RegisterMembers nw ch m (be_MaxNewMembers m) a;
     (_, a) \<leftarrow> Circulate nw ch m members (be_MaxActions m) a;
     let a = RunChecks nw a;
     Some (Finish (ag_report a), a) }"

text \<open>The part of a pass after the agent has a token.\<close>

definition guarded_drive ::
  "network \<Rightarrow> ('f, 'g) chance \<Rightarrow> 'f behaviour \<Rightarrow> sim_options \<Rightarrow> 'g agent \<Rightarrow> pass_result option" where
  "guarded_drive nw ch m opts a =
     (case SafeToRun nw a of ((safe, why), a) \<Rightarrow>
        if \<not> safe \<and> \<not> so_AllowReal opts
        then Some \<lparr>pr_Result = Inl (refusal_text why), pr_Token = ag_staffToken a, pr_Log = ag_log a\<rparr>
        else do { (r, a) \<leftarrow> drive nw ch m a;
                  Some \<lparr>pr_Result = Inr r, pr_Token = ag_staffToken a, pr_Log = ag_log a\<rparr> })"

definition runPass ::
  "network \<Rightarrow> ('f, 'g) chance \<Rightarrow> 'f behaviour \<Rightarrow> sim_options \<Rightarrow> string \<Rightarrow> 'g \<Rightarrow> pass_result option" where
  "runPass nw ch m opts token g =
     (case NewAgent nw (so_BaseURL opts) (so_CatalogueURL opts) g of
        Inl e \<Rightarrow> Some \<lparr>pr_Result = Inl (url_error_text nw e), pr_Token = token, pr_Log = []\<rparr>
      | Inr (Inl e) \<Rightarrow> Some \<lparr>pr_Result = Inl e, pr_Token = token, pr_Log = []\<rparr>
      | Inr (Inr a) \<Rightarrow>
          case (if token \<noteq> [] then (Inr (), a\<lparr>ag_staffToken := token\<rparr>)
                else SignIn nw (so_Login opts) (so_Password opts) a) of
            (Inl e, a) \<Rightarrow> Some \<lparr>pr_Result = Inl e, pr_Token = token, pr_Log = ag_log a\<rparr>
          | (Inr _, a) \<Rightarrow>
              case Authenticated nw a of (ok, a) \<Rightarrow>
              case (if ok then (Inr (), a) else SignIn nw (so_Login opts) (so_Password opts) a) of
                (Inl e, a) \<Rightarrow> Some \<lparr>pr_Result = Inl e, pr_Token = ag_staffToken a, pr_Log = ag_log a\<rparr>
              | (Inr _, a) \<Rightarrow> guarded_drive nw ch m opts a)"

definition pass_code :: "pass_result \<Rightarrow> nat" where
  "pass_code p = (case pr_Result p of Inl _ \<Rightarrow> 1 | Inr r \<Rightarrow> if rp_Outcome r = ''failed'' then 1 else 0)"

text \<open>The passes one invocation begins, each with its deployment and random source, and the worst code.\<close>

fun run_passes ::
  "('f, 'g) chance \<Rightarrow> 'f behaviour \<Rightarrow> sim_options \<Rightarrow> string \<Rightarrow> nat \<Rightarrow> (network \<times> 'g) list \<Rightarrow> nat option" where
  "run_passes ch m opts token worst [] = Some worst"
| "run_passes ch m opts token worst ((nw, g) # rest) = do {
     p \<leftarrow> runPass nw ch m opts token g;
     run_passes ch m opts (pr_Token p) (max worst (pass_code p)) rest }"

definition with_flags :: "int \<Rightarrow> int \<Rightarrow> int \<Rightarrow> 'f behaviour \<Rightarrow> 'f behaviour" where
  "with_flags titles members actions m =
     (let m = (if 0 < titles then m\<lparr>be_MaxNewTitles := titles\<rparr> else m);
          m = (if 0 \<le> members then m\<lparr>be_MaxNewMembers := members\<rparr> else m)
      in if 0 \<le> actions then m\<lparr>be_MaxActions := actions\<rparr> else m)"

definition simulator_command ::
  "('f, 'g) chance \<Rightarrow> string + 'f behaviour \<Rightarrow> sim_options \<Rightarrow> int \<Rightarrow> int \<Rightarrow> int \<Rightarrow> (network \<times> 'g) list \<Rightarrow> nat option" where
  "simulator_command ch embedded opts titles members actions passes =
     (if so_Login opts = [] \<or> so_Password opts = [] then Some 2
      else case LoadModel embedded of
        Inl e \<Rightarrow> Some 1
      | Inr m \<Rightarrow> run_passes ch (with_flags titles members actions m) opts [] 0 passes)"

end
