(* ===== verification/Simulator_Runs.thy ===== *)
theory Simulator_Runs
  imports Simulator "HOL-Library.Sublist"
begin

text \<open>
  What a pass of the simulator does to a deployment and what its report says of it: every request it
  makes, read off the log of exchanges, and every counter of the report against that log.
\<close>

section \<open>Computations that may panic\<close>

definition leads :: "('a \<times> 's) option \<Rightarrow> ('a \<Rightarrow> 's \<Rightarrow> bool) \<Rightarrow> bool" where
  "leads m Q \<longleftrightarrow> (case m of None \<Rightarrow> True | Some (x, s) \<Rightarrow> Q x s)"

lemma leads_simps [simp]:
  "leads None Q" "leads (Some y) Q \<longleftrightarrow> Q (fst y) (snd y)"
  "leads (Option.bind m f) Q \<longleftrightarrow> leads m (\<lambda>x s. leads (f (x, s)) Q)"
  by (auto simp: leads_def split: option.splits prod.splits Option.bind_splits)

lemma leads_mono: "leads m P \<Longrightarrow> (\<And>x s. P x s \<Longrightarrow> Q x s) \<Longrightarrow> leads m Q"
  by (auto simp: leads_def split: option.splits)

lemma leads_any: "(\<And>x s. m = Some (x, s) \<Longrightarrow> Q x s) \<Longrightarrow> leads m Q"
  by (auto simp: leads_def split: option.splits)

section \<open>Reading the log\<close>

definition answered :: "string \<Rightarrow> (string \<Rightarrow> bool) \<Rightarrow> nat \<Rightarrow> exchange \<Rightarrow> bool" where
  "answered meth P status x \<longleftrightarrow>
     rq_Method (fst x) = meth \<and> P (rq_Path (fst x)) \<and> (case snd x of Silence _ \<Rightarrow> False | Replied s _ \<Rightarrow> s = status)"

definition data_of :: "(string \<Rightarrow> string + 'o) \<Rightarrow> 'o \<Rightarrow> exchange \<Rightarrow> 'o option" where
  "data_of dec zero x =
     (case snd x of Silence _ \<Rightarrow> None
      | Replied _ payload \<Rightarrow> (case read_out (Some dec) zero payload of Inl _ \<Rightarrow> None | Inr v \<Rightarrow> Some v))"

text \<open>The borrowers this log has registered, and the loans it was told synthetic borrowers hold.\<close>

definition registered :: "network \<Rightarrow> exchange list \<Rightarrow> string list" where
  "registered nw log =
     List.map_filter (data_of (nw_member nw) []) (filter (answered ''POST'' ((=) ''/api/v1/members'') 201) log)"

definition held_by_synthetic :: "network \<Rightarrow> exchange list \<Rightarrow> string list" where
  "held_by_synthetic nw log =
     concat (List.map_filter (data_of (nw_held nw) [])
       (filter (\<lambda>x. rq_Method (fst x) = ''GET'' \<and> rq_Path (fst x) = ''/api/v1/loans?open=true&synthetic=true&per_page=40'' \<and>
                    (case snd x of Silence _ \<Rightarrow> False | Replied s _ \<Rightarrow> s < 400)) log))"

definition imported :: "network \<Rightarrow> exchange list \<Rightarrow> created_data list" where
  "imported nw log =
     List.map_filter (data_of (nw_created nw) \<lparr>cd_ID = [], cd_ExistingID = []\<rparr>)
       (filter (answered ''POST'' ((=) ''/api/v1/books'') 201) log)"

definition refused_with :: "network \<Rightarrow> string \<Rightarrow> exchange \<Rightarrow> bool" where
  "refused_with nw code x \<longleftrightarrow>
     (case snd x of Silence _ \<Rightarrow> False | Replied s payload \<Rightarrow> 400 \<le> s \<and> refusal_code nw s payload = code)"

definition broke :: "exchange \<Rightarrow> bool" where
  "broke x \<longleftrightarrow> (case snd x of Silence _ \<Rightarrow> False | Replied s _ \<Rightarrow> 500 \<le> s)"

section \<open>The requests a pass may make\<close>

definition body_field :: "json option \<Rightarrow> string \<Rightarrow> json option" where
  "body_field body k = (case body of Some (Obj fs) \<Rightarrow> map_of fs k | _ \<Rightarrow> None)"

definition synthetic_registration :: "json option \<Rightarrow> bool" where
  "synthetic_registration body \<longleftrightarrow>
     body_field body ''is_synthetic'' = Some (Bool True) \<and>
     (case body_field body ''email'' of Some (Str _ s) \<Rightarrow> has_suffix s ''@simulated.invalid'' | _ \<Rightarrow> False)"

text \<open>
  Beside reading, signing in and stocking the catalogue: a registration is of a synthetic borrower, a loan
  is for a borrower registered earlier in the same pass, and only a loan that was listed as synthetic is
  closed.
\<close>

definition own_request :: "network \<Rightarrow> exchange list \<Rightarrow> api_request \<Rightarrow> bool" where
  "own_request nw older q \<longleftrightarrow>
     rq_Method q = ''GET'' \<or>
     rq_Method q = ''POST'' \<and>
       (if rq_Path q = ''/api/v1/members'' then synthetic_registration (rq_Body q)
        else if rq_Path q = ''/api/v1/loans''
        then list_ex (\<lambda>m. body_field (rq_Body q) ''member_id'' = Some (json_text m)) (registered nw older)
        else if has_prefix (rq_Path q) ''/api/v1/loans/''
        then list_ex (\<lambda>i. rq_Path q = ''/api/v1/loans/'' @ i @ ''/return'') (held_by_synthetic nw older)
        else rq_Path q = ''/api/v1/auth/login'' \<or> rq_Path q = ''/api/v1/books'' \<or> has_prefix (rq_Path q) ''/api/v1/books/'')"

fun own_traffic :: "network \<Rightarrow> exchange list \<Rightarrow> bool" where
  "own_traffic nw [] = True"
| "own_traffic nw (x # older) = (own_request nw older (fst x) \<and> own_traffic nw older)"

text \<open>The report against the log.\<close>

definition report_matches :: "network \<Rightarrow> report \<Rightarrow> exchange list \<Rightarrow> bool" where
  "report_matches nw r log \<longleftrightarrow>
     rp_LoansCreated r = count_where (answered ''POST'' ((=) ''/api/v1/loans'') 201) log \<and>
     rp_ReturnsMade r = count_where (answered ''POST'' (\<lambda>p. has_prefix p ''/api/v1/loans/'') 200) log \<and>
     rp_CopiesAdded r = count_where (answered ''POST'' (\<lambda>p. has_prefix p ''/api/v1/books/'') 201) log \<and>
     rp_MembersCreated r = length (registered nw log) \<and>
     rp_BooksImported r = length (imported nw log) \<and>
     rp_CopiesToExisting r = 0 \<and>
     (\<forall>c. rp_Refusals r c = count_where (refused_with nw c) log) \<and>
     count_where broke log \<le> length (rp_Failures r)"

definition good_agent :: "network \<Rightarrow> 'g agent \<Rightarrow> bool" where
  "good_agent nw a \<longleftrightarrow>
     own_traffic nw (ag_log a) \<and> report_matches nw (ag_report a) (ag_log a) \<and>
     list_all (\<lambda>x. rq_Base (fst x) = ag_baseURL a) (ag_log a)"

definition onward :: "network \<Rightarrow> 'g agent \<Rightarrow> 'g agent \<Rightarrow> bool" where
  "onward nw a a' \<longleftrightarrow>
     good_agent nw a' \<and> suffix (ag_log a) (ag_log a') \<and> ag_baseURL a' = ag_baseURL a \<and>
     ag_catalogue a' = ag_catalogue a"

lemma onward_trans: "onward nw a b \<Longrightarrow> onward nw b c \<Longrightarrow> onward nw a c"
  by (auto simp: onward_def intro: suffix_order.trans)

lemma onward_refl: "good_agent nw a \<Longrightarrow> onward nw a a"
  by (simp add: onward_def)

lemma onward_good: "onward nw a b \<Longrightarrow> good_agent nw b"
  by (simp add: onward_def)

lemma leads_onward:
  "onward nw a b \<Longrightarrow> leads m (\<lambda>_. onward nw b) \<Longrightarrow> leads m (\<lambda>_. onward nw a)"
  by (auto elim!: leads_mono intro: onward_trans)

lemma onward_rng [simp]:
  "onward nw (a\<lparr>ag_rng := g\<rparr>) = onward nw a"
  "onward nw b (a\<lparr>ag_rng := g\<rparr>) \<longleftrightarrow> onward nw b a"
  "good_agent nw (a\<lparr>ag_rng := g\<rparr>) \<longleftrightarrow> good_agent nw a"
  "good_agent nw (a\<lparr>ag_staffToken := t\<rparr>) \<longleftrightarrow> good_agent nw a"
  by (simp_all add: fun_eq_iff onward_def good_agent_def)

lemma map_filter_mono: "set xs \<subseteq> set ys \<Longrightarrow> set (List.map_filter f xs) \<subseteq> set (List.map_filter f ys)"
  by (auto simp: map_filter_def)

lemma suffix_filter: "suffix xs ys \<Longrightarrow> set (filter P xs) \<subseteq> set (filter P ys)"
  by (auto dest: set_mono_suffix)

lemma registered_mono: "suffix log log' \<Longrightarrow> set (registered nw log) \<subseteq> set (registered nw log')"
  unfolding registered_def by (intro map_filter_mono suffix_filter)

section \<open>One call\<close>

abbreviation the_request :: "string \<Rightarrow> string \<Rightarrow> json option \<Rightarrow> string \<Rightarrow> 'g agent \<Rightarrow> api_request" where
  "the_request meth path body token a \<equiv>
     \<lparr>rq_Method = meth, rq_Base = ag_baseURL a, rq_Path = path, rq_Body = body, rq_Token = token\<rparr>"

abbreviation logged :: "api_request \<Rightarrow> api_answer \<Rightarrow> 'g agent \<Rightarrow> 'g agent" where
  "logged q r a \<equiv> a\<lparr>ag_log := (q, r) # ag_log a\<rparr>"

lemma call_cases:
  obtains (unsent) e where "api_call nw meth path body out zero token a = (Inl e, a)"
  | (silent) e where "api_call nw meth path body out zero token a = (Inl e, logged (the_request meth path body token a) (Silence e) a)"
  | (refused) st p where "400 \<le> st"
      "api_call nw meth path body out zero token a = (Inr (st, refusal_code nw st p, zero),
         note_refusal nw meth path st (refusal_code nw st p) (logged (the_request meth path body token a) (Replied st p) a))"
  | (unreadable) st p e where "st < 400" "read_out out zero p = Inl e"
      "api_call nw meth path body out zero token a = (Inl e, logged (the_request meth path body token a) (Replied st p) a)"
  | (data) st p v where "st < 400" "read_out out zero p = Inr v"
      "api_call nw meth path body out zero token a = (Inr (st, [], v), logged (the_request meth path body token a) (Replied st p) a)"
proof (cases "nw_bad_url nw (ag_baseURL a @ path)")
  case None
  show thesis
  proof (cases "nw_answer nw (ag_log a) (the_request meth path body token a)")
    case (Silence e)
    with None show thesis by (intro silent) (simp add: api_call_def)
  next
    case (Replied st p)
    show thesis
    proof (cases "400 \<le> st")
      case True
      with None Replied show thesis by (intro refused [of st p]) (simp_all add: api_call_def Let_def)
    next
      case False
      show thesis
      proof (cases "read_out out zero p")
        case (Inl e)
        with None Replied False show thesis by (intro unreadable [of st p e]) (simp_all add: api_call_def Let_def)
      next
        case (Inr v)
        with None Replied False show thesis by (intro data [of st p v]) (simp_all add: api_call_def Let_def)
      qed
    qed
  qed
qed (auto simp: api_call_def intro: unsent)

lemma note_refusal_sel [simp]:
  "ag_log (note_refusal nw meth path st code a) = ag_log a"
  "ag_baseURL (note_refusal nw meth path st code a) = ag_baseURL a"
  "ag_catalogue (note_refusal nw meth path st code a) = ag_catalogue a"
  "ag_staffToken (note_refusal nw meth path st code a) = ag_staffToken a"
  "ag_rng (note_refusal nw meth path st code a) = ag_rng a"
  by (simp_all add: note_refusal_def Let_def)

text \<open>An exchange that moves no counter, and a refusal, which moves those of refusals.\<close>

lemma matches_quiet:
  assumes "report_matches nw r log"
    and "case x of Silence _ \<Rightarrow> True | Replied s _ \<Rightarrow> s < 400 \<and> rq_Method q \<noteq> ''POST''"
  shows "report_matches nw r ((q, x) # log)"
  using assms
  by (auto simp: report_matches_def answered_def registered_def imported_def refused_with_def broke_def
    map_filter_simps split: api_answer.splits)

lemma matches_refused:
  assumes "report_matches nw (ag_report a) log" and "400 \<le> st"
  shows "report_matches nw (ag_report (note_refusal nw meth path st (refusal_code nw st p) a)) ((q, Replied st p) # log)"
  using assms
  by (auto simp: report_matches_def answered_def registered_def imported_def refused_with_def broke_def
    note_refusal_def Let_def)

lemma logged_onward:
  assumes "good_agent nw a" and "own_request nw (ag_log a) q" and "rq_Base q = ag_baseURL a"
    and "report_matches nw (ag_report a') ((q, x) # ag_log a)"
    and "ag_log a' = (q, x) # ag_log a" and "ag_baseURL a' = ag_baseURL a" and "ag_catalogue a' = ag_catalogue a"
  shows "onward nw a a'"
  using assms by (auto simp: onward_def good_agent_def intro: suffix_ConsI)

lemma step_silent:
  assumes "good_agent nw a" and "own_request nw (ag_log a) q" and "rq_Base q = ag_baseURL a"
  shows "onward nw a (logged q (Silence e) a)"
  using assms(1) by (intro logged_onward [OF assms, where x = "Silence e"] matches_quiet) (simp_all add: good_agent_def)

lemma step_refused:
  assumes "good_agent nw a" and "own_request nw (ag_log a) q" and "rq_Base q = ag_baseURL a" and "400 \<le> st"
  shows "onward nw a (note_refusal nw meth path st (refusal_code nw st p) (logged q (Replied st p) a))"
  using assms(1,4)
  by (intro logged_onward [OF assms(1-3), where x = "Replied st p"] matches_refused) (simp_all add: good_agent_def)

lemma step_counted:
  assumes "good_agent nw a" and "own_request nw (ag_log a) q" and "rq_Base q = ag_baseURL a"
    and "report_matches nw r ((q, x) # ag_log a)"
  shows "onward nw a ((logged q x a)\<lparr>ag_report := r\<rparr>)"
  using assms by (intro logged_onward [where q = q and x = x]) simp_all

lemma step_plain:
  assumes "good_agent nw a" and "own_request nw (ag_log a) q" and "rq_Base q = ag_baseURL a"
    and "report_matches nw (ag_report a) ((q, x) # ag_log a)"
  shows "onward nw a (logged q x a)"
  using assms by (intro logged_onward [where q = q and x = x]) simp_all

text \<open>What a call of the pass comes to: without data the agent is onward, with data the log has one more.\<close>

lemma call_outcome:
  assumes good: "good_agent nw a" and own: "own_request nw (ag_log a) (the_request meth path body token a)"
    and unread: "\<forall>st p e. st < 400 \<longrightarrow> read_out out zero p = Inl e \<longrightarrow>
      report_matches nw (ag_report a) ((the_request meth path body token a, Replied st p) # ag_log a)"
  obtains (failed) e a' where "api_call nw meth path body out zero token a = (Inl e, a')" "onward nw a a'"
  | (refused) st c a' where "400 \<le> st" "api_call nw meth path body out zero token a = (Inr (st, c, zero), a')" "onward nw a a'"
  | (data) st p v where "st < 400" "read_out out zero p = Inr v"
      "api_call nw meth path body out zero token a = (Inr (st, [], v), logged (the_request meth path body token a) (Replied st p) a)"
proof (cases rule: call_cases [of nw meth path body out zero token a])
  case (unsent e)
  then show thesis using good by (intro failed) (auto simp: onward_refl)
next
  case (silent e)
  then show thesis using step_silent [OF good own] by (intro failed) auto
next
  case (refused st p)
  then show thesis using step_refused [OF good own] by (intro that(2)) auto
next
  case (unreadable st p e)
  then show thesis using step_plain [OF good own] unread by (intro failed) auto
qed (rule data)

text \<open>A call whose answer moves no counter.\<close>

lemma call_quiet_onward:
  assumes good: "good_agent nw a" and own: "own_request nw (ag_log a) (the_request meth path body token a)"
    and quiet: "\<And>st p. st < 400 \<Longrightarrow>
      report_matches nw (ag_report a) ((the_request meth path body token a, Replied st p) # ag_log a)"
    and c: "api_call nw meth path body out zero token a = (r, a')"
  shows "onward nw a a'"
proof (cases rule: call_outcome [OF good own, of out zero])
  case (4 st p v)
  with c show ?thesis using step_plain [OF good own] quiet by auto
qed (use c quiet in auto)

lemma call_get_onward:
  assumes "good_agent nw a" and "api_call nw ''GET'' path body out zero token a = (r, a')"
  shows "onward nw a a'"
  using assms(1) by (intro call_quiet_onward [OF assms(1) _ _ assms(2)] matches_quiet) (simp_all add: own_request_def good_agent_def)

lemma SignIn_onward:
  assumes good: "good_agent nw a"
  shows "onward nw a (snd (SignIn nw login password a))"
proof -
  let ?body = "Some (Obj [(''login'', json_text login), (''password'', json_text password)])"
  let ?q = "the_request ''POST'' ''/api/v1/auth/login'' ?body [] a"
  have m: "report_matches nw (ag_report a) (ag_log a)" using good by (simp add: good_agent_def)
  have "report_matches nw (ag_report a) ((?q, Replied st p) # ag_log a)" if "st < 400" for st p
    using m that by (auto simp: report_matches_def answered_def registered_def imported_def refused_with_def broke_def has_prefix_def)
  moreover have "own_request nw (ag_log a) ?q" by (simp add: own_request_def has_prefix_def)
  ultimately have "onward nw a (snd (api_call nw ''POST'' ''/api/v1/auth/login'' ?body out zero [] a))"
    for out :: "(string \<Rightarrow> string + session_data) option" and zero
    by (intro call_quiet_onward [OF good _ _ surjective_pairing])
  then show ?thesis
    unfolding SignIn_def by (auto simp: onward_def split: prod.splits sum.splits) (metis snd_conv)+
qed

lemma Authenticated_onward: "good_agent nw a \<Longrightarrow> onward nw a (snd (Authenticated nw a))"
  unfolding Authenticated_def by (auto simp: onward_refl split: prod.splits sum.splits dest: call_get_onward)

lemma has_prefix_append [simp]: "has_prefix (p @ s) p"
  by (simp add: has_prefix_def)

text \<open>A copy: the counter follows the answer.\<close>

lemma copy_path:
  "has_prefix (''/api/v1/books/'' @ s) ''/api/v1/books/''" "''/api/v1/books/'' @ s \<noteq> ''/api/v1/members''"
  "''/api/v1/books/'' @ s \<noteq> ''/api/v1/loans''" "\<not> has_prefix (''/api/v1/books/'' @ s) ''/api/v1/loans/''"
  "''/api/v1/books/'' @ s \<noteq> ''/api/v1/books''"
  by (simp_all add: has_prefix_def)

lemma post_onward:
  assumes good: "good_agent nw a" and own: "own_request nw (ag_log a) (the_request ''POST'' path body token a)" and "ok < 400"
    and counted: "\<And>st p. st < 400 \<Longrightarrow> report_matches nw (if st = ok then f (ag_report a) else ag_report a)
      ((the_request ''POST'' path body token a, Replied st p) # ag_log a)"
  shows "onward nw a (case call_only nw ''POST'' path body token a of
     (Inr (status, _), a) \<Rightarrow> if status = ok then a\<lparr>ag_report := f (ag_report a)\<rparr> else a
   | (Inl _, a) \<Rightarrow> a)"
proof (cases rule: call_outcome [OF good own, of None "()"])
  case (4 st p v)
  then show ?thesis
    using counted [of st p] step_counted [OF good own, of "f (ag_report a)" "Replied st p"]
      step_plain [OF good own, of "Replied st p"]
    by (auto split: if_splits)
qed (use assms(3) in \<open>auto simp: read_out_def\<close>)

lemma post_copy_onward:
  assumes good: "good_agent nw a"
  shows "onward nw a (post_copy nw b number pol a)"
  unfolding post_copy_def
proof (rule post_onward [OF good, where f = "\<lambda>r. r\<lparr>rp_CopiesAdded := Suc (rp_CopiesAdded r)\<rparr>"])
  note pre = copy_path [of "b @ ''/copies''"]
  have m: "report_matches nw (ag_report a) (ag_log a)" using good by (simp add: good_agent_def)
  fix body token st p
  let ?q = "the_request ''POST'' (''/api/v1/books/'' @ b @ ''/copies'') body token a"
  show "own_request nw (ag_log a) ?q" using pre by (simp add: own_request_def)
  show "report_matches nw (if st = 201 then (ag_report a)\<lparr>rp_CopiesAdded := Suc (rp_CopiesAdded (ag_report a))\<rparr> else ag_report a)
      ((?q, Replied st p) # ag_log a)" if "st < 400"
    using m that pre
    by (auto simp: report_matches_def answered_def registered_def imported_def refused_with_def broke_def)
qed simp

lemma add_copy_onward:
  "good_agent nw a \<Longrightarrow> leads (add_copy nw ch m b a) (\<lambda>_. onward nw a)"
  unfolding add_copy_def using post_copy_onward [of nw "a\<lparr>ag_rng := g\<rparr>" for g]
  by (auto intro!: leads_any)

section \<open>Stocking\<close>

lemma bump_quiet:
  "good_agent nw a \<Longrightarrow> onward nw a (a\<lparr>ag_report := (ag_report a)\<lparr>rp_Failures := rp_Failures (ag_report a) @ fs\<rparr>\<rparr>)"
  by (auto simp: onward_def good_agent_def report_matches_def)

lemma shelve_copies_onward:
  "good_agent nw a \<Longrightarrow> leads (shelve_copies nw ch m b i a) (\<lambda>_. onward nw a)"
proof (induction nw ch m b i a rule: shelve_copies.induct)
  case (1 nw ch m b i a)
  show ?case
  proof (cases "PickCopyCount ch m (ag_rng a)")
    case (Some y)
    obtain n g where y: "y = (n, g)" by fastforce
    show ?thesis
    proof (cases "n \<le> int i")
      case True
      with Some y "1.prems" show ?thesis by (simp add: shelve_copies.simps [of nw ch m b i a] onward_refl)
    next
      case False
      show ?thesis
      proof (cases "add_copy nw ch m b (a\<lparr>ag_rng := g\<rparr>)")
        case None
        with Some y False show ?thesis by (simp add: shelve_copies.simps [of nw ch m b i a])
      next
        case (Some z)
        obtain u a1 where z: "z = (u, a1)" by (cases z)
        have "onward nw a a1"
          using add_copy_onward [of nw "a\<lparr>ag_rng := g\<rparr>" ch m b] "1.prems" Some z by simp
        moreover have "leads (shelve_copies nw ch m b (Suc i) a1) (\<lambda>_. onward nw a1)"
          using "1.IH" [OF \<open>PickCopyCount ch m (ag_rng a) = Some y\<close> y [symmetric] False Some z [symmetric]] onward_good [OF calculation] by simp
        ultimately show ?thesis
          using \<open>PickCopyCount ch m (ag_rng a) = Some y\<close> y False Some z
          by (auto simp: shelve_copies.simps [of nw ch m b i a] elim!: leads_mono intro: onward_trans)
      qed
    qed
  qed (simp add: shelve_copies.simps [of nw ch m b i a])
qed

lemma post_book_onward:
  assumes good: "good_agent nw a"
  shows "leads (post_book nw ch m callNumber meta a) (\<lambda>_. onward nw a)"
proof -
  let ?q = "the_request ''POST'' ''/api/v1/books'' (Some (book_body callNumber meta)) (ag_staffToken a) a"
  let ?zero = "\<lparr>cd_ID = [], cd_ExistingID = []\<rparr>"
  let ?bumped = "(ag_report a)\<lparr>rp_BooksImported := Suc (rp_BooksImported (ag_report a))\<rparr>"
  have m: "report_matches nw (ag_report a) (ag_log a)" using good by (simp add: good_agent_def)
  have own: "own_request nw (ag_log a) ?q" by (simp add: own_request_def has_prefix_def)
  have unread: "\<forall>st p e. st < 400 \<longrightarrow> read_out (Some (nw_created nw)) ?zero p = Inl e \<longrightarrow>
      report_matches nw (ag_report a) ((?q, Replied st p) # ag_log a)"
    using m by (auto simp: report_matches_def answered_def registered_def imported_def refused_with_def broke_def
      has_prefix_def map_filter_simps data_of_def)
  have counted: "report_matches nw (if st = 201 then ?bumped else ag_report a) ((?q, Replied st p) # ag_log a)"
    if "st < 400" "read_out (Some (nw_created nw)) ?zero p = Inr v" for st p v
    using m that by (auto simp: report_matches_def answered_def registered_def imported_def refused_with_def broke_def
      has_prefix_def map_filter_simps data_of_def)
  show ?thesis
  proof (cases rule: call_outcome [OF good own unread])
    case (1 e a')
    then show ?thesis
      using bump_quiet [OF onward_good, of nw a a'] by (auto simp: post_book_def intro: onward_trans)
  next
    case (3 st p v)
    show ?thesis
    proof (cases "st = 201")
      case True
      then have o: "onward nw a ((logged ?q (Replied st p) a)\<lparr>ag_report := ?bumped\<rparr>)"
        using step_counted [OF good own _ counted [OF 3(1,2)]] by simp
      then show ?thesis
        using leads_mono [OF shelve_copies_onward [OF onward_good [OF o]] onward_trans [OF o]] 3 True
        by (simp add: post_book_def)
    next
      case False
      with 3 show ?thesis
        using step_plain [OF good own, of "Replied st p"] counted [OF 3(1,2)] by (auto simp: post_book_def)
    qed
  qed (auto simp: post_book_def)
qed

lemma stock_one_onward: "good_agent nw a \<Longrightarrow> leads (stock_one nw ch m lcc meta a) (\<lambda>_. onward nw a)"
  unfolding stock_one_def using post_book_onward [of nw "a\<lparr>ag_rng := g\<rparr>" for g]
  by (auto intro!: leads_any [of "callNumberFor ch lcc meta (ag_rng a)"])

lemma stock_all_onward: "good_agent nw a \<Longrightarrow> leads (stock_all nw ch m lcc found a) (\<lambda>_. onward nw a)"
proof (induction found arbitrary: a)
  case (Cons meta found)
  then show ?case
    by (auto intro!: leads_mono [OF stock_one_onward [OF Cons.prems]] leads_mono [OF Cons.IH]
      intro: onward_trans dest: onward_good)
qed (simp add: onward_refl)

lemma StockCatalogue_onward:
  assumes "good_agent nw a"
  shows "leads (StockCatalogue nw ch m n a) (\<lambda>_. onward nw a)"
  unfolding StockCatalogue_def Let_def
  using assms bump_quiet [of nw "a\<lparr>ag_rng := g\<rparr>" for g] stock_all_onward [of nw "a\<lparr>ag_rng := g\<rparr>" for g]
  by (auto intro!: leads_any [of "PickSubject ch m (ag_rng a)"] split: sum.splits)

section \<open>Registering and circulating\<close>

text \<open>A registered borrower is one of the log's.\<close>

definition known :: "network \<Rightarrow> 'f sim_member list \<Rightarrow> 'g agent \<Rightarrow> bool" where
  "known nw ms a \<longleftrightarrow> sm_ID ` set ms \<subseteq> set (registered nw (ag_log a))"

lemma known_onward: "known nw ms a \<Longrightarrow> onward nw a b \<Longrightarrow> known nw ms b"
  by (auto simp: known_def onward_def dest: registered_mono)

lemma post_member_onward:
  assumes good: "good_agent nw a"
  shows "case post_member nw ident archetype person a of (ms, a') \<Rightarrow> onward nw a a' \<and> known nw ms a'"
proof -
  obtain name dep lev where person: "person = (name, dep, lev)" by (cases person)
  let ?body = "Some (member_body ident name (at_Category archetype) dep lev)"
  let ?q = "the_request ''POST'' ''/api/v1/members'' ?body (ag_staffToken a) a"
  let ?bumped = "(ag_report a)\<lparr>rp_MembersCreated := Suc (rp_MembersCreated (ag_report a))\<rparr>"
  have m: "report_matches nw (ag_report a) (ag_log a)" using good by (simp add: good_agent_def)
  have suffix: "has_suffix (s @ t) t" for s t by (simp add: has_suffix_def)
  have own: "own_request nw (ag_log a) ?q"
    by (simp add: own_request_def synthetic_registration_def body_field_def member_body_def json_text_def suffix del: append.simps)
  have unread: "\<forall>st p e. st < 400 \<longrightarrow> read_out (Some (nw_member nw)) [] p = Inl e \<longrightarrow>
      report_matches nw (ag_report a) ((?q, Replied st p) # ag_log a)"
    using m by (auto simp: report_matches_def answered_def registered_def imported_def refused_with_def broke_def
      has_prefix_def map_filter_simps data_of_def)
  have counted: "report_matches nw (if st = 201 then ?bumped else ag_report a) ((?q, Replied st p) # ag_log a)"
    if "st < 400" "read_out (Some (nw_member nw)) [] p = Inr v" for st p v
    using m that by (auto simp: report_matches_def answered_def registered_def imported_def refused_with_def broke_def
      has_prefix_def map_filter_simps data_of_def)
  show ?thesis
  proof (cases rule: call_outcome [OF good own unread])
    case (3 st p v)
    have reg: "v \<in> set (registered nw ((?q, Replied st p) # ag_log a))" if "st = 201"
      using 3 that by (simp add: registered_def answered_def data_of_def map_filter_simps)
    show ?thesis
      using 3 step_counted [OF good own _ counted [OF 3(1,2)]] step_plain [OF good own, of "Replied st p"] counted [OF 3(1,2)] reg
      by (auto simp: post_member_def person known_def)
  qed (auto simp: post_member_def person known_def)
qed

lemma post_member_rules:
  assumes "good_agent nw a"
  shows "onward nw a (snd (post_member nw ident archetype person (a\<lparr>ag_rng := g\<rparr>)))"
    and "known nw (fst (post_member nw ident archetype person (a\<lparr>ag_rng := g\<rparr>)))
      (snd (post_member nw ident archetype person (a\<lparr>ag_rng := g\<rparr>)))"
  using post_member_onward [where nw = nw and a = "a\<lparr>ag_rng := g\<rparr>" and ident = ident and archetype = archetype and person = person] assms by (simp_all add: case_prod_beta)

lemma register_one_onward:
  "good_agent nw a \<Longrightarrow> leads (register_one nw ch m a) (\<lambda>ms a'. onward nw a a' \<and> known nw ms a')"
  unfolding register_one_def by (auto intro!: leads_any post_member_rules)

lemma known_append: "known nw (ms @ ns) a \<longleftrightarrow> known nw ms a \<and> known nw ns a"
  by (auto simp: known_def)

lemma register_all_onward:
  "good_agent nw a \<Longrightarrow> leads (register_all nw ch m n a) (\<lambda>ms a'. onward nw a a' \<and> known nw ms a')"
proof (induction n arbitrary: a)
  case (Suc n)
  have "leads (register_all nw ch m n b) (\<lambda>ms' b'. onward nw a b' \<and> known nw (ms @ ms') b')"
    if "onward nw a b \<and> known nw ms b" for ms b
    by (rule leads_mono [OF Suc.IH])
      (use that in \<open>auto simp: known_append intro: onward_trans known_onward dest: onward_good\<close>)
  then show ?case
    by (auto intro!: leads_mono [OF register_one_onward [OF Suc.prems]])
qed (simp add: onward_refl known_def)

lemma RegisterMembers_onward:
  "good_agent nw a \<Longrightarrow> leads (RegisterMembers nw ch m n a) (\<lambda>ms a'. onward nw a a' \<and> known nw ms a')"
  by (simp add: RegisterMembers_def register_all_onward)

lemma post_loan_onward:
  assumes good: "good_agent nw a" and "i \<in> set (registered nw (ag_log a))"
  shows "onward nw a (post_loan nw c i a)"
  unfolding post_loan_def
proof (rule post_onward [OF good, where f = "\<lambda>r. r\<lparr>rp_LoansCreated := Suc (rp_LoansCreated r)\<rparr>"])
  have m: "report_matches nw (ag_report a) (ag_log a)" using good by (simp add: good_agent_def)
  let ?q = "the_request ''POST'' ''/api/v1/loans'' (Some (Obj [(''copy_id'', json_text c), (''member_id'', json_text i)])) (ag_staffToken a) a"
  show "own_request nw (ag_log a) ?q"
    using assms(2) by (auto simp: own_request_def body_field_def list_ex_iff)
  show "report_matches nw (if st = 201 then (ag_report a)\<lparr>rp_LoansCreated := Suc (rp_LoansCreated (ag_report a))\<rparr> else ag_report a)
      ((?q, Replied st p) # ag_log a)" if "st < 400" for st p
    using m that
    by (auto simp: report_matches_def answered_def registered_def imported_def refused_with_def broke_def has_prefix_def)
qed simp

lemma borrow_title_onward:
  assumes "good_agent nw a" and "sm_ID member \<in> set (registered nw (ag_log a))"
  shows "onward nw a (borrow_title nw member b a)"
proof -
  obtain r a1 where c: "api_call nw ''GET'' (''/api/v1/books/'' @ b) None (Some (nw_copies nw)) [] (ag_staffToken a) a = (r, a1)"
    by fastforce
  note o = call_get_onward [OF assms(1) c]
  then have "sm_ID member \<in> set (registered nw (ag_log a1))"
    using assms(2) by (auto simp: onward_def dest: registered_mono)
  then have "onward nw a (post_loan nw x (sm_ID member) a1)" for x
    using post_loan_onward [OF onward_good [OF o]] onward_trans [OF o] by blast
  with o c show ?thesis
    by (auto simp: borrow_title_def split: sum.splits option.splits)
qed

lemma return_path:
  "has_prefix (''/api/v1/loans/'' @ s) ''/api/v1/loans/''" "''/api/v1/loans/'' @ s \<noteq> ''/api/v1/members''"
  "''/api/v1/loans/'' @ s \<noteq> ''/api/v1/loans''" "\<not> has_prefix (''/api/v1/loans/'' @ s) ''/api/v1/books/''"
  "''/api/v1/loans/'' @ s \<noteq> ''/api/v1/books''"
  by (simp_all add: has_prefix_def)

lemma post_return_onward:
  assumes good: "good_agent nw a" and held: "i \<in> set (held_by_synthetic nw (ag_log a))"
  shows "onward nw a (post_return nw i a)"
  unfolding post_return_def
proof (rule post_onward [OF good, where f = "\<lambda>r. r\<lparr>rp_ReturnsMade := Suc (rp_ReturnsMade r)\<rparr>"])
  note pre = return_path [of "i @ ''/return''"]
  have m: "report_matches nw (ag_report a) (ag_log a)" using good by (simp add: good_agent_def)
  let ?q = "the_request ''POST'' (''/api/v1/loans/'' @ i @ ''/return'') None (ag_staffToken a) a"
  show "own_request nw (ag_log a) ?q"
    using held pre unfolding own_request_def by (auto simp: list_ex_iff)
  show "report_matches nw (if st = 200 then (ag_report a)\<lparr>rp_ReturnsMade := Suc (rp_ReturnsMade (ag_report a))\<rparr> else ag_report a)
      ((?q, Replied st p) # ag_log a)" if "st < 400" for st p
    using m that pre
    by (auto simp: report_matches_def answered_def registered_def imported_def refused_with_def broke_def)
qed simp

lemma held_listed:
  assumes c: "api_call nw ''GET'' synthetic_loans None (Some (nw_held nw)) [] token a = (Inr (st, code, held), a1)"
    and i: "i \<in> set held"
  shows "i \<in> set (held_by_synthetic nw (ag_log a1))"
proof (cases rule: call_cases [of nw "''GET''" synthetic_loans None "Some (nw_held nw)" "[]" token a])
  case (data s p v)
  with c i show ?thesis by (auto simp: held_by_synthetic_def data_of_def map_filter_simps synthetic_loans_def)
qed (use c i in auto)

lemma returnSomething_onward:
  assumes "good_agent nw a"
  shows "leads (returnSomething nw ch a) (\<lambda>_. onward nw a)"
proof -
  obtain r a1 where c: "api_call nw ''GET'' synthetic_loans None (Some (nw_held nw)) [] (ag_staffToken a) a = (r, a1)"
    by fastforce
  note o = call_get_onward [OF assms c]
  show ?thesis
  proof (cases r)
    case (Inr y)
    obtain st code held where y: "y = (st, code, held)" by (cases y)
    have "onward nw a (post_return nw (held ! i) (a1\<lparr>ag_rng := g\<rparr>))" if "i < length held" for i g
    proof -
      have "held ! i \<in> set (held_by_synthetic nw (ag_log a1))"
        using held_listed [of nw "ag_staffToken a" a st code held a1 "held ! i"] c Inr y that by simp
      then have "onward nw (a1\<lparr>ag_rng := g\<rparr>) (post_return nw (held ! i) (a1\<lparr>ag_rng := g\<rparr>))"
        using onward_good [OF o] by (intro post_return_onward) simp_all
      then show ?thesis using onward_trans [OF o] by simp
    qed
    then show ?thesis
      using c Inr y o by (auto simp: returnSomething_def intro!: leads_any dest: Intn_below)
  qed (use c o in \<open>simp add: returnSomething_def\<close>)
qed

lemma act_onward:
  assumes good: "good_agent nw a" and known: "known nw members a"
  shows "leads (act nw ch m members titles a) (\<lambda>_. onward nw a)"
proof -
  have "leads (returnSomething nw ch (a\<lparr>ag_rng := g\<rparr>)) (\<lambda>_. onward nw a)" for g
    using returnSomething_onward [of nw "a\<lparr>ag_rng := g\<rparr>" ch] good by simp
  moreover have "onward nw a (borrow_title nw (members ! i) b (a\<lparr>ag_rng := g\<rparr>))" if "i < length members" for i b g
    using borrow_title_onward [of nw "a\<lparr>ag_rng := g\<rparr>" "members ! i" b] good known that
    by (auto simp: known_def image_subset_iff)
  ultimately show ?thesis
    unfolding act_def Let_def
    by (auto simp: roll_below_def demanded_title_def onward_refl good split: prod.splits bool.splits
      intro!: leads_any [of "Intn ch (length members) (ag_rng a)"] dest!: Intn_below)
qed

lemma act_all_onward:
  "good_agent nw a \<Longrightarrow> known nw members a \<Longrightarrow> leads (act_all nw ch m members titles n a) (\<lambda>_. onward nw a)"
proof (induction n arbitrary: a)
  case (Suc n)
  have "leads (act_all nw ch m members titles n b) (\<lambda>_. onward nw a)" if "onward nw a b" for b
    by (rule leads_onward [OF that Suc.IH [OF onward_good [OF that] known_onward [OF Suc.prems(2) that]]])
  then show ?case
    by (auto intro!: leads_mono [OF act_onward [OF Suc.prems]])
qed (simp add: onward_refl)

lemma Circulate_onward:
  assumes "good_agent nw a" and "known nw members a"
  shows "leads (Circulate nw ch m members n a) (\<lambda>_. onward nw a)"
proof -
  obtain r a1 where c: "api_call nw ''GET'' ''/api/v1/books?per_page=100'' None (Some (nw_titles nw)) [] [] a = (r, a1)"
    by fastforce
  note o = call_get_onward [OF assms(1) c]
  have "leads (act_all nw ch m members titles k a1) (\<lambda>_. onward nw a)" for titles k
    by (rule leads_onward [OF o act_all_onward [OF onward_good [OF o] known_onward [OF assms(2) o]]])
  with c o assms(1) show ?thesis by (auto simp: Circulate_def onward_refl split: sum.splits)
qed

section \<open>The pass\<close>

lemma check_onward:
  assumes "good_agent nw a"
  shows "onward nw a (snd (check_reachable nw a))" "onward nw a (snd (check_availability nw a))"
    "onward nw a (snd (check_loans nw a))" "onward nw a (snd (check_staff_routes nw a))"
    "onward nw a (snd (check_database nw a))" "onward nw a (snd (SafeToRun nw a))"
  using assms
  unfolding check_reachable_def check_availability_def check_loans_def check_staff_routes_def check_database_def
    SafeToRun_def Let_def
  by (auto split: prod.splits sum.splits list.splits option.splits dest: call_get_onward)

lemma outcome_onward:
  assumes "onward nw a b" and "\<And>c. good_agent nw c \<Longrightarrow> onward nw c (snd (run c))"
  shows "onward nw a (outcome_of_check name run b)"
proof -
  obtain passed detail c where c: "run b = ((passed, detail), c)" by (metis prod.collapse)
  then have "onward nw a c" using onward_trans [OF assms(1) assms(2) [OF onward_good [OF assms(1)]]] by simp
  with c show ?thesis
    by (auto simp: outcome_of_check_def onward_def good_agent_def report_matches_def)
qed

lemma RunChecks_onward: "good_agent nw a \<Longrightarrow> onward nw a (RunChecks nw a)"
  unfolding RunChecks_def Let_def by (intro outcome_onward check_onward onward_refl) assumption

lemma Finish_matches: "report_matches nw (Finish r) log \<longleftrightarrow> report_matches nw r log"
  by (simp add: Finish_def report_matches_def)

lemma drive_onward:
  assumes "good_agent nw a"
  shows "leads (drive nw ch m a) (\<lambda>r a'. onward nw a a' \<and> report_matches nw r (ag_log a'))"
proof -
  have checks: "onward nw a (RunChecks nw d) \<and> report_matches nw (Finish (ag_report (RunChecks nw d))) (ag_log (RunChecks nw d))"
    if "onward nw a d" for d
    using onward_trans [OF that RunChecks_onward [OF onward_good [OF that]]]
    by (auto simp: Finish_matches onward_def good_agent_def)
  have circ: "leads (Circulate nw ch m ms (be_MaxActions m) c) (\<lambda>_. onward nw a)" if "onward nw a c" "known nw ms c" for ms c
    by (rule leads_onward [OF that(1) Circulate_onward [OF onward_good [OF that(1)] that(2)]])
  have reg: "leads (RegisterMembers nw ch m (be_MaxNewMembers m) b) (\<lambda>ms c. onward nw a c \<and> known nw ms c)"
    if "onward nw a b" for b
    by (rule leads_mono [OF RegisterMembers_onward [OF onward_good [OF that]]]) (blast intro: onward_trans [OF that])
  show ?thesis
    unfolding drive_def Let_def
    by (auto intro!: leads_mono [OF StockCatalogue_onward [OF assms]] leads_mono [OF reg] leads_mono [OF circ] checks)
qed

lemma good_start: "report_matches nw new_report []"
  by (simp add: report_matches_def new_report_def registered_def imported_def map_filter_simps)

lemma NewAgent_good:
  assumes "NewAgent nw url cat g = Inr (Inr a)"
  shows "good_agent nw a" and "safeTargetURL nw url = Inr (ag_baseURL a)"
  using assms good_start [of nw]
  by (auto simp: NewAgent_def good_agent_def split: sum.splits)

text \<open>What is kept of a pass, wherever it ends.\<close>

definition pass_ok :: "network \<Rightarrow> string \<Rightarrow> pass_result \<Rightarrow> bool" where
  "pass_ok nw base p \<longleftrightarrow>
     own_traffic nw (pr_Log p) \<and> list_all (\<lambda>x. rq_Base (fst x) = base) (pr_Log p) \<and>
     (case pr_Result p of Inl _ \<Rightarrow> True | Inr r \<Rightarrow> report_matches nw r (pr_Log p))"

lemma pass_ok_stop: "onward nw a b \<Longrightarrow> pass_ok nw (ag_baseURL a) \<lparr>pr_Result = Inl e, pr_Token = t, pr_Log = ag_log b\<rparr>"
  by (auto simp: pass_ok_def onward_def good_agent_def)

lemma guarded_drive_ok:
  assumes "onward nw a b" and "guarded_drive nw ch m opts b = Some p"
  shows "pass_ok nw (ag_baseURL a) p"
proof -
  obtain safe why c where c: "SafeToRun nw b = ((safe, why), c)" by (metis prod.collapse)
  then have o: "onward nw a c"
    using onward_trans [OF assms(1) check_onward(6) [OF onward_good [OF assms(1)]]] by simp
  show ?thesis
  proof (cases "\<not> safe \<and> \<not> so_AllowReal opts")
    case True
    with assms(2) c pass_ok_stop [OF o] show ?thesis by (auto simp: guarded_drive_def)
  next
    case False
    with assms(2) c obtain r d where d: "drive nw ch m c = Some (r, d)"
      and p: "p = \<lparr>pr_Result = Inr r, pr_Token = ag_staffToken d, pr_Log = ag_log d\<rparr>"
      by (auto simp: guarded_drive_def bind_eq_Some_conv)
    from drive_onward [OF onward_good [OF o], of ch m] d have "onward nw c d" "report_matches nw r (ag_log d)"
      by simp_all
    with p onward_trans [OF o] show ?thesis by (auto simp: pass_ok_def onward_def good_agent_def)
  qed
qed

lemma runPass_ok:
  assumes a: "NewAgent nw (so_BaseURL opts) (so_CatalogueURL opts) g = Inr (Inr a)"
    and p: "runPass nw ch m opts token g = Some p"
  shows "pass_ok nw (ag_baseURL a) p"
proof -
  note good = NewAgent_good(1) [OF a]
  obtain r b where b: "(if token \<noteq> [] then (Inr (), a\<lparr>ag_staffToken := token\<rparr>)
      else SignIn nw (so_Login opts) (so_Password opts) a) = (r, b)" by fastforce
  have ob: "onward nw a b"
  proof (cases "token = []")
    case True
    then show ?thesis using SignIn_onward [OF good, of "so_Login opts" "so_Password opts"] b by simp
  next
    case False
    with b good show ?thesis by (auto simp: onward_def good_agent_def)
  qed
  obtain ok c where c: "Authenticated nw b = (ok, c)" by fastforce
  then have oc: "onward nw a c"
    using onward_trans [OF ob] Authenticated_onward [OF onward_good [OF ob]] by simp
  obtain s d where d: "(if ok then (Inr (), c) else SignIn nw (so_Login opts) (so_Password opts) c) = (s, d)" by fastforce
  then have od: "onward nw a d"
    using onward_trans [OF oc] SignIn_onward [OF onward_good [OF oc], of "so_Login opts" "so_Password opts"] oc
    by (auto split: if_splits)
  show ?thesis
    using p a b c d pass_ok_stop [OF ob] pass_ok_stop [OF od] guarded_drive_ok [OF od]
    by (cases r; cases s) (auto simp: runPass_def)
qed

end
