(* ===== verification/Simulator_Passes.thy ===== *)
theory Simulator_Passes
  imports Simulator_Runs
begin

text \<open>
  The passes of the simulator: with a complete behaviour model a pass returns, keeps to what is its own
  and reports what happened; and what the guards, the checks and the class marks of the simulator let
  through.
\<close>

section \<open>A pass returns\<close>

definition complete_model :: "'f behaviour \<Rightarrow> bool" where
  "complete_model m \<longleftrightarrow>
     be_Subjects m \<noteq> [] \<and> be_CopiesPerTitle m \<noteq> [] \<and> be_LoanPolicy m \<noteq> [] \<and> be_Archetypes m \<noteq> [] \<and>
     be_Given m \<noteq> [] \<and> be_Family m \<noteq> [] \<and> be_Departments m \<noteq> [] \<and> be_Levels m \<noteq> []"

definition returns :: "'a option \<Rightarrow> bool" where
  "returns m \<longleftrightarrow> m \<noteq> None"

lemma returns_Some [simp]: "returns (Some y)"
  by (simp add: returns_def)

lemma returns_bind [intro]: "returns m \<Longrightarrow> (\<And>x s. returns (f (x, s))) \<Longrightarrow> returns (Option.bind m f)"
  by (cases m) (auto simp: returns_def)

lemma Intn_returns [intro]: "0 < n \<Longrightarrow> returns (Intn ch n g)"
  by (simp add: Intn_def split: prod.splits)

lemma pick_weighted_returns [intro]: "items \<noteq> [] \<Longrightarrow> returns (pick_weighted ch items w g)"
  by (simp add: pick_weighted_def split: prod.splits option.splits)

lemma picks_return:
  assumes "complete_model m"
  shows "returns (PickSubject ch m g)" "returns (PickCopyCount ch m g)" "returns (PickLoanPolicy ch m g)"
    "returns (PickArchetype ch m g)" "returns (PickName ch m g)"
  using assms
  unfolding complete_model_def PickSubject_def PickCopyCount_def PickLoanPolicy_def PickArchetype_def PickName_def
  by (auto intro!: returns_bind Intn_returns pick_weighted_returns)

lemma add_copy_returns: "complete_model m \<Longrightarrow> returns (add_copy nw ch m b a)"
  by (auto simp: add_copy_def accessionNumber_def intro!: returns_bind picks_return)

lemma shelve_copies_returns: "complete_model m \<Longrightarrow> returns (shelve_copies nw ch m b i a)"
proof (induction nw ch m b i a rule: shelve_copies.induct)
  case (1 nw ch m b i a)
  obtain n g where p: "PickCopyCount ch m (ag_rng a) = Some (n, g)"
    using picks_return(2) [OF "1.prems", of ch "ag_rng a"] by (auto simp: returns_def)
  obtain u c where c: "add_copy nw ch m b (a\<lparr>ag_rng := g\<rparr>) = Some (u, c)"
    using add_copy_returns [OF "1.prems", of nw ch b "a\<lparr>ag_rng := g\<rparr>"] by (auto simp: returns_def)
  show ?case
  proof (cases "n \<le> int i")
    case False
    with "1.IH" [OF p refl False c refl "1.prems"] p c show ?thesis by (simp add: shelve_copies.simps [of nw ch m b i a])
  qed (use p in \<open>simp add: shelve_copies.simps [of nw ch m b i a]\<close>)
qed

text \<open>The names the external catalogue gives have a last word.\<close>

lemma fields_from_some: "cur \<noteq> [] \<or> list_ex (\<lambda>c. \<not> is_space_byte c) s \<Longrightarrow> fields_from cur s \<noteq> []"
  by (induction s arbitrary: cur) auto

lemma Fields_trimmed: "trim_space s \<noteq> [] \<Longrightarrow> Fields (trim_space s) \<noteq> []"
  using hd_trim [of s] by (cases "trim_space s") (auto simp: Fields_def intro!: fields_from_some)

lemma trim_from_Fields: "list_all (\<lambda>t. Fields t \<noteq> []) (trim_from ss k n)"
  by (induction ss k n rule: trim_from.induct) (auto simp: Fields_trimmed)

lemma SearchExternal_authors:
  "SearchExternal hostname ask base query n = Inr found \<Longrightarrow> list_all (\<lambda>meta. list_all (\<lambda>t. Fields t \<noteq> []) (md_Authors meta)) found"
  using trim_from_Fields
  by (auto simp: SearchExternal_def metadata_of_doc_def trimAll_def list_all_iff Let_def
    split: prod.splits sum.splits if_splits)

lemma callNumberFor_returns:
  assumes "list_all (\<lambda>t. Fields t \<noteq> []) (md_Authors meta)"
  shows "returns (callNumberFor ch lcc meta g)"
proof -
  have "returns (cutter_for ch (md_Authors meta) g)"
    using assms by (auto simp: cutter_for_def split: list.splits intro!: returns_bind Intn_returns)
  then show ?thesis by (auto simp: callNumberFor_def intro!: returns_bind Intn_returns)
qed

lemma post_book_returns: "complete_model m \<Longrightarrow> returns (post_book nw ch m cn meta a)"
  by (auto simp: post_book_def shelve_copies_returns split: prod.splits sum.splits)

lemma stock_all_returns:
  "complete_model m \<Longrightarrow> list_all (\<lambda>meta. list_all (\<lambda>t. Fields t \<noteq> []) (md_Authors meta)) found \<Longrightarrow>
   returns (stock_all nw ch m lcc found a)"
  by (induction found arbitrary: a)
    (auto simp: stock_one_def intro!: returns_bind callNumberFor_returns post_book_returns)

lemma StockCatalogue_returns: "complete_model m \<Longrightarrow> returns (StockCatalogue nw ch m n a)"
  by (auto simp: StockCatalogue_def Let_def intro!: returns_bind picks_return stock_all_returns
    split: sum.splits dest: SearchExternal_authors)

lemma RegisterMembers_returns: "complete_model m \<Longrightarrow> returns (RegisterMembers nw ch m n a)"
proof -
  assume m: "complete_model m"
  have "returns (register_all nw ch m k a)" for k a
    using m by (induction k arbitrary: a) (auto simp: register_one_def intro!: returns_bind picks_return)
  then show "returns (RegisterMembers nw ch m n a)" by (simp add: RegisterMembers_def)
qed

lemma Circulate_returns: "returns (Circulate nw ch m members n a)"
proof -
  have ret: "returns (returnSomething nw ch a)" for a
    by (auto simp: returnSomething_def split: prod.splits sum.splits)
  have "returns (act_all nw ch m members titles k a)" if "members \<noteq> []" for titles k a
    using that ret
    by (induction k arbitrary: a) (auto simp: act_def Let_def intro!: returns_bind split: prod.splits bool.splits)
  then show ?thesis by (auto simp: Circulate_def split: prod.splits sum.splits)
qed

lemma drive_returns: "complete_model m \<Longrightarrow> returns (drive nw ch m a)"
  by (auto simp: drive_def Let_def intro!: returns_bind StockCatalogue_returns RegisterMembers_returns Circulate_returns)

lemma runPass_returns:
  assumes "complete_model m"
  obtains p where "runPass nw ch m opts token g = Some p"
proof -
  have "returns (guarded_drive nw ch m opts a)" for a
    by (auto simp: guarded_drive_def intro!: returns_bind drive_returns assms split: prod.splits)
  then have "returns (runPass nw ch m opts token g)"
    by (auto simp: runPass_def split: prod.splits sum.splits)
  then show thesis using that by (auto simp: returns_def)
qed

section \<open>What a pass may do, and what its report says\<close>

definition local_hosts :: "string list" where
  "local_hosts = [''localhost'', ''127.0.0.1'', ''::1'', ''api'']"

lemma safeTargetURL_Inr:
  "safeTargetURL nw raw = Inr base \<longleftrightarrow>
     (\<exists>u. nw_parse nw (trim_right (CHR ''/'') raw) = Inr u \<and>
        (u_Scheme u = ''https'' \<or> u_Scheme u = ''http'' \<and> u_Hostname u \<in> set local_hosts) \<and>
        base = u_Scheme u @ ''://'' @ u_Host u)"
  by (auto simp: safeTargetURL_def local_hosts_def Let_def split: sum.splits)



section \<open>A small deployment\<close>

definition sample_chance :: "(int, bool) chance" where
  "sample_chance =
     \<lparr>ch_of = int, ch_add = (+), ch_sub = (-), ch_mul = (*), ch_div = (div), ch_pow = (\<lambda>x _. x), ch_le = (\<le>),
      ch_less = (<), ch_Float64 = (\<lambda>g. (if g then 1 else 0, \<not> g)), ch_Intn = (\<lambda>_ g. (0, g))\<rparr>"

definition sample_model :: "int behaviour" where
  "sample_model =
     \<lparr>be_Subjects = [(''botany'', ''Q'', 1)], be_CopiesPerTitle = [(1, 1)], be_LoanPolicy = [(''circulating'', 1)],
      be_Archetypes = [\<lparr>at_Name = ''reader'', at_Weight = 1, at_Category = ''undergraduate'', at_BorrowRate = 1,
        at_ReturnRate = 1, at_ReserveRate = 1, at_OverdueTendency = 0\<rparr>],
      be_Given = [''Ada''], be_Family = [''Eze''], be_Departments = [''Botany''], be_Levels = [''100''],
      be_ZipfExponent = 1, be_MaxNewTitles = 1, be_MaxNewMembers = 1, be_MaxActions = 2\<rparr>"

definition sample_network :: network where
  "sample_network =
     \<lparr>nw_bad_url = (\<lambda>_. None),
      nw_answer = (\<lambda>log q.
        if rq_Method q = ''POST'' \<and> (has_prefix (rq_Path q) ''/api/v1/books'' \<or> rq_Path q = ''/api/v1/members'' \<or>
             rq_Path q = ''/api/v1/loans'')
        then Replied 201 ''data''
        else if rq_Token q = [] \<and> rq_Path q = ''/api/v1/members'' then Replied 401 [] else Replied 200 ''data''),
      nw_code = (\<lambda>_. ''UNAUTHENTICATED''), nw_session = (\<lambda>_. Inr \<lparr>se_AccessToken = ''t'', se_MustChangePassword = False\<rparr>),
      nw_roll = (\<lambda>_. Inr [\<lparr>ro_Role = ''member'', ro_IsSynthetic = True\<rparr>]),
      nw_created = (\<lambda>_. Inr \<lparr>cd_ID = ''b1'', cd_ExistingID = []\<rparr>), nw_member = (\<lambda>_. Inr ''m1''),
      nw_titles = (\<lambda>_. Inr [''b1'']),
      nw_shelves = (\<lambda>_. Inr [\<lparr>sl_Title = ''Trees'', sl_Borrowable = 1, sl_TotalCopies = 1, sl_Available = 1, sl_OnLoan = 0\<rparr>]),
      nw_copies = (\<lambda>_. Inr [\<lparr>cl_ID = ''c1'', cl_Status = ''available'', cl_LoanPolicy = ''circulating''\<rparr>]),
      nw_held = (\<lambda>_. Inr [''l1'']), nw_loans = (\<lambda>_. Inr [(''c1'', ''Trees'')]), nw_health = (\<lambda>_. Inr ''reachable''),
      nw_hostname = (\<lambda>_. ''openlibrary.org''), nw_ask = (\<lambda>_ _. Answered 200 (Inr [])),
      nw_parse = (\<lambda>_. Inr \<lparr>u_Scheme = ''http'', u_Host = ''localhost:8080'', u_Hostname = ''localhost''\<rparr>),
      nw_quote = (\<lambda>s. s), nw_year = 2026\<rparr>"

definition sample_run :: sim_options where
  "sample_run =
     \<lparr>so_BaseURL = ''http://localhost:8080'', so_Login = ''desk'', so_CatalogueURL = [], so_Password = ''secret'',
      so_AllowReal = False\<rparr>"

lemma sample_complete: "complete_model sample_model"
  by (simp add: complete_model_def sample_model_def)

lemma act_all_two:
  "act_all nw ch m ms ts 2 a = Option.bind (act nw ch m ms ts a) (\<lambda>(_, a). act_all nw ch m ms ts (Suc 0) a)"
  unfolding numeral_2_eq_2 by (rule act_all.simps(2))

lemmas sample_steps =
  runPass_def NewAgent_def safeTargetURL_def safeBaseURL_def SignIn_def Authenticated_def guarded_drive_def
  SafeToRun_def drive_def StockCatalogue_def SearchExternal_def client_do.simps [of _ _ 0] stock_all.simps
  PickSubject_def pick_weighted_def total_weight_def RegisterMembers_def register_one_def PickArchetype_def PickName_def
  Intn_def post_member_def Circulate_def act_all_two act_def roll_below_def demanded_title_def ZipfIndex_def
  borrow_title_def post_loan_def returnSomething_def post_return_def RunChecks_def outcome_of_check_def
  check_reachable_def check_availability_def check_loans_def check_staff_routes_def check_database_def shelf_complaint_def
  map_filter_simps api_call_def read_out_def Let_def has_prefix_def note_refusal_def refusal_code_def new_report_def Finish_def

lemma sample_pass:
  "\<exists>p r. runPass sample_network sample_chance sample_model sample_run [] False = Some p \<and> pr_Result p = Inr r \<and>
     rp_LoansCreated r = 1 \<and> rp_ReturnsMade r = 1 \<and> rp_Outcome r = ''ok''"
  by (simp add: sample_steps sample_network_def sample_run_def sample_chance_def sample_model_def)

lemma sample_target:
  "nw_parse sample_network s = Inr \<lparr>u_Scheme = ''http'', u_Host = ''localhost:8080'', u_Hostname = ''localhost''\<rparr>"
  by (simp add: sample_network_def)



section \<open>What the guard and the checks let through\<close>

lemma ZipfIndex_below:
  assumes "0 < n"
  shows "fst (ZipfIndex ch n e g) < n"
proof -
  have "i - 1 < n" if "roll_over ch w r [1..<Suc n] = Some i" for w r i
    using roll_over_in [OF that] assms by (simp add: less_diff_conv2 split: if_splits) linarith?
  then show ?thesis
    using assms by (auto simp: ZipfIndex_def split: prod.splits option.splits)
qed

text \<open>
  A deployment that refuses to show its roll is taken for one without real borrowers, and one that refuses
  the lists the checks read is taken for consistent: a refusal is no error of the call and leaves the
  list empty.
\<close>

lemma refused_call:
  assumes "nw_bad_url nw (ag_baseURL a @ path) = None" and "400 \<le> st"
    and "nw_answer nw (ag_log a) (the_request meth path body token a) = Replied st p"
  shows "fst (api_call nw meth path body out zero token a) = Inr (st, refusal_code nw st p, zero)"
  using assms by (simp add: api_call_def Let_def)

lemma refused_roll_is_safe:
  assumes "nw_bad_url nw (ag_baseURL a @ ''/api/v1/members?per_page=100'') = None" and "400 \<le> st"
    and "nw_answer nw (ag_log a) (the_request ''GET'' ''/api/v1/members?per_page=100'' None (ag_staffToken a) a) = Replied st p"
  shows "fst (SafeToRun nw a) = (True, decimal 0 @ '' members, all synthetic'')"
  using refused_call [OF assms, of "Some (nw_roll nw)" "[]"]
  by (auto simp: SafeToRun_def Let_def split: prod.splits)

lemma refused_lists_are_consistent:
  assumes "nw_bad_url nw (ag_baseURL a @ ''/api/v1/loans?open=true&per_page=100'') = None" and "400 \<le> st"
    and "nw_answer nw (ag_log a)
      (the_request ''GET'' ''/api/v1/loans?open=true&per_page=100'' None (ag_staffToken a) a) = Replied st p"
  shows "fst (check_loans nw a) = (True, decimal 0 @ '' open loans, all distinct copies'')"
  using refused_call [OF assms, of "Some (nw_loans nw)" "[]"]
  by (auto simp: check_loans_def split: prod.splits)

text \<open>The external catalogue being down fails the pass.\<close>

lemma outage_fails_the_pass:
  assumes "PickSubject ch m (ag_rng a) = Some ((query, lcc), g)"
    and "SearchExternal (nw_hostname nw) (nw_ask nw (length (ag_log a))) (ag_catalogue a) query n = Inl e"
  shows "\<exists>a'. StockCatalogue nw ch m n a = Some ((), a') \<and> rp_Failures (ag_report a') \<noteq> []"
    and "rp_Failures r \<noteq> [] \<Longrightarrow> rp_Outcome (Finish r) = ''failed''"
  using assms by (simp_all add: StockCatalogue_def Finish_def)

text \<open>The loop over the open loans finds a copy that is out twice exactly when there is one.\<close>

lemma seen_twice_None:
  "seen_twice seen ls = None \<longleftrightarrow> distinct (map fst ls) \<and> filter (\<lambda>l. fst l \<in> dom seen) ls = []"
proof (induction seen ls rule: seen_twice.induct)
  case (2 seen copy title rest)
  show ?case
  proof (cases "seen copy")
    case None
    from 2 [OF None] None show ?thesis by (auto simp: filter_empty_conv simp del: fun_upd_apply)
  next
    case (Some prev)
    then show ?thesis by (auto simp: dom_def)
  qed
qed simp

section \<open>Class marks\<close>

lemma matches_digits: "ds \<noteq> [] \<Longrightarrow> list_all is_digit_byte ds \<Longrightarrow> matches (Then (Byte is_digit_byte) (Many (Byte is_digit_byte))) ds"
  by (cases ds) (auto simp: matches_Then matches_Byte matches_Many_Byte intro!: exI [of _ "[hd ds]"])

lemma matches_letters:
  "list_all is_upper_byte s \<Longrightarrow> length s \<in> {1..3} \<Longrightarrow>
   matches (Then (Byte is_upper_byte) (Then (Maybe (Byte is_upper_byte)) (Maybe (Byte is_upper_byte)))) s"
proof -
  assume s: "list_all is_upper_byte s" "length s \<in> {1..3}"
  then consider a where "s = [a]" | a b where "s = [a, b]" | a b c where "s = [a, b, c]"
    by (auto simp: atLeastAtMost_iff le_Suc_eq numeral_3_eq_3 length_Suc_conv)
  then show ?thesis
    by cases (use s in \<open>auto simp: Maybe_def\<close>)
qed

lemma matches_ThenI: "matches r s \<Longrightarrow> matches q t \<Longrightarrow> matches (Then r q) (s @ t)"
  by (auto simp: matches_Then)

lemma matches_Then_skip: "nullable r \<Longrightarrow> matches q t \<Longrightarrow> matches (Then r q) t"
  using matches_ThenI [of r "[]" q t] by simp

lemma generated_mark:
  assumes "list_all is_upper_byte lcc" and "length lcc \<in> {1..3}" and "list_all is_cutter_byte suf"
  shows "matches callNumberPattern (lcc @ decimal n @ ''.'' @ decimal k @ '' .'' @ suf)"
proof -
  obtain d ds where k: "decimal k = d # ds" "is_digit_byte d" "list_all is_digit_byte ds"
    using decimal_facts [of k] by (cases "decimal k") auto
  then have "list_all is_cutter_byte (ds @ '' .'' @ suf)"
    using assms(3) by (auto simp: list_all_iff is_cutter_byte_def)
  with k(2) have m: "matches (Then (Byte (\<lambda>c. is_upper_byte c \<or> is_digit_byte c)) (Many (Byte is_cutter_byte))) ([d] @ ds @ '' .'' @ suf)"
    by (intro matches_ThenI) (simp_all add: matches_Byte matches_Many_Byte)
  have "matches (Then (Byte (\<lambda>c. c = CHR '' '' \<or> c = CHR ''.''))
       (Then (Byte (\<lambda>c. is_upper_byte c \<or> is_digit_byte c)) (Many (Byte is_cutter_byte)))) (''.'' @ [d] @ ds @ '' .'' @ suf)"
    by (rule matches_ThenI [OF _ m]) (simp add: matches_Byte)
  then have tail: "matches (Maybe (Then (Byte (\<lambda>c. c = CHR '' '' \<or> c = CHR ''.''))
       (Then (Byte (\<lambda>c. is_upper_byte c \<or> is_digit_byte c)) (Many (Byte is_cutter_byte))))) (''.'' @ decimal k @ '' .'' @ suf)"
    using k(1) by (simp del: matches.simps)
  show ?thesis
    unfolding callNumberPattern_def
    using assms(1,2) decimal_facts [of n]
    by (intro matches_ThenI matches_letters matches_Then_skip [where r = "Many r" for r] matches_digits
      matches_Then_skip [where r = "Maybe r" for r] tail) (simp_all add: Maybe_def)
qed

text \<open>A mark the pattern accepts has only bytes the pattern names, so an apostrophe is never accepted.\<close>

lemma mark_bytes: "matches callNumberPattern s \<Longrightarrow> list_all (\<lambda>c. is_cutter_byte c \<or> is_pattern_blank c) s"
  unfolding callNumberPattern_def
  by (auto simp: matches_Then matches_Byte matches_Many_Byte is_cutter_byte_def list_all_iff)

text \<open>
  The class marks the simulator makes are accepted for an author whose last name begins with two letters,
  and refused for one with an apostrophe there, whose books are therefore never imported.
\<close>

lemma upper_letter: "is_upper_byte c \<or> is_lower_byte c \<Longrightarrow> is_upper_byte (upper_byte c)"
  by (auto simp: upper_byte_def is_upper_byte_def is_lower_byte_def Let_def)

lemma lower_letter: "is_upper_byte c \<or> is_lower_byte c \<Longrightarrow> is_lower_byte (lower_byte c)"
  by (auto simp: lower_byte_def is_upper_byte_def is_lower_byte_def Let_def)

lemma upper_plain: "list_all (\<lambda>c. \<not> is_lower_byte c) s \<Longrightarrow> to_upper s = s"
  by (induction s) (auto simp: to_upper_def upper_byte_unchanged)

lemma letter_ascii: "is_upper_byte c \<or> is_lower_byte c \<Longrightarrow> of_char c < (128 :: nat)"
  by (auto simp: is_upper_byte_def is_lower_byte_def Let_def)

lemma not_lower: "is_upper_byte c \<Longrightarrow> \<not> is_lower_byte c" "is_digit_byte c \<Longrightarrow> \<not> is_lower_byte c"
  by (auto simp: is_upper_byte_def is_lower_byte_def is_digit_byte_def Let_def)

lemma generated_marks_are_accepted:
  assumes lcc: "list_all is_upper_byte lcc" "length lcc \<in> {1..3}"
    and authors: "md_Authors meta = [] \<or> List.last (Fields (hd (md_Authors meta))) = c # d # rest"
    and letters: "is_upper_byte c \<or> is_lower_byte c" "is_upper_byte d \<or> is_lower_byte d"
    and cn: "callNumberFor ch lcc meta g = Some (cn, g')"
  shows "matches callNumberPattern (to_upper (trim_space cn))"
proof -
  obtain u ds n k where cut: "cn = lcc @ decimal n @ ''.'' @ decimal k @ '' .'' @ u @ ds"
    and ds: "list_all is_digit_byte ds" "ds \<noteq> []" and u: "u = ''A'' \<or> u = [upper_byte c, lower_byte d]"
  proof -
    from cn obtain cut g1 n k where c1: "cutter_for ch (md_Authors meta) g = Some (cut, g1)"
      and "cn = lcc @ decimal (n + 76) @ ''.'' @ decimal k @ '' .'' @ cut"
      by (auto simp: callNumberFor_def bind_eq_Some_conv)
    moreover from c1 authors letters have "cut = ''A'' @ ''1'' \<or> (\<exists>j. cut = [upper_byte c, lower_byte d] @ decimal j)"
      by (auto simp: cutter_for_def bind_eq_Some_conv map_one_byte_def letter_ascii split: list.splits if_splits)
    moreover have "list_all is_digit_byte ''1''" by (simp add: is_digit_byte_def)
    ultimately show thesis using that decimal_facts by blast
  qed
  have "is_upper_byte (hd cn)" "cn \<noteq> []" using lcc cut by (cases lcc; simp)+
  moreover have "is_digit_byte (List.last cn)" using ds cut by (simp add: list_all_iff)
  ultimately have trim: "trim_space cn = cn"
    by (intro trim_space_fixed) (auto simp: is_upper_byte_def is_digit_byte_def is_space_byte_def Let_def)
  have plain: "to_upper x = x" if "list_all (\<lambda>c. is_upper_byte c \<or> is_digit_byte c) x" for x
    using that by (intro upper_plain) (auto simp: list_all_iff not_lower)
  have up: "to_upper (x @ y) = to_upper x @ to_upper y" for x y by (simp add: to_upper_def)
  have dots: "to_upper ''.'' = ''.''" "to_upper '' .'' = '' .''" by code_simp+
  have A: "is_upper_byte (upper_byte (CHR ''A''))" by code_simp
  have "to_upper cn = lcc @ decimal n @ ''.'' @ decimal k @ '' .'' @ to_upper u @ ds"
    unfolding cut up using lcc ds decimal_facts [of n] decimal_facts [of k]
    by (simp add: plain dots list_all_iff del: append.simps)
  moreover have "list_all is_cutter_byte (to_upper u @ ds)"
    using u ds letters
    by (auto simp: to_upper_def is_cutter_byte_def list_all_iff upper_letter lower_letter A)
  ultimately show ?thesis
    using generated_mark [OF lcc, of "to_upper u @ ds" n k] trim by simp
qed

lemma trim_space_keeps: "c \<in> set s \<Longrightarrow> \<not> is_space_byte c \<Longrightarrow> c \<in> set (trim_space s)"
proof -
  have "c \<in> set (dropWhile is_space_byte t)" if "c \<in> set t" "\<not> is_space_byte c" for t
    using that by (induction t) auto
  then show "c \<in> set s \<Longrightarrow> \<not> is_space_byte c \<Longrightarrow> c \<in> set (trim_space s)" by (simp add: trim_space_def)
qed

lemma apostrophes_are_refused:
  assumes "md_Authors meta = [''Flann O'' @ [CHR 0x27] @ ''Brien'']"
    and cn: "callNumberFor ch lcc meta g = Some (cn, g')"
  shows "\<not> matches callNumberPattern (to_upper (trim_space cn))"
proof -
  have f: "Fields (''Flann O'' @ [CHR 0x27] @ ''Brien'') = [''Flann'', ''O'' @ [CHR 0x27] @ ''Brien'']" by code_simp
  have one: "map_one_byte lower_byte (CHR 0x27) = [CHR 0x27]" by code_simp
  from cn have "CHR 0x27 \<in> set cn"
    unfolding callNumberFor_def assms(1) cutter_for_def list.case f
    by (auto simp: bind_eq_Some_conv one split: if_splits)
  moreover have "\<not> is_space_byte (CHR 0x27)" "upper_byte (CHR 0x27) = CHR 0x27"
    "\<not> is_cutter_byte (CHR 0x27)" "\<not> is_pattern_blank (CHR 0x27)" by code_simp+
  ultimately show ?thesis
    using mark_bytes [of "to_upper (trim_space cn)"] trim_space_keeps [of "CHR 0x27" cn]
    by (force simp: to_upper_def list_all_iff)
qed

end
