(* ===== verification/Monitoring.thy ===== *)
theory Monitoring
  imports Server Simulator_Passes
begin

text \<open>
  The server seen by its monitor: the public view of a title as JSON (catalogue_discovery.go,
  BookView.MarshalJSON), the part of it the simulator's check reads, and the proof that a library in good
  order passes the checks of the simulator. The texts of ids and instants are the formats of the messages.
\<close>

section \<open>The public view of a title\<close>

fun wing_text :: "wing \<Rightarrow> string" where
  "wing_text WingSouth = ''South''"
| "wing_text WingNorth = ''North''"
| "wing_text WingUnknown = ''Unknown''"

definition json_int :: "int \<Rightarrow> json" where
  "json_int n = Num (decimal_int n)"

definition json_year :: "int option \<Rightarrow> json" where
  "json_year y = (case y of None \<Rightarrow> Null | Some n \<Rightarrow> json_int n)"

definition json_texts :: "string list \<Rightarrow> json" where
  "json_texts ss = Arr (map json_text ss)"

text \<open>The first instant of year one, which time.Time calls zero.\<close>

definition zero_time :: time where
  "zero_time = - 62135596800 * second"

definition availability_json :: "availability \<Rightarrow> json" where
  "availability_json a =
     Obj [(''total_copies'', json_int (TotalCopies a)), (''available'', json_int (Available a)),
          (''on_loan'', json_int (OnLoan a)), (''not_for_loan'', json_int (NotForLoan a))]"

definition unless_empty :: "bool \<Rightarrow> string \<Rightarrow> json \<Rightarrow> (string \<times> json) list" where
  "unless_empty absent k v = (if absent then [] else [(k, v)])"

definition MarshalJSON :: "formats \<Rightarrow> book_view \<Rightarrow> json" where
  "MarshalJSON fm v =
     (let b = bv_Book v in
      Obj ([(''ID'', json_text (fmt_uuid fm (book_id b))), (''Title'', json_text (book_title b)),
            (''Subtitle'', json_text (book_subtitle b)), (''ISBN13'', json_text (book_isbn13 b)),
            (''ISBN10'', json_text (book_isbn10 b)), (''Publisher'', json_text (book_publisher b)),
            (''PlaceOfPublication'', json_text (book_place b)), (''PublishedYear'', json_year (book_published_year b)),
            (''CallNumber'', json_text (book_call_number b)), (''LCCClass'', json_text (book_lcc_class b)),
            (''Description'', json_text (book_description b)), (''Authors'', json_texts (book_authors b)),
            (''Subjects'', json_texts (book_subjects b)), (''Availability'', availability_json (book_availability b)),
            (''wing'', json_text (wing_text (bv_Wing v))), (''is_available'', Bool (bv_IsAvailable v)),
            (''borrowable'', json_int (bv_Borrowable v)), (''on_shelf'', Bool (bv_OnShelf v)),
            (''shelf_copy_retained'', Bool (bv_ShelfCopyRetained v))] @
           unless_empty (book_edition b = []) ''edition'' (json_text (book_edition b)) @
           unless_empty (book_published_year b = None) ''publication_year'' (json_year (book_published_year b)) @
           unless_empty (book_publisher b = []) ''publisher'' (json_text (book_publisher b)) @
           unless_empty (book_language b = []) ''language'' (json_text (book_language b)) @
           unless_empty (book_description b = []) ''description'' (json_text (book_description b)) @
           unless_empty (book_subjects b = []) ''subjects'' (json_texts (book_subjects b)) @
           unless_empty (book_created_at b = zero_time) ''created_at'' (json_text (fmt_rfc3339 fm (book_created_at b)))))"

definition public_keys :: "string list" where
  "public_keys =
     [''ID'', ''Title'', ''Subtitle'', ''ISBN13'', ''ISBN10'', ''Publisher'', ''PlaceOfPublication'', ''PublishedYear'',
      ''CallNumber'', ''LCCClass'', ''Description'', ''Authors'', ''Subjects'', ''Availability'', ''wing'', ''is_available'',
      ''borrowable'', ''on_shelf'', ''shelf_copy_retained'', ''edition'', ''publication_year'', ''publisher'', ''language'',
      ''description'', ''subjects'', ''created_at'']"

text \<open>
  The projection is what the comment says: the keys are those of the list in its order, none twice, and
  what a record holds beside them (its state, faculty, department and last change) changes nothing of the
  text, nor does the stock behind the retention rule.
\<close>

lemma public_projection:
  "case MarshalJSON fm v of Obj fs \<Rightarrow> subseq (map fst fs) public_keys \<and> distinct (map fst fs) | _ \<Rightarrow> False"
  "MarshalJSON fm (v\<lparr>bv_Book := (bv_Book v)\<lparr>book_status := st, book_faculty := fac, book_department := dep,
     book_updated_at := t, book_availability := (book_availability (bv_Book v))\<lparr>Stock := n\<rparr>\<rparr>\<rparr>) = MarshalJSON fm v"
proof -
  have keys: "map fst (unless_empty e k j) = (if e then [] else [k])" for e k j by (simp add: unless_empty_def)
  have sub: "case MarshalJSON fm v of Obj fs \<Rightarrow> subseq (map fst fs) public_keys | _ \<Rightarrow> False"
    unfolding MarshalJSON_def Let_def json.case public_keys_def map_append keys by simp
  moreover have "distinct public_keys" by (simp add: public_keys_def)
  ultimately show "case MarshalJSON fm v of Obj fs \<Rightarrow> subseq (map fst fs) public_keys \<and> distinct (map fst fs) | _ \<Rightarrow> False"
    by (auto split: json.splits simp: subseq_conv_nths intro: distinct_nthsI)
  show "MarshalJSON fm (v\<lparr>bv_Book := (bv_Book v)\<lparr>book_status := st, book_faculty := fac, book_department := dep,
     book_updated_at := t, book_availability := (book_availability (bv_Book v))\<lparr>Stock := n\<rparr>\<rparr>\<rparr>) = MarshalJSON fm v"
    by (simp add: MarshalJSON_def availability_json_def Let_def)
qed

section \<open>What the simulator reads of it\<close>

definition member_of :: "json \<Rightarrow> string \<Rightarrow> json" where
  "member_of j k = (case j of Obj fs \<Rightarrow> (case map_of fs k of None \<Rightarrow> Null | Some v \<Rightarrow> v) | _ \<Rightarrow> Null)"

text \<open>A number of the struct: absent or null leaves its zero, what is no integer fails.\<close>

definition int_member :: "json \<Rightarrow> string \<Rightarrow> int option" where
  "int_member j k = (case member_of j k of Null \<Rightarrow> Some 0 | Num n \<Rightarrow> atoi n | _ \<Rightarrow> None)"

definition text_member :: "json \<Rightarrow> string \<Rightarrow> string option" where
  "text_member j k = (case member_of j k of Null \<Rightarrow> Some [] | Str _ s \<Rightarrow> Some s | _ \<Rightarrow> None)"

text \<open>
  The struct of the availability check. No other key of the object is one of its keys in another case, so
  each member is found under its own.
\<close>

definition shelf_line_of :: "json \<Rightarrow> shelf_line option" where
  "shelf_line_of j =
     do { t \<leftarrow> text_member j ''Title''; b \<leftarrow> int_member j ''borrowable'';
          n \<leftarrow> int_member (member_of j ''Availability'') ''total_copies'';
          a \<leftarrow> int_member (member_of j ''Availability'') ''available'';
          l \<leftarrow> int_member (member_of j ''Availability'') ''on_loan'';
          Some \<lparr>sl_Title = t, sl_Borrowable = b, sl_TotalCopies = n, sl_Available = a, sl_OnLoan = l\<rparr> }"

lemma view_members:
  "member_of (MarshalJSON fm v) ''Title'' = json_text (book_title (bv_Book v))"
  "member_of (MarshalJSON fm v) ''borrowable'' = json_int (bv_Borrowable v)"
  "member_of (MarshalJSON fm v) ''Availability'' = availability_json (book_availability (bv_Book v))"
  by (simp_all add: member_of_def MarshalJSON_def Let_def)

lemma availability_members:
  "member_of (availability_json a) ''total_copies'' = json_int (TotalCopies a)"
  "member_of (availability_json a) ''available'' = json_int (Available a)"
  "member_of (availability_json a) ''on_loan'' = json_int (OnLoan a)"
  by (simp_all add: member_of_def availability_json_def)

lemma shelf_line_of_view:
  assumes "{bv_Borrowable v, TotalCopies a, Available a, OnLoan a} \<subseteq> {- (2 ^ 63) ..< 2 ^ 63}"
    and "a = book_availability (bv_Book v)"
  shows "shelf_line_of (MarshalJSON fm v) =
    Some \<lparr>sl_Title = book_title (bv_Book v), sl_Borrowable = bv_Borrowable v, sl_TotalCopies = TotalCopies a,
          sl_Available = Available a, sl_OnLoan = OnLoan a\<rparr>"
  using assms
  by (simp add: shelf_line_of_def int_member_def text_member_def view_members availability_members json_int_def
    json_text_def atoi_decimal)

section \<open>A sound library passes the checks\<close>

lemma count_where_disjoint:
  "(\<And>x. P x \<Longrightarrow> R x) \<Longrightarrow> (\<And>x. Q x \<Longrightarrow> R x) \<Longrightarrow> (\<And>x. P x \<Longrightarrow> Q x \<Longrightarrow> False) \<Longrightarrow>
   count_where P xs + count_where Q xs \<le> count_where R xs"
  by (subst count_where_disj [symmetric]) (auto intro!: count_where_mono)

lemma availability_bounds:
  fixes a b d defines "a \<equiv> availability_of b d"
  shows "0 \<le> Available a" "0 \<le> OnLoan a" "Available a + OnLoan a \<le> TotalCopies a"
    "TotalCopies a \<le> int (length (copies d))" "0 \<le> Borrowable a" "Borrowable a \<le> Available a"
proof -
  show pos: "0 \<le> Available a" "0 \<le> OnLoan a" by (simp_all add: a_def availability_of_def Let_def)
  show "Available a + OnLoan a \<le> TotalCopies a"
    unfolding a_def availability_of_def Let_def availability.simps of_nat_add [symmetric] of_nat_le_iff
    by (rule count_where_disjoint) auto
  show "TotalCopies a \<le> int (length (copies d))"
    by (simp add: a_def availability_of_def Let_def count_where_le)
  show "0 \<le> Borrowable a" "Borrowable a \<le> Available a"
    using BorrowableCount_bounds [OF pos(1)] by (simp_all add: Borrowable_def)
qed

lemma distinct_by_count: "(\<And>k. count_where (\<lambda>x. f x = k) xs \<le> 1) \<Longrightarrow> distinct (map f xs)"
proof (induction xs)
  case (Cons x xs)
  have "count_where (\<lambda>y. f y = f x) xs = 0" using Cons.prems [of "f x"] by simp
  moreover have "count_where (\<lambda>y. f y = k) xs \<le> 1" for k using Cons.prems [of k] by (simp split: if_splits)
  ultimately show ?case using Cons.IH by (auto simp: count_where_0)
qed simp

lemma open_page_copies:
  assumes inv: "lib_inv d" and page: "ListLoans fl now overdue True limit offset synth d = Inr (page, n)"
  shows "distinct (map loan_copy page)"
proof -
  let ?shown = "filter (loan_matches d now overdue True synth) (List.map_filter (loan_view d) (loans d))"
  have view: "loan_view d r = Some l \<Longrightarrow> loan_copy l = loan_copy r \<and> loan_returned_at l = loan_returned_at r" for r l
    by (auto simp: loan_view_def split: option.splits)
  have "count_where (\<lambda>l. loan_copy l = c) (filter (loan_matches d now overdue True synth) (List.map_filter (loan_view d) rs))
      \<le> count_where (\<lambda>l. loan_copy l = c \<and> open_loan l) rs" for c rs
    by (induction rs) (auto simp: map_filter_simps loan_matches_def open_loan_def dest: view split: option.splits)
  then have "count_where (\<lambda>l. loan_copy l = c) ?shown \<le> 1" for c
    using lib_inv_one_open_loan [OF inv, of c] unfolding open_loans_of_copy_def by (meson order_trans)
  then have "distinct (map loan_copy ?shown)" by (rule distinct_by_count)
  moreover have "page = page_of (nat limit) (nat offset) (sort_key (\<lambda>l. (loan_due_at l, loan_id l)) ?shown)"
    using page by (auto simp: ListLoans_def Let_def split: if_splits)
  ultimately show ?thesis
    by (simp add: map_page_of distinct_page_of distinct_map)
qed

lemma shelf_complaint_None:
  "0 \<le> sl_Available s \<Longrightarrow> 0 \<le> sl_OnLoan s \<Longrightarrow> sl_Available s + sl_OnLoan s \<le> sl_TotalCopies s \<Longrightarrow>
   sl_Borrowable s \<le> sl_Available s \<Longrightarrow> shelf_complaint nw s = None"
  by (simp add: shelf_complaint_def)


definition plain_formats :: formats where
  "plain_formats =
     \<lparr>fmt_uuid = (\<lambda>u. replicate u (CHR ''0'')), fmt_rfc3339 = decimal_int, fmt_parse = (\<lambda>_. None), fmt_lagos = decimal_int\<rparr>"

lemma plain_formats_inj: "inj (fmt_uuid plain_formats)"
  by (rule injI) (metis formats.select_convs(1) length_replicate plain_formats_def)

lemma sample_open_page:
  "case ListLoans no_faults 0 False True 100 0 False sample_db of Inl _ \<Rightarrow> False | Inr (page, _) \<Rightarrow> length page = 2"
  by (simp add: ListLoans_def Let_def map_filter_simps loan_view_def loan_matches_def find_copy_row_def find_user_row_def
    find_book_row_def page_of_def sample_tables)


end
