(* ===== verification/Access_Log.thy ===== *)
theory Access_Log
  imports Http
begin

text \<open>
  The access log (middleware.go): the fields a request shares between Authenticate and Logger, the line
  Logger writes after the reply, and the whole chain of the router with the log in it. The chain answers
  as the one of Http does; the rest says what the lines hold.
\<close>

section \<open>The shared fields and the lines\<close>

text \<open>The fields are one object per request, which WithRequestID puts in the context empty.\<close>

record logFields =
  lf_userID :: string
  lf_role :: string

datatype level = LevelInfo | LevelError

record access_line =
  al_level :: level
  al_method :: string
  al_path :: string
  al_status :: nat
  al_duration_ms :: int
  al_request_id :: string
  al_actor :: "(string \<times> string) option"

text \<open>The state of the program with the fields of the request in hand and the lines written so far.\<close>

record 's logged =
  lg_Store :: 's
  lg_Fields :: logFields
  lg_Lines :: "access_line list"

definition no_fields :: logFields where
  "no_fields = \<lparr>lf_userID = [], lf_role = []\<rparr>"

text \<open>A handler that knows nothing of the log.\<close>

definition unlogged :: "('b, 's) handler \<Rightarrow> ('b, 's logged) handler" where
  "unlogged h r cx s = (case h r cx (lg_Store s) of (rp, d) \<Rightarrow> (rp, s\<lparr>lg_Store := d\<rparr>))"

section \<open>Middleware\<close>

definition empty_fields :: "('b, 's logged) handler \<Rightarrow> ('b, 's logged) handler" where
  "empty_fields next r cx s = next r cx (s\<lparr>lg_Fields := no_fields\<rparr>)"

text \<open>What Authenticate writes there is what it puts in the context.\<close>

definition tell_log :: "(uuid \<Rightarrow> string) \<Rightarrow> ('b, 's logged) handler \<Rightarrow> ('b, 's logged) handler" where
  "tell_log fmt next r cx s =
     next r cx (case cx_UserID cx of None \<Rightarrow> s
       | Some u \<Rightarrow> s\<lparr>lg_Fields := \<lparr>lf_userID = fmt u, lf_role = cx_Role cx\<rparr>\<rparr>)"

definition line_actor :: "logFields \<Rightarrow> (string \<times> string) option" where
  "line_actor f = (if lf_userID f = [] then None else Some (lf_userID f, lf_role f))"

definition access_line_of :: "time \<Rightarrow> time \<Rightarrow> request \<Rightarrow> req_context \<Rightarrow> nat \<Rightarrow> logFields \<Rightarrow> access_line" where
  "access_line_of start finish r cx status f =
     \<lparr>al_level = (if 500 \<le> status then LevelError else LevelInfo), al_method = rq_Method r, al_path = rq_Path r,
      al_status = status, al_duration_ms = (finish - start) div 1000000, al_request_id = cx_RequestID cx,
      al_actor = line_actor f\<rparr>"

text \<open>The line is written after the handler has returned; a panic passes it by.\<close>

definition Logger :: "time \<Rightarrow> time \<Rightarrow> ('b, 's logged) handler \<Rightarrow> ('b, 's logged) handler" where
  "Logger start finish next r cx s =
     (case next r cx s of
        (None, s') \<Rightarrow> (None, s')
      | (Some rp, s') \<Rightarrow>
          (Some rp, s'\<lparr>lg_Lines := lg_Lines s' @ [access_line_of start finish r cx (rp_Status rp) (lg_Fields s')]\<rparr>))"

section \<open>The chain of the router\<close>

definition logged_validator :: "'s validator \<Rightarrow> ('s logged) validator" where
  "logged_validator v u t role s = v u t role (lg_Store s)"

definition logged_guard ::
  "(uuid \<Rightarrow> string) \<Rightarrow> ('b, 's) options \<Rightarrow> time \<Rightarrow> guard \<Rightarrow> ('b, 's) handler \<Rightarrow> ('b, 's logged) handler" where
  "logged_guard fmt opts now g h =
     (let authenticate = (\<lambda>next. Authenticate (op_Issuer opts) now (map_option logged_validator (op_SessionValid opts))
            (tell_log fmt next)) in
      case g of
        Public \<Rightarrow> unlogged h
      | Throttled \<Rightarrow> unlogged (op_Throttle opts h)
      | SignedIn \<Rightarrow> authenticate (unlogged h)
      | MemberOnly \<Rightarrow> authenticate (RequireMember (unlogged h))
      | Staff \<Rightarrow> authenticate (RequireLibrarian (unlogged h))
      | AdminOnly \<Rightarrow> authenticate (RequireAdmin (unlogged h)))"

definition logged_mux ::
  "(uuid \<Rightarrow> string) \<Rightarrow> ('b, 's) options \<Rightarrow> time \<Rightarrow> bool \<Rightarrow> (string \<Rightarrow> ('b, 's) handler) \<Rightarrow> ('b, 's logged) handler" where
  "logged_mux fmt opts now webhook endpoint r cx s =
     (case select_route (routes webhook) r of
        Inl status \<Rightarrow> (Some (bare status []), s)
      | Inr x \<Rightarrow>
          logged_guard fmt opts now (rt_Guard x) (endpoint (rt_Endpoint x)) (r\<lparr>rq_PathValue := path_value x r\<rparr>) cx s)"

definition logged_router ::
  "(uuid \<Rightarrow> string) \<Rightarrow> time \<Rightarrow> ('b, 's) options \<Rightarrow> time \<Rightarrow> bool \<Rightarrow> string \<Rightarrow> (string \<Rightarrow> ('b, 's) handler) \<Rightarrow>
   ('b, 's logged) handler" where
  "logged_router fmt finish opts now webhook fresh endpoint =
     Recover (WithRequestID fresh (empty_fields (Logger now finish (CORS (op_CORSOrigins opts)
       (SecurityHeaders (logged_mux fmt opts now webhook endpoint))))))"

section \<open>The log changes no answer\<close>

text \<open>A handler with the log in its state agrees with one without: same reply, same store.\<close>

definition agrees :: "('b, 's logged) handler \<Rightarrow> ('b, 's) handler \<Rightarrow> bool" where
  "agrees h k \<longleftrightarrow> (\<forall>r cx s. case h r cx s of (rp, s') \<Rightarrow> (rp, lg_Store s') = k r cx (lg_Store s))"

lemma agreesD: "agrees h k \<Longrightarrow> h r cx s = (rp, s') \<Longrightarrow> k r cx (lg_Store s) = (rp, lg_Store s')"
  unfolding agrees_def by (metis (lifting) old.prod.case)

lemma agrees_unlogged: "agrees (unlogged h) h"
  by (simp add: agrees_def unlogged_def split: prod.splits)

lemma agrees_tell_log: "agrees h k \<Longrightarrow> agrees (tell_log fmt h) k"
  by (simp add: agrees_def tell_log_def split: prod.splits option.splits)

lemma agrees_require:
  "agrees h k \<Longrightarrow> agrees (RequireMember h) (RequireMember k)"
  "agrees h k \<Longrightarrow> agrees (RequireLibrarian h) (RequireLibrarian k)"
  "agrees h k \<Longrightarrow> agrees (RequireAdmin h) (RequireAdmin k)"
  by (simp_all add: agrees_def RequireMember_def RequireLibrarian_def RequireAdmin_def refuse_def)

lemma agrees_Authenticate:
  assumes "agrees h k"
  shows "agrees (Authenticate i now (map_option logged_validator v) h) (Authenticate i now v k)"
proof -
  have v: "(case map_option logged_validator v of None \<Rightarrow> False | Some v \<Rightarrow> v u t c s \<noteq> Inr True) =
      (case v of None \<Rightarrow> False | Some v \<Rightarrow> v u t c (lg_Store s) \<noteq> Inr True)" for u t c s
    by (cases v) (simp_all add: logged_validator_def)
  show ?thesis
    using assms unfolding agrees_def Authenticate_def v by (simp add: refuse_def split: option.splits)
qed

lemma agrees_guard: "agrees (logged_guard fmt opts now g h) (guarded opts now g h)"
  by (cases g) (simp_all add: logged_guard_def guarded_def agrees_unlogged agrees_Authenticate agrees_tell_log agrees_require)

lemma agrees_mux: "agrees (logged_mux fmt opts now webhook endpoint) (mux opts now webhook endpoint)"
  by (auto simp: agrees_def logged_mux_def mux_def split: sum.splits dest: agreesD [OF agrees_guard])

lemma agrees_outer:
  "agrees h k \<Longrightarrow> agrees (SecurityHeaders h) (SecurityHeaders k)"
  "agrees h k \<Longrightarrow> agrees (CORS origins h) (CORS origins k)"
  "agrees h k \<Longrightarrow> agrees (Logger start finish h) k"
  "agrees h k \<Longrightarrow> agrees (empty_fields h) k"
  "agrees h k \<Longrightarrow> agrees (WithRequestID fresh h) (WithRequestID fresh k)"
  "agrees h k \<Longrightarrow> agrees (Recover h) (Recover k)"
  subgoal by (fastforce simp: agrees_def SecurityHeaders_def add_headers_def split: prod.splits)
  subgoal by (fastforce simp: agrees_def CORS_def Let_def add_headers_def split: prod.splits)
  subgoal by (fastforce simp: agrees_def Logger_def split: prod.splits option.splits)
  subgoal by (fastforce simp: agrees_def empty_fields_def split: prod.splits)
  subgoal by (fastforce simp: agrees_def WithRequestID_def Let_def add_headers_def split: prod.splits)
  subgoal by (fastforce simp: agrees_def Recover_def split: prod.splits option.splits)
  done

lemma logging_changes_nothing:
  "agrees (logged_router fmt finish opts now webhook fresh endpoint) (NewRouter opts now webhook fresh endpoint)"
  unfolding logged_router_def NewRouter_def by (intro agrees_outer agrees_mux)

section \<open>What the lines say\<close>

text \<open>
  Whom the fields may name after a handler: nobody, or whoever they named, or the caller whose token
  was accepted in the state before the request.
\<close>

definition accepted :: "('b, 's) options \<Rightarrow> time \<Rightarrow> request \<Rightarrow> 's \<Rightarrow> claims \<Rightarrow> bool" where
  "accepted opts now r d c \<longleftrightarrow>
     (\<exists>token. header_of r ''Authorization'' = ''Bearer '' @ token \<and> ParseAccessToken (op_Issuer opts) now token = Some c) \<and>
     (\<forall>v. op_SessionValid opts = Some v \<longrightarrow> v (cl_UserID c) (cl_IssuedAt c) (cl_Role c) d = Inr True)"

definition quiet ::
  "(uuid \<Rightarrow> string) \<Rightarrow> ('b, 's) options \<Rightarrow> time \<Rightarrow> ('b, 's logged) handler \<Rightarrow> bool" where
  "quiet fmt opts now h \<longleftrightarrow>
     (\<forall>r cx s. let s' = snd (h r cx s) in lg_Lines s' = lg_Lines s \<and>
        (lg_Fields s' = lg_Fields s \<or>
         (\<exists>c. accepted opts now r (lg_Store s) c \<and> lg_Fields s' = \<lparr>lf_userID = fmt (cl_UserID c), lf_role = cl_Role c\<rparr>)))"

lemma quiet_unlogged: "quiet fmt opts now (unlogged h)"
  by (simp add: quiet_def unlogged_def split: prod.splits)

text \<open>Below the point where the fields are written a handler leaves the log alone.\<close>

definition still :: "('b, 's logged) handler \<Rightarrow> bool" where
  "still h \<longleftrightarrow> (\<forall>r cx s. lg_Lines (snd (h r cx s)) = lg_Lines s \<and> lg_Fields (snd (h r cx s)) = lg_Fields s)"

lemma still_require:
  "still (unlogged h)" "still h' \<Longrightarrow> still (RequireMember h')" "still h' \<Longrightarrow> still (RequireLibrarian h')"
  "still h' \<Longrightarrow> still (RequireAdmin h')"
  by (simp_all add: still_def unlogged_def RequireMember_def RequireLibrarian_def RequireAdmin_def refuse_def
    split: prod.splits)

lemma quiet_authenticated:
  assumes "still h"
  shows "quiet fmt opts now (Authenticate (op_Issuer opts) now (map_option logged_validator (op_SessionValid opts)) (tell_log fmt h))"
  unfolding quiet_def Let_def
proof (intro allI)
  fix r cx s
  let ?h = "Authenticate (op_Issuer opts) now (map_option logged_validator (op_SessionValid opts)) (tell_log fmt h)"
  show "lg_Lines (snd (?h r cx s)) = lg_Lines s \<and> (lg_Fields (snd (?h r cx s)) = lg_Fields s \<or>
      (\<exists>c. accepted opts now r (lg_Store s) c \<and> lg_Fields (snd (?h r cx s)) = \<lparr>lf_userID = fmt (cl_UserID c), lf_role = cl_Role c\<rparr>))"
  proof (cases rule: Authenticate_cases [of "op_Issuer opts" now "map_option logged_validator (op_SessionValid opts)" "tell_log fmt h" r cx s])
    case (1 e)
    then show ?thesis by (simp add: refuse_def)
  next
    case (2 token c)
    then have "accepted opts now r (lg_Store s) c" by (auto simp: accepted_def logged_validator_def)
    with 2(5) assms show ?thesis by (auto simp: tell_log_def still_def)
  qed
qed

lemma quiet_guard: "quiet fmt opts now (logged_guard fmt opts now g h)"
  by (cases g) (simp_all add: logged_guard_def quiet_unlogged quiet_authenticated still_require)

lemma quiet_mux: "quiet fmt opts now (logged_mux fmt opts now webhook endpoint)"
  unfolding quiet_def Let_def
proof (intro allI)
  fix r cx s
  let ?s = "snd (logged_mux fmt opts now webhook endpoint r cx s)"
  show "lg_Lines ?s = lg_Lines s \<and> (lg_Fields ?s = lg_Fields s \<or>
      (\<exists>c. accepted opts now r (lg_Store s) c \<and> lg_Fields ?s = \<lparr>lf_userID = fmt (cl_UserID c), lf_role = cl_Role c\<rparr>))"
  proof (cases "select_route (routes webhook) r")
    case (Inr x)
    have "accepted opts now (r\<lparr>rq_PathValue := v\<rparr>) d c = accepted opts now r d c" for v d c
      by (simp add: accepted_def)
    with quiet_guard [of fmt opts now "rt_Guard x" "endpoint (rt_Endpoint x)", unfolded quiet_def Let_def,
        rule_format, of "r\<lparr>rq_PathValue := path_value x r\<rparr>" cx s]
    show ?thesis by (simp add: logged_mux_def Inr)
  qed (simp add: logged_mux_def)
qed

lemma snd_add_headers [simp]: "snd (add_headers hs z) = snd z"
  by (simp add: add_headers_def split: prod.splits)

lemma quiet_outer:
  "quiet fmt opts now h \<Longrightarrow> quiet fmt opts now (SecurityHeaders h)"
  "quiet fmt opts now h \<Longrightarrow> quiet fmt opts now (CORS origins h)"
  by (simp_all add: quiet_def SecurityHeaders_def CORS_def Let_def)

text \<open>
  Every request that is answered leaves one line, with its method, path and status, the id its reply
  carries, the level of an error from 500 upwards, and as its actor nobody or the owner of a token that was
  accepted. The one exception is a panic, which passes the log by.
\<close>

theorem access_log_is_complete:
  assumes run: "logged_router fmt finish opts now webhook fresh endpoint r cx s = (out, s')"
  shows "(\<exists>rp line. out = Some rp \<and> lg_Lines s' = lg_Lines s @ [line] \<and> al_method line = rq_Method r \<and>
      al_path line = rq_Path r \<and> al_status line = rp_Status rp \<and>
      hd (rp_Header rp) = (''X-Request-ID'', al_request_id line) \<and>
      (al_level line = LevelError \<longleftrightarrow> 500 \<le> rp_Status rp) \<and>
      (\<forall>who role. al_actor line = Some (who, role) \<longrightarrow>
         (\<exists>c. accepted opts now r (lg_Store s) c \<and> who = fmt (cl_UserID c) \<and> role = cl_Role c))) \<or>
    (out = Some internal_error \<and> lg_Lines s' = lg_Lines s)"
proof -
  let ?in = "CORS (op_CORSOrigins opts) (SecurityHeaders (logged_mux fmt opts now webhook endpoint))"
  let ?i = "if header_of r ''X-Request-Id'' = [] then fresh else header_of r ''X-Request-Id''"
  obtain rp t where t: "?in r (cx\<lparr>cx_RequestID := ?i\<rparr>) (s\<lparr>lg_Fields := no_fields\<rparr>) = (rp, t)" by fastforce
  have "quiet fmt opts now ?in" by (intro quiet_outer quiet_mux)
  from this [unfolded quiet_def Let_def, rule_format, of r "cx\<lparr>cx_RequestID := ?i\<rparr>" "s\<lparr>lg_Fields := no_fields\<rparr>", unfolded t]
  have lines: "lg_Lines t = lg_Lines s" and fields: "lg_Fields t = no_fields \<or>
      (\<exists>c. accepted opts now r (lg_Store s) c \<and> lg_Fields t = \<lparr>lf_userID = fmt (cl_UserID c), lf_role = cl_Role c\<rparr>)"
    by simp_all
  note chain = logged_router_def Recover_def WithRequestID_def Let_def empty_fields_def Logger_def add_headers_def
  show ?thesis
  proof (cases rp)
    case None
    with run lines have "out = Some internal_error" "lg_Lines s' = lg_Lines s" by (auto simp: chain t)
    then show ?thesis by simp
  next
    case (Some y)
    with run have "out = Some (y\<lparr>rp_Header := [(''X-Request-ID'', ?i)] @ rp_Header y\<rparr>)"
      and "lg_Lines s' = lg_Lines s @ [access_line_of now finish r (cx\<lparr>cx_RequestID := ?i\<rparr>) (rp_Status y) (lg_Fields t)]"
      using lines by (auto simp: chain t)
    then show ?thesis using fields
      by (intro disjI1 exI conjI) (auto simp: access_line_of_def line_actor_def no_fields_def split: if_splits)
  qed
qed

text \<open>
  The exception is real: a handler that panics is answered with the internal error by Recover, which stands
  outside, and neither its 500 nor its request id reaches the access log.
\<close>

lemma panics_are_not_logged:
  assumes "fst (CORS (op_CORSOrigins opts) (SecurityHeaders (logged_mux fmt opts now webhook endpoint)) r
      (cx\<lparr>cx_RequestID := if header_of r ''X-Request-Id'' = [] then fresh else header_of r ''X-Request-Id''\<rparr>)
      (s\<lparr>lg_Fields := no_fields\<rparr>)) = None"
    and "logged_router fmt finish opts now webhook fresh endpoint r cx s = (out, s')"
  shows "lg_Lines s' = lg_Lines s" "out = Some internal_error"
proof -
  have out: "out = Some internal_error"
    using assms by (auto simp: logged_router_def Recover_def WithRequestID_def Let_def empty_fields_def Logger_def
      add_headers_def split: prod.splits option.splits)
  have "hd (rp_Header internal_error) \<noteq> (''X-Request-ID'', i)" for i
    by (simp add: internal_error_def Error_def bare_def json_header_def)
  with access_log_is_complete [OF assms(2)] out
  show "lg_Lines s' = lg_Lines s" by auto
  show "out = Some internal_error" by (rule out)
qed

end
